(* ===== verification/Prelude.thy ===== *)
theory Prelude
  imports Complex_Main
begin

text \<open>
  What every other theory of the development shares: Python strings as lists of code points,
  the exceptions of the source as a datatype and fallible code as a sum, tables of rows with
  the four SQL statements the ledger uses, and two interfaces as locales: a keyed table and a
  state machine with an invariant.
\<close>

section \<open>Collections of rules\<close>

named_theorems py_simps \<open>rewrite rules of the Python primitives\<close>
named_theorems table_simps \<open>rewrite rules of the table statements\<close>

section \<open>Python strings\<close>

text \<open>
  A Python string is a sequence of Unicode code points, lone surrogates included, so that
  \<open>len\<close> counts code points and the UTF-8 encoders below count bytes.
\<close>

type_synonym pystr = "nat list"

definition lit :: "string \<Rightarrow> pystr" where
  "lit s = map of_char s"

lemma inj_of_char_nat: "inj (of_char :: char \<Rightarrow> nat)"
  by (rule injI) (simp add: of_char_eq_iff)

lemma lit_eq_iff [simp]: "lit s = lit t \<longleftrightarrow> s = t"
  unfolding lit_def by (simp add: inj_map_eq_map inj_of_char_nat)

lemma length_lit [simp]: "length (lit s) = length s"
  by (simp add: lit_def)

lemma lit_Nil_iff [simp]: "lit s = [] \<longleftrightarrow> s = []" "[] = lit s \<longleftrightarrow> s = []"
  by (auto simp: lit_def)

lemma lit_append: "lit s @ lit t = lit (s @ t)"
  by (simp add: lit_def)

text \<open>\<open>str.isspace\<close> of one character: the code points Python classes as white space.\<close>

definition py_isspace :: "nat \<Rightarrow> bool" where
  "py_isspace c \<longleftrightarrow>
     c \<in> {9, 10, 11, 12, 13, 28, 29, 30, 31, 32, 133, 160, 5760, 8232, 8233, 8239, 8287, 12288}
     \<or> (8192 \<le> c \<and> c \<le> 8202)"

definition py_strip :: "pystr \<Rightarrow> pystr" where
  "py_strip s = rev (dropWhile py_isspace (rev (dropWhile py_isspace s)))"

definition is_surrogate :: "nat \<Rightarrow> bool" where
  "is_surrogate c \<longleftrightarrow> 55296 \<le> c \<and> c \<le> 57343"

text \<open>UTF-8: the strict encoder refuses a surrogate, \<open>surrogatepass\<close> encodes it as three
  bytes and \<open>replace\<close> writes a question mark.\<close>

definition utf8_char :: "nat \<Rightarrow> nat list" where
  "utf8_char c =
     (if c < 128 then [c]
      else if c < 2048 then [192 + c div 64, 128 + c mod 64]
      else if c < 65536 then [224 + c div 4096, 128 + (c div 64) mod 64, 128 + c mod 64]
      else [240 + c div 262144, 128 + (c div 4096) mod 64, 128 + (c div 64) mod 64, 128 + c mod 64])"

definition utf8_surrogatepass :: "pystr \<Rightarrow> nat list" where
  "utf8_surrogatepass s = concat (map utf8_char s)"

definition utf8_replace :: "pystr \<Rightarrow> nat list" where
  "utf8_replace s = concat (map (\<lambda>c. if is_surrogate c then [63] else utf8_char c) s)"

lemma py_strip_blank: "py_strip s = [] \<longleftrightarrow> (\<forall>c\<in>set s. py_isspace c)"
proof
  assume "py_strip s = []"
  then have "dropWhile py_isspace (rev (dropWhile py_isspace s)) = []"
    by (simp add: py_strip_def)
  then have all: "\<forall>c\<in>set (dropWhile py_isspace s). py_isspace c"
    by (simp add: dropWhile_eq_Nil_conv)
  have "dropWhile py_isspace s = []"
  proof (rule ccontr)
    assume ne: "dropWhile py_isspace s \<noteq> []"
    with hd_dropWhile have "\<not> py_isspace (hd (dropWhile py_isspace s))" by blast
    with all ne show False by simp
  qed
  then show "\<forall>c\<in>set s. py_isspace c" by (simp add: dropWhile_eq_Nil_conv)
next
  assume "\<forall>c\<in>set s. py_isspace c"
  then have "dropWhile py_isspace s = []" by (simp add: dropWhile_eq_Nil_conv)
  then show "py_strip s = []" by (simp only: py_strip_def rev.simps dropWhile.simps)
qed

lemma utf8_char_not_Nil [simp]: "utf8_char c \<noteq> []"
  by (simp add: utf8_char_def)

section \<open>Exceptions and fallible code\<close>

text \<open>The exceptions the modelled code raises, with their messages.\<close>

datatype py_error =
    ValueError pystr
  | PayloadError pystr
  | KeyError pystr
  | TypeError pystr
  | AttributeError pystr
  | OverflowError pystr
  | RuntimeError pystr
  | RecordNotFound pystr
  | StaleWriter pystr
  | HarnessRefreshBlocked pystr
  | CorruptSchemaError pystr
  | IllegalTransition pystr
  | LedgerError pystr
  | InvalidTransition pystr
  | DispatchConflict pystr
  | WorkspaceLeaseConflict pystr
  | NativeCompatibilityConflict pystr
  | NativePermissionConflict pystr
  | IntegrityError pystr

type_synonym 'a res = "py_error + 'a"

definition bind_res :: "'a res \<Rightarrow> ('a \<Rightarrow> 'b res) \<Rightarrow> 'b res" where
  "bind_res m f = (case m of Inl e \<Rightarrow> Inl e | Inr x \<Rightarrow> f x)"

lemma bind_res_simps [simp]:
  "bind_res (Inl e) f = Inl e"
  "bind_res (Inr x) f = f x"
  by (simp_all add: bind_res_def)

lemma bind_res_Inr_iff: "bind_res m f = Inr y \<longleftrightarrow> (\<exists>x. m = Inr x \<and> f x = Inr y)"
  by (cases m) auto

lemma bind_res_Inl_iff:
  "bind_res m f = Inl e \<longleftrightarrow> m = Inl e \<or> (\<exists>x. m = Inr x \<and> f x = Inl e)"
  by (cases m) auto

lemma bind_res_cong [fundef_cong]:
  "m = m' \<Longrightarrow> (\<And>x. m' = Inr x \<Longrightarrow> f x = g x) \<Longrightarrow> bind_res m f = bind_res m' g"
  by (cases m') auto

text \<open>\<open>require c e\<close> is the statement \<open>if not c: raise e\<close>.\<close>

definition require :: "bool \<Rightarrow> py_error \<Rightarrow> unit res" where
  "require c e = (if c then Inr () else Inl e)"

lemma require_simps [simp]:
  "require True e = Inr ()"
  "require False e = Inl e"
  "require c e = Inr u \<longleftrightarrow> c"
  "require c e = Inl e' \<longleftrightarrow> \<not> c \<and> e' = e"
  by (auto simp: require_def)

text \<open>A \<open>for\<close> loop over a list whose body may raise.\<close>

fun each_res :: "('a \<Rightarrow> unit res) \<Rightarrow> 'a list \<Rightarrow> unit res" where
  "each_res f [] = Inr ()"
| "each_res f (x # xs) = bind_res (f x) (\<lambda>_. each_res f xs)"

lemma each_res_cong [fundef_cong]:
  "xs = ys \<Longrightarrow> (\<And>x. x \<in> set ys \<Longrightarrow> f x = g x) \<Longrightarrow> each_res f xs = each_res g ys"
  by (induction xs arbitrary: ys) auto

lemma each_res_Inr: "each_res f xs = Inr u \<longleftrightarrow> (\<forall>x\<in>set xs. f x = Inr ())"
  by (induction xs) (auto simp: bind_res_Inr_iff)

text \<open>A \<open>for\<close> loop that threads a state.\<close>

fun each_state :: "('a \<Rightarrow> 's \<Rightarrow> 's res) \<Rightarrow> 'a list \<Rightarrow> 's \<Rightarrow> 's res" where
  "each_state f [] s = Inr s"
| "each_state f (x # xs) s = bind_res (f x s) (each_state f xs)"

lemma each_state_mono:
  assumes "each_state f xs s = Inr s'" and "\<And>x s s'. x \<in> set xs \<Longrightarrow> f x s = Inr s' \<Longrightarrow> R s s'"
    and "\<And>s. R s s" and "\<And>s t u. R s t \<Longrightarrow> R t u \<Longrightarrow> R s u"
  shows "R s s'"
  using assms(1,2)
proof (induction xs arbitrary: s)
  case Nil
  then show ?case by (simp add: assms(3))
next
  case (Cons x xs)
  then obtain t where t: "f x s = Inr t" "each_state f xs t = Inr s'" by (auto simp: bind_res_Inr_iff)
  from Cons.prems(2) [of x s t] t(1) have "R s t" by simp
  moreover have "R t s'" by (rule Cons.IH [OF t(2)], rule Cons.prems(2)) simp_all
  ultimately show ?case by (rule assms(4))
qed

lemma each_state_each:
  assumes "each_state f xs s = Inr s'" "x \<in> set xs"
  shows "\<exists>t t'. f x t = Inr t'"
  using assms by (induction xs arbitrary: s) (auto simp: bind_res_Inr_iff)

definition is_ok :: "'a res \<Rightarrow> bool" where
  "is_ok r = (case r of Inl _ \<Rightarrow> False | Inr _ \<Rightarrow> True)"

lemma is_ok_simps [simp]: "\<not> is_ok (Inl e)" "is_ok (Inr x)"
  by (simp_all add: is_ok_def)

text \<open>\<open>str.encode("utf-8")\<close>: \<open>UnicodeEncodeError\<close> is a \<open>ValueError\<close>.\<close>

definition utf8_strict :: "pystr \<Rightarrow> nat list res" where
  "utf8_strict s =
     (if \<exists>c\<in>set s. is_surrogate c then Inl (ValueError (lit ''surrogates not allowed''))
      else Inr (utf8_surrogatepass s))"

definition utf8_len :: "pystr \<Rightarrow> nat res" where
  "utf8_len s = (case utf8_strict s of Inl e \<Rightarrow> Inl e | Inr b \<Rightarrow> Inr (length b))"

lemma length_utf8_char_bounds: "1 \<le> length (utf8_char c)" "length (utf8_char c) \<le> 4"
  by (simp_all add: utf8_char_def)

lemma length_utf8_surrogatepass: "length s \<le> length (utf8_surrogatepass s)"
  by (induction s)
    (auto simp: utf8_surrogatepass_def intro: order.trans [OF _ add_mono [OF length_utf8_char_bounds(1)]])

section \<open>Rows and tables\<close>

text \<open>
  A table is the list of its rows. \<open>select_one\<close> is \<open>SELECT ... LIMIT 1\<close> on a primary key,
  \<open>update_where\<close> is \<open>UPDATE ... SET ... WHERE\<close>, \<open>delete_where\<close> is \<open>DELETE ... WHERE\<close>; an
  insert appends the row.
\<close>

definition select_one :: "('r \<Rightarrow> bool) \<Rightarrow> 'r list \<Rightarrow> 'r option" where
  "select_one P rows = find P rows"

definition select_all :: "('r \<Rightarrow> bool) \<Rightarrow> 'r list \<Rightarrow> 'r list" where
  "select_all P rows = filter P rows"

definition update_where :: "('r \<Rightarrow> bool) \<Rightarrow> ('r \<Rightarrow> 'r) \<Rightarrow> 'r list \<Rightarrow> 'r list" where
  "update_where P f rows = map (\<lambda>r. if P r then f r else r) rows"

definition delete_where :: "('r \<Rightarrow> bool) \<Rightarrow> 'r list \<Rightarrow> 'r list" where
  "delete_where P rows = filter (\<lambda>r. \<not> P r) rows"

lemma set_update_where [table_simps]:
  "set (update_where P f rows) = f ` {r \<in> set rows. P r} \<union> {r \<in> set rows. \<not> P r}"
  by (auto simp: update_where_def)

lemma set_delete_where [table_simps]: "set (delete_where P rows) = {r \<in> set rows. \<not> P r}"
  by (auto simp: delete_where_def)

lemma set_select_all [table_simps]: "set (select_all P rows) = {r \<in> set rows. P r}"
  by (auto simp: select_all_def)

lemma length_update_where [simp]: "length (update_where P f rows) = length rows"
  by (simp add: update_where_def)

lemma select_one_Some: "select_one P rows = Some r \<Longrightarrow> r \<in> set rows \<and> P r"
  by (auto simp: select_one_def find_Some_iff)

lemma select_one_None: "select_one P rows = None \<longleftrightarrow> (\<forall>r\<in>set rows. \<not> P r)"
  by (auto simp: select_one_def find_None_iff)

lemma map_update_where: "(\<And>r. P r \<Longrightarrow> g (f r) = g r) \<Longrightarrow> map g (update_where P f rows) = map g rows"
  by (simp add: update_where_def)

lemma ball_update_where:
  "(\<forall>r\<in>set (update_where P f rows). Q r) \<longleftrightarrow>
   (\<forall>r\<in>set rows. (P r \<longrightarrow> Q (f r)) \<and> (\<not> P r \<longrightarrow> Q r))"
  by (auto simp: update_where_def)

lemma distinct_map_filter_key: "distinct (map k rows) \<Longrightarrow> distinct (map k (delete_where P rows))"
  by (simp add: delete_where_def distinct_map_filter)

text \<open>A lookup by primary key, and what it returns after each statement.\<close>

definition lookup_by :: "('r \<Rightarrow> 'k) \<Rightarrow> 'k \<Rightarrow> 'r list \<Rightarrow> 'r option" where
  "lookup_by key k rows = select_one (\<lambda>r. key r = k) rows"

lemma lookup_by_in: "lookup_by key k rows = Some r \<Longrightarrow> r \<in> set rows \<and> key r = k"
  unfolding lookup_by_def by (rule select_one_Some)

lemma lookup_by_unique:
  "distinct (map key rows) \<Longrightarrow> r \<in> set rows \<Longrightarrow> lookup_by key (key r) rows = Some r"
  unfolding lookup_by_def select_one_def
  by (induction rows) (auto simp: rev_image_eqI)

lemma lookup_by_None: "lookup_by key k rows = None \<longleftrightarrow> k \<notin> key ` set rows"
  unfolding lookup_by_def by (auto simp: select_one_None)

lemma same_key_same_row:
  "distinct (map key rows) \<Longrightarrow> r \<in> set rows \<Longrightarrow> r' \<in> set rows \<Longrightarrow> key r = key r' \<Longrightarrow> r = r'"
  by (metis lookup_by_unique option.inject)

lemma lookup_by_update [table_simps]:
  assumes "\<And>r. key (f r) = key r"
  shows "lookup_by key k (update_where (\<lambda>r. key r = k') f rows) =
    (if k = k' then map_option f (lookup_by key k rows) else lookup_by key k rows)"
  using assms unfolding lookup_by_def select_one_def update_where_def
  by (induction rows) auto

lemma lookup_by_delete [table_simps]:
  "lookup_by key k (delete_where (\<lambda>r. key r = k') rows) =
    (if k = k' then None else lookup_by key k rows)"
  unfolding lookup_by_def select_one_def delete_where_def
  by (induction rows) auto

lemma lookup_by_append [table_simps]:
  "lookup_by key k (rows @ [r]) =
     (case lookup_by key k rows of None \<Rightarrow> (if key r = k then Some r else None) | Some x \<Rightarrow> Some x)"
  unfolding lookup_by_def select_one_def by (induction rows) auto

section \<open>State machines with an invariant\<close>

text \<open>
  Several components are a deterministic step on a state, run over a list of events. The
  interface asks that one step keeps an invariant and a preorder on states (what may only grow),
  and gives both for every run.
\<close>

locale guarded_machine =
  fixes step :: "'s \<Rightarrow> 'e \<Rightarrow> 's"
    and inv :: "'s \<Rightarrow> bool"
    and le :: "'s \<Rightarrow> 's \<Rightarrow> bool"
  assumes step_inv: "inv s \<Longrightarrow> inv (step s e)"
    and step_le: "inv s \<Longrightarrow> le s (step s e)"
    and le_refl: "le s s"
    and le_trans: "le s t \<Longrightarrow> le t u \<Longrightarrow> le s u"
begin

lemma run_inv: "inv s \<Longrightarrow> inv (fold (\<lambda>e s. step s e) es s)"
  by (induction es arbitrary: s) (auto intro: step_inv)

lemma run_le: "inv s \<Longrightarrow> le s (fold (\<lambda>e s. step s e) es s)"
proof (induction es arbitrary: s)
  case Nil
  show ?case by (simp add: le_refl)
next
  case (Cons e es)
  from Cons.prems have "le s (step s e)" and "inv (step s e)"
    by (auto intro: step_le step_inv)
  with Cons.IH show ?case by (auto intro: le_trans)
qed

end

end
