(* ===== verification/Py_Json.thy ===== *)
theory Py_Json
  imports Prelude "HOL-Library.Log_Nat" "HOL-Library.List_Lexorder"
begin

text \<open>
  Python numbers and the JSON values that cross the program's boundaries
  (\<open>JsonScalar\<close>, \<open>JsonValue\<close>, \<open>JsonObject\<close> of src/src/codex_flow/domain.py), with what the
  source uses of the standard library on them: conversion to a double, true division, \<open>round\<close>,
  \<open>math.isclose\<close>, dictionaries in insertion order and \<open>json.dumps\<close>.
\<close>

section \<open>Doubles\<close>

text \<open>
  A float is a finite rational, an infinity or NaN; the sign of zero is not kept, since no
  modelled code can observe it.  \<open>fl\<close> rounds a rational to the nearest double, ties to even:
  \<open>u\<close> is the exponent of the unit in the last place, at least \<open>-1074\<close> (subnormals), and a result
  of \<open>2 ^ 1024\<close> or more is an infinity.
\<close>

datatype pyfloat = Finite rat | PosInf | NegInf | NaN

definition round_half_even :: "rat \<Rightarrow> int" where
  "round_half_even x =
     (let (p, q) = quotient_of x; d = p div q; r = p mod q
      in if 2 * r < q then d else if q < 2 * r then d + 1 else if even d then d else d + 1)"

definition scale2 :: "int \<Rightarrow> rat \<Rightarrow> rat" where
  "scale2 e x = (if 0 \<le> e then x * 2 ^ nat e else x / 2 ^ nat (- e))"

definition fl_pos :: "rat \<Rightarrow> rat" where
  "fl_pos x =
     (let (p, q) = quotient_of x;
          e0 = bitlen p - bitlen q;
          k = (if scale2 e0 1 \<le> x then e0 else e0 - 1);
          u = max (k - 52) (- 1074)
      in scale2 u (of_int (round_half_even (scale2 (- u) x))))"

definition fl :: "rat \<Rightarrow> pyfloat" where
  "fl x =
     (if x = 0 then Finite 0
      else let y = fl_pos \<bar>x\<bar>
           in if 2 ^ 1024 \<le> y then (if 0 < x then PosInf else NegInf)
              else Finite (if 0 < x then y else - y))"

text \<open>\<open>float(n)\<close> of an integer, and of a number that is already a float.\<close>

definition float_of_int :: "int \<Rightarrow> pyfloat res" where
  "float_of_int n =
     (case fl (of_int n) of
        Finite r \<Rightarrow> Inr (Finite r)
      | _ \<Rightarrow> Inl (OverflowError (lit ''int too large to convert to float'')))"

section \<open>JSON values\<close>

text \<open>
  One constructor per JSON type.  An array is whichever of \<open>list\<close>, \<open>tuple\<close> or \<open>_FrozenList\<close>
  carries it: every check of the modelled code accepts them alike.  An object is a dictionary
  with string keys, in insertion order, and its keys are distinct.
\<close>

datatype json =
    JNull
  | JBool bool
  | JInt int
  | JFloat pyfloat
  | JStr pystr
  | JArr "json list"
  | JObj "(pystr \<times> json) list"

type_synonym dict = "(pystr \<times> json) list"

definition keys :: "('k \<times> 'v) list \<Rightarrow> 'k list" where
  "keys d = map fst d"

definition has_key :: "(pystr \<times> 'v) list \<Rightarrow> string \<Rightarrow> bool" where
  "has_key d k \<longleftrightarrow> lit k \<in> set (keys d)"

definition get :: "(pystr \<times> 'v) list \<Rightarrow> string \<Rightarrow> 'v option" where
  "get d k = map_of d (lit k)"

text \<open>\<open>d[k] = v\<close> keeps the position of a key that is there and appends a new one; \<open>del d[k]\<close>.\<close>

fun dict_put :: "'k \<Rightarrow> 'v \<Rightarrow> ('k \<times> 'v) list \<Rightarrow> ('k \<times> 'v) list" where
  "dict_put k v [] = [(k, v)]"
| "dict_put k v ((k', v') # d) = (if k' = k then (k, v) # d else (k', v') # dict_put k v d)"

definition dict_del :: "'k \<Rightarrow> ('k \<times> 'v) list \<Rightarrow> ('k \<times> 'v) list" where
  "dict_del k d = filter (\<lambda>(k', v). k' \<noteq> k) d"

fun wf_json :: "json \<Rightarrow> bool" and wf_items :: "(pystr \<times> json) list \<Rightarrow> bool" where
  "wf_json (JArr xs) = (\<forall>x\<in>set xs. wf_json x)"
| "wf_json (JObj d) = (distinct (keys d) \<and> wf_items d)"
| "wf_json _ = True"
| "wf_items [] = True"
| "wf_items ((k, v) # d) = (wf_json v \<and> wf_items d)"

lemma wf_items_iff: "wf_items d \<longleftrightarrow> (\<forall>(k, v)\<in>set d. wf_json v)"
  by (induction d) auto

lemma keys_simps [simp]: "keys [] = []" "keys ((k, v) # d) = k # keys d" "keys (d @ e) = keys d @ keys e"
  by (simp_all add: keys_def)

lemma map_of_dict_put: "map_of (dict_put k v d) k' = (if k' = k then Some v else map_of d k')"
  by (induction d) auto

lemma set_keys_dict_put: "set (keys (dict_put k v d)) = insert k (set (keys d))"
  by (induction d) (auto split: if_splits)

lemma distinct_keys_dict_put: "distinct (keys d) \<Longrightarrow> distinct (keys (dict_put k v d))"
  by (induction d) (auto simp: set_keys_dict_put split: if_splits)

lemma dict_del_simps [simp]:
  "dict_del k [] = []"
  "dict_del k ((k', v) # d) = (if k' = k then dict_del k d else (k', v) # dict_del k d)"
  by (simp_all add: dict_del_def)

lemma map_of_dict_del: "map_of (dict_del k d) k' = (if k' = k then None else map_of d k')"
  by (induction d) auto

lemma set_keys_dict_del: "set (keys (dict_del k d)) = set (keys d) - {k}"
proof (induction d)
  case Nil
  show ?case by simp
next
  case (Cons kv d)
  obtain k' v where "kv = (k', v)" by (cases kv)
  with Cons show ?case by (cases "k' = k") (simp_all add: insert_Diff_if)
qed

lemma distinct_keys_dict_del: "distinct (keys d) \<Longrightarrow> distinct (keys (dict_del k d))"
  unfolding keys_def dict_del_def by (rule distinct_map_filter)

lemma get_None_iff: "get d k = None \<longleftrightarrow> \<not> has_key d k"
  by (auto simp: get_def has_key_def keys_def map_of_eq_None_iff)

lemma get_Some_has_key: "get d k = Some v \<Longrightarrow> has_key d k"
  by (metis get_None_iff option.distinct(1))

lemma has_key_obtains: "has_key d k \<Longrightarrow> \<exists>v. get d k = Some v"
  by (metis get_None_iff not_None_eq)

lemma get_dict_put [py_simps]: "get (dict_put (lit k) v d) k' = (if k = k' then Some v else get d k')"
  by (auto simp: get_def map_of_dict_put)

lemma get_dict_del [py_simps]: "get (dict_del (lit k) d) k' = (if k = k' then None else get d k')"
  by (auto simp: get_def map_of_dict_del)

lemma has_key_iff_get: "has_key d k \<longleftrightarrow> get d k \<noteq> None"
  by (simp add: get_None_iff)

section \<open>Numbers\<close>

text \<open>The value of a finite JSON number; a boolean is no number here.\<close>

fun num_val :: "json \<Rightarrow> rat option" where
  "num_val (JInt n) = Some (of_int n)"
| "num_val (JFloat (Finite r)) = Some r"
| "num_val _ = None"

text \<open>\<open>float(x)\<close> of a finite JSON number.\<close>

fun py_float :: "json \<Rightarrow> rat res" where
  "py_float (JInt n) = (case float_of_int n of Inr (Finite r) \<Rightarrow> Inr r | Inr _ \<Rightarrow> Inl (TypeError []) | Inl e \<Rightarrow> Inl e)"
| "py_float (JFloat (Finite r)) = Inr r"
| "py_float _ = Inl (TypeError (lit ''float() argument''))"

text \<open>
  \<open>a / b\<close>: two integers divide with one rounding and overflow as an exception; otherwise both
  are floats first and an overflow is an infinity.
\<close>

definition true_div :: "json \<Rightarrow> json \<Rightarrow> pyfloat res" where
  "true_div a b =
     (case (a, b) of
        (JInt m, JInt n) \<Rightarrow>
          (case fl (of_int m / of_int n) of
             Finite r \<Rightarrow> Inr (Finite r)
           | _ \<Rightarrow> Inl (OverflowError (lit ''integer division result too large for a float'')))
      | _ \<Rightarrow> bind_res (py_float a) (\<lambda>x. bind_res (py_float b) (\<lambda>y. Inr (fl (x / y)))))"

definition fl_val :: "rat \<Rightarrow> rat" where
  "fl_val x = (case fl x of Finite r \<Rightarrow> r | _ \<Rightarrow> x)"

text \<open>\<open>math.isclose(x, round(x), rel_tol=1e-12, abs_tol=1e-12)\<close> of a finite double \<open>x\<close>.\<close>

definition isclose_round :: "rat \<Rightarrow> bool" where
  "isclose_round x =
     (let y = of_int (round_half_even x); tol = fl_val (1 / 10 ^ 12); diff = \<bar>fl_val (y - x)\<bar>
      in x = y \<or> diff \<le> \<bar>fl_val (tol * y)\<bar> \<or> diff \<le> \<bar>fl_val (tol * x)\<bar> \<or> diff \<le> tol)"

text \<open>\<open>round\<close> of an infinity raises.\<close>

definition is_multiple :: "json \<Rightarrow> json \<Rightarrow> bool res" where
  "is_multiple a b =
     bind_res (true_div a b) (\<lambda>q. case q of
        Finite r \<Rightarrow> Inr (isclose_round r)
      | _ \<Rightarrow> Inl (OverflowError (lit ''cannot convert float infinity to integer'')))"

section \<open>json.dumps\<close>

fun nat_digits :: "nat \<Rightarrow> pystr" where
  "nat_digits n = (if n < 10 then [48 + n] else nat_digits (n div 10) @ [48 + n mod 10])"

declare nat_digits.simps [simp del]

definition int_str :: "int \<Rightarrow> pystr" where
  "int_str n = (if n < 0 then lit ''-'' @ nat_digits (nat (- n)) else nat_digits (nat n))"

text \<open>The interpreter refuses to print an integer of more than 4300 digits.\<close>

definition int_repr_limit :: int where
  "int_repr_limit = 10 ^ 4300"

definition py_int_repr :: "int \<Rightarrow> pystr res" where
  "py_int_repr n =
     (if \<bar>n\<bar> < int_repr_limit then Inr (int_str n)
      else Inl (ValueError (lit ''Exceeds the limit (4300 digits) for integer string conversion'')))"

definition hex_digit :: "nat \<Rightarrow> nat" where
  "hex_digit n = (if n < 10 then 48 + n else 87 + n)"

definition u_escape :: "nat \<Rightarrow> pystr" where
  "u_escape c = lit [CHR 0x5C, CHR ''u''] @
     [hex_digit (c div 4096 mod 16), hex_digit (c div 256 mod 16), hex_digit (c div 16 mod 16), hex_digit (c mod 16)]"

definition escape_char :: "bool \<Rightarrow> nat \<Rightarrow> pystr" where
  "escape_char ascii c =
     (if c = 34 then [92, 34] else if c = 92 then [92, 92]
      else if c = 10 then [92, 110] else if c = 13 then [92, 114] else if c = 9 then [92, 116]
      else if c = 12 then [92, 102] else if c = 8 then [92, 98]
      else if c < 32 then u_escape c
      else if ascii \<and> 127 \<le> c then
        (if c < 65536 then u_escape c
         else u_escape (55296 + (c - 65536) div 1024 mod 1024) @ u_escape (56320 + (c - 65536) mod 1024))
      else [c])"

definition dump_str :: "bool \<Rightarrow> pystr \<Rightarrow> pystr" where
  "dump_str ascii s = [34] @ concat (map (escape_char ascii) s) @ [34]"

fun sep_by :: "pystr \<Rightarrow> pystr list \<Rightarrow> pystr" where
  "sep_by s [] = []"
| "sep_by s [x] = x"
| "sep_by s (x # xs) = x @ s @ sep_by s xs"

text \<open>
  \<open>json.dumps(value, sort_keys=True, separators=(",", ":"), allow_nan=False)\<close>, with
  \<open>ensure_ascii\<close> as a flag; \<open>frepr\<close> is the shortest decimal that reads back as the double,
  \<open>float.__repr__\<close>.
\<close>

fun dumps :: "(rat \<Rightarrow> pystr) \<Rightarrow> bool \<Rightarrow> json \<Rightarrow> pystr res"
and dumps_items :: "(rat \<Rightarrow> pystr) \<Rightarrow> bool \<Rightarrow> json list \<Rightarrow> pystr list res"
and dumps_entries :: "(rat \<Rightarrow> pystr) \<Rightarrow> bool \<Rightarrow> (pystr \<times> json) list \<Rightarrow> (pystr \<times> pystr) list res" where
  "dumps fr asc JNull = Inr (lit ''null'')"
| "dumps fr asc (JBool b) = Inr (if b then lit ''true'' else lit ''false'')"
| "dumps fr asc (JInt n) = py_int_repr n"
| "dumps fr asc (JFloat (Finite r)) = Inr (fr r)"
| "dumps fr asc (JFloat _) = Inl (ValueError (lit ''Out of range float values are not JSON compliant''))"
| "dumps fr asc (JStr s) = Inr (dump_str asc s)"
| "dumps fr asc (JArr xs) =
     bind_res (dumps_items fr asc xs) (\<lambda>ys. Inr (lit ''['' @ sep_by (lit '','') ys @ lit '']''))"
| "dumps fr asc (JObj d) =
     bind_res (dumps_entries fr asc d) (\<lambda>es.
       Inr ([123] @ sep_by (lit '','') (map (\<lambda>(k, v). dump_str asc k @ lit '':'' @ v) (sort_key fst es)) @ [125]))"
| "dumps_items fr asc [] = Inr []"
| "dumps_items fr asc (x # xs) =
     bind_res (dumps fr asc x) (\<lambda>y. bind_res (dumps_items fr asc xs) (\<lambda>ys. Inr (y # ys)))"
| "dumps_entries fr asc [] = Inr []"
| "dumps_entries fr asc ((k, v) # d) =
     bind_res (dumps fr asc v) (\<lambda>y. bind_res (dumps_entries fr asc d) (\<lambda>es. Inr ((k, y) # es)))"

text \<open>With \<open>ensure_ascii\<close> the text is ASCII, so encoding it to UTF-8 cannot fail.\<close>

definition is_ascii :: "pystr \<Rightarrow> bool" where
  "is_ascii s \<longleftrightarrow> (\<forall>c\<in>set s. c < 128)"

lemma is_ascii_simps [simp]:
  "is_ascii []" "is_ascii (c # s) \<longleftrightarrow> c < 128 \<and> is_ascii s" "is_ascii (s @ t) \<longleftrightarrow> is_ascii s \<and> is_ascii t"
  by (auto simp: is_ascii_def)

lemma is_ascii_lits [simp]:
  "is_ascii (lit ''null'')" "is_ascii (lit ''true'')" "is_ascii (lit ''false'')" "is_ascii (lit ''-'')"
  "is_ascii (lit ''['')" "is_ascii (lit '']'')" "is_ascii (lit '','')" "is_ascii (lit '':'')"
  by (simp_all add: lit_def)

lemma is_ascii_concat [simp]: "is_ascii (concat xs) \<longleftrightarrow> (\<forall>x\<in>set xs. is_ascii x)"
  by (induction xs) auto

lemma is_ascii_nat_digits [simp]: "is_ascii (nat_digits n)"
proof (induction n rule: nat_digits.induct)
  case (1 n)
  then show ?case by (subst nat_digits.simps) auto
qed

lemma hex_digit_ascii [simp]: "hex_digit (n mod 16) < 128"
proof -
  have "n mod 16 < 16" by simp
  then have "n mod 16 < 41" by linarith
  then show ?thesis by (simp add: hex_digit_def)
qed

lemma is_ascii_u_escape [simp]: "is_ascii (u_escape n)"
  by (simp add: u_escape_def lit_def)

lemma is_ascii_escape_char [simp]: "is_ascii (escape_char True c)"
  by (simp add: escape_char_def)

lemma is_ascii_dump_str [simp]: "is_ascii (dump_str True s)"
  by (simp add: dump_str_def)

lemma is_ascii_sep_by: "(\<And>x. x \<in> set xs \<Longrightarrow> is_ascii x) \<Longrightarrow> is_ascii s \<Longrightarrow> is_ascii (sep_by s xs)"
  by (induction s xs rule: sep_by.induct) simp_all

lemma is_ascii_int_repr: "py_int_repr n = Inr s \<Longrightarrow> is_ascii s"
  by (auto simp: py_int_repr_def int_str_def split: if_splits)

lemma dumps_ascii:
  shows "fr = (\<lambda>_. []) \<Longrightarrow> asc \<Longrightarrow> dumps fr asc j = Inr s \<Longrightarrow> is_ascii s"
    and "fr = (\<lambda>_. []) \<Longrightarrow> asc \<Longrightarrow> dumps_items fr asc js = Inr ss \<Longrightarrow> \<forall>x\<in>set ss. is_ascii x"
    and "fr = (\<lambda>_. []) \<Longrightarrow> asc \<Longrightarrow> dumps_entries fr asc d = Inr es \<Longrightarrow> \<forall>e\<in>set es. is_ascii (snd e)"
proof (induction fr asc j and fr asc js and fr asc d
    arbitrary: s and ss and es rule: dumps_dumps_items_dumps_entries.induct)
  case (7 fr asc xs)
  then show ?case by (auto simp: bind_res_Inr_iff intro!: is_ascii_sep_by)
next
  case (8 fr asc d)
  then obtain es where es: "\<forall>e\<in>set es. is_ascii (snd e)"
    and s: "s = [123] @ sep_by (lit '','') (map (\<lambda>(k, v). dump_str True k @ lit '':'' @ v) (sort_key fst es)) @ [125]"
    by (auto simp: bind_res_Inr_iff)
  from es have "is_ascii (sep_by (lit '','') (map (\<lambda>(k, v). dump_str True k @ lit '':'' @ v) (sort_key fst es)))"
    by (intro is_ascii_sep_by) auto
  with s show ?case by simp
next
  case (12 fr asc k v d)
  then show ?case by (fastforce simp: bind_res_Inr_iff)
qed (auto simp: bind_res_Inr_iff dest: is_ascii_int_repr)

lemma int_repr_limit_large: "n \<le> 9999 \<Longrightarrow> n < int_repr_limit"
proof -
  assume n: "n \<le> 9999"
  have "(10::int) ^ 4 \<le> 10 ^ 4300" by (rule power_increasing) simp_all
  moreover have "(10::int) ^ 4 = 10000" by simp
  ultimately show ?thesis using n unfolding int_repr_limit_def by linarith
qed

text \<open>A value with no float and only short integers always prints.\<close>

fun plain :: "json \<Rightarrow> bool" and plain_items :: "(pystr \<times> json) list \<Rightarrow> bool" where
  "plain (JInt n) = (\<bar>n\<bar> < int_repr_limit)"
| "plain (JFloat _) = False"
| "plain (JArr xs) = (\<forall>x\<in>set xs. plain x)"
| "plain (JObj d) = plain_items d"
| "plain _ = True"
| "plain_items [] = True"
| "plain_items ((k, v) # d) = (plain v \<and> plain_items d)"

lemma plain_items_append [simp]: "plain_items (d @ e) \<longleftrightarrow> plain_items d \<and> plain_items e"
  by (induction d) auto

lemma dumps_plain:
  shows "plain j \<Longrightarrow> \<exists>s. dumps fr asc j = Inr s"
    and "\<forall>x\<in>set js. plain x \<Longrightarrow> \<exists>ss. dumps_items fr asc js = Inr ss"
    and "plain_items d \<Longrightarrow> \<exists>es. dumps_entries fr asc d = Inr es"
  by (induction fr asc j and fr asc js and fr asc d rule: dumps_dumps_items_dumps_entries.induct)
    (auto simp: py_int_repr_def)

lemma utf8_strict_ascii: "is_ascii s \<Longrightarrow> utf8_strict s = Inr (utf8_surrogatepass s)"
  by (force simp: utf8_strict_def is_ascii_def is_surrogate_def)

end
