(* ===== verification/Hook_Payload.thy ===== *)
theory Hook_Payload
  imports Py_Json
begin

text \<open>
  The payload half of the handoff hook, plugins/personal-workflow-skills/hooks/lifecycle.py: the
  bounded readers, the identity of a \<open>create_thread\<close> target (\<open>_target_context\<close> and its helpers),
  the one repair the hook may make (\<open>_repair_payload\<close>), the fingerprint of an attempt and the
  classification of native responses.  The lemmas show that the repair is the only change made,
  that it is idempotent, and which shapes are accepted.
\<close>

section \<open>The parts of the standard library the hook calls as oracles\<close>

text \<open>
  \<open>json.loads\<close> has four outcomes the hook tells apart.  The digest, the normal form and the
  general category of a character come from \<open>hashlib\<close> and \<open>unicodedata\<close>; \<open>repr\<close> only renders
  text for the reader of the session-start message.
\<close>

datatype loads_outcome = Loaded json | JSONDecodeError | RecursionError | OtherError py_error

record hook_env =
  json_loads :: "pystr \<Rightarrow> loads_outcome"
  sha256_hex :: "nat list \<Rightarrow> pystr"
  nfc :: "pystr \<Rightarrow> pystr"
  category_other :: "nat \<Rightarrow> bool"
  repr_value :: "json \<Rightarrow> pystr"

section \<open>Bounded readers\<close>

definition MAX_ATTEMPTS :: nat where "MAX_ATTEMPTS = 32"
definition MAX_SEEN_SESSIONS :: nat where "MAX_SEEN_SESSIONS = 16"
definition MAX_TITLE :: nat where "MAX_TITLE = 160"
definition MAX_TITLE_INPUT :: nat where "MAX_TITLE_INPUT = 4096"
definition MAX_ID :: nat where "MAX_ID = 256"
definition MAX_MODEL :: nat where "MAX_MODEL = 128"
definition MAX_THINKING :: nat where "MAX_THINKING = 32"
definition MAX_PROMPT_FOR_DIGEST :: nat where "MAX_PROMPT_FOR_DIGEST = 32 * 1024"
definition MAX_DIRECTORY :: nat where "MAX_DIRECTORY = 160"
definition MAX_JSON_TEXT :: nat where "MAX_JSON_TEXT = 256 * 1024"
definition MAX_CANDIDATES :: nat where "MAX_CANDIDATES = 256"
definition MAX_RETAINED_MATCHES :: nat where "MAX_RETAINED_MATCHES = 16"

lemmas hook_bounds = MAX_ATTEMPTS_def MAX_SEEN_SESSIONS_def MAX_TITLE_def MAX_TITLE_INPUT_def
  MAX_ID_def MAX_MODEL_def MAX_THINKING_def MAX_PROMPT_FOR_DIGEST_def MAX_DIRECTORY_def
  MAX_JSON_TEXT_def MAX_CANDIDATES_def MAX_RETAINED_MATCHES_def

text \<open>\<open>d.get(k)\<close> is \<open>None\<close> for a missing key, like an explicit null.\<close>

definition get_or_null :: "dict \<Rightarrow> string \<Rightarrow> json" where
  "get_or_null d k = (case get d k of None \<Rightarrow> JNull | Some v \<Rightarrow> v)"

definition bounded :: "json \<Rightarrow> nat \<Rightarrow> pystr option" where
  "bounded v limit =
     (case v of JStr s \<Rightarrow> if s = [] \<or> limit < length s then None else Some s | _ \<Rightarrow> None)"

definition bounded_optional :: "json \<Rightarrow> nat \<Rightarrow> pystr option" where
  "bounded_optional v limit =
     (case v of JNull \<Rightarrow> None | JStr s \<Rightarrow> if limit < length s then None else Some s | _ \<Rightarrow> None)"

definition valid_id :: "hook_env \<Rightarrow> json \<Rightarrow> pystr option" where
  "valid_id E v =
     (case bounded v MAX_ID of
        None \<Rightarrow> None
      | Some s \<Rightarrow>
          if \<exists>c\<in>set s. py_isspace c then None
          else if \<exists>c\<in>set s. category_other E c then None
          else Some s)"

definition event_session_id :: "dict \<Rightarrow> pystr option" where
  "event_session_id event = bounded (get_or_null event ''session_id'') MAX_ID"

definition decode_json_string :: "hook_env \<Rightarrow> json \<Rightarrow> json res" where
  "decode_json_string E v =
     (case v of
        JStr s \<Rightarrow>
          if s = [] \<or> MAX_JSON_TEXT < length s then Inr JNull
          else (case json_loads E s of
                  Loaded j \<Rightarrow> Inr j
                | JSONDecodeError \<Rightarrow> Inr JNull
                | RecursionError \<Rightarrow> Inr JNull
                | OtherError e \<Rightarrow> Inl e)
      | _ \<Rightarrow> Inr v)"

section \<open>Target identity\<close>

text \<open>The normalised dictionaries the code builds, as datatypes: their keys are fixed.\<close>

datatype starting_state = WorkingTree | Branch pystr "pystr option"
datatype environment = LocalEnv | Worktree "starting_state option"
datatype target_context =
    ProjectTarget pystr environment
  | Projectless "pystr option"
  | CloudTarget "pystr option"

definition key_set :: "dict \<Rightarrow> pystr set" where
  "key_set d = set (keys d)"

definition normalise_starting_state :: "json \<Rightarrow> starting_state res" where
  "normalise_starting_state v =
     (case v of
        JObj d \<Rightarrow>
          (case bounded (get_or_null d ''type'') 64 of
             None \<Rightarrow> Inl (PayloadError (lit ''target.environment.startingState.type must be valid''))
           | Some t \<Rightarrow>
               if t = lit ''working-tree'' then
                 (if key_set d \<noteq> {lit ''type''}
                  then Inl (PayloadError (lit ''working-tree startingState contains unsupported fields''))
                  else Inr WorkingTree)
               else if t = lit ''branch'' then
                 (if \<not> key_set d \<subseteq> {lit ''type'', lit ''branchName'', lit ''onMissing''}
                  then Inl (PayloadError (lit ''branch startingState contains unsupported fields''))
                  else (case bounded (get_or_null d ''branchName'') MAX_ID of
                          None \<Rightarrow> Inl (PayloadError (lit ''branch startingState requires branchName''))
                        | Some b \<Rightarrow>
                            (case get d ''onMissing'' of
                               None \<Rightarrow> Inr (Branch b None)
                             | Some (JStr m) \<Rightarrow>
                                 if m = lit ''error'' \<or> m = lit ''create-branch'' then Inr (Branch b (Some m))
                                 else Inl (PayloadError (lit ''branch startingState.onMissing is invalid''))
                             | Some _ \<Rightarrow> Inl (PayloadError (lit ''branch startingState.onMissing is invalid'')))))
               else Inl (PayloadError (lit ''unsupported startingState.type: '' @ t)))
      | _ \<Rightarrow> Inl (PayloadError (lit ''target.environment.startingState must be an object'')))"

definition normalise_environment :: "json \<Rightarrow> environment res" where
  "normalise_environment v =
     (case v of
        JObj d \<Rightarrow>
          (case bounded (get_or_null d ''type'') 64 of
             None \<Rightarrow> Inl (PayloadError (lit ''target.environment.type must be a non-empty string''))
           | Some t \<Rightarrow>
               if t = lit ''local'' then
                 (if key_set d \<noteq> {lit ''type''}
                  then Inl (PayloadError (lit ''local environment contains unsupported fields''))
                  else Inr LocalEnv)
               else if t = lit ''worktree'' then
                 (if \<not> key_set d \<subseteq> {lit ''type'', lit ''startingState''}
                  then Inl (PayloadError (lit ''worktree environment contains unsupported fields''))
                  else (case get d ''startingState'' of
                          None \<Rightarrow> Inr (Worktree None)
                        | Some st \<Rightarrow> bind_res (normalise_starting_state st) (\<lambda>n. Inr (Worktree (Some n)))))
               else Inl (PayloadError (lit ''unsupported target.environment.type: '' @ t)))
      | _ \<Rightarrow> Inl (PayloadError (lit ''target.environment must be an object'')))"

definition target_context_of :: "json \<Rightarrow> target_context res" where
  "target_context_of target =
     (case target of
        JObj d \<Rightarrow>
          (case bounded (get_or_null d ''type'') 64 of
             None \<Rightarrow> Inl (PayloadError (lit ''target.type must be a non-empty string''))
           | Some t \<Rightarrow>
               if t = lit ''project'' then
                 (if key_set d \<noteq> {lit ''type'', lit ''projectId'', lit ''environment''}
                  then Inl (PayloadError (lit ''project target must contain projectId and environment only''))
                  else (case bounded (get_or_null d ''projectId'') MAX_ID of
                          None \<Rightarrow> Inl (PayloadError (lit ''project target requires target.projectId''))
                        | Some p \<Rightarrow>
                            bind_res (normalise_environment (get_or_null d ''environment''))
                              (\<lambda>e. Inr (ProjectTarget p e))))
               else if t = lit ''projectless'' then
                 (if \<not> key_set d \<subseteq> {lit ''type'', lit ''directoryName''}
                  then Inl (PayloadError (lit ''projectless target contains unsupported fields''))
                  else (case get d ''directoryName'' of
                          None \<Rightarrow> Inr (Projectless None)
                        | Some v \<Rightarrow>
                            (case bounded v MAX_DIRECTORY of
                               None \<Rightarrow> Inl (PayloadError (lit ''projectless target directoryName is malformed''))
                             | Some n \<Rightarrow> Inr (Projectless (Some n)))))
               else if t = lit ''chatgptWorkCloud'' then
                 (if \<not> key_set d \<subseteq> {lit ''type'', lit ''projectId''}
                  then Inl (PayloadError (lit ''chatgptWorkCloud target contains unsupported fields''))
                  else (case get d ''projectId'' of
                          None \<Rightarrow> Inr (CloudTarget None)
                        | Some v \<Rightarrow>
                            (case bounded v MAX_ID of
                               None \<Rightarrow> Inl (PayloadError (lit ''cloud target projectId is malformed''))
                             | Some n \<Rightarrow> Inr (CloudTarget (Some n)))))
               else Inl (PayloadError (lit ''unsupported target.type: '' @ t)))
      | _ \<Rightarrow> Inl (PayloadError (lit ''target must be an object'')))"

text \<open>
  A \<open>project\<close> target has the key \<open>environment\<close> when its \<open>environment\<close> is read, so the total
  reader stands for \<open>target["environment"]\<close>.
\<close>

section \<open>Titles\<close>

record title_identity =
  ti_length :: nat
  ti_digest :: pystr
  ti_normalised_digest :: pystr

definition title_identity_of :: "hook_env \<Rightarrow> json \<Rightarrow> title_identity res" where
  "title_identity_of E v =
     (case v of
        JStr s \<Rightarrow>
          if MAX_TITLE_INPUT < length s then Inl (PayloadError (lit ''title must be a bounded string''))
          else Inr \<lparr>ti_length = length s,
                    ti_digest = sha256_hex E (utf8_surrogatepass s),
                    ti_normalised_digest = sha256_hex E (utf8_surrogatepass (py_strip (nfc E s)))\<rparr>
      | _ \<Rightarrow> Inl (PayloadError (lit ''title must be a bounded string'')))"

text \<open>\<open>_title_identity(tool_input.get("title"), present="title" in tool_input)\<close>.\<close>

definition payload_title_identity :: "hook_env \<Rightarrow> dict \<Rightarrow> title_identity option res" where
  "payload_title_identity E d =
     (case get d ''title'' of
        None \<Rightarrow> Inr None
      | Some v \<Rightarrow> bind_res (title_identity_of E v) (\<lambda>t. Inr (Some t)))"

section \<open>The one safe repair\<close>

text \<open>
  The block of \<open>_repair_payload\<close> that handles a top-level \<open>projectId\<close>: it may only move the
  identity into a \<open>project\<close> target that has none or the same one.
\<close>

definition move_project_id :: "dict \<Rightarrow> json \<Rightarrow> dict res" where
  "move_project_id d tp =
     (case bounded tp MAX_ID of
        None \<Rightarrow> Inl (PayloadError (lit ''top-level projectId must be a non-empty string''))
      | Some p \<Rightarrow>
          (case get d ''target'' of
             None \<Rightarrow> Inl (PayloadError (lit ''top-level projectId cannot manufacture a project target without environment''))
           | Some (JObj t) \<Rightarrow>
               if get_or_null t ''type'' \<noteq> JStr (lit ''project'')
               then Inl (PayloadError (lit ''top-level projectId conflicts with non-project target''))
               else (case get t ''projectId'' of
                       Some n \<Rightarrow>
                         if bounded n MAX_ID = None
                         then Inl (PayloadError (lit ''target.projectId must be a non-empty string''))
                         else if n \<noteq> JStr p
                         then Inl (PayloadError (lit ''top-level and target projectId values conflict''))
                         else Inr (dict_del (lit ''projectId'') d)
                     | None \<Rightarrow>
                         Inr (dict_del (lit ''projectId'')
                           (dict_put (lit ''target'') (JObj (dict_put (lit ''projectId'') (JStr p) t)) d)))
           | Some _ \<Rightarrow> Inl (PayloadError (lit ''top-level projectId conflicts with malformed target''))))"

definition repair_payload :: "hook_env \<Rightarrow> json \<Rightarrow> (dict \<times> bool \<times> target_context) res" where
  "repair_payload E tool_input =
     (case tool_input of
        JObj d \<Rightarrow>
          if (case get_or_null d ''prompt'' of JStr p \<Rightarrow> p = [] | _ \<Rightarrow> True)
          then Inl (PayloadError (lit ''create_thread.prompt must be a non-empty string''))
          else bind_res (payload_title_identity E d) (\<lambda>_.
            bind_res (case get d ''projectId'' of
                        None \<Rightarrow> Inr (d, False)
                      | Some tp \<Rightarrow> bind_res (move_project_id d tp) (\<lambda>r. Inr (r, True)))
              (\<lambda>(r, changed).
                 case get d ''target'' of
                   None \<Rightarrow> Inl (PayloadError (lit ''create_thread.target is required''))
                 | Some _ \<Rightarrow>
                     bind_res (target_context_of (get_or_null r ''target''))
                       (\<lambda>c. Inr (r, changed, c))))
      | _ \<Rightarrow> Inl (PayloadError (lit ''create_thread arguments must be an object'')))"

section \<open>Fingerprints\<close>

definition prompt_digest :: "hook_env \<Rightarrow> pystr \<Rightarrow> pystr" where
  "prompt_digest E prompt = sha256_hex E (utf8_replace (take MAX_PROMPT_FOR_DIGEST prompt))"

definition opt_json :: "pystr option \<Rightarrow> json" where
  "opt_json x = (case x of None \<Rightarrow> JNull | Some s \<Rightarrow> JStr s)"

fun starting_state_json :: "starting_state \<Rightarrow> json" where
  "starting_state_json WorkingTree = JObj [(lit ''type'', JStr (lit ''working-tree''))]"
| "starting_state_json (Branch b m) =
     JObj ([(lit ''type'', JStr (lit ''branch'')), (lit ''branch_name'', JStr b)]
       @ (case m of None \<Rightarrow> [] | Some s \<Rightarrow> [(lit ''on_missing'', JStr s)]))"

fun environment_json :: "environment \<Rightarrow> json" where
  "environment_json LocalEnv = JObj [(lit ''type'', JStr (lit ''local''))]"
| "environment_json (Worktree st) =
     JObj ([(lit ''type'', JStr (lit ''worktree''))]
       @ (case st of None \<Rightarrow> [] | Some s \<Rightarrow> [(lit ''starting_state'', starting_state_json s)]))"

fun context_json :: "target_context \<Rightarrow> json" where
  "context_json (ProjectTarget p e) =
     JObj [(lit ''type'', JStr (lit ''project'')), (lit ''project_id'', JStr p), (lit ''environment'', environment_json e)]"
| "context_json (Projectless n) =
     JObj [(lit ''type'', JStr (lit ''projectless'')), (lit ''directory_name'', opt_json n)]"
| "context_json (CloudTarget n) =
     JObj [(lit ''type'', JStr (lit ''chatgptWorkCloud'')), (lit ''project_id'', opt_json n)]"

definition title_identity_json :: "title_identity \<Rightarrow> json" where
  "title_identity_json t =
     JObj [(lit ''length'', JInt (int (ti_length t))), (lit ''digest'', JStr (ti_digest t)),
           (lit ''normalised_digest'', JStr (ti_normalised_digest t))]"

text \<open>The first characters of a string field, the empty string when it is no string.\<close>

definition text_prefix :: "dict \<Rightarrow> string \<Rightarrow> nat \<Rightarrow> pystr" where
  "text_prefix d k limit = (case get_or_null d k of JStr s \<Rightarrow> take limit s | _ \<Rightarrow> [])"

definition prompt_of :: "dict \<Rightarrow> pystr" where
  "prompt_of d = (case get_or_null d ''prompt'' of JStr p \<Rightarrow> p | _ \<Rightarrow> [])"

definition fingerprint_of :: "hook_env \<Rightarrow> dict \<Rightarrow> target_context \<Rightarrow> pystr res" where
  "fingerprint_of E d context =
     bind_res (payload_title_identity E d) (\<lambda>title.
       bind_res
         (dumps (\<lambda>_. []) True
           (JObj [(lit ''title'', case title of None \<Rightarrow> JNull | Some t \<Rightarrow> title_identity_json t),
                  (lit ''target'', context_json context),
                  (lit ''model'', JStr (text_prefix d ''model'' MAX_MODEL)),
                  (lit ''thinking'', JStr (text_prefix d ''thinking'' MAX_THINKING)),
                  (lit ''prompt_digest'', JStr (prompt_digest E (prompt_of d)))]))
         (\<lambda>encoded. bind_res (utf8_strict encoded) (\<lambda>b. Inr (sha256_hex E b))))"

section \<open>Native responses\<close>

datatype attempt_status = Pending | Uncertain | Confirmed | Queued | Ambiguous | NotFound

datatype result_class = RPending | RConfirmed | RQueued | RError
  | ReconciledAmbiguous | ReconciledFound | ReconciledNotFound

definition classify_create_response ::
    "hook_env \<Rightarrow> json \<Rightarrow> (attempt_status \<times> result_class \<times> pystr option) res" where
  "classify_create_response E raw =
     bind_res (decode_json_string E raw) (\<lambda>response.
       let fallback = (Uncertain, RError, None)
       in case response of
            JObj d \<Rightarrow>
              if key_set d = {lit ''threadId''} \<or> key_set d = {lit ''threadId'', lit ''hostId''} then
                (case valid_id E (get_or_null d ''threadId'') of
                   Some t \<Rightarrow>
                     if \<not> has_key d ''hostId'' \<or> valid_id E (get_or_null d ''hostId'') \<noteq> None
                     then Inr (Confirmed, RConfirmed, Some t)
                     else Inr fallback
                 | None \<Rightarrow> Inr fallback)
              else if key_set d = {lit ''clientThreadId''} then
                (case valid_id E (get_or_null d ''clientThreadId'') of
                   Some t \<Rightarrow> Inr (Queued, RQueued, Some t)
                 | None \<Rightarrow> Inr fallback)
              else Inr fallback
          | _ \<Rightarrow> Inr fallback)"

datatype snapshot_class = ValidSnapshot | InvalidSnapshot | OversizedSnapshot

definition LIST_RESPONSE_KEYSETS :: "pystr set list" where
  "LIST_RESPONSE_KEYSETS =
     [{lit ''threads''}, {lit ''pinnedThreads'', lit ''threads''}, {lit ''items''}, {lit ''results''}]"

text \<open>The loop over the four collection names, with the items gathered so far.\<close>

fun gather_items :: "dict \<Rightarrow> string list \<Rightarrow> json list \<Rightarrow> snapshot_class \<times> json list" where
  "gather_items d [] items = (ValidSnapshot, items)"
| "gather_items d (k # ks) items =
     (case get d k of
        None \<Rightarrow> gather_items d ks items
      | Some (JArr xs) \<Rightarrow>
          if MAX_CANDIDATES < length items + length xs then (OversizedSnapshot, [])
          else gather_items d ks (items @ xs)
      | Some _ \<Rightarrow> (InvalidSnapshot, []))"

definition candidate_items :: "hook_env \<Rightarrow> json \<Rightarrow> (snapshot_class \<times> json list) res" where
  "candidate_items E raw =
     bind_res (decode_json_string E raw) (\<lambda>response.
       case response of
         JArr xs \<Rightarrow> Inr (if MAX_CANDIDATES < length xs then (OversizedSnapshot, []) else (ValidSnapshot, xs))
       | JObj d \<Rightarrow>
           if key_set d \<notin> set LIST_RESPONSE_KEYSETS then Inr (InvalidSnapshot, [])
           else Inr (gather_items d [''pinnedThreads'', ''threads'', ''items'', ''results''] [])
       | _ \<Rightarrow> Inr (InvalidSnapshot, []))"

text \<open>The target identity of one listed thread, from its nested or its flattened fields.\<close>

definition flattened_context :: "dict \<Rightarrow> target_context option" where
  "flattened_context c =
     (let project = get c ''projectId''; alias = get c ''project_id'';
          context = (\<lambda>d. case target_context_of (JObj d) of Inl _ \<Rightarrow> None | Inr x \<Rightarrow> Some x)
      in if project \<noteq> None \<and> alias \<noteq> None then None
         else case get c ''type'' of
           Some (JStr t) \<Rightarrow>
             if t = lit ''project'' then
               (case (if project = None then alias else project, get c ''environment'') of
                  (Some p, Some e) \<Rightarrow>
                    context [(lit ''type'', JStr t), (lit ''projectId'', p), (lit ''environment'', e)]
                | _ \<Rightarrow> None)
             else if t = lit ''projectless'' then
               (if project \<noteq> None \<or> alias \<noteq> None \<or> has_key c ''environment'' then None
                else context ([(lit ''type'', JStr t)]
                  @ (case get c ''directoryName'' of None \<Rightarrow> [] | Some v \<Rightarrow> [(lit ''directoryName'', v)])))
             else if t = lit ''chatgptWorkCloud'' then
               (if has_key c ''environment'' \<or> has_key c ''directoryName'' then None
                else context ([(lit ''type'', JStr t)]
                  @ (case (if project = None then alias else project) of
                       None \<Rightarrow> [] | Some v \<Rightarrow> [(lit ''projectId'', v)])))
             else None
         | _ \<Rightarrow> None)"

definition candidate_context :: "dict \<Rightarrow> target_context option" where
  "candidate_context c =
     (case get c ''target'' of
        Some (JObj t) \<Rightarrow>
          if has_key c ''type'' \<or> has_key c ''projectId'' \<or> has_key c ''project_id''
             \<or> has_key c ''environment'' \<or> has_key c ''directoryName''
          then None
          else (case target_context_of (JObj t) of Inl _ \<Rightarrow> None | Inr x \<Rightarrow> Some x)
      | Some _ \<Rightarrow> None
      | None \<Rightarrow> flattened_context c)"

datatype title_match = Exact | Normalised | Unverifiable | NoMatch

definition candidate_title_match :: "hook_env \<Rightarrow> title_identity option \<Rightarrow> dict \<Rightarrow> title_match" where
  "candidate_title_match E expected c =
     (case expected of
        None \<Rightarrow> Unverifiable
      | Some e \<Rightarrow>
          (case get c ''title'' of
             None \<Rightarrow> Unverifiable
           | Some v \<Rightarrow>
               (case title_identity_of E v of
                  Inl _ \<Rightarrow> Unverifiable
                | Inr a \<Rightarrow>
                    if ti_length a = ti_length e \<and> ti_digest a = ti_digest e then Exact
                    else if ti_normalised_digest a = ti_normalised_digest e then Normalised
                    else NoMatch)))"

definition context_matches :: "target_context \<Rightarrow> target_context option \<Rightarrow> bool" where
  "context_matches expected candidate \<longleftrightarrow> candidate = Some expected"

section \<open>What the repair does\<close>

lemma get_or_null_dict_put [py_simps]:
  "get_or_null (dict_put (lit k) v d) k' = (if k = k' then v else get_or_null d k')"
  by (simp add: get_or_null_def py_simps)

lemma get_or_null_dict_del [py_simps]:
  "get_or_null (dict_del (lit k) d) k' = (if k = k' then JNull else get_or_null d k')"
  by (simp add: get_or_null_def py_simps)

lemma payload_title_identity_cong:
  "get r ''title'' = get d ''title'' \<Longrightarrow> payload_title_identity E r = payload_title_identity E d"
  by (simp add: payload_title_identity_def)

text \<open>The two ways \<open>move_project_id\<close> succeeds.\<close>

lemma move_project_id_cases:
  assumes "move_project_id d tp = Inr r"
  obtains (same) p t where "tp = JStr p" "get d ''target'' = Some (JObj t)"
      "get t ''type'' = Some (JStr (lit ''project''))" "get t ''projectId'' = Some (JStr p)"
      "r = dict_del (lit ''projectId'') d"
    | (moved) p t where "tp = JStr p" "get d ''target'' = Some (JObj t)"
      "get t ''type'' = Some (JStr (lit ''project''))" "get t ''projectId'' = None"
      "r = dict_del (lit ''projectId'')
             (dict_put (lit ''target'') (JObj (dict_put (lit ''projectId'') (JStr p) t)) d)"
  using assms
  by (auto simp: move_project_id_def bounded_def get_or_null_def
      split: option.splits json.splits if_splits)

lemma move_project_id_frame:
  assumes "move_project_id d tp = Inr r"
  shows "get r ''projectId'' = None"
    and "get r ''target'' \<noteq> None"
    and "k \<noteq> ''projectId'' \<Longrightarrow> k \<noteq> ''target'' \<Longrightarrow> get r k = get d k"
  using assms by (auto elim!: move_project_id_cases simp: py_simps)

lemma repair_payload_InrD:
  assumes "repair_payload E ti = Inr (r, changed, c)"
  obtains d where "ti = JObj d" "prompt_of d \<noteq> []" "\<exists>p. get_or_null d ''prompt'' = JStr p \<and> p \<noteq> []"
    "is_ok (payload_title_identity E d)" "get d ''target'' \<noteq> None"
    "target_context_of (get_or_null r ''target'') = Inr c"
    "(get d ''projectId'' = None \<and> r = d \<and> \<not> changed) \<or>
     (\<exists>tp. get d ''projectId'' = Some tp \<and> move_project_id d tp = Inr r \<and> changed)"
proof -
  from assms obtain d where ti: "ti = JObj d"
    by (cases ti) (auto simp: repair_payload_def)
  from assms ti obtain p where p: "get_or_null d ''prompt'' = JStr p" "p \<noteq> []"
    by (auto simp: repair_payload_def split: json.splits if_splits)
  from assms ti p show thesis
    by (intro that [of d])
      (auto simp: repair_payload_def prompt_of_def bind_res_Inr_iff split: option.splits)
qed

text \<open>A refused payload is always a \<open>PayloadError\<close>, never another exception.\<close>

definition payload_error :: "'a res \<Rightarrow> bool" where
  "payload_error r \<longleftrightarrow> (\<forall>e. r = Inl e \<longrightarrow> (\<exists>m. e = PayloadError m))"

lemma payload_error_bind:
  "payload_error m \<Longrightarrow> (\<And>x. payload_error (f x)) \<Longrightarrow> payload_error (bind_res m f)"
  by (auto simp: payload_error_def bind_res_Inl_iff)

lemma payload_error_simps [simp]:
  "payload_error (Inl (PayloadError m))" "payload_error (Inr x)"
  by (simp_all add: payload_error_def)

lemma payload_error_split:
  "payload_error a \<Longrightarrow> payload_error b \<Longrightarrow> payload_error (if c then a else b)"
  "payload_error a \<Longrightarrow> (\<And>x. payload_error (f x)) \<Longrightarrow>
     payload_error (case q of None \<Rightarrow> a | Some x \<Rightarrow> f x)"
  "(\<And>x y. payload_error (g x y)) \<Longrightarrow> payload_error (case p of (x, y) \<Rightarrow> g x y)"
  "\<lbrakk>payload_error j1; \<And>x. payload_error (j2 x); \<And>x. payload_error (j3 x); \<And>x. payload_error (j4 x);
    \<And>x. payload_error (j5 x); \<And>x. payload_error (j6 x); \<And>x. payload_error (j7 x)\<rbrakk> \<Longrightarrow>
     payload_error (case_json j1 j2 j3 j4 j5 j6 j7 v)"
  by (auto split: option.split prod.split json.split)

lemmas payload_error_rules = payload_error_split payload_error_simps payload_error_bind

lemma payload_error_starting_state: "payload_error (normalise_starting_state v)"
  unfolding normalise_starting_state_def by (intro payload_error_rules)

lemma payload_error_environment: "payload_error (normalise_environment v)"
  unfolding normalise_environment_def by (intro payload_error_rules payload_error_starting_state)

lemma payload_error_context: "payload_error (target_context_of v)"
  unfolding target_context_of_def by (intro payload_error_rules payload_error_environment)

lemma payload_error_title: "payload_error (payload_title_identity E d)"
  unfolding payload_title_identity_def title_identity_of_def by (intro payload_error_rules)

lemma payload_error_move: "payload_error (move_project_id d tp)"
  unfolding move_project_id_def by (intro payload_error_rules)

lemma repair_payload_error:
  assumes "repair_payload E v = Inl e"
  shows "\<exists>m. e = PayloadError m"
proof -
  have "payload_error (repair_payload E v)"
    unfolding repair_payload_def
    by (intro payload_error_rules payload_error_title payload_error_context payload_error_move)
  with assms show ?thesis by (simp add: payload_error_def)
qed

lemma repair_payload_frame:
  assumes "repair_payload E (JObj d) = Inr (r, changed, c)"
  shows "get r ''projectId'' = None"
    and "k \<noteq> ''projectId'' \<Longrightarrow> k \<noteq> ''target'' \<Longrightarrow> get r k = get d k"
  using assms by (auto elim!: repair_payload_InrD dest: move_project_id_frame)

text \<open>
  The runtime may hand the hook the original or the updated arguments after the call: both
  repair to the same payload and the same identity.
\<close>

lemma repair_payload_idempotent:
  assumes "repair_payload E (JObj d) = Inr (r, changed, c)"
  shows "repair_payload E (JObj r) = Inr (r, False, c)"
proof -
  from assms obtain p where p: "get_or_null d ''prompt'' = JStr p" "p \<noteq> []"
    and ok: "is_ok (payload_title_identity E d)"
    and ctx: "target_context_of (get_or_null r ''target'') = Inr c"
    by (auto elim!: repair_payload_InrD)
  note frame = repair_payload_frame [OF assms]
  have "get r ''target'' \<noteq> None"
    using assms by (auto elim!: repair_payload_InrD dest: move_project_id_frame)
  moreover from p frame(2) [of "''prompt''"] have "get_or_null r ''prompt'' = JStr p"
    by (simp add: get_or_null_def)
  moreover have "payload_title_identity E r = payload_title_identity E d"
    by (rule payload_title_identity_cong) (rule frame(2); simp)
  with ok obtain t where "payload_title_identity E r = Inr t"
    by (auto simp: is_ok_def split: sum.splits)
  ultimately show ?thesis
    using p ctx frame(1) by (auto simp: repair_payload_def)
qed

text \<open>Once the title has been accepted, computing the fingerprint cannot fail.\<close>

lemma plain_context [simp]: "plain (context_json c)"
proof -
  have st: "plain (starting_state_json st)" for st by (cases st) (simp_all split: option.split)
  have "plain (environment_json e)" for e by (cases e) (simp_all add: st split: option.split)
  then show ?thesis by (cases c) (simp_all add: opt_json_def split: option.split)
qed

lemma payload_title_bounded:
  "payload_title_identity E d = Inr (Some t) \<Longrightarrow> ti_length t \<le> MAX_TITLE_INPUT"
  by (auto simp: payload_title_identity_def title_identity_of_def bind_res_Inr_iff
      split: option.splits json.splits if_splits)

lemma plain_title:
  assumes "payload_title_identity E d = Inr (Some t)"
  shows "plain (title_identity_json t)"
proof -
  have "int (ti_length t) < int_repr_limit"
    using payload_title_bounded [OF assms] by (intro int_repr_limit_large) (simp add: hook_bounds)
  then show ?thesis by (simp add: title_identity_json_def)
qed

lemma fingerprint_total:
  assumes "payload_title_identity E d = Inr t"
  shows "\<exists>fp. fingerprint_of E d c = Inr fp"
proof -
  let ?j = "JObj [(lit ''title'', case t of None \<Rightarrow> JNull | Some t \<Rightarrow> title_identity_json t),
      (lit ''target'', context_json c), (lit ''model'', JStr (text_prefix d ''model'' MAX_MODEL)),
      (lit ''thinking'', JStr (text_prefix d ''thinking'' MAX_THINKING)),
      (lit ''prompt_digest'', JStr (prompt_digest E (prompt_of d)))]"
  have "plain ?j" using assms plain_title by (auto split: option.split)
  then obtain v where v: "dumps (\<lambda>_. []) True ?j = Inr v" using dumps_plain(1) by blast
  then have "is_ascii v" by (rule dumps_ascii(1) [OF refl TrueI])
  with v assms show ?thesis by (simp add: fingerprint_of_def utf8_strict_ascii del: dumps.simps)
qed

lemma fingerprint_repair_stable:
  assumes "repair_payload E (JObj d) = Inr (r, changed, c)"
    and "repair_payload E (JObj r) = Inr (r', changed', c')"
  shows "fingerprint_of E r' c' = fingerprint_of E r c"
  using assms repair_payload_idempotent [OF assms(1)] by simp

lemma repair_payload_moves_identity:
  assumes "repair_payload E (JObj d) = Inr (r, True, c)"
  shows "\<exists>p env. get d ''projectId'' = Some (JStr p) \<and> c = ProjectTarget p env"
proof -
  from assms obtain tp where tp: "get d ''projectId'' = Some tp" "move_project_id d tp = Inr r"
    and ctx: "target_context_of (get_or_null r ''target'') = Inr c"
    by (auto elim!: repair_payload_InrD)
  from tp(2) obtain p t where p: "tp = JStr p" and t: "get r ''target'' = Some (JObj t)"
    "get t ''type'' = Some (JStr (lit ''project''))" "get t ''projectId'' = Some (JStr p)"
    by (auto elim!: move_project_id_cases simp: py_simps)
  with ctx tp(1) show ?thesis
    by (auto simp: target_context_of_def get_or_null_def bounded_def bind_res_Inr_iff split: if_splits)
qed

end
