(* ===== verification/Hook_Ledger.thy ===== *)
theory Hook_Ledger
  imports Hook_Payload
begin

text \<open>
  The state machine half of the handoff hook, plugins/personal-workflow-skills/hooks/lifecycle.py:
  the bounded ledger of attempts, its transaction, the handlers of the six hook events and the
  fail-open entry point.
\<close>

section \<open>Attempts and the store\<close>

datatype reconciliation_class = RecInvalid | RecOversized | RecFound | RecNotFound | RecAmbiguous

text \<open>
  One recorded attempt.  \<open>blocks_create\<close> and \<open>peer_id\<close> are keys the dictionary gains later;
  absent is \<open>False\<close> and \<open>None\<close>.
\<close>

record attempt =
  fingerprint :: pystr
  title :: pystr
  title_present :: bool
  att_title_identity :: "title_identity option"
  target :: target_context
  model :: pystr
  thinking :: pystr
  turn_id :: "pystr option"
  session_id :: pystr
  created_at :: int
  status :: attempt_status
  result_classification :: result_class
  reconciliation_classification :: "reconciliation_class option"
  reconciliation_used :: bool
  reconciliation_turn_id :: "pystr option"
  stop_surface_used :: bool
  resume_sessions :: "pystr list"
  blocks_create :: bool
  peer_id :: "pystr option"

text \<open>
  The world of the hook: whether \<open>PLUGIN_DATA\<close> is set, the attempts on disk (\<open>None\<close> when the
  file does not exist) and the clock.  The lock makes a transaction atomic.
\<close>

record world =
  plugin_data :: bool
  store :: "attempt list option"
  clock :: int

definition is_unresolved :: "attempt \<Rightarrow> bool" where
  "is_unresolved a \<longleftrightarrow> status a \<in> {Pending, Uncertain}"

definition is_recovery_blocking :: "attempt \<Rightarrow> bool" where
  "is_recovery_blocking a \<longleftrightarrow> is_unresolved a \<or> blocks_create a"

definition blocking_count :: "attempt list \<Rightarrow> nat" where
  "blocking_count xs = length (filter is_recovery_blocking xs)"

text \<open>The loop of \<open>_trim_attempts\<close>: drop the oldest resolved attempts, \<open>n\<close> of them.\<close>

fun drop_resolved :: "nat \<Rightarrow> attempt list \<Rightarrow> nat \<times> attempt list" where
  "drop_resolved n [] = (n, [])"
| "drop_resolved n (a # xs) =
     (if 0 < n \<and> \<not> is_recovery_blocking a then drop_resolved (n - 1) xs
      else let (m, ys) = drop_resolved n xs in (m, a # ys))"

definition trim_attempts :: "attempt list \<Rightarrow> attempt list res" where
  "trim_attempts xs =
     (if MAX_ATTEMPTS < blocking_count xs
      then Inl (RuntimeError (lit ''handoff state contains too many recovery-blocking attempts''))
      else if length xs \<le> MAX_ATTEMPTS then Inr xs
      else let (left, ys) = drop_resolved (length xs - MAX_ATTEMPTS) xs
           in if left \<noteq> 0 then Inl (RuntimeError (lit ''handoff state cannot safely evict attempts''))
              else Inr ys)"

definition read_state :: "world \<Rightarrow> attempt list res" where
  "read_state w = (case store w of None \<Rightarrow> Inr [] | Some xs \<Rightarrow> trim_attempts xs)"

definition write_state :: "attempt list \<Rightarrow> world \<Rightarrow> world res" where
  "write_state xs w = bind_res (trim_attempts xs) (\<lambda>ys. Inr (w\<lparr>store := Some ys\<rparr>))"

definition transaction ::
    "(attempt list \<Rightarrow> ('a \<times> attempt list) res) \<Rightarrow> world \<Rightarrow> ('a \<times> world) res" where
  "transaction mutator w =
     (if \<not> plugin_data w then Inl (RuntimeError (lit ''PLUGIN_DATA is not set''))
      else bind_res (read_state w) (\<lambda>st.
        bind_res (mutator st) (\<lambda>(result, st').
          bind_res (write_state st' w) (\<lambda>w'. Inr (result, w')))))"

definition unresolved_in :: "pystr \<Rightarrow> attempt \<Rightarrow> bool" where
  "unresolved_in sid a \<longleftrightarrow> session_id a = sid \<and> is_unresolved a"

definition blocks_session :: "pystr \<Rightarrow> attempt \<Rightarrow> bool" where
  "blocks_session sid a \<longleftrightarrow> session_id a = sid \<and> (is_unresolved a \<or> blocks_create a)"

text \<open>The last element that satisfies a predicate, and the same element updated in place.\<close>

definition find_last :: "('a \<Rightarrow> bool) \<Rightarrow> 'a list \<Rightarrow> 'a option" where
  "find_last P xs = find P (rev xs)"

fun update_first :: "('a \<Rightarrow> bool) \<Rightarrow> ('a \<Rightarrow> 'a) \<Rightarrow> 'a list \<Rightarrow> 'a list" where
  "update_first P f [] = []"
| "update_first P f (x # xs) = (if P x then f x # xs else x # update_first P f xs)"

definition update_last :: "('a \<Rightarrow> bool) \<Rightarrow> ('a \<Rightarrow> 'a) \<Rightarrow> 'a list \<Rightarrow> 'a list" where
  "update_last P f xs = rev (update_first P f (rev xs))"

section \<open>Hook outputs\<close>

definition pre_allow :: "dict option \<Rightarrow> pystr option \<Rightarrow> json" where
  "pre_allow updated warning =
     JObj ([(lit ''hookSpecificOutput'',
             JObj ([(lit ''hookEventName'', JStr (lit ''PreToolUse'')),
                    (lit ''permissionDecision'', JStr (lit ''allow''))]
               @ (case updated of None \<Rightarrow> [] | Some d \<Rightarrow> [(lit ''updatedInput'', JObj d)])))]
       @ (case warning of None \<Rightarrow> []
          | Some m \<Rightarrow> [(lit ''systemMessage'',
              JStr (lit ''personal-workflow-skills hook warning: '' @ m @ lit ''. Allowing operation.''))]))"

definition deny :: "pystr \<Rightarrow> json" where
  "deny reason =
     JObj [(lit ''hookSpecificOutput'',
            JObj [(lit ''hookEventName'', JStr (lit ''PreToolUse'')),
                  (lit ''permissionDecision'', JStr (lit ''deny'')),
                  (lit ''permissionDecisionReason'', JStr reason)])]"

definition post_context :: "pystr \<Rightarrow> json" where
  "post_context context =
     JObj [(lit ''hookSpecificOutput'',
            JObj [(lit ''hookEventName'', JStr (lit ''PostToolUse'')),
                  (lit ''additionalContext'', JStr context)])]"

definition warning :: "pystr \<Rightarrow> json" where
  "warning m =
     JObj [(lit ''systemMessage'',
            JStr (lit ''personal-workflow-skills hook warning: '' @ m @ lit ''. Allowing operation.''))]"

text \<open>The decision of a \<open>PreToolUse\<close> output, if it carries one.\<close>

definition permission_decision :: "json \<Rightarrow> pystr option" where
  "permission_decision out =
     (case out of
        JObj d \<Rightarrow>
          (case get d ''hookSpecificOutput'' of
             Some (JObj s) \<Rightarrow> (case get s ''permissionDecision'' of Some (JStr p) \<Rightarrow> Some p | _ \<Rightarrow> None)
           | _ \<Rightarrow> None)
      | _ \<Rightarrow> None)"

section \<open>Before create_thread\<close>

definition new_attempt ::
    "hook_env \<Rightarrow> int \<Rightarrow> dict \<Rightarrow> target_context \<Rightarrow> pystr \<Rightarrow> dict \<Rightarrow> pystr \<Rightarrow> attempt res" where
  "new_attempt E now tool_input context fp event sid =
     bind_res (payload_title_identity E tool_input) (\<lambda>ti.
       Inr \<lparr>fingerprint = fp,
            title = text_prefix tool_input ''title'' MAX_TITLE,
            title_present = has_key tool_input ''title'',
            att_title_identity = ti,
            target = context,
            model = text_prefix tool_input ''model'' MAX_MODEL,
            thinking = text_prefix tool_input ''thinking'' MAX_THINKING,
            turn_id = bounded_optional (get_or_null event ''turn_id'') MAX_ID,
            session_id = sid,
            created_at = now,
            status = Pending,
            result_classification = RPending,
            reconciliation_classification = None,
            reconciliation_used = False,
            reconciliation_turn_id = None,
            stop_surface_used = False,
            resume_sessions = [],
            blocks_create = False,
            peer_id = None\<rparr>)"

datatype create_outcome = CreateDuplicate | CreateSaturated | CreateAllowed "dict option"

text \<open>The \<open>mutate\<close> of \<open>_allow_pre_create\<close>.\<close>

definition pre_create_mutate ::
    "hook_env \<Rightarrow> int \<Rightarrow> dict \<Rightarrow> bool \<Rightarrow> target_context \<Rightarrow> pystr \<Rightarrow> dict \<Rightarrow> pystr
     \<Rightarrow> attempt list \<Rightarrow> (create_outcome \<times> attempt list) res" where
  "pre_create_mutate E now repaired changed context fp event sid st =
     (let turn = bounded_optional (get_or_null event ''turn_id'') MAX_ID
      in if (\<exists>a\<in>set st. unresolved_in sid a) \<or> (\<exists>a\<in>set st. session_id a = sid \<and> blocks_create a)
         then Inr (CreateDuplicate, st)
         else if \<exists>a\<in>set st. session_id a = sid \<and> fingerprint a = fp \<and> turn \<noteq> None \<and> turn_id a = turn
         then Inr (CreateDuplicate, st)
         else if MAX_ATTEMPTS \<le> blocking_count st then Inr (CreateSaturated, st)
         else bind_res (new_attempt E now repaired context fp event sid) (\<lambda>a.
           bind_res (trim_attempts (st @ [a])) (\<lambda>st'.
             Inr (CreateAllowed (if changed then Some repaired else None), st'))))"

definition allow_pre_create :: "hook_env \<Rightarrow> dict \<Rightarrow> world \<Rightarrow> (json \<times> world) res" where
  "allow_pre_create E event w =
     bind_res (repair_payload E (get_or_null event ''tool_input'')) (\<lambda>(repaired, changed, context).
       case event_session_id event of
         None \<Rightarrow>
           Inr (pre_allow (if changed then Some repaired else None)
                  (Some (lit ''session_id is absent or malformed; recovery state was not recorded'')), w)
       | Some sid \<Rightarrow>
           bind_res (fingerprint_of E repaired context) (\<lambda>fp.
             bind_res (transaction (pre_create_mutate E (clock w) repaired changed context fp event sid) w)
               (\<lambda>(outcome, w'). case outcome of
                  CreateDuplicate \<Rightarrow>
                    Inr (deny (lit ''a pending or uncertain create_thread attempt already blocks this session''), w')
                | CreateSaturated \<Rightarrow>
                    Inr (deny (lit ''recovery ledger is saturated with unresolved attempts; no create was dispatched''), w')
                | CreateAllowed updated \<Rightarrow> Inr (pre_allow updated None, w'))))"

section \<open>After create_thread\<close>

definition pending_match :: "pystr \<Rightarrow> pystr \<Rightarrow> attempt \<Rightarrow> bool" where
  "pending_match sid fp a \<longleftrightarrow> session_id a = sid \<and> fingerprint a = fp \<and> status a = Pending"

definition post_create_mutate ::
    "pystr \<Rightarrow> pystr \<Rightarrow> attempt_status \<Rightarrow> result_class \<Rightarrow> pystr option
     \<Rightarrow> attempt list \<Rightarrow> (bool \<times> attempt list) res" where
  "post_create_mutate sid fp st cls peer xs =
     (case find_last (pending_match sid fp) xs of
        None \<Rightarrow> Inr (False, xs)
      | Some _ \<Rightarrow>
          Inr (True, update_last (pending_match sid fp)
            (\<lambda>a. a\<lparr>status := st, result_classification := cls,
                   blocks_create := (if st = Uncertain then True else blocks_create a),
                   peer_id := (if peer = None then peer_id a else peer),
                   reconciliation_used := False\<rparr>) xs))"

definition post_create :: "hook_env \<Rightarrow> dict \<Rightarrow> world \<Rightarrow> (json \<times> world) res" where
  "post_create E event w =
     (case event_session_id event of
        None \<Rightarrow> Inr (warning (lit ''session_id is absent or malformed; recovery state was not inspected''), w)
      | Some sid \<Rightarrow>
          (case get_or_null event ''tool_input'' of
             JObj tool_input \<Rightarrow>
               (case bind_res (repair_payload E (JObj tool_input))
                       (\<lambda>(repaired, _, context). fingerprint_of E repaired context) of
                  Inl (PayloadError _) \<Rightarrow>
                    Inr (warning (lit ''could not fingerprint create_thread result; recovery remains fail-open''), w)
                | Inl e \<Rightarrow> Inl e
                | Inr fp \<Rightarrow>
                    bind_res (classify_create_response E (get_or_null event ''tool_response''))
                      (\<lambda>(st, cls, peer).
                        bind_res (transaction (post_create_mutate sid fp st cls peer) w) (\<lambda>(found, w').
                          if \<not> found
                          then Inr (warning (lit ''create_thread result had no matching pre-dispatch attempt''), w')
                          else if st = Uncertain
                          then Inr (post_context (lit ''create_thread result classified as error/uncertain. Perform exactly one read-only list_threads reconciliation matching the exact title and target project context; never create another peer in this recovery.''), w')
                          else if st = Queued
                          then Inr (post_context (lit ''create_thread queued successfully; do not retry or create a duplicate.''), w')
                          else Inr (post_context (lit ''create_thread confirmed successfully; recovery state is clear.''), w'))))
           | _ \<Rightarrow> Inr (warning (lit ''could not identify create_thread arguments; recovery remains fail-open''), w)))"

section \<open>Before list_threads\<close>

datatype list_outcome = ListOrdinary | ListDuplicate | ListReserved

definition pre_list_mutate :: "pystr \<Rightarrow> pystr option \<Rightarrow> attempt list \<Rightarrow> (list_outcome \<times> attempt list) res" where
  "pre_list_mutate sid turn xs =
     (case find_last (unresolved_in sid) xs of
        None \<Rightarrow> Inr (ListOrdinary, xs)
      | Some a \<Rightarrow>
          if reconciliation_used a then Inr (ListDuplicate, xs)
          else Inr (ListReserved, update_last (unresolved_in sid)
                 (\<lambda>a. a\<lparr>reconciliation_used := True, reconciliation_turn_id := turn\<rparr>) xs))"

definition pre_list :: "hook_env \<Rightarrow> dict \<Rightarrow> world \<Rightarrow> (json \<times> world) res" where
  "pre_list E event w =
     (case event_session_id event of
        None \<Rightarrow>
          Inr (pre_allow None
                 (Some (lit ''session_id is absent or malformed; reconciliation state was not inspected'')), w)
      | Some sid \<Rightarrow>
          bind_res
            (transaction (pre_list_mutate sid (bounded_optional (get_or_null event ''turn_id'') MAX_ID)) w)
            (\<lambda>(outcome, w').
               if outcome = ListDuplicate
               then Inr (deny (lit ''only one list_threads reconciliation is allowed for an unresolved create''), w')
               else Inr (pre_allow None None, w')))"

section \<open>After list_threads\<close>

text \<open>One round of the loop over the listed threads: the exact peers and the uncertain matches.\<close>

definition match_item ::
    "hook_env \<Rightarrow> attempt \<Rightarrow> json \<Rightarrow> pystr list \<times> nat \<Rightarrow> pystr list \<times> nat" where
  "match_item E a item acc =
     (let (matches, uncertain) = acc; more = (matches, min (uncertain + 1) MAX_RETAINED_MATCHES)
      in case item of
           JObj c \<Rightarrow>
             (let tm = candidate_title_match E (att_title_identity a) c; cx = candidate_context c
              in if tm = NoMatch then acc
                 else if cx = None then more
                 else if \<not> context_matches (target a) cx then acc
                 else if tm = Exact then
                   (case valid_id E (get_or_null c ''threadId'') of
                      None \<Rightarrow> more
                    | Some p \<Rightarrow>
                        (if length matches < MAX_RETAINED_MATCHES then matches @ [p] else matches, uncertain))
                 else more)
         | _ \<Rightarrow> more)"

definition match_items :: "hook_env \<Rightarrow> attempt \<Rightarrow> json list \<Rightarrow> pystr list \<times> nat" where
  "match_items E a items = fold (match_item E a) items ([], 0)"

datatype verdict = Ordinary | Found pystr | NoPeer | Disputed

definition awaiting_list :: "pystr \<Rightarrow> attempt \<Rightarrow> bool" where
  "awaiting_list sid a \<longleftrightarrow> session_id a = sid \<and> status a = Uncertain \<and> reconciliation_used a"

definition mark_ambiguous :: "reconciliation_class \<Rightarrow> attempt \<Rightarrow> attempt" where
  "mark_ambiguous c a =
     a\<lparr>status := Ambiguous, blocks_create := True, result_classification := ReconciledAmbiguous,
       reconciliation_classification := Some c\<rparr>"

definition post_list_mutate ::
    "hook_env \<Rightarrow> pystr \<Rightarrow> snapshot_class \<Rightarrow> json list \<Rightarrow> attempt list \<Rightarrow> (verdict \<times> attempt list) res" where
  "post_list_mutate E sid snapshot items xs =
     (case find_last (awaiting_list sid) xs of
        None \<Rightarrow> Inr (Ordinary, xs)
      | Some a \<Rightarrow>
          if snapshot \<noteq> ValidSnapshot then
            Inr (Disputed, update_last (awaiting_list sid)
                   (mark_ambiguous (if snapshot = InvalidSnapshot then RecInvalid else RecOversized)) xs)
          else
            let (matches, uncertain) = match_items E a items
            in if length matches = 1 \<and> uncertain = 0 then
                 Inr (Found (hd matches), update_last (awaiting_list sid)
                   (\<lambda>a. a\<lparr>status := Confirmed, result_classification := ReconciledFound,
                          reconciliation_classification := Some RecFound, peer_id := Some (hd matches)\<rparr>) xs)
               else if items = [] \<and> matches = [] \<and> uncertain = 0 then
                 Inr (NoPeer, update_last (awaiting_list sid)
                   (\<lambda>a. a\<lparr>status := NotFound, result_classification := ReconciledNotFound,
                          reconciliation_classification := Some RecNotFound\<rparr>) xs)
               else Inr (Disputed, update_last (awaiting_list sid) (mark_ambiguous RecAmbiguous) xs))"

definition post_list :: "hook_env \<Rightarrow> dict \<Rightarrow> world \<Rightarrow> (json \<times> world) res" where
  "post_list E event w =
     (case event_session_id event of
        None \<Rightarrow> Inr (warning (lit ''session_id is absent or malformed; reconciliation state was not inspected''), w)
      | Some sid \<Rightarrow>
          bind_res (candidate_items E (get_or_null event ''tool_response'')) (\<lambda>(snapshot, items).
            bind_res (transaction (post_list_mutate E sid snapshot items) w) (\<lambda>(v, w').
              case v of
                Found p \<Rightarrow>
                  Inr (post_context (lit ''Reconciliation found exactly one existing peer''
                         @ (if p = [] then [] else lit '' ('' @ p @ lit '')'')
                         @ lit ''. Continue with it; never create another peer.''), w')
              | NoPeer \<Rightarrow>
                  Inr (post_context (lit ''Reconciliation returned a valid empty snapshot. No peer was found; do not retry create_thread or replace the permanently blocked attempt.''), w')
              | Disputed \<Rightarrow>
                  Inr (post_context (lit ''Reconciliation was invalid, oversized, or could not prove one exact addressable title and target identity. Stop and request manual disambiguation; do not create or replace a peer.''), w')
              | Ordinary \<Rightarrow> Inr (JObj [], w'))))"

section \<open>Stop and session start\<close>

definition stop_mutate :: "pystr \<Rightarrow> attempt list \<Rightarrow> (bool \<times> attempt list) res" where
  "stop_mutate sid xs =
     (case find_last (unresolved_in sid) xs of
        None \<Rightarrow> Inr (False, xs)
      | Some a \<Rightarrow>
          if stop_surface_used a then Inr (False, xs)
          else Inr (True, update_last (unresolved_in sid) (\<lambda>a. a\<lparr>stop_surface_used := True\<rparr>) xs))"

definition stop :: "dict \<Rightarrow> world \<Rightarrow> (json \<times> world) res" where
  "stop event w =
     (if get event ''stop_hook_active'' = Some (JBool True) then Inr (JObj [], w)
      else case event_session_id event of
        None \<Rightarrow> Inr (warning (lit ''session_id is absent or malformed; unresolved recovery was not inspected''), w)
      | Some sid \<Rightarrow>
          bind_res (transaction (stop_mutate sid) w) (\<lambda>(surfaced, w').
            if \<not> surfaced then Inr (JObj [], w')
            else Inr (JObj [(lit ''decision'', JStr (lit ''block'')),
                            (lit ''reason'', JStr (lit ''An unresolved native create_thread attempt is recorded. Perform the single permitted read-only list_threads reconciliation (or report manual ambiguity); never create a continuation or duplicate peer.''))], w')))"

definition last_n :: "nat \<Rightarrow> 'a list \<Rightarrow> 'a list" where
  "last_n n xs = drop (length xs - n) xs"

fun status_text :: "attempt_status \<Rightarrow> string" where
  "status_text Pending = ''pending''"
| "status_text Uncertain = ''uncertain''"
| "status_text Confirmed = ''confirmed''"
| "status_text Queued = ''queued''"
| "status_text Ambiguous = ''ambiguous''"
| "status_text NotFound = ''not_found''"

text \<open>\<open>repr_value\<close> stands for \<open>!r\<close>, on the title and on the target dictionary.\<close>

definition resume_text :: "hook_env \<Rightarrow> attempt \<Rightarrow> pystr" where
  "resume_text E a =
     lit ''Unresolved native create_thread recovery for title '' @ repr_value E (JStr (title a))
     @ lit '', target project context ''
     @ repr_value E (context_json (target a))
     @ lit '', status '' @ lit (status_text (status a))
     @ lit ''. Perform at most one read-only list_threads reconciliation; do not create a replacement.''"

definition session_start_mutate ::
    "hook_env \<Rightarrow> pystr \<Rightarrow> attempt list \<Rightarrow> (pystr option \<times> attempt list) res" where
  "session_start_mutate E sid xs =
     (case find_last (unresolved_in sid) xs of
        None \<Rightarrow> Inr (None, xs)
      | Some a \<Rightarrow>
          if sid \<in> set (resume_sessions a) then Inr (None, xs)
          else Inr (Some (resume_text E a), update_last (unresolved_in sid)
                 (\<lambda>a. a\<lparr>resume_sessions := last_n MAX_SEEN_SESSIONS (resume_sessions a @ [sid])\<rparr>) xs))"

definition session_start :: "hook_env \<Rightarrow> dict \<Rightarrow> world \<Rightarrow> (json \<times> world) res" where
  "session_start E event w =
     (if get event ''source'' \<noteq> Some (JStr (lit ''resume'')) then Inr (JObj [], w)
      else case event_session_id event of
        None \<Rightarrow> Inr (warning (lit ''session_id is absent or malformed; unresolved recovery was not inspected''), w)
      | Some sid \<Rightarrow>
          bind_res (transaction (session_start_mutate E sid) w) (\<lambda>(context, w').
            case context of
              None \<Rightarrow> Inr (JObj [], w')
            | Some c \<Rightarrow>
                Inr (JObj [(lit ''hookSpecificOutput'',
                       JObj [(lit ''hookEventName'', JStr (lit ''SessionStart'')),
                             (lit ''additionalContext'', JStr c)])], w')))"

section \<open>Dispatch\<close>

text \<open>\<open>tool_name in {expected, ...}\<close> hashes its left side, which a list or a dictionary refuses.\<close>

definition is_tool :: "json \<Rightarrow> string \<Rightarrow> bool res" where
  "is_tool tool_name expected =
     (case tool_name of
        JArr _ \<Rightarrow> Inl (TypeError (lit ''unhashable type: list''))
      | JObj _ \<Rightarrow> Inl (TypeError (lit ''unhashable type: dict''))
      | JStr t \<Rightarrow> Inr (t = lit expected \<or> t = lit ''codex_app__'' @ lit expected)
      | _ \<Rightarrow> Inr False)"

definition dispatch :: "hook_env \<Rightarrow> dict \<Rightarrow> world \<Rightarrow> (json \<times> world) res" where
  "dispatch E event w =
     (let name = get_or_null event ''hook_event_name''; tool = get_or_null event ''tool_name''
      in if name = JStr (lit ''PreToolUse'') then
           bind_res (is_tool tool ''create_thread'') (\<lambda>create.
             if create then
               (case allow_pre_create E event w of
                  Inl (PayloadError m) \<Rightarrow> Inr (deny m, w)
                | r \<Rightarrow> r)
             else bind_res (is_tool tool ''list_threads'') (\<lambda>l.
               if l then pre_list E event w else Inr (JObj [], w)))
         else if name = JStr (lit ''PostToolUse'') then
           bind_res (is_tool tool ''create_thread'') (\<lambda>create.
             if create then post_create E event w
             else bind_res (is_tool tool ''list_threads'') (\<lambda>l.
               if l then post_list E event w else Inr (JObj [], w)))
         else if name = JStr (lit ''Stop'') then stop event w
         else if name = JStr (lit ''SessionStart'') then session_start E event w
         else Inr (JObj [], w))"

fun exception_name :: "py_error \<Rightarrow> string" where
  "exception_name (ValueError _) = ''ValueError''"
| "exception_name (PayloadError _) = ''PayloadError''"
| "exception_name (KeyError _) = ''KeyError''"
| "exception_name (TypeError _) = ''TypeError''"
| "exception_name (AttributeError _) = ''AttributeError''"
| "exception_name (OverflowError _) = ''OverflowError''"
| "exception_name (RuntimeError _) = ''RuntimeError''"
| "exception_name (RecordNotFound _) = ''RecordNotFound''"
| "exception_name (StaleWriter _) = ''StaleWriter''"
| "exception_name (HarnessRefreshBlocked _) = ''HarnessRefreshBlocked''"
| "exception_name (CorruptSchemaError _) = ''CorruptSchemaError''"
| "exception_name (IllegalTransition _) = ''IllegalTransition''"
| "exception_name (LedgerError _) = ''LedgerError''"
| "exception_name (InvalidTransition _) = ''InvalidTransition''"
| "exception_name (DispatchConflict _) = ''DispatchConflict''"
| "exception_name (WorkspaceLeaseConflict _) = ''WorkspaceLeaseConflict''"
| "exception_name (NativeCompatibilityConflict _) = ''NativeCompatibilityConflict''"
| "exception_name (NativePermissionConflict _) = ''NativePermissionConflict''"

text \<open>The body of \<open>main\<close> for a decoded event: every exception of a handler fails open.\<close>

definition run_event :: "hook_env \<Rightarrow> dict \<Rightarrow> world \<Rightarrow> json \<times> world" where
  "run_event E event w =
     (case dispatch E event w of
        Inl e \<Rightarrow> (warning (lit ''internal '' @ lit (exception_name e)), w)
      | Inr r \<Rightarrow> r)"

text \<open>\<open>main\<close>: \<open>None\<close> when decoding the input raises what \<open>_safe_event\<close> does not catch.\<close>

definition main :: "hook_env \<Rightarrow> pystr \<Rightarrow> world \<Rightarrow> (json \<times> world) option" where
  "main E raw w =
     (case json_loads E raw of
        Loaded (JObj event) \<Rightarrow> Some (run_event E event w)
      | Loaded _ \<Rightarrow> Some (warning (lit ''input was not a JSON object''), w)
      | JSONDecodeError \<Rightarrow> Some (warning (lit ''input was not a JSON object''), w)
      | RecursionError \<Rightarrow> None
      | OtherError _ \<Rightarrow> None)"

end
