(* ===== verification/Hook_Safety.thy ===== *)
theory Hook_Safety
  imports Hook_Ledger
begin

text \<open>
  What the handoff hook guarantees: the invariant of its store, kept by every event; the
  abstract life of one session, which every event refines; and the facts about trimming,
  locating and replacing attempts they rest on.
\<close>

section \<open>Trimming\<close>

definition resolved_count :: "attempt list \<Rightarrow> nat" where
  "resolved_count xs = length (filter (\<lambda>a. \<not> is_recovery_blocking a) xs)"

lemma counts_sum: "blocking_count xs + resolved_count xs = length xs"
  unfolding blocking_count_def resolved_count_def by (rule sum_length_filter_compl)

lemma drop_resolved_spec:
  "drop_resolved n xs = (m, ys) \<Longrightarrow>
     m = n - resolved_count xs
     \<and> length ys + min n (resolved_count xs) = length xs
     \<and> filter is_recovery_blocking ys = filter is_recovery_blocking xs
     \<and> set ys \<subseteq> set xs"
proof (induction n xs arbitrary: m ys rule: drop_resolved.induct)
  case (1 n)
  then show ?case by (simp add: resolved_count_def)
next
  case (2 n a xs)
  show ?case
  proof (cases "0 < n \<and> \<not> is_recovery_blocking a")
    case True
    with 2(1) [OF True] 2(3) show ?thesis by (auto simp: resolved_count_def)
  next
    case False
    obtain m' ys' where r: "drop_resolved n xs = (m', ys')" by fastforce
    from 2(2) [OF False r] 2(3) False r show ?thesis by (auto simp: resolved_count_def)
  qed
qed

lemma trim_attempts_short: "length xs \<le> MAX_ATTEMPTS \<Longrightarrow> trim_attempts xs = Inr xs"
  using counts_sum [of xs] by (simp add: trim_attempts_def)

lemma trim_attempts_ok:
  assumes "blocking_count xs \<le> MAX_ATTEMPTS"
  obtains ys where "trim_attempts xs = Inr ys" "length ys \<le> MAX_ATTEMPTS" "set ys \<subseteq> set xs"
    "filter is_recovery_blocking ys = filter is_recovery_blocking xs"
proof (cases "length xs \<le> MAX_ATTEMPTS")
  case True
  with that [of xs] show thesis by (simp add: trim_attempts_short)
next
  case False
  obtain m ys where r: "drop_resolved (length xs - MAX_ATTEMPTS) xs = (m, ys)" by fastforce
  note spec = drop_resolved_spec [OF r]
  have "length xs - MAX_ATTEMPTS \<le> resolved_count xs"
    using assms counts_sum [of xs] by linarith
  with spec have "m = 0" "length ys + (length xs - MAX_ATTEMPTS) = length xs" by simp_all
  with False have "length ys \<le> MAX_ATTEMPTS" by simp
  with that [of ys] show thesis
    using assms False r spec \<open>m = 0\<close> by (simp add: trim_attempts_def)
qed

section \<open>Locating and replacing\<close>

lemma update_first_split:
  "find P xs = Some a \<Longrightarrow>
     \<exists>ys zs. xs = ys @ a # zs \<and> P a \<and> (\<forall>y\<in>set ys. \<not> P y) \<and> update_first P f xs = ys @ f a # zs"
proof (induction xs)
  case Nil
  then show ?case by simp
next
  case (Cons x xs)
  show ?case
  proof (cases "P x")
    case True
    with Cons.prems show ?thesis by (intro exI [of _ "[]"] exI [of _ xs]) simp
  next
    case False
    with Cons obtain ys zs where "xs = ys @ a # zs" "P a" "\<forall>y\<in>set ys. \<not> P y"
      "update_first P f xs = ys @ f a # zs" by auto
    with False show ?thesis by (intro exI [of _ "x # ys"] exI [of _ zs]) simp
  qed
qed

lemma update_last_split:
  assumes "find_last P xs = Some a"
  obtains ys zs where "xs = ys @ a # zs" "P a" "update_last P f xs = ys @ f a # zs"
proof -
  from update_first_split [of P "rev xs" a f] assms obtain ys zs where
    "rev xs = ys @ a # zs" "P a" "update_first P f (rev xs) = ys @ f a # zs"
    by (auto simp: find_last_def)
  then have "xs = rev zs @ a # rev ys" "update_last P f xs = rev zs @ f a # rev ys"
    by (simp_all add: update_last_def rev_swap)
  with \<open>P a\<close> that show thesis by blast
qed

lemma find_last_None: "find_last P xs = None \<longleftrightarrow> (\<forall>x\<in>set xs. \<not> P x)"
  by (auto simp: find_last_def find_None_iff)

section \<open>The invariant of the store\<close>

definition one_unresolved :: "attempt list \<Rightarrow> bool" where
  "one_unresolved xs \<longleftrightarrow> (\<forall>sid. length (filter (unresolved_in sid) xs) \<le> 1)"

definition failures_block :: "attempt list \<Rightarrow> bool" where
  "failures_block xs \<longleftrightarrow>
     (\<forall>a\<in>set xs. status a \<in> {Uncertain, Ambiguous, NotFound} \<longrightarrow> blocks_create a)"

definition pending_alone :: "attempt list \<Rightarrow> bool" where
  "pending_alone xs \<longleftrightarrow>
     (\<forall>a\<in>set xs. \<forall>b\<in>set xs. session_id a = session_id b \<and> status a = Pending \<longrightarrow> \<not> blocks_create b)"

definition store_inv :: "attempt list \<Rightarrow> bool" where
  "store_inv xs \<longleftrightarrow> length xs \<le> MAX_ATTEMPTS \<and> one_unresolved xs \<and> failures_block xs \<and> pending_alone xs"

definition attempts_of :: "world \<Rightarrow> attempt list" where
  "attempts_of w = (case store w of None \<Rightarrow> [] | Some xs \<Rightarrow> xs)"

definition world_inv :: "world \<Rightarrow> bool" where
  "world_inv w \<longleftrightarrow> store_inv (attempts_of w)"

lemma store_inv_Nil: "store_inv []"
  by (simp add: store_inv_def one_unresolved_def failures_block_def pending_alone_def)

lemma read_state_inv: "world_inv w \<Longrightarrow> read_state w = Inr (attempts_of w)"
  by (auto simp: world_inv_def store_inv_def read_state_def attempts_of_def trim_attempts_short
      split: option.splits)

lemma status_simps:
  "is_unresolved a \<longleftrightarrow> status a = Pending \<or> status a = Uncertain"
  "unresolved_in sid a \<longleftrightarrow> session_id a = sid \<and> (status a = Pending \<or> status a = Uncertain)"
  by (auto simp: is_unresolved_def unresolved_in_def)

text \<open>No other attempt of the session of an unresolved one is unresolved.\<close>

lemma one_unresolved_split:
  assumes "one_unresolved (ys @ a # zs)" "is_unresolved a" "b \<in> set ys \<union> set zs"
    "session_id b = session_id a"
  shows "\<not> is_unresolved b"
proof
  assume un: "is_unresolved b"
  let ?P = "unresolved_in (session_id a)"
  have "length (filter ?P (ys @ a # zs)) \<le> 1"
    using assms(1) by (simp only: one_unresolved_def)
  moreover have "?P a" using assms(2) by (simp add: unresolved_in_def)
  ultimately have "filter ?P ys = []" "filter ?P zs = []" by simp_all
  then have "\<not> ?P b" using assms(3) by (auto simp: filter_empty_conv)
  with un assms(4) show False by (simp add: unresolved_in_def)
qed

text \<open>Every update replaces one unresolved attempt by one of the same session.\<close>

definition legal_update :: "attempt \<Rightarrow> attempt \<Rightarrow> bool" where
  "legal_update a b \<longleftrightarrow>
     session_id b = session_id a
     \<and> (status b = Pending \<longrightarrow> status a = Pending)
     \<and> (status b = status a \<or> status b \<noteq> Pending)
     \<and> (status b \<in> {Uncertain, Ambiguous, NotFound} \<longrightarrow> blocks_create b)
     \<and> (status b = Pending \<longrightarrow> blocks_create b = blocks_create a)
     \<and> (blocks_create a \<longrightarrow> blocks_create b)"

lemma store_inv_replace:
  assumes inv: "store_inv (ys @ a # zs)" and un: "is_unresolved a" and upd: "legal_update a b"
  shows "store_inv (ys @ b # zs)"
proof -
  from inv have one: "one_unresolved (ys @ a # zs)" and fail: "failures_block (ys @ a # zs)"
    and alone: "pending_alone (ys @ a # zs)" and len: "length (ys @ a # zs) \<le> MAX_ATTEMPTS"
    by (auto simp: store_inv_def)
  have "unresolved_in sid b \<Longrightarrow> unresolved_in sid a" for sid
    using un upd by (auto simp: unresolved_in_def legal_update_def)
  with one have "one_unresolved (ys @ b # zs)"
    unfolding one_unresolved_def by (force split: if_splits dest: spec)
  moreover from fail upd have "failures_block (ys @ b # zs)"
    by (auto simp: failures_block_def legal_update_def)
  moreover have "pending_alone (ys @ b # zs)"
  proof (unfold pending_alone_def, intro ballI impI, elim conjE)
    fix c d
    assume cd: "c \<in> set (ys @ b # zs)" "d \<in> set (ys @ b # zs)"
      and same: "session_id c = session_id d" and pend: "status c = Pending"
    show "\<not> blocks_create d"
    proof (cases "c \<in> set ys \<union> set zs \<and> session_id c = session_id a")
      case True
      with one un pend show ?thesis using one_unresolved_split [OF one un, of c]
        by (auto simp: is_unresolved_def)
    next
      case False
      with cd same pend upd alone show ?thesis
        by (auto simp: pending_alone_def legal_update_def)
    qed
  qed
  ultimately show ?thesis using len by (simp add: store_inv_def)
qed

text \<open>A new attempt enters only a session with nothing unresolved and nothing blocking.\<close>

lemma store_inv_subset_blocking:
  assumes inv: "one_unresolved xs" "failures_block xs" "pending_alone xs"
    and sub: "set ys \<subseteq> set xs" and len: "length ys \<le> MAX_ATTEMPTS"
    and same: "filter is_recovery_blocking ys = filter is_recovery_blocking xs"
  shows "store_inv ys"
proof -
  have "filter (unresolved_in sid) zs = filter (unresolved_in sid) (filter is_recovery_blocking zs)" for sid zs
    unfolding filter_filter
    by (rule filter_cong) (auto simp: is_recovery_blocking_def unresolved_in_def)
  then have "one_unresolved ys" using inv(1) same unfolding one_unresolved_def by metis
  moreover have "failures_block ys" using inv(2) sub unfolding failures_block_def by blast
  moreover have "pending_alone ys" using inv(3) sub unfolding pending_alone_def by blast
  ultimately show ?thesis using len by (simp add: store_inv_def)
qed

lemma append_new_inv:
  assumes inv: "store_inv xs" and free: "\<forall>a\<in>set xs. \<not> blocks_session (session_id n) a"
    and n: "status n = Pending" "\<not> blocks_create n"
  shows "one_unresolved (xs @ [n])" "failures_block (xs @ [n])" "pending_alone (xs @ [n])"
proof -
  have "filter (unresolved_in (session_id n)) xs = []"
    using free by (auto simp: filter_empty_conv unresolved_in_def blocks_session_def)
  with inv show "one_unresolved (xs @ [n])"
    by (auto simp: one_unresolved_def store_inv_def unresolved_in_def)
  from inv n show "failures_block (xs @ [n])" by (auto simp: failures_block_def store_inv_def)
  from inv n free show "pending_alone (xs @ [n])"
    by (auto simp: pending_alone_def store_inv_def blocks_session_def is_unresolved_def)
qed

section \<open>The abstract life of a session\<close>

text \<open>
  A session is free, has a create in flight, is recovering (with its one list reconciliation
  still available or already reserved), or is blocked for good.
\<close>

datatype phase = Free | InFlight | Recovering bool | Blocked

definition phase_of :: "pystr \<Rightarrow> attempt list \<Rightarrow> phase" where
  "phase_of sid xs =
     (case find (unresolved_in sid) xs of
        Some a \<Rightarrow> if status a = Pending then InFlight else Recovering (reconciliation_used a)
      | None \<Rightarrow> if \<exists>a\<in>set xs. session_id a = sid \<and> blocks_create a then Blocked else Free)"

inductive phase_step :: "phase \<Rightarrow> phase \<Rightarrow> bool" where
  create: "phase_step Free InFlight"
| settled: "phase_step InFlight Free"
| failed: "phase_step InFlight (Recovering False)"
| reserved: "phase_step (Recovering False) (Recovering True)"
| reconciled: "phase_step (Recovering True) Blocked"

inductive_simps phase_step_Free: "phase_step Free q"
inductive_simps phase_step_InFlight: "phase_step InFlight q"
inductive_simps phase_step_Recovering: "phase_step (Recovering b) q"
inductive_simps phase_step_Blocked: "phase_step Blocked q"

lemmas phase_step_simps = phase_step_Free phase_step_InFlight phase_step_Recovering phase_step_Blocked

definition advances :: "attempt list \<Rightarrow> attempt list \<Rightarrow> bool" where
  "advances xs ys \<longleftrightarrow>
     (\<forall>sid. phase_of sid ys = phase_of sid xs \<or> phase_step (phase_of sid xs) (phase_of sid ys))"

lemma advances_refl [simp]: "advances xs xs"
  by (simp add: advances_def)

definition attempt_phase :: "attempt \<Rightarrow> phase" where
  "attempt_phase a =
     (if status a = Pending then InFlight
      else if status a = Uncertain then Recovering (reconciliation_used a)
      else if blocks_create a then Blocked else Free)"

lemma find_append: "find P (xs @ ys) = (case find P xs of None \<Rightarrow> find P ys | Some x \<Rightarrow> Some x)"
  by (induction xs) auto

lemma phase_of_split:
  assumes none: "\<forall>c\<in>set ys \<union> set zs. session_id c = sid \<longrightarrow> \<not> is_unresolved c"
    and sid: "session_id b = sid"
    and blk: "is_unresolved b \<or> blocks_create b \<or> (\<forall>c\<in>set ys \<union> set zs. session_id c = sid \<longrightarrow> \<not> blocks_create c)"
  shows "phase_of sid (ys @ b # zs) = attempt_phase b"
proof -
  have "find (unresolved_in sid) ys = None" "find (unresolved_in sid) zs = None"
    using none by (auto simp: find_None_iff unresolved_in_def)
  then show ?thesis
    using sid blk
    by (auto simp: phase_of_def attempt_phase_def find_append unresolved_in_def is_unresolved_def)
qed

lemma phase_of_other:
  assumes "session_id a \<noteq> sid" "session_id b \<noteq> sid"
  shows "phase_of sid (ys @ b # zs) = phase_of sid (ys @ a # zs)"
  using assms by (auto simp: phase_of_def find_append unresolved_in_def split: option.splits)

lemma advances_replace:
  assumes inv: "store_inv (ys @ a # zs)" and un: "is_unresolved a" and upd: "legal_update a b"
    and move: "attempt_phase b = attempt_phase a \<or> phase_step (attempt_phase a) (attempt_phase b)"
  shows "advances (ys @ a # zs) (ys @ b # zs)"
  unfolding advances_def
proof
  fix sid
  show "phase_of sid (ys @ b # zs) = phase_of sid (ys @ a # zs)
    \<or> phase_step (phase_of sid (ys @ a # zs)) (phase_of sid (ys @ b # zs))"
  proof (cases "session_id a = sid")
    case False
    with upd have "session_id b \<noteq> sid" by (simp add: legal_update_def)
    then have "phase_of sid (ys @ b # zs) = phase_of sid (ys @ a # zs)"
      by (rule phase_of_other [OF False])
    then show ?thesis ..
  next
    case True
    from inv have one: "one_unresolved (ys @ a # zs)" by (simp add: store_inv_def)
    have none: "\<forall>c\<in>set ys \<union> set zs. session_id c = sid \<longrightarrow> \<not> is_unresolved c"
    proof (intro ballI impI)
      fix c
      assume "c \<in> set ys \<union> set zs" "session_id c = sid"
      then show "\<not> is_unresolved c"
        using one_unresolved_split [OF one un, of c] True by simp
    qed
    have "phase_of sid (ys @ a # zs) = attempt_phase a"
      by (rule phase_of_split [OF none]) (use True un in auto)
    moreover have "phase_of sid (ys @ b # zs) = attempt_phase b"
    proof (rule phase_of_split [OF none])
      show "session_id b = sid" using True upd by (simp add: legal_update_def)
      show "is_unresolved b \<or> blocks_create b \<or>
        (\<forall>c\<in>set ys \<union> set zs. session_id c = sid \<longrightarrow> \<not> blocks_create c)"
      proof (cases "status a = Pending")
        case True
        with inv \<open>session_id a = sid\<close> show ?thesis
          by (auto simp: store_inv_def pending_alone_def)
      next
        case False
        with un inv have "blocks_create a"
          by (auto simp: store_inv_def failures_block_def is_unresolved_def)
        with upd show ?thesis by (simp add: legal_update_def)
      qed
    qed
    ultimately show ?thesis using move by simp
  qed
qed

lemma phase_of_blocking: "phase_of sid (filter is_recovery_blocking xs) = phase_of sid xs"
proof -
  have "find (unresolved_in sid) (filter is_recovery_blocking xs) = find (unresolved_in sid) xs"
    by (induction xs) (auto simp: is_recovery_blocking_def unresolved_in_def)
  then show ?thesis by (auto simp: phase_of_def is_recovery_blocking_def split: option.splits)
qed

lemma phase_of_Free_iff:
  "phase_of sid xs = Free \<longleftrightarrow> (\<forall>a\<in>set xs. \<not> blocks_session sid a)"
proof (cases "find (unresolved_in sid) xs")
  case None
  then have "\<forall>a\<in>set xs. \<not> unresolved_in sid a" by (auto simp: find_None_iff)
  with None show ?thesis
    by (auto simp: phase_of_def blocks_session_def unresolved_in_def)
next
  case (Some a)
  then have "a \<in> set xs" "unresolved_in sid a" by (auto simp: find_Some_iff)
  then have "\<exists>a\<in>set xs. blocks_session sid a"
    by (auto simp: blocks_session_def unresolved_in_def)
  with Some show ?thesis by (simp add: phase_of_def)
qed

lemma phase_of_append_new:
  assumes "phase_of (session_id n) xs = Free" "status n = Pending" "\<not> blocks_create n"
  shows "phase_of sid (xs @ [n]) = (if sid = session_id n then InFlight else phase_of sid xs)"
proof -
  from assms(1) have "find (unresolved_in (session_id n)) xs = None"
    by (auto simp: phase_of_Free_iff find_None_iff blocks_session_def unresolved_in_def)
  with assms(2,3) show ?thesis
    by (auto simp: phase_of_def find_append unresolved_in_def is_unresolved_def split: option.splits)
qed

end
