(* ===== verification/Hook_Events.thy ===== *)
theory Hook_Events
  imports Hook_Safety
begin

text \<open>
  Every hook event keeps the invariant of the store and moves each session along its abstract
  life; a blocked or unresolved session never gets another \<open>create_thread\<close>; and the fail-open
  path of the entry point is not reachable through the ledger's own limits.
\<close>

section \<open>Each mutator\<close>

lemma update_last_step:
  assumes inv: "store_inv xs" and find: "find_last P xs = Some a"
    and P: "\<And>a. P a \<Longrightarrow> is_unresolved a"
    and upd: "is_unresolved a \<Longrightarrow> (status a = Uncertain \<Longrightarrow> blocks_create a) \<Longrightarrow>
      (status a = Pending \<Longrightarrow> \<not> blocks_create a) \<Longrightarrow> P a \<Longrightarrow>
      legal_update a (f a) \<and>
      (attempt_phase (f a) = attempt_phase a \<or> phase_step (attempt_phase a) (attempt_phase (f a)))"
  shows "store_inv (update_last P f xs)" and "advances xs (update_last P f xs)"
    and "length (update_last P f xs) = length xs"
proof -
  from update_last_split [OF find] obtain ys zs where
    xs: "xs = ys @ a # zs" and Pa: "P a" and eq: "update_last P f xs = ys @ f a # zs" by metis
  from Pa have un: "is_unresolved a" by (rule P)
  have blk: "status a = Uncertain \<Longrightarrow> blocks_create a"
    and alone: "status a = Pending \<Longrightarrow> \<not> blocks_create a"
    using inv xs by (auto simp: store_inv_def failures_block_def pending_alone_def)
  note step = upd [OF un blk alone Pa]
  show "store_inv (update_last P f xs)"
    using store_inv_replace [of ys a zs "f a"] inv xs un step eq by simp
  show "advances xs (update_last P f xs)"
    using advances_replace [of ys a zs "f a"] inv xs un step eq by simp
  show "length (update_last P f xs) = length xs" unfolding eq by (simp add: xs)
qed

text \<open>What a mutator owes: it keeps the invariant and advances every session.\<close>

definition good_mutator :: "(attempt list \<Rightarrow> ('a \<times> attempt list) res) \<Rightarrow> bool" where
  "good_mutator m \<longleftrightarrow>
     (\<forall>xs. store_inv xs \<longrightarrow> (\<exists>r ys. m xs = Inr (r, ys) \<and> store_inv ys \<and> advances xs ys))"

text \<open>
  Every mutator but the one that records an attempt has one shape: find the last attempt that
  matches, decide from it, and either leave the list or update that attempt in place.
\<close>

lemma good_update_mutator:
  assumes shape: "\<And>xs. m xs = (case find_last P xs of
      None \<Rightarrow> Inr (r0, xs)
    | Some a \<Rightarrow> (case g a of None \<Rightarrow> Inr (r1, xs) | Some (r, f) \<Rightarrow> Inr (r, update_last P f xs)))"
    and un: "\<And>a. P a \<Longrightarrow> is_unresolved a"
    and upd: "\<And>a r f. g a = Some (r, f) \<Longrightarrow> (status a = Uncertain \<Longrightarrow> blocks_create a) \<Longrightarrow>
      (status a = Pending \<Longrightarrow> \<not> blocks_create a) \<Longrightarrow> P a \<Longrightarrow>
      legal_update a (f a) \<and>
      (attempt_phase (f a) = attempt_phase a \<or> phase_step (attempt_phase a) (attempt_phase (f a)))"
  shows "good_mutator m"
  unfolding good_mutator_def
proof (intro allI impI)
  fix xs
  assume inv: "store_inv xs"
  show "\<exists>r ys. m xs = Inr (r, ys) \<and> store_inv ys \<and> advances xs ys"
  proof (cases "find_last P xs")
    case None
    with inv show ?thesis unfolding shape by (intro exI [of _ r0] exI [of _ xs]) simp
  next
    case (Some a)
    show ?thesis
    proof (cases "g a")
      case None
      with Some inv show ?thesis unfolding shape by (intro exI [of _ r1] exI [of _ xs]) simp
    next
      case (Some rf)
      obtain r f where rf: "rf = (r, f)" by (cases rf)
      with Some have g: "g a = Some (r, f)" by simp
      from update_last_step(1,2) [OF inv \<open>find_last P xs = Some a\<close> un, of f] upd [OF g]
      have "store_inv (update_last P f xs)" "advances xs (update_last P f xs)" by blast+
      with \<open>find_last P xs = Some a\<close> g show ?thesis
        unfolding shape by (intro exI [of _ r] exI [of _ "update_last P f xs"]) simp
    qed
  qed
qed

lemma response_status:
  assumes "classify_create_response E v = Inr (st, cls, peer)"
  shows "st \<in> {Confirmed, Queued, Uncertain}"
proof -
  from assms obtain j where "decode_json_string E v = Inr j"
    by (auto simp: classify_create_response_def bind_res_Inr_iff)
  with assms show ?thesis
    by (cases j) (auto simp: classify_create_response_def Let_def split: if_splits option.splits)
qed

lemmas update_simps = legal_update_def attempt_phase_def phase_step_simps is_unresolved_def
  unresolved_in_def pending_match_def awaiting_list_def mark_ambiguous_def

lemma post_create_good:
  assumes "st \<in> {Confirmed, Queued, Uncertain}"
  shows "good_mutator (post_create_mutate sid fp st cls peer)"
  by (rule good_update_mutator [where P = "pending_match sid fp"
        and g = "\<lambda>a. Some (True, \<lambda>a. a\<lparr>status := st, result_classification := cls,
               blocks_create := (if st = Uncertain then True else blocks_create a),
               peer_id := (if peer = None then peer_id a else peer),
               reconciliation_used := False\<rparr>)"])
    (use assms in \<open>auto simp: post_create_mutate_def update_simps split: option.splits\<close>)

lemma pre_list_good: "good_mutator (pre_list_mutate sid turn)"
  by (rule good_update_mutator [where P = "unresolved_in sid"
        and g = "\<lambda>a. if reconciliation_used a then None
               else Some (ListReserved, \<lambda>a. a\<lparr>reconciliation_used := True, reconciliation_turn_id := turn\<rparr>)"])
    (auto simp: pre_list_mutate_def update_simps split: option.splits if_splits)

lemma stop_good: "good_mutator (stop_mutate sid)"
  by (rule good_update_mutator [where P = "unresolved_in sid"
        and g = "\<lambda>a. if stop_surface_used a then None else Some (True, \<lambda>a. a\<lparr>stop_surface_used := True\<rparr>)"])
    (auto simp: stop_mutate_def update_simps split: option.splits if_splits)

lemma session_start_good: "good_mutator (session_start_mutate E sid)"
  by (rule good_update_mutator [where P = "unresolved_in sid"
        and g = "\<lambda>a. if sid \<in> set (resume_sessions a) then None
               else Some (Some (resume_text E a),
                 \<lambda>a. a\<lparr>resume_sessions := last_n MAX_SEEN_SESSIONS (resume_sessions a @ [sid])\<rparr>)"])
    (auto simp: session_start_mutate_def update_simps split: option.splits if_splits)

lemma post_list_good: "good_mutator (post_list_mutate E sid snapshot items)"
  by (rule good_update_mutator [where P = "awaiting_list sid"
        and g = "\<lambda>a. Some
          (if snapshot \<noteq> ValidSnapshot then
             (Disputed, mark_ambiguous (if snapshot = InvalidSnapshot then RecInvalid else RecOversized))
           else let (matches, uncertain) = match_items E a items
             in if length matches = 1 \<and> uncertain = 0 then
                  (Found (hd matches), \<lambda>a. a\<lparr>status := Confirmed, result_classification := ReconciledFound,
                     reconciliation_classification := Some RecFound, peer_id := Some (hd matches)\<rparr>)
                else if items = [] \<and> matches = [] \<and> uncertain = 0 then
                  (NoPeer, \<lambda>a. a\<lparr>status := NotFound, result_classification := ReconciledNotFound,
                     reconciliation_classification := Some RecNotFound\<rparr>)
                else (Disputed, mark_ambiguous RecAmbiguous))"])
    (auto simp: post_list_mutate_def update_simps split: option.splits if_splits prod.splits)

text \<open>The mutator that records an attempt never fails once the payload has been accepted.\<close>

lemma pre_create_good:
  assumes title: "payload_title_identity E repaired = Inr ti"
  shows "good_mutator (pre_create_mutate E now repaired changed context fp event sid)"
  unfolding good_mutator_def
proof (intro allI impI)
  fix xs
  assume inv: "store_inv xs"
  let ?m = "pre_create_mutate E now repaired changed context fp event sid xs"
  show "\<exists>r ys. ?m = Inr (r, ys) \<and> store_inv ys \<and> advances xs ys"
  proof (cases "?m = Inr (CreateDuplicate, xs) \<or> ?m = Inr (CreateSaturated, xs)")
    case True
    with inv show ?thesis by auto
  next
    case False
    then have free: "\<forall>a\<in>set xs. \<not> blocks_session sid a" and room: "blocking_count xs < MAX_ATTEMPTS"
      by (auto simp: pre_create_mutate_def Let_def unresolved_in_def blocks_session_def split: if_splits)
    from title obtain n where n: "new_attempt E now repaired context fp event sid = Inr n"
      and sid: "session_id n = sid" and pend: "status n = Pending" "\<not> blocks_create n"
      by (auto simp: new_attempt_def)
    have "blocking_count (xs @ [n]) \<le> MAX_ATTEMPTS" using room by (auto simp: blocking_count_def)
    then obtain ys where ys: "trim_attempts (xs @ [n]) = Inr ys" "length ys \<le> MAX_ATTEMPTS"
      "set ys \<subseteq> set (xs @ [n])" "filter is_recovery_blocking ys = filter is_recovery_blocking (xs @ [n])"
      by (rule trim_attempts_ok)
    from False n ys(1) have m: "?m = Inr (CreateAllowed (if changed then Some repaired else None), ys)"
      unfolding pre_create_mutate_def Let_def by (auto split: if_splits)
    have "store_inv ys"
      by (rule store_inv_subset_blocking [OF append_new_inv [OF inv] ys(3,2,4)])
        (use free sid pend in auto)
    moreover have "advances xs ys"
    proof -
      have "phase_of s ys = phase_of s (xs @ [n])" for s
        using phase_of_blocking [of s ys] phase_of_blocking [of s "xs @ [n]"] ys(4) by simp
      moreover have "phase_of sid xs = Free" using free by (simp add: phase_of_Free_iff)
      ultimately show ?thesis
        using phase_of_append_new [of n xs] sid pend by (auto simp: advances_def intro: phase_step.create)
    qed
    ultimately show ?thesis using m by blast
  qed
qed

section \<open>Transactions and events\<close>

lemma transaction_good:
  assumes "world_inv w" "plugin_data w" "good_mutator m"
  obtains r ys where "m (attempts_of w) = Inr (r, ys)"
    "transaction m w = Inr (r, w\<lparr>store := Some ys\<rparr>)"
    "world_inv (w\<lparr>store := Some ys\<rparr>)" "advances (attempts_of w) ys"
proof -
  from assms(1,3) obtain r ys where m: "m (attempts_of w) = Inr (r, ys)"
    and inv: "store_inv ys" and adv: "advances (attempts_of w) ys"
    unfolding good_mutator_def world_inv_def by blast
  have "trim_attempts ys = Inr ys"
    using inv by (intro trim_attempts_short) (simp add: store_inv_def)
  with m assms(1,2) have "transaction m w = Inr (r, w\<lparr>store := Some ys\<rparr>)"
    by (simp add: transaction_def read_state_inv write_state_def)
  with m inv adv that show thesis by (auto simp: world_inv_def attempts_of_def)
qed

lemma transaction_no_data:
  "\<not> plugin_data w \<Longrightarrow> transaction m w = Inl (RuntimeError (lit ''PLUGIN_DATA is not set''))"
  by (simp add: transaction_def)

text \<open>What one handler may do to the world.\<close>

definition moves :: "world \<Rightarrow> world \<Rightarrow> bool" where
  "moves w w' \<longleftrightarrow> plugin_data w' = plugin_data w \<and> clock w' = clock w \<and> world_inv w'
     \<and> advances (attempts_of w) (attempts_of w')"

lemma moves_refl: "world_inv w \<Longrightarrow> moves w w"
  by (simp add: moves_def)

lemma transaction_moves:
  assumes "world_inv w" "good_mutator m" "transaction m w = Inr (r, w')"
  shows "moves w w'"
proof (cases "plugin_data w")
  case True
  obtain r' ys where "transaction m w = Inr (r', w\<lparr>store := Some ys\<rparr>)"
    "world_inv (w\<lparr>store := Some ys\<rparr>)" "advances (attempts_of w) ys"
    by (rule transaction_good [OF assms(1) True assms(2)])
  moreover from this(1) assms(3) have "w' = w\<lparr>store := Some ys\<rparr>" by simp
  ultimately show ?thesis by (simp add: moves_def attempts_of_def)
next
  case False
  with assms(3) show ?thesis by (simp add: transaction_no_data)
qed

section \<open>Handlers\<close>

lemma allow_pre_create_moves:
  assumes inv: "world_inv w" and run: "allow_pre_create E event w = Inr (out, w')"
  shows "moves w w'"
proof -
  from run obtain r ch c where rp: "repair_payload E (get_or_null event ''tool_input'') = Inr (r, ch, c)"
    by (auto simp: allow_pre_create_def bind_res_Inr_iff)
  show ?thesis
  proof (cases "event_session_id event")
    case None
    with run rp inv show ?thesis by (simp add: allow_pre_create_def moves_refl)
  next
    case (Some sid)
    with run rp obtain fp outcome w1 where
      t1: "transaction (pre_create_mutate E (clock w) r ch c fp event sid) w = Inr (outcome, w1)"
      and "(case outcome of CreateAllowed u \<Rightarrow> Inr (pre_allow u None, w1)
        | CreateDuplicate \<Rightarrow> Inr (deny (lit ''a pending or uncertain create_thread attempt already blocks this session''), w1)
        | CreateSaturated \<Rightarrow> Inr (deny (lit ''recovery ledger is saturated with unresolved attempts; no create was dispatched''), w1))
        = (Inr (out, w') :: (json \<times> world) res)"
      by (force simp: allow_pre_create_def bind_res_Inr_iff)
    then have t: "transaction (pre_create_mutate E (clock w) r ch c fp event sid) w = Inr (outcome, w')"
      by (cases outcome) simp_all
    from rp obtain d where d: "get_or_null event ''tool_input'' = JObj d"
      by (auto elim: repair_payload_InrD)
    with rp have "repair_payload E (JObj r) = Inr (r, False, c)"
      using repair_payload_idempotent by simp
    then obtain ti where "payload_title_identity E r = Inr ti"
      by (auto elim!: repair_payload_InrD simp: is_ok_def split: sum.splits)
    from transaction_moves [OF inv pre_create_good [OF this] t] show ?thesis .
  qed
qed

lemma post_create_moves:
  assumes inv: "world_inv w" and run: "post_create E event w = Inr (out, w')"
  shows "moves w w'"
proof (cases "w' = w")
  case True
  with inv show ?thesis by (simp add: moves_refl)
next
  case False
  with run obtain sid fp st cls peer found where
    st: "classify_create_response E (get_or_null event ''tool_response'') = Inr (st, cls, peer)"
    and t: "transaction (post_create_mutate sid fp st cls peer) w = Inr (found, w')"
    by (auto simp: post_create_def bind_res_Inr_iff
        split: option.splits json.splits sum.splits py_error.splits if_splits)
  show ?thesis
    by (rule transaction_moves [OF inv post_create_good [OF response_status [OF st]] t])
qed

lemma pre_list_moves:
  assumes inv: "world_inv w" and run: "pre_list E event w = Inr (out, w')"
  shows "moves w w'"
proof (cases "w' = w")
  case True
  with inv show ?thesis by (simp add: moves_refl)
next
  case False
  with run obtain sid turn outcome where "transaction (pre_list_mutate sid turn) w = Inr (outcome, w')"
    by (auto simp: pre_list_def bind_res_Inr_iff split: option.splits if_splits)
  with transaction_moves [OF inv pre_list_good] show ?thesis by blast
qed

lemma post_list_moves:
  assumes inv: "world_inv w" and run: "post_list E event w = Inr (out, w')"
  shows "moves w w'"
proof (cases "w' = w")
  case True
  with inv show ?thesis by (simp add: moves_refl)
next
  case False
  with run obtain sid where sid: "event_session_id event = Some sid"
    by (auto simp: post_list_def split: option.splits)
  with run obtain snapshot items where
    ci: "candidate_items E (get_or_null event ''tool_response'') = Inr (snapshot, items)"
    by (auto simp: post_list_def bind_res_Inr_iff)
  with sid run obtain v w1 where
    t: "transaction (post_list_mutate E sid snapshot items) w = Inr (v, w1)"
    by (auto simp: post_list_def bind_res_Inr_iff)
  with ci sid run have "w' = w1"
    by (cases v) (auto simp: post_list_def)
  with t transaction_moves [OF inv post_list_good] show ?thesis by blast
qed

lemma stop_moves:
  assumes inv: "world_inv w" and run: "stop event w = Inr (out, w')"
  shows "moves w w'"
proof (cases "w' = w")
  case True
  with inv show ?thesis by (simp add: moves_refl)
next
  case False
  with run obtain sid surfaced where "transaction (stop_mutate sid) w = Inr (surfaced, w')"
    by (auto simp: stop_def bind_res_Inr_iff split: option.splits if_splits)
  with transaction_moves [OF inv stop_good] show ?thesis by blast
qed

lemma session_start_moves:
  assumes inv: "world_inv w" and run: "session_start E event w = Inr (out, w')"
  shows "moves w w'"
proof (cases "w' = w")
  case True
  with inv show ?thesis by (simp add: moves_refl)
next
  case False
  with run obtain sid c where "transaction (session_start_mutate E sid) w = Inr (c, w')"
    by (auto simp: session_start_def bind_res_Inr_iff split: option.splits if_splits)
  with transaction_moves [OF inv session_start_good] show ?thesis by blast
qed

lemma dispatch_moves:
  assumes inv: "world_inv w" and run: "dispatch E event w = Inr (out, w')"
  shows "moves w w'"
proof -
  have "w' = w \<or> allow_pre_create E event w = Inr (out, w') \<or> post_create E event w = Inr (out, w')
    \<or> pre_list E event w = Inr (out, w') \<or> post_list E event w = Inr (out, w')
    \<or> stop event w = Inr (out, w') \<or> session_start E event w = Inr (out, w')"
    using run
    by (auto simp: dispatch_def Let_def bind_res_Inr_iff split: if_splits sum.splits py_error.splits)
  then show ?thesis
    using inv by (metis moves_refl allow_pre_create_moves post_create_moves pre_list_moves
        post_list_moves stop_moves session_start_moves)
qed

lemma run_event_moves: "world_inv w \<Longrightarrow> moves w (snd (run_event E event w))"
  by (auto simp: run_event_def moves_refl dispatch_moves split: sum.split)

text \<open>The hook is a guarded machine: what may only grow is the phase of each session.\<close>

definition world_le :: "world \<Rightarrow> world \<Rightarrow> bool" where
  "world_le w w' \<longleftrightarrow> plugin_data w' = plugin_data w \<and> clock w' = clock w
     \<and> (\<forall>sid. phase_step\<^sup>*\<^sup>* (phase_of sid (attempts_of w)) (phase_of sid (attempts_of w')))"

interpretation hook: guarded_machine "\<lambda>w event. snd (run_event E event w)" world_inv world_le
  for E
proof unfold_locales
  fix w event
  assume "world_inv w"
  then have m: "moves w (snd (run_event E event w))" by (rule run_event_moves)
  then show "world_inv (snd (run_event E event w))" by (simp add: moves_def)
  from m show "world_le w (snd (run_event E event w))"
    unfolding moves_def world_le_def advances_def by (metis r_into_rtranclp rtranclp.rtrancl_refl)
next
  show "world_le w w" for w by (simp add: world_le_def)
next
  show "world_le w u" if "world_le w v" "world_le v u" for w v u
    using that unfolding world_le_def by (metis rtranclp_trans)
qed

definition run_events :: "hook_env \<Rightarrow> dict list \<Rightarrow> world \<Rightarrow> world" where
  "run_events E events w = fold (\<lambda>event w. snd (run_event E event w)) events w"

lemma run_events_inv: "world_inv w \<Longrightarrow> world_inv (run_events E events w)"
  unfolding run_events_def by (rule hook.run_inv)

lemma run_events_le: "world_inv w \<Longrightarrow> world_le w (run_events E events w)"
  unfolding run_events_def by (rule hook.run_le)

lemma blocked_is_final: "phase_step\<^sup>*\<^sup>* Blocked q \<Longrightarrow> q = Blocked"
  by (induction rule: rtranclp_induct) (auto simp: phase_step_Blocked)

lemma run_events_blocked:
  assumes "world_inv w" "phase_of sid (attempts_of w) = Blocked"
  shows "phase_of sid (attempts_of (run_events E events w)) = Blocked"
  using run_events_le [OF assms(1), of E events] assms(2) blocked_is_final
  by (metis world_le_def)

section \<open>Create is denied unless the session is free\<close>

definition is_create_event :: "pystr \<Rightarrow> dict \<Rightarrow> bool" where
  "is_create_event sid event \<longleftrightarrow>
     get event ''hook_event_name'' = Some (JStr (lit ''PreToolUse''))
     \<and> get event ''tool_name'' \<in> {Some (JStr (lit ''create_thread'')), Some (JStr (lit ''codex_app__create_thread''))}
     \<and> event_session_id event = Some sid"

lemma dispatch_create:
  assumes "is_create_event sid event"
  shows "dispatch E event w = (case allow_pre_create E event w of
           Inl (PayloadError m) \<Rightarrow> Inr (deny m, w) | r \<Rightarrow> r)"
  using assms by (auto simp: is_create_event_def dispatch_def get_or_null_def is_tool_def lit_append)

lemma allow_pre_create_result:
  assumes inv: "world_inv w" "plugin_data w" and ev: "event_session_id event = Some sid"
    and rp: "repair_payload E (get_or_null event ''tool_input'') = Inr (r, ch, c)"
  obtains fp outcome ys where "fingerprint_of E r c = Inr fp"
    "pre_create_mutate E (clock w) r ch c fp event sid (attempts_of w) = Inr (outcome, ys)"
    "allow_pre_create E event w =
       Inr (case outcome of
              CreateDuplicate \<Rightarrow> deny (lit ''a pending or uncertain create_thread attempt already blocks this session'')
            | CreateSaturated \<Rightarrow> deny (lit ''recovery ledger is saturated with unresolved attempts; no create was dispatched'')
            | CreateAllowed updated \<Rightarrow> pre_allow updated None, w\<lparr>store := Some ys\<rparr>)"
proof -
  from rp obtain d where d: "get_or_null event ''tool_input'' = JObj d"
    by (auto elim: repair_payload_InrD)
  with rp have "repair_payload E (JObj r) = Inr (r, False, c)"
    using repair_payload_idempotent by simp
  then obtain ti where ti: "payload_title_identity E r = Inr ti"
    by (auto elim!: repair_payload_InrD simp: is_ok_def split: sum.splits)
  from fingerprint_total [OF this] obtain fp where fp: "fingerprint_of E r c = Inr fp" by blast
  from transaction_good [OF inv pre_create_good [OF ti]] obtain outcome ys where
    "pre_create_mutate E (clock w) r ch c fp event sid (attempts_of w) = Inr (outcome, ys)"
    "transaction (pre_create_mutate E (clock w) r ch c fp event sid) w = Inr (outcome, w\<lparr>store := Some ys\<rparr>)"
    by metis
  with that fp ev rp show thesis
    by (auto simp: allow_pre_create_def split: create_outcome.split)
qed

lemma create_denied:
  assumes inv: "world_inv w" "plugin_data w" and ev: "is_create_event sid event"
    and busy: "phase_of sid (attempts_of w) \<noteq> Free"
  shows "\<exists>reason. fst (run_event E event w) = deny reason"
proof (cases "repair_payload E (get_or_null event ''tool_input'')")
  case (Inl e)
  then obtain m where "e = PayloadError m"
    by (metis repair_payload_error)
  with Inl ev show ?thesis
    by (auto simp: run_event_def dispatch_create allow_pre_create_def)
next
  case (Inr x)
  obtain r ch c where x: "x = (r, ch, c)" by (cases x)
  from ev have sid: "event_session_id event = Some sid" by (simp add: is_create_event_def)
  from allow_pre_create_result [OF inv sid Inr [unfolded x]] obtain fp outcome ys where
    m: "pre_create_mutate E (clock w) r ch c fp event sid (attempts_of w) = Inr (outcome, ys)"
    and a: "allow_pre_create E event w =
       Inr (case outcome of
              CreateDuplicate \<Rightarrow> deny (lit ''a pending or uncertain create_thread attempt already blocks this session'')
            | CreateSaturated \<Rightarrow> deny (lit ''recovery ledger is saturated with unresolved attempts; no create was dispatched'')
            | CreateAllowed updated \<Rightarrow> pre_allow updated None, w\<lparr>store := Some ys\<rparr>)"
    by metis
  from busy have "(\<exists>a\<in>set (attempts_of w). unresolved_in sid a)
      \<or> (\<exists>a\<in>set (attempts_of w). session_id a = sid \<and> blocks_create a)"
    unfolding phase_of_Free_iff blocks_session_def unresolved_in_def by blast
  then have "pre_create_mutate E (clock w) r ch c fp event sid (attempts_of w)
      = Inr (CreateDuplicate, attempts_of w)"
    unfolding pre_create_mutate_def Let_def by (simp only: if_True simp_thms)
  with m have "outcome = CreateDuplicate" by simp
  with a ev show ?thesis by (auto simp: run_event_def dispatch_create)
qed

end
