(* ===== verification/Hook_Guarantees.thy ===== *)
theory Hook_Guarantees
  imports Hook_Events
begin

text \<open>
  The properties of the handoff hook (plugins/personal-workflow-skills/hooks/lifecycle.py) that
  its callers rely on, each with a concrete instance: the guard against duplicate peers, the
  refinement of the abstract life of a session, the reconciliation verdict and the repair.
\<close>

section \<open>A concrete environment and store\<close>

definition plain_env :: hook_env where
  "plain_env = \<lparr>json_loads = (\<lambda>_. JSONDecodeError), sha256_hex = (\<lambda>b. b), nfc = (\<lambda>s. s),
     category_other = (\<lambda>c. c < 32), repr_value = (\<lambda>_. [])\<rparr>"

definition sample_attempt :: "pystr \<Rightarrow> attempt_status \<Rightarrow> attempt" where
  "sample_attempt sid st = \<lparr>fingerprint = lit ''f'', title = lit ''T'', title_present = True,
     att_title_identity = None, target = Projectless None, model = [], thinking = [], turn_id = None,
     session_id = sid, created_at = 0, status = st, result_classification = RError,
     reconciliation_classification = None, reconciliation_used = True, reconciliation_turn_id = None,
     stop_surface_used = False, resume_sessions = [],
     blocks_create = (st \<noteq> Pending), peer_id = None\<rparr>"

definition sample_world :: "attempt_status \<Rightarrow> world" where
  "sample_world st = \<lparr>plugin_data = True, store = Some [sample_attempt (lit ''s'') st], clock = 0\<rparr>"

definition empty_world :: world where
  "empty_world = \<lparr>plugin_data = True, store = None, clock = 0\<rparr>"

definition sample_payload :: dict where
  "sample_payload = [(lit ''prompt'', JStr (lit ''go'')), (lit ''projectId'', JStr (lit ''p'')),
     (lit ''target'', JObj [(lit ''type'', JStr (lit ''project'')),
        (lit ''environment'', JObj [(lit ''type'', JStr (lit ''local''))])])]"

definition sample_event :: "string \<Rightarrow> string \<Rightarrow> dict" where
  "sample_event name tool = [(lit ''hook_event_name'', JStr (lit name)), (lit ''tool_name'', JStr (lit tool)),
     (lit ''session_id'', JStr (lit ''s'')), (lit ''tool_input'', JObj sample_payload)]"

lemma sample_inv: "world_inv (sample_world st)"
  by (cases st) (auto simp: world_inv_def attempts_of_def sample_world_def sample_attempt_def store_inv_def
      one_unresolved_def failures_block_def pending_alone_def hook_bounds)

lemma empty_inv: "world_inv empty_world"
  by (simp add: world_inv_def attempts_of_def empty_world_def store_inv_Nil)

lemma sample_phase:
  "phase_of (lit ''s'') (attempts_of (sample_world NotFound)) = Blocked"
  "phase_of (lit ''s'') (attempts_of (sample_world Uncertain)) = Recovering True"
  by (simp_all add: phase_of_def attempts_of_def sample_world_def sample_attempt_def unresolved_in_def
      is_unresolved_def)

lemma sample_is_create: "is_create_event (lit ''s'') (sample_event ''PreToolUse'' ''create_thread'')"
  by (simp add: is_create_event_def sample_event_def get_def lit_eq_iff event_session_id_def
      get_or_null_def bounded_def hook_bounds)

lemma sample_data: "plugin_data (sample_world st)" "plugin_data empty_world"
  by (simp_all add: sample_world_def empty_world_def)

section \<open>Duplicate peers\<close>

lemma permission_deny [simp]: "permission_decision (deny m) = Some (lit ''deny'')"
  by (simp add: permission_decision_def deny_def get_def lit_eq_iff)

lemma permission_pre_allow [simp]: "permission_decision (pre_allow u m) = Some (lit ''allow'')"
  by (simp add: permission_decision_def pre_allow_def get_def lit_eq_iff)

text \<open>
  C1. Once a session is permanently blocked (its create failed and the single reconciliation
  ended), no sequence of hook events whatever makes the hook allow another \<open>create_thread\<close> in
  that session.
\<close>

theorem blocked_session_never_creates:
  assumes "world_inv w" "plugin_data w" "phase_of sid (attempts_of w) = Blocked"
    and "is_create_event sid event"
  shows "permission_decision (fst (run_event E event (run_events E events w))) = Some (lit ''deny'')"
proof -
  let ?w = "run_events E events w"
  have "phase_of sid (attempts_of ?w) \<noteq> Free"
    using run_events_blocked [OF assms(1,3)] by simp
  moreover have "plugin_data ?w"
    using run_events_le [OF assms(1), of E events] assms(2) by (simp add: world_le_def)
  ultimately obtain reason where "fst (run_event E event ?w) = deny reason"
    using create_denied [OF run_events_inv [OF assms(1)] _ assms(4)] by metis
  then show ?thesis by simp
qed

theorem blocked_session_never_creates_witness:
  "permission_decision (fst (run_event plain_env (sample_event ''PreToolUse'' ''create_thread'')
     (run_events plain_env [sample_event ''Stop'' ''x'', sample_event ''PostToolUse'' ''list_threads'']
       (sample_world NotFound)))) = Some (lit ''deny'')"
  by (rule blocked_session_never_creates [OF sample_inv sample_data(1) sample_phase(1) sample_is_create])

text \<open>What an allowed create leaves behind.\<close>

lemma pre_create_allowed_phase:
  assumes "pre_create_mutate E now r ch c fp event sid xs = Inr (CreateAllowed u, ys)"
  shows "phase_of sid xs = Free \<and> phase_of sid ys = InFlight"
proof -
  have free: "phase_of sid xs = Free"
  proof (rule ccontr)
    assume "phase_of sid xs \<noteq> Free"
    then have "(\<exists>a\<in>set xs. unresolved_in sid a) \<or> (\<exists>a\<in>set xs. session_id a = sid \<and> blocks_create a)"
      unfolding phase_of_Free_iff blocks_session_def unresolved_in_def by blast
    then have "pre_create_mutate E now r ch c fp event sid xs = Inr (CreateDuplicate, xs)"
      unfolding pre_create_mutate_def Let_def by (simp only: if_True simp_thms)
    with assms show False by simp
  qed
  from assms obtain n where n: "new_attempt E now r c fp event sid = Inr n"
    and ys: "trim_attempts (xs @ [n]) = Inr ys" and room: "blocking_count xs < MAX_ATTEMPTS"
    by (auto simp: pre_create_mutate_def Let_def bind_res_Inr_iff split: if_splits)
  from n have new: "session_id n = sid" "status n = Pending" "\<not> blocks_create n"
    by (auto simp: new_attempt_def bind_res_Inr_iff)
  have "blocking_count (xs @ [n]) \<le> MAX_ATTEMPTS" using room by (auto simp: blocking_count_def)
  then obtain zs where "trim_attempts (xs @ [n]) = Inr zs"
    "filter is_recovery_blocking zs = filter is_recovery_blocking (xs @ [n])"
    by (rule trim_attempts_ok)
  with ys have "filter is_recovery_blocking ys = filter is_recovery_blocking (xs @ [n])" by simp
  then have "phase_of sid ys = phase_of sid (xs @ [n])"
    using phase_of_blocking [of sid ys] phase_of_blocking [of sid "xs @ [n]"] by simp
  with free new show ?thesis using phase_of_append_new [of n xs sid] by simp
qed

text \<open>
  C2. When the hook allows a \<open>create_thread\<close> in a named session, that session had nothing
  unresolved and nothing blocking, and the attempt is on disk as in flight before the tool runs.
\<close>

theorem allowed_create_is_recorded:
  assumes "world_inv w" "plugin_data w" "is_create_event sid event"
    and "permission_decision (fst (run_event E event w)) = Some (lit ''allow'')"
  shows "phase_of sid (attempts_of w) = Free
    \<and> phase_of sid (attempts_of (snd (run_event E event w))) = InFlight"
proof (cases "repair_payload E (get_or_null event ''tool_input'')")
  case (Inl e)
  then obtain m where "e = PayloadError m" by (metis repair_payload_error)
  with Inl assms(3,4) show ?thesis
    by (auto simp: run_event_def dispatch_create allow_pre_create_def lit_eq_iff)
next
  case (Inr x)
  obtain r ch c where x: "x = (r, ch, c)" by (cases x)
  from assms(3) have sid: "event_session_id event = Some sid" by (simp add: is_create_event_def)
  from allow_pre_create_result [OF assms(1,2) sid Inr [unfolded x]] obtain fp outcome ys where
    m: "pre_create_mutate E (clock w) r ch c fp event sid (attempts_of w) = Inr (outcome, ys)"
    and a: "allow_pre_create E event w =
       Inr (case outcome of
              CreateDuplicate \<Rightarrow> deny (lit ''a pending or uncertain create_thread attempt already blocks this session'')
            | CreateSaturated \<Rightarrow> deny (lit ''recovery ledger is saturated with unresolved attempts; no create was dispatched'')
            | CreateAllowed updated \<Rightarrow> pre_allow updated None, w\<lparr>store := Some ys\<rparr>)"
    by metis
  from a assms(3,4) obtain u where u: "outcome = CreateAllowed u"
    by (cases outcome) (auto simp: run_event_def dispatch_create lit_eq_iff)
  with a assms(3) have "attempts_of (snd (run_event E event w)) = ys"
    by (simp add: run_event_def dispatch_create attempts_of_def)
  with pre_create_allowed_phase [OF m [unfolded u]] show ?thesis by simp
qed

lemma sample_allowed:
  "permission_decision (fst (run_event plain_env (sample_event ''PreToolUse'' ''create_thread'') empty_world))
     = Some (lit ''allow'')"
proof -
  let ?ev = "sample_event ''PreToolUse'' ''create_thread''"
  let ?r = "dict_del (lit ''projectId'') (dict_put (lit ''target'') (JObj (dict_put (lit ''projectId'')
    (JStr (lit ''p'')) [(lit ''type'', JStr (lit ''project'')),
        (lit ''environment'', JObj [(lit ''type'', JStr (lit ''local''))])])) sample_payload)"
  have rp: "repair_payload plain_env (get_or_null ?ev ''tool_input'')
      = Inr (?r, True, ProjectTarget (lit ''p'') LocalEnv)"
    by (simp add: repair_payload_def get_or_null_def sample_event_def sample_payload_def get_def lit_eq_iff
        move_project_id_def bounded_def hook_bounds payload_title_identity_def 
        target_context_of_def normalise_environment_def key_set_def keys_def has_key_def insert_commute)
  have sid: "event_session_id ?ev = Some (lit ''s'')"
    using sample_is_create by (simp add: is_create_event_def)
  from allow_pre_create_result [OF empty_inv sample_data(2) sid rp] obtain fp outcome ys where
    m: "pre_create_mutate plain_env (clock empty_world) ?r True (ProjectTarget (lit ''p'') LocalEnv) fp ?ev
          (lit ''s'') (attempts_of empty_world) = Inr (outcome, ys)"
    and a: "allow_pre_create plain_env ?ev empty_world =
       Inr (case outcome of
              CreateDuplicate \<Rightarrow> deny (lit ''a pending or uncertain create_thread attempt already blocks this session'')
            | CreateSaturated \<Rightarrow> deny (lit ''recovery ledger is saturated with unresolved attempts; no create was dispatched'')
            | CreateAllowed updated \<Rightarrow> pre_allow updated None, empty_world\<lparr>store := Some ys\<rparr>)"
    by metis
  from m obtain u where "outcome = CreateAllowed u"
    by (auto simp: pre_create_mutate_def attempts_of_def empty_world_def Let_def blocking_count_def
        hook_bounds bind_res_Inr_iff)
  with a show ?thesis by (simp add: run_event_def dispatch_create [OF sample_is_create])
qed

theorem allowed_create_is_recorded_witness:
  "phase_of (lit ''s'') (attempts_of (snd (run_event plain_env
     (sample_event ''PreToolUse'' ''create_thread'') empty_world))) = InFlight"
  using allowed_create_is_recorded [OF empty_inv sample_data(2) sample_is_create sample_allowed] by simp

text \<open>
  C11. Every hook event, whatever it contains, leaves each session where it was or moves it one
  step along its abstract life (free, in flight, recovering, blocked), never back.
\<close>

theorem event_refines_phase:
  assumes "world_inv w"
  shows "phase_of sid (attempts_of (snd (run_event E event w))) = phase_of sid (attempts_of w)
    \<or> phase_step (phase_of sid (attempts_of w)) (phase_of sid (attempts_of (snd (run_event E event w))))"
  using run_event_moves [OF assms, of E event] by (simp add: moves_def advances_def)

theorem event_refines_phase_witness:
  "phase_of (lit ''s'') (attempts_of (snd (run_event plain_env (sample_event ''Stop'' ''x'') empty_world)))
     = Free
   \<or> phase_step Free
       (phase_of (lit ''s'') (attempts_of (snd (run_event plain_env (sample_event ''Stop'' ''x'') empty_world))))"
  using event_refines_phase [OF empty_inv, of "lit ''s''" plain_env "sample_event ''Stop'' ''x''"]
  by (simp add: phase_of_def attempts_of_def empty_world_def)

section \<open>Failing open\<close>

lemma decode_error:
  "decode_json_string E v = Inl e \<Longrightarrow> \<exists>s. json_loads E s = OtherError e"
  by (auto simp: decode_json_string_def split: json.splits if_splits loads_outcome.splits)

lemma classify_error:
  assumes "classify_create_response E v = Inl e"
  shows "\<exists>s. json_loads E s = OtherError e"
proof (cases "decode_json_string E v")
  case (Inl e')
  with assms decode_error show ?thesis by (auto simp: classify_create_response_def)
next
  case (Inr j)
  have "\<exists>x. classify_create_response E v = Inr x"
    unfolding classify_create_response_def Inr bind_res_simps Let_def
    by (cases j) (auto split: option.split)
  with assms show ?thesis by auto
qed

lemma candidate_items_error:
  assumes "candidate_items E v = Inl e"
  shows "\<exists>s. json_loads E s = OtherError e"
proof (cases "decode_json_string E v")
  case (Inl e')
  with assms decode_error show ?thesis by (auto simp: candidate_items_def)
next
  case (Inr j)
  have "\<exists>x. candidate_items E v = Inr x"
    unfolding candidate_items_def Inr bind_res_simps by (cases j) auto
  with assms show ?thesis by auto
qed

lemma transaction_no_error:
  assumes "world_inv w" "plugin_data w" "good_mutator m"
  shows "transaction m w \<noteq> Inl e"
  using transaction_good [OF assms] by (metis sum.distinct(1))

definition loads_raises :: "hook_env \<Rightarrow> py_error \<Rightarrow> bool" where
  "loads_raises E e \<longleftrightarrow> (\<exists>s. json_loads E s = OtherError e)"

lemma allow_pre_create_error:
  assumes inv: "world_inv w" "plugin_data w" and run: "allow_pre_create E event w = Inl e"
  shows "\<exists>m. e = PayloadError m"
proof (cases "repair_payload E (get_or_null event ''tool_input'')")
  case (Inl e')
  with run repair_payload_error show ?thesis by (auto simp: allow_pre_create_def)
next
  case (Inr x)
  obtain r ch c where x: "x = (r, ch, c)" by (cases x)
  show ?thesis
  proof (cases "event_session_id event")
    case None
    with run Inr x show ?thesis by (simp add: allow_pre_create_def)
  next
    case (Some sid)
    from allow_pre_create_result [OF inv Some Inr [unfolded x]] run show ?thesis by auto
  qed
qed

lemma post_create_error:
  assumes inv: "world_inv w" "plugin_data w" and run: "post_create E event w = Inl e"
  shows "loads_raises E e"
proof -
  from run obtain sid tool where s: "event_session_id event = Some sid"
    "get_or_null event ''tool_input'' = JObj tool"
    by (auto simp: post_create_def split: option.splits json.splits)
  show ?thesis
  proof (cases "repair_payload E (JObj tool)")
    case (Inl e')
    then obtain m where "e' = PayloadError m" by (metis repair_payload_error)
    with Inl s run show ?thesis by (simp add: post_create_def)
  next
    case (Inr x)
    obtain r ch c where x: "x = (r, ch, c)" by (cases x)
    from Inr x have "repair_payload E (JObj r) = Inr (r, False, c)"
      using repair_payload_idempotent by simp
    then obtain ti where "payload_title_identity E r = Inr ti"
      by (auto elim!: repair_payload_InrD simp: is_ok_def split: sum.splits)
    from fingerprint_total [OF this] obtain fp where fp: "fingerprint_of E r c = Inr fp" by blast
    show ?thesis
    proof (cases "classify_create_response E (get_or_null event ''tool_response'')")
      case (Inl e'')
      with Inr x fp s run have "e'' = e" by (simp add: post_create_def)
      with Inl classify_error show ?thesis by (simp add: loads_raises_def)
    next
      case (Inr y)
      obtain st cls peer where y: "y = (st, cls, peer)" by (cases y)
      obtain f ys where "transaction (post_create_mutate sid fp st cls peer) w
          = Inr (f, w\<lparr>store := Some ys\<rparr>)"
        using transaction_good [OF inv post_create_good [OF response_status [OF Inr [unfolded y]]]] by metis
      with Inr y \<open>repair_payload E (JObj tool) = Inr x\<close> x fp s run show ?thesis
        by (simp add: post_create_def split: if_splits)
    qed
  qed
qed

lemma pre_list_error: "world_inv w \<Longrightarrow> plugin_data w \<Longrightarrow> pre_list E event w \<noteq> Inl e"
  using transaction_no_error [OF _ _ pre_list_good]
  by (auto simp: pre_list_def bind_res_Inl_iff split: option.splits if_splits)

lemma post_list_error:
  assumes inv: "world_inv w" "plugin_data w" and run: "post_list E event w = Inl e"
  shows "loads_raises E e"
proof -
  from run obtain sid where sid: "event_session_id event = Some sid"
    by (auto simp: post_list_def split: option.splits)
  show ?thesis
  proof (cases "candidate_items E (get_or_null event ''tool_response'')")
    case (Inl e')
    with sid run candidate_items_error show ?thesis by (auto simp: post_list_def loads_raises_def)
  next
    case (Inr y)
    obtain sn items where y: "y = (sn, items)" by (cases y)
    obtain v ys where "transaction (post_list_mutate E sid sn items) w = Inr (v, w\<lparr>store := Some ys\<rparr>)"
      using transaction_good [OF inv post_list_good] by metis
    with Inr y sid run show ?thesis by (cases v) (simp_all add: post_list_def)
  qed
qed

lemma stop_error: "world_inv w \<Longrightarrow> plugin_data w \<Longrightarrow> stop event w \<noteq> Inl e"
  using transaction_no_error [OF _ _ stop_good]
  by (auto simp: stop_def bind_res_Inl_iff split: option.splits if_splits)

lemma session_start_error: "world_inv w \<Longrightarrow> plugin_data w \<Longrightarrow> session_start E event w \<noteq> Inl e"
  using transaction_no_error [OF _ _ session_start_good]
  by (auto simp: session_start_def bind_res_Inl_iff split: option.splits if_splits)

lemma is_tool_error:
  "is_tool v k = Inl e \<Longrightarrow> (\<exists>xs. v = JArr xs) \<and> e = TypeError (lit ''unhashable type: list'')
     \<or> (\<exists>d. v = JObj d) \<and> e = TypeError (lit ''unhashable type: dict'')"
  by (auto simp: is_tool_def split: json.splits)

text \<open>
  C34. With a data directory, a handler raises only in two cases: \<open>tool_name\<close> of a tool event is a list
  or an object, and then the error is the \<open>TypeError\<close> of an unhashable value of that type; or it is the
  event after a tool, and \<open>json.loads\<close> raised an error other than a decode or recursion error.  So the
  bounds of the ledger, the payload checks and the trimming never trip the fail-open path.  (Errors of
  the file system and the recursion limit of the interpreter, in \<open>copy.deepcopy\<close>, are outside the model.)
\<close>

theorem dispatch_errors:
  assumes "world_inv w" "plugin_data w" "dispatch E event w = Inl e"
  shows "get_or_null event ''hook_event_name'' \<in> {JStr (lit ''PreToolUse''), JStr (lit ''PostToolUse'')}
      \<and> ((\<exists>xs. get_or_null event ''tool_name'' = JArr xs) \<and> e = TypeError (lit ''unhashable type: list'')
         \<or> (\<exists>d. get_or_null event ''tool_name'' = JObj d) \<and> e = TypeError (lit ''unhashable type: dict''))
    \<or> get_or_null event ''hook_event_name'' = JStr (lit ''PostToolUse'') \<and> loads_raises E e"
proof -
  let ?name = "get_or_null event ''hook_event_name''" and ?tool = "get_or_null event ''tool_name''"
  have "?name \<in> {JStr (lit ''PreToolUse''), JStr (lit ''PostToolUse'')} \<and> (\<exists>k. is_tool ?tool k = Inl e)
    \<or> ?name = JStr (lit ''PostToolUse'') \<and> (post_create E event w = Inl e \<or> post_list E event w = Inl e)
    \<or> pre_list E event w = Inl e \<or> stop event w = Inl e \<or> session_start E event w = Inl e"
  proof (cases "allow_pre_create E event w")
    case (Inl e')
    with allow_pre_create_error [OF assms(1,2)] obtain m where "e' = PayloadError m" by metis
    with Inl assms(3) show ?thesis
      by (auto simp: dispatch_def Let_def bind_res_Inl_iff split: if_splits)
  next
    case (Inr r)
    with assms(3) show ?thesis
      by (auto simp: dispatch_def Let_def bind_res_Inl_iff split: if_splits)
  qed
  then show ?thesis
    using is_tool_error post_create_error [OF assms(1,2)] post_list_error [OF assms(1,2)]
      pre_list_error [OF assms(1,2)] stop_error [OF assms(1,2)] session_start_error [OF assms(1,2)]
    by blast
qed

theorem dispatch_errors_witness:
  "dispatch plain_env [(lit ''hook_event_name'', JStr (lit ''PreToolUse'')), (lit ''tool_name'', JArr [])] empty_world
     = Inl (TypeError (lit ''unhashable type: list''))
   \<and> (\<exists>xs. get_or_null [(lit ''hook_event_name'', JStr (lit ''PreToolUse'')), (lit ''tool_name'', JArr [])] ''tool_name'' = JArr xs)"
proof -
  have d: "dispatch plain_env [(lit ''hook_event_name'', JStr (lit ''PreToolUse'')), (lit ''tool_name'', JArr [])]
     empty_world = Inl (TypeError (lit ''unhashable type: list''))"
    by (simp add: dispatch_def get_or_null_def get_def lit_eq_iff is_tool_def)
  moreover have "get_or_null [(lit ''hook_event_name'', JStr (lit ''PreToolUse'')), (lit ''tool_name'', JArr [])] ''hook_event_name''
      \<noteq> JStr (lit ''PostToolUse'')" by (simp add: get_or_null_def get_def lit_eq_iff)
  moreover have "TypeError (lit ''unhashable type: list'') \<noteq> TypeError (lit ''unhashable type: dict'')" by (simp add: lit_eq_iff)
  ultimately show ?thesis using dispatch_errors [OF empty_inv sample_data(2) d] by blast
qed

section \<open>Reconciliation\<close>

text \<open>
  What the scan over the listed threads means: the peers that match exactly and the threads that
  might match.
\<close>

datatype item_class = Unrelated | Peer pystr | Doubtful

definition classify_item :: "hook_env \<Rightarrow> attempt \<Rightarrow> json \<Rightarrow> item_class" where
  "classify_item E a item =
     (case item of
        JObj c \<Rightarrow>
          (let tm = candidate_title_match E (att_title_identity a) c; cx = candidate_context c
           in if tm = NoMatch \<or> (cx \<noteq> None \<and> cx \<noteq> Some (target a)) then Unrelated
              else if tm = Exact \<and> cx \<noteq> None then
                (case valid_id E (get_or_null c ''threadId'') of Some p \<Rightarrow> Peer p | None \<Rightarrow> Doubtful)
              else Doubtful)
      | _ \<Rightarrow> Doubtful)"

definition peers :: "hook_env \<Rightarrow> attempt \<Rightarrow> json list \<Rightarrow> pystr list" where
  "peers E a items = concat (map (\<lambda>i. case classify_item E a i of Peer p \<Rightarrow> [p] | _ \<Rightarrow> []) items)"

definition doubts :: "hook_env \<Rightarrow> attempt \<Rightarrow> json list \<Rightarrow> nat" where
  "doubts E a items = length (filter (\<lambda>i. classify_item E a i = Doubtful) items)"

lemma match_item_class:
  "match_item E a item (ms, n) =
     (case classify_item E a item of
        Unrelated \<Rightarrow> (ms, n)
      | Peer p \<Rightarrow> (if length ms < MAX_RETAINED_MATCHES then ms @ [p] else ms, n)
      | Doubtful \<Rightarrow> (ms, min (n + 1) MAX_RETAINED_MATCHES))"
  by (cases item)
    (auto simp: match_item_def classify_item_def Let_def context_matches_def split: option.split)

lemma match_fold:
  "fold (match_item E a) items (take MAX_RETAINED_MATCHES ms, min n MAX_RETAINED_MATCHES) =
     (take MAX_RETAINED_MATCHES (ms @ peers E a items), min (n + doubts E a items) MAX_RETAINED_MATCHES)"
proof (induction items arbitrary: ms n)
  case Nil
  then show ?case by (simp add: peers_def doubts_def)
next
  case (Cons i items)
  show ?case
  proof (cases "classify_item E a i")
    case Unrelated
    with Cons.IH [of ms n] show ?thesis by (simp add: match_item_class peers_def doubts_def)
  next
    case (Peer p)
    have "match_item E a i (take MAX_RETAINED_MATCHES ms, min n MAX_RETAINED_MATCHES)
        = (take MAX_RETAINED_MATCHES (ms @ [p]), min n MAX_RETAINED_MATCHES)"
      by (auto simp: match_item_class Peer min_def not_less)
    with Cons.IH [of "ms @ [p]" n] Peer show ?thesis by (simp add: peers_def doubts_def)
  next
    case Doubtful
    have "match_item E a i (take MAX_RETAINED_MATCHES ms, min n MAX_RETAINED_MATCHES)
        = (take MAX_RETAINED_MATCHES ms, min (Suc n) MAX_RETAINED_MATCHES)"
      by (auto simp: match_item_class Doubtful min_def)
    with Cons.IH [of ms "Suc n"] Doubtful show ?thesis by (simp add: peers_def doubts_def)
  qed
qed

text \<open>
  C35. The bounded scan over the listed threads computes exactly the first sixteen exact peers and
  the number of doubtful threads, saturated at sixteen.
\<close>

theorem match_items_spec:
  "match_items E a items =
     (take MAX_RETAINED_MATCHES (peers E a items), min (doubts E a items) MAX_RETAINED_MATCHES)"
  using match_fold [of E a items "[]" 0] by (simp add: match_items_def)

lemma match_items_one:
  "length (fst (match_items E a items)) = 1 \<and> snd (match_items E a items) = 0
     \<longleftrightarrow> (\<exists>p. peers E a items = [p]) \<and> doubts E a items = 0"
proof -
  have "match_items E a items =
     (take MAX_RETAINED_MATCHES (peers E a items), min (doubts E a items) MAX_RETAINED_MATCHES)"
    using match_fold [of E a items "[]" 0] by (simp add: match_items_def)
  then show ?thesis by (auto simp: hook_bounds min_def length_Suc_conv numeral_eq_Suc)
qed

text \<open>
  C25. The reconciliation declares a peer found only when a valid snapshot has exactly one thread
  that matches title and target exactly, with a usable id, and no doubtful thread; it declares
  that there is no peer only for a valid snapshot without threads.
\<close>

theorem verdict_sound:
  assumes "post_list_mutate E sid snapshot items xs = Inr (v, ys)" "find_last (awaiting_list sid) xs = Some a"
  shows "(v = Found p \<longleftrightarrow> snapshot = ValidSnapshot \<and> peers E a items = [p] \<and> doubts E a items = 0)
    \<and> (v = NoPeer \<longleftrightarrow> snapshot = ValidSnapshot \<and> items = [])"
proof (cases "snapshot = ValidSnapshot")
  case False
  with assms show ?thesis by (auto simp: post_list_mutate_def)
next
  case True
  obtain ms u where m: "match_items E a items = (ms, u)" by fastforce
  have spec: "ms = take MAX_RETAINED_MATCHES (peers E a items)"
    "u = min (doubts E a items) MAX_RETAINED_MATCHES"
    using m match_fold [of E a items "[]" 0] by (simp_all add: match_items_def)
  have empty: "items = [] \<Longrightarrow> ms = [] \<and> u = 0" using spec by (simp add: peers_def doubts_def)
  show ?thesis
  proof (cases "length ms = 1 \<and> u = 0")
    case one: True
    then obtain q where q: "peers E a items = [q]" "doubts E a items = 0" "ms = [q]"
      using match_items_one [of E a items] m spec by (auto simp: hook_bounds)
    with one True assms m empty show ?thesis by (auto simp: post_list_mutate_def)
  next
    case False
    then have "\<not> (peers E a items = [p] \<and> doubts E a items = 0)"
      using match_items_one [of E a items] m by auto
    with False True assms m empty show ?thesis by (auto simp: post_list_mutate_def split: if_splits)
  qed
qed

theorem verdict_sound_witness:
  "\<exists>ys. post_list_mutate plain_env (lit ''s'') ValidSnapshot [] [sample_attempt (lit ''s'') Uncertain]
          = Inr (NoPeer, ys)
     \<and> (NoPeer = Found (lit ''p'') \<longleftrightarrow> ValidSnapshot = ValidSnapshot
          \<and> peers plain_env (sample_attempt (lit ''s'') Uncertain) [] = [lit ''p'']
          \<and> doubts plain_env (sample_attempt (lit ''s'') Uncertain) [] = 0)"
proof -
  have f: "find_last (awaiting_list (lit ''s'')) [sample_attempt (lit ''s'') Uncertain]
      = Some (sample_attempt (lit ''s'') Uncertain)"
    by (simp add: find_last_def awaiting_list_def sample_attempt_def)
  then obtain ys where m: "post_list_mutate plain_env (lit ''s'') ValidSnapshot []
      [sample_attempt (lit ''s'') Uncertain] = Inr (NoPeer, ys)"
    by (simp add: post_list_mutate_def match_items_def)
  from m verdict_sound [OF m f, of "lit ''p''"] show ?thesis by blast
qed

definition is_list_event :: "pystr \<Rightarrow> dict \<Rightarrow> bool" where
  "is_list_event sid event \<longleftrightarrow>
     get event ''hook_event_name'' = Some (JStr (lit ''PreToolUse''))
     \<and> get event ''tool_name'' \<in> {Some (JStr (lit ''list_threads'')), Some (JStr (lit ''codex_app__list_threads''))}
     \<and> event_session_id event = Some sid"

lemma find_last_unresolved:
  assumes one: "one_unresolved xs" and f: "find (unresolved_in sid) xs = Some a"
  shows "find_last (unresolved_in sid) xs = Some a"
proof -
  from f have "a \<in> set (filter (unresolved_in sid) xs)" by (auto simp: find_Some_iff)
  moreover have "length (filter (unresolved_in sid) xs) \<le> 1" using one by (simp add: one_unresolved_def)
  ultimately have flt: "filter (unresolved_in sid) xs = [a]"
    by (cases "filter (unresolved_in sid) xs") auto
  obtain b where b: "find_last (unresolved_in sid) xs = Some b"
    using f by (cases "find_last (unresolved_in sid) xs") (auto simp: find_last_None find_Some_iff)
  then have "b \<in> set (filter (unresolved_in sid) xs)" by (auto simp: find_last_def find_Some_iff rev_nth)
  with flt b show ?thesis by simp
qed

text \<open>
  C36. The one permitted \<open>list_threads\<close> is permitted once: while the reconciliation of a session is
  reserved, a second call is denied.
\<close>

theorem one_reconciliation:
  assumes "world_inv w" "plugin_data w" "is_list_event sid event"
    and "phase_of sid (attempts_of w) = Recovering True"
  shows "permission_decision (fst (run_event E event w)) = Some (lit ''deny'')
    \<and> attempts_of (snd (run_event E event w)) = attempts_of w"
proof -
  let ?xs = "attempts_of w"
  let ?turn = "bounded_optional (get_or_null event ''turn_id'') MAX_ID"
  from assms(4) obtain a where a: "find (unresolved_in sid) ?xs = Some a" "reconciliation_used a"
    by (auto simp: phase_of_def split: option.splits if_splits)
  from assms(1) have "one_unresolved ?xs" by (simp add: world_inv_def store_inv_def)
  from find_last_unresolved [OF this a(1)] a(2)
  have m: "pre_list_mutate sid ?turn ?xs = Inr (ListDuplicate, ?xs)" by (simp add: pre_list_mutate_def)
  obtain r ys where "pre_list_mutate sid ?turn ?xs = Inr (r, ys)"
    "transaction (pre_list_mutate sid ?turn) w = Inr (r, w\<lparr>store := Some ys\<rparr>)"
    by (rule transaction_good [OF assms(1,2) pre_list_good])
  with m have "transaction (pre_list_mutate sid ?turn) w = Inr (ListDuplicate, w\<lparr>store := Some ?xs\<rparr>)"
    by simp
  with assms(3) have "dispatch E event w =
      Inr (deny (lit ''only one list_threads reconciliation is allowed for an unresolved create''),
           w\<lparr>store := Some ?xs\<rparr>)"
    by (auto simp: is_list_event_def dispatch_def get_or_null_def is_tool_def lit_append lit_eq_iff pre_list_def)
  then show ?thesis by (simp add: run_event_def attempts_of_def)
qed

theorem one_reconciliation_witness:
  "permission_decision (fst (run_event plain_env (sample_event ''PreToolUse'' ''list_threads'')
     (sample_world Uncertain))) = Some (lit ''deny'')"
proof -
  have "is_list_event (lit ''s'') (sample_event ''PreToolUse'' ''list_threads'')"
    by (simp add: is_list_event_def sample_event_def get_def lit_eq_iff event_session_id_def
        get_or_null_def bounded_def hook_bounds)
  from one_reconciliation [OF sample_inv sample_data(1) this sample_phase(2)] show ?thesis by blast
qed

section \<open>Bounds and repair\<close>

text \<open>
  C37. Trimming keeps the ledger within its bound without ever evicting an attempt that blocks
  recovery, keeps their order, and fails exactly when those alone exceed the bound; the second
  error of the code is not reachable.
\<close>

theorem trim_attempts_keeps_blocking:
  "case trim_attempts xs of
     Inl e \<Rightarrow> MAX_ATTEMPTS < blocking_count xs
       \<and> e = RuntimeError (lit ''handoff state contains too many recovery-blocking attempts'')
   | Inr ys \<Rightarrow> length ys = min (length xs) MAX_ATTEMPTS
       \<and> filter is_recovery_blocking ys = filter is_recovery_blocking xs \<and> set ys \<subseteq> set xs"
proof (cases "MAX_ATTEMPTS < blocking_count xs")
  case True
  then show ?thesis by (simp add: trim_attempts_def)
next
  case False
  show ?thesis
  proof (cases "length xs \<le> MAX_ATTEMPTS")
    case True
    then show ?thesis by (simp add: trim_attempts_short)
  next
    case long: False
    obtain m ys where r: "drop_resolved (length xs - MAX_ATTEMPTS) xs = (m, ys)" by fastforce
    note spec = drop_resolved_spec [OF r]
    have "length xs - MAX_ATTEMPTS \<le> resolved_count xs" using False counts_sum [of xs] by linarith
    with spec have "m = 0" "length ys + (length xs - MAX_ATTEMPTS) = length xs" by simp_all
    moreover from this(2) long have "length ys = MAX_ATTEMPTS" by linarith
    ultimately have "m = 0" "length ys = MAX_ATTEMPTS" by simp_all
    with False long r spec show ?thesis by (simp add: trim_attempts_def)
  qed
qed

text \<open>
  C38. The repair is the only change made to the arguments of \<open>create_thread\<close>: it touches nothing
  but \<open>projectId\<close> and \<open>target\<close>, moves the identity it found at the top level into the target, and
  a payload it has repaired repairs to itself with the same identity.
\<close>

theorem repair_is_minimal:
  assumes "repair_payload E (JObj d) = Inr (r, changed, c)"
  shows "repair_payload E (JObj r) = Inr (r, False, c)
    \<and> get r ''projectId'' = None
    \<and> (k \<noteq> ''projectId'' \<and> k \<noteq> ''target'' \<longrightarrow> get r k = get d k)
    \<and> (changed \<longrightarrow> (\<exists>p env. get d ''projectId'' = Some (JStr p) \<and> c = ProjectTarget p env))"
proof (intro conjI impI)
  show "repair_payload E (JObj r) = Inr (r, False, c)" by (rule repair_payload_idempotent [OF assms])
  show "get r ''projectId'' = None" by (rule repair_payload_frame(1) [OF assms])
  show "k \<noteq> ''projectId'' \<and> k \<noteq> ''target'' \<Longrightarrow> get r k = get d k"
    using repair_payload_frame(2) [OF assms] by metis
  show "\<exists>p env. get d ''projectId'' = Some (JStr p) \<and> c = ProjectTarget p env" if changed
  proof -
    from assms that have "repair_payload E (JObj d) = Inr (r, True, c)" by (simp only:)
    then show ?thesis by (rule repair_payload_moves_identity)
  qed
qed

theorem repair_is_minimal_witness:
  "\<exists>r. repair_payload plain_env (JObj sample_payload) = Inr (r, True, ProjectTarget (lit ''p'') LocalEnv)
     \<and> repair_payload plain_env (JObj r) = Inr (r, False, ProjectTarget (lit ''p'') LocalEnv)
     \<and> get r ''prompt'' = get sample_payload ''prompt''"
proof -
  obtain r where r: "repair_payload plain_env (JObj sample_payload)
      = Inr (r, True, ProjectTarget (lit ''p'') LocalEnv)"
    by (simp add: repair_payload_def get_or_null_def sample_payload_def get_def lit_eq_iff
        move_project_id_def bounded_def hook_bounds payload_title_identity_def dict_del_def
        target_context_of_def normalise_environment_def key_set_def keys_def has_key_def insert_commute)
  from r repair_is_minimal [OF r, of "''prompt''"] show ?thesis by auto
qed

end
