(* ===== verification/Output_Schema.thy ===== *)
theory Output_Schema
  imports Py_Json
begin

text \<open>
  The closed schema contract of src/src/codex_flow/domain.py: the equality of JSON instances,
  \<open>validate_output_schema\<close> (which schemas are accepted) and \<open>validate_structured_output\<close> (which
  values an accepted schema admits).  The messages keep the wording of the source without the
  path of the field.  A node is validated with the number of levels that are left; none is left
  when the depth of the source exceeds its limit.  The recursion limit of the interpreter is not
  modelled: the depth limits of both validators stay far below it.
\<close>

section \<open>Limits and keywords\<close>

definition SCHEMA_TYPES :: "string list" where
  "SCHEMA_TYPES = [''object'', ''array'', ''string'', ''boolean'', ''number'', ''integer'', ''null'']"

definition SCHEMA_METADATA_KEYS :: "string list" where
  "SCHEMA_METADATA_KEYS = [''$schema'', ''$id'', ''title'', ''description'']"

definition SCHEMA_KEYS :: "string list" where
  "SCHEMA_KEYS = SCHEMA_METADATA_KEYS @
     [''type'', ''properties'', ''required'', ''additionalProperties'', ''propertyNames'', ''items'',
      ''const'', ''enum'', ''minLength'', ''maxLength'', ''pattern'', ''minItems'', ''maxItems'',
      ''uniqueItems'', ''minProperties'', ''maxProperties'', ''multipleOf'', ''minimum'', ''maximum'',
      ''exclusiveMinimum'', ''exclusiveMaximum'', ''oneOf'']"

definition MAX_OUTPUT_SCHEMA_DEPTH :: nat where "MAX_OUTPUT_SCHEMA_DEPTH = 32"
definition MAX_OUTPUT_SCHEMA_PROPERTIES :: nat where "MAX_OUTPUT_SCHEMA_PROPERTIES = 1024"
definition MAX_OUTPUT_OBJECT_PROPERTIES :: int where "MAX_OUTPUT_OBJECT_PROPERTIES = 128"
definition MAX_OUTPUT_PROPERTY_NAME_BYTES :: nat where "MAX_OUTPUT_PROPERTY_NAME_BYTES = 256"
definition MAX_OUTPUT_ARRAY_ITEMS :: int where "MAX_OUTPUT_ARRAY_ITEMS = 1024"
definition MAX_STRUCTURED_OUTPUT_BYTES :: int where "MAX_STRUCTURED_OUTPUT_BYTES = 1048576"

lemmas schema_limits = MAX_OUTPUT_SCHEMA_DEPTH_def MAX_OUTPUT_SCHEMA_PROPERTIES_def
  MAX_OUTPUT_OBJECT_PROPERTIES_def MAX_OUTPUT_PROPERTY_NAME_BYTES_def MAX_OUTPUT_ARRAY_ITEMS_def
  MAX_STRUCTURED_OUTPUT_BYTES_def

definition value_error :: "string \<Rightarrow> 'a res" where
  "value_error m = Inl (ValueError (lit m))"

text \<open>
  \<open>re.compile\<close> and \<open>re.search\<close> of the standard library: whether a pattern compiles and whether it
  matches somewhere in a text; \<open>frepr\<close> is \<open>float.__repr__\<close>.
\<close>

record text_env =
  re_compiles :: "pystr \<Rightarrow> bool"
  re_search :: "pystr \<Rightarrow> pystr \<Rightarrow> bool"
  frepr :: "rat \<Rightarrow> pystr"

section \<open>Equality of JSON instances\<close>

definition is_closed_constant_map :: "dict \<Rightarrow> dict \<Rightarrow> bool" where
  "is_closed_constant_map node properties \<longleftrightarrow>
     \<not> has_key node ''required'' \<and> has_key node ''minProperties'' \<and> has_key node ''maxProperties''
     \<and> properties \<noteq> []
     \<and> list_all (\<lambda>(_, child). case child of JObj c \<Rightarrow> has_key c ''const'' | _ \<Rightarrow> False) properties"

definition is_finite_json_number :: "json \<Rightarrow> bool" where
  "is_finite_json_number v \<longleftrightarrow> num_val v \<noteq> None"

fun json_equal :: "json \<Rightarrow> json \<Rightarrow> bool"
and equal_items :: "json list \<Rightarrow> json list \<Rightarrow> bool"
and equal_entries :: "dict \<Rightarrow> dict \<Rightarrow> bool" where
  "json_equal (JBool x) b = (b = JBool x)"
| "json_equal (JInt m) b = (num_val b = Some (of_int m))"
| "json_equal (JFloat f) b = (num_val (JFloat f) \<noteq> None \<and> num_val b = num_val (JFloat f))"
| "json_equal JNull b = (b = JNull)"
| "json_equal (JStr s) b = (b = JStr s)"
| "json_equal (JObj d) b =
     (case b of JObj e \<Rightarrow> set (keys d) = set (keys e) \<and> equal_entries d e | _ \<Rightarrow> False)"
| "json_equal (JArr xs) b = (case b of JArr ys \<Rightarrow> length xs = length ys \<and> equal_items xs ys | _ \<Rightarrow> False)"
| "equal_items [] ys = True"
| "equal_items (x # xs) ys = (case ys of [] \<Rightarrow> True | y # ys' \<Rightarrow> json_equal x y \<and> equal_items xs ys')"
| "equal_entries [] e = True"
| "equal_entries ((k, v) # d) e =
     ((case map_of e k of None \<Rightarrow> False | Some w \<Rightarrow> json_equal v w) \<and> equal_entries d e)"

text \<open>No two elements are equal: \<open>any(equal(left, right) ... for right in xs[index + 1:])\<close> negated.\<close>

fun pairwise_different :: "json list \<Rightarrow> bool" where
  "pairwise_different [] = True"
| "pairwise_different (x # xs) = (list_all (\<lambda>y. \<not> json_equal x y) xs \<and> pairwise_different xs)"

section \<open>Which schemas are accepted\<close>

definition bounded_integer :: "json \<Rightarrow> int \<Rightarrow> int res" where
  "bounded_integer v limit =
     (case v of
        JInt n \<Rightarrow>
          if n < 0 \<or> limit < n then value_error ''must be a bounded non-negative integer'' else Inr n
      | _ \<Rightarrow> value_error ''must be a bounded non-negative integer'')"

definition bound_of :: "dict \<Rightarrow> string \<Rightarrow> int \<Rightarrow> int \<Rightarrow> int res" where
  "bound_of node k dflt limit =
     bounded_integer (case get node k of None \<Rightarrow> JInt dflt | Some v \<Rightarrow> v) limit"

definition value_matches_type :: "json \<Rightarrow> pystr \<Rightarrow> bool" where
  "value_matches_type v t =
     (if t = lit ''null'' then v = JNull
      else if t = lit ''boolean'' then (case v of JBool _ \<Rightarrow> True | _ \<Rightarrow> False)
      else if t = lit ''integer'' then (case v of JInt _ \<Rightarrow> True | _ \<Rightarrow> False)
      else if t = lit ''number'' then is_finite_json_number v
      else if t = lit ''string'' then (case v of JStr _ \<Rightarrow> True | _ \<Rightarrow> False)
      else if t = lit ''array'' then (case v of JArr _ \<Rightarrow> True | _ \<Rightarrow> False)
      else (case v of JObj _ \<Rightarrow> True | _ \<Rightarrow> False))"

definition metadata_text_ok :: "json \<Rightarrow> bool" where
  "metadata_text_ok v =
     (case v of
        JStr s \<Rightarrow> s \<noteq> [] \<and> 0 \<notin> set s \<and> (case utf8_len s of Inl _ \<Rightarrow> False | Inr n \<Rightarrow> n \<le> 16384)
      | _ \<Rightarrow> False)"

definition validate_metadata :: "dict \<Rightarrow> unit res" where
  "validate_metadata node =
     bind_res (each_res (\<lambda>k. case get node k of
                  None \<Rightarrow> Inr ()
                | Some v \<Rightarrow> require (metadata_text_ok v)
                    (ValueError (lit ''output schema metadata must be a bounded non-empty string'')))
                SCHEMA_METADATA_KEYS) (\<lambda>_.
     bind_res (require (get node ''$schema'' \<in> {None, Some (JStr (lit ''https://json-schema.org/draft/2020-12/schema''))})
                (ValueError (lit ''output schema $schema must identify Draft 2020-12''))) (\<lambda>_.
     require (has_key node ''description'' \<longrightarrow>
                has_key node ''$schema'' \<and> has_key node ''$id'' \<and> has_key node ''title'')
       (ValueError (lit ''output schema description is permitted only with canonical schema metadata''))))"

text \<open>A list or tuple of strings, and the type a constant implies.\<close>

fun str_list :: "json list \<Rightarrow> pystr list option" where
  "str_list [] = Some []"
| "str_list (JStr s # xs) = map_option (\<lambda>ss. s # ss) (str_list xs)"
| "str_list (_ # xs) = None"

definition inferred_type :: "json \<Rightarrow> pystr option" where
  "inferred_type c =
     (case c of
        JNull \<Rightarrow> Some (lit ''null'')
      | JBool _ \<Rightarrow> Some (lit ''boolean'')
      | JInt _ \<Rightarrow> Some (lit ''integer'')
      | JFloat (Finite _) \<Rightarrow> Some (lit ''number'')
      | JStr _ \<Rightarrow> Some (lit ''string'')
      | _ \<Rightarrow> None)"

definition const_types :: "dict \<Rightarrow> pystr list" where
  "const_types node =
     (case get node ''const'' of
        None \<Rightarrow> []
      | Some c \<Rightarrow> (case inferred_type c of None \<Rightarrow> [] | Some t \<Rightarrow> [t]))"

definition declared_types :: "dict \<Rightarrow> pystr list" where
  "declared_types node =
     (case get node ''type'' of
        Some (JStr t) \<Rightarrow> [t]
      | Some (JArr xs) \<Rightarrow> (case str_list xs of Some ts \<Rightarrow> ts | None \<Rightarrow> const_types node)
      | _ \<Rightarrow> const_types node)"

text \<open>The keys of a node outside a list: \<open>set(node) - ...\<close>.\<close>

definition keys_without :: "dict \<Rightarrow> string list \<Rightarrow> pystr list" where
  "keys_without node ks = filter (\<lambda>k. k \<notin> set (map lit ks)) (keys node)"

definition check_types :: "bool \<Rightarrow> dict \<Rightarrow> pystr list res" where
  "check_types top_level node =
     (let ts = declared_types node
      in if ts = [] \<or> \<not> distinct ts \<or> \<not> set ts \<subseteq> set (map lit SCHEMA_TYPES)
         then value_error ''output schema type must be one of the supported JSON types''
         else if top_level \<and> ts \<noteq> [lit ''object'']
         then value_error ''execution output schema must require an object''
         else if 1 < length ts \<and> (lit ''object'' \<in> set ts \<or> lit ''array'' \<in> set ts)
         then value_error ''object and array schema types cannot be unions''
         else Inr ts)"

definition matches_some_type :: "pystr list \<Rightarrow> json \<Rightarrow> bool" where
  "matches_some_type ts v \<longleftrightarrow> (\<exists>t\<in>set ts. value_matches_type v t)"

definition check_const_enum :: "pystr list \<Rightarrow> dict \<Rightarrow> unit res" where
  "check_const_enum ts node =
     bind_res (require (case get node ''const'' of None \<Rightarrow> True | Some c \<Rightarrow> matches_some_type ts c)
                (ValueError (lit ''output schema const is incompatible with its declared type''))) (\<lambda>_.
     case get node ''enum'' of
       None \<Rightarrow> Inr ()
     | Some (JArr xs) \<Rightarrow>
         if xs = [] then value_error ''output schema enum must be a non-empty array''
         else require (pairwise_different xs \<and> list_all (matches_some_type ts) xs)
                (ValueError (lit ''output schema enum must contain unique values compatible with its declared type''))
     | Some _ \<Rightarrow> value_error ''output schema enum must be a non-empty array'')"

definition check_string :: "text_env \<Rightarrow> dict \<Rightarrow> unit res" where
  "check_string T node =
     bind_res (bound_of node ''minLength'' 0 MAX_STRUCTURED_OUTPUT_BYTES) (\<lambda>lo.
     bind_res (bound_of node ''maxLength'' MAX_STRUCTURED_OUTPUT_BYTES MAX_STRUCTURED_OUTPUT_BYTES) (\<lambda>hi.
     if hi < lo then value_error ''output schema string bounds are inverted''
     else case get node ''pattern'' of
            None \<Rightarrow> Inr ()
          | Some (JStr p) \<Rightarrow>
              bind_res (utf8_len p) (\<lambda>n.
                if MAX_OUTPUT_PROPERTY_NAME_BYTES < n
                then value_error ''output schema pattern must be a bounded string''
                else require (re_compiles T p) (ValueError (lit ''output schema pattern is invalid'')))
          | Some _ \<Rightarrow> value_error ''output schema pattern must be a bounded string''))"

text \<open>The record half of the object branch; a set as a left operand of \<open>in\<close> must be hashable.\<close>

definition const_in_3_4 :: "dict \<Rightarrow> bool res" where
  "const_in_3_4 c =
     (case get c ''const'' of
        Some (JArr _) \<Rightarrow> Inl (TypeError (lit ''unhashable type''))
      | Some (JObj _) \<Rightarrow> Inl (TypeError (lit ''unhashable type''))
      | Some v \<Rightarrow> Inr (num_val v = Some 3 \<or> num_val v = Some 4)
      | None \<Rightarrow> Inr False)"

definition optional_allowed :: "dict \<Rightarrow> pystr set \<Rightarrow> bool res" where
  "optional_allowed properties optional =
     (let version = get properties ''schema_version'';
          images = has_key properties ''local_image_paths''
      in bind_res
           (if optional = {lit ''plugin_requirements''} then
              (case version of
                 Some (JObj c) \<Rightarrow> bind_res (const_in_3_4 c) (\<lambda>b. Inr (b \<and> images))
               | _ \<Rightarrow> Inr False)
            else Inr False)
           (\<lambda>plugin.
              Inr (plugin
                \<or> (optional \<subseteq> {lit ''plugin_requirements'', lit ''local_image_paths''}
                   \<and> (case version of
                        Some (JObj c) \<Rightarrow> (case get c ''const'' of Some v \<Rightarrow> num_val v = Some 4 | None \<Rightarrow> False)
                      | _ \<Rightarrow> False)
                   \<and> images \<and> has_key properties ''outcome_kind'')
                \<or> optional = {lit ''blocker''})))"

definition check_required :: "dict \<Rightarrow> dict \<Rightarrow> unit res" where
  "check_required node properties =
     (case (case get node ''required'' of Some (JArr xs) \<Rightarrow> str_list xs | _ \<Rightarrow> None) of
        None \<Rightarrow> value_error ''named object schema required must contain property names''
      | Some names \<Rightarrow>
          if \<not> set names \<subseteq> set (keys properties)
          then value_error ''record schemas required names must be declared properties''
          else let optional = set (keys properties) - set names
            in bind_res (optional_allowed properties optional) (\<lambda>allowed.
                 if optional \<noteq> {} \<and> \<not> allowed
                 then value_error ''record schemas must require every declared property''
                 else require (distinct names) (ValueError (lit ''record schema required names must be unique''))))"

definition check_record :: "dict \<Rightarrow> dict \<Rightarrow> int \<Rightarrow> int \<Rightarrow> unit res" where
  "check_record node properties lo hi =
     (let n = int (length properties)
      in if get node ''additionalProperties'' \<noteq> Some (JBool False)
            \<or> get node ''propertyNames'' \<notin> {None, Some JNull}
         then value_error ''named object schemas must be closed''
         else if is_closed_constant_map node properties then
           require (lo \<le> n \<and> hi \<le> n) (ValueError (lit ''constant-map schema bounds exceed its supported keys''))
         else bind_res (check_required node properties) (\<lambda>_.
           require (lo \<le> n \<and> n \<le> hi) (ValueError (lit ''record schema properties violate declared bounds''))))"

definition property_name_ok :: "pystr \<Rightarrow> bool" where
  "property_name_ok k \<longleftrightarrow>
     k \<noteq> [] \<and> (case utf8_len k of Inl _ \<Rightarrow> False | Inr n \<Rightarrow> n \<le> MAX_OUTPUT_PROPERTY_NAME_BYTES) \<and> 0 \<notin> set k"

definition check_array :: "dict \<Rightarrow> unit res" where
  "check_array node =
     bind_res (require (has_key node ''items'')
                (ValueError (lit ''array schemas require an explicit item schema''))) (\<lambda>_.
     bind_res (bound_of node ''minItems'' 0 MAX_OUTPUT_ARRAY_ITEMS) (\<lambda>lo.
     bind_res (bound_of node ''maxItems'' MAX_OUTPUT_ARRAY_ITEMS MAX_OUTPUT_ARRAY_ITEMS) (\<lambda>hi.
     require (lo \<le> hi \<and> (case get node ''uniqueItems'' of None \<Rightarrow> True | Some (JBool _) \<Rightarrow> True | _ \<Rightarrow> False))
       (ValueError (lit ''output schema array bounds or uniqueness are invalid'')))))"

definition NUMERIC_KEYS :: "string list" where
  "NUMERIC_KEYS = [''multipleOf'', ''minimum'', ''maximum'', ''exclusiveMinimum'', ''exclusiveMaximum'']"

definition check_numeric :: "dict \<Rightarrow> unit res" where
  "check_numeric node =
     bind_res (each_res (\<lambda>k. case get node k of
                  None \<Rightarrow> Inr ()
                | Some v \<Rightarrow> require (is_finite_json_number v)
                    (ValueError (lit ''output schema constraint must be a finite JSON number''))) NUMERIC_KEYS) (\<lambda>_.
     bind_res (case get node ''multipleOf'' of
                 None \<Rightarrow> Inr ()
               | Some m \<Rightarrow> bind_res (py_float m) (\<lambda>x.
                   require (0 < x) (ValueError (lit ''output schema multipleOf must be positive'')))) (\<lambda>_.
     let lower = (case get node ''exclusiveMinimum'' of Some v \<Rightarrow> Some v | None \<Rightarrow> get node ''minimum'');
         upper = (case get node ''exclusiveMaximum'' of Some v \<Rightarrow> Some v | None \<Rightarrow> get node ''maximum'')
     in case (lower, upper) of
          (Some l, Some u) \<Rightarrow>
            bind_res (py_float l) (\<lambda>x. bind_res (py_float u) (\<lambda>y.
              require (x \<le> y) (ValueError (lit ''output schema numeric bounds are inverted''))))
        | _ \<Rightarrow> Inr ()))"

definition schema_union_shape :: "bool \<Rightarrow> dict \<Rightarrow> json \<Rightarrow> json list option" where
  "schema_union_shape top_level node branches =
     (case branches of
        JArr bs \<Rightarrow>
          if keys_without node (SCHEMA_METADATA_KEYS @ [''oneOf'', ''type'', ''properties'', ''required'']) = []
             \<and> 2 \<le> length bs \<and> length bs \<le> (if top_level then 4 else 16)
             \<and> list_all (\<lambda>b. case b of JObj _ \<Rightarrow> True | _ \<Rightarrow> False) bs
          then Some bs else None
      | _ \<Rightarrow> None)"

text \<open>The keys left for the branch of the type, after those of a string when the types include it.\<close>

definition structural_keys :: "pystr list \<Rightarrow> dict \<Rightarrow> string list \<Rightarrow> pystr list" where
  "structural_keys ts node allowed =
     keys_without node (SCHEMA_METADATA_KEYS @ [''type'', ''const'', ''enum'']
       @ (if lit ''string'' \<in> set ts then [''minLength'', ''maxLength'', ''pattern''] else []) @ allowed)"

text \<open>
  The branches of \<open>validate_node\<close>, with the recursive call on a child as an argument: the members of
  a record, an object, and a node of known types.
\<close>

definition check_members :: "(json \<Rightarrow> nat \<Rightarrow> nat res) \<Rightarrow> dict \<Rightarrow> nat \<Rightarrow> nat res" where
  "check_members child properties seen =
     (if MAX_OUTPUT_SCHEMA_PROPERTIES < seen + length properties
      then value_error ''output schema exceeds the total property limit''
      else each_state (\<lambda>(k, c) s.
             if property_name_ok k then child c s
             else value_error ''object schema property names must be bounded non-empty strings'')
           properties (seen + length properties))"

definition check_map :: "(json \<Rightarrow> nat \<Rightarrow> nat res) \<Rightarrow> dict \<Rightarrow> dict \<Rightarrow> dict \<Rightarrow> nat \<Rightarrow> nat res" where
  "check_map child node names additional seen =
     (if get node ''properties'' \<notin> {None, Some JNull} \<or> get node ''required'' \<notin> {None, Some JNull}
      then value_error ''object schema must be a closed record or bounded semantic map''
      else if \<not> has_key node ''minProperties'' \<or> \<not> has_key node ''maxProperties''
      then value_error ''semantic map schemas require explicit property-count bounds''
      else bind_res (child (JObj names) seen) (\<lambda>s.
        if get names ''type'' \<noteq> Some (JStr (lit ''string''))
        then value_error ''semantic map propertyNames must declare a string schema''
        else child (JObj additional) s))"

definition check_object :: "(json \<Rightarrow> nat \<Rightarrow> nat res) \<Rightarrow> pystr list \<Rightarrow> dict \<Rightarrow> nat \<Rightarrow> nat res" where
  "check_object child ts node seen =
     bind_res (bound_of node ''minProperties'' 0 MAX_OUTPUT_OBJECT_PROPERTIES) (\<lambda>lo.
     bind_res (bound_of node ''maxProperties'' MAX_OUTPUT_OBJECT_PROPERTIES MAX_OUTPUT_OBJECT_PROPERTIES) (\<lambda>hi.
     if hi < lo then value_error ''output schema object bounds are inverted''
     else case get node ''properties'' of
       Some (JObj properties) \<Rightarrow>
         bind_res (check_record node properties lo hi) (\<lambda>_.
         bind_res (require (structural_keys ts node
             [''properties'', ''required'', ''additionalProperties'', ''minProperties'', ''maxProperties''] = [])
           (ValueError (lit ''object schema contains inapplicable constraints''))) (\<lambda>_.
         check_members child properties seen))
     | _ \<Rightarrow>
         (case (get node ''propertyNames'', get node ''additionalProperties'') of
            (Some (JObj names), Some (JObj additional)) \<Rightarrow> check_map child node names additional seen
          | _ \<Rightarrow> value_error ''object schema must be a closed record or bounded semantic map'')))"

definition check_typed :: "text_env \<Rightarrow> (json \<Rightarrow> nat \<Rightarrow> nat res) \<Rightarrow> pystr list \<Rightarrow> dict \<Rightarrow> nat \<Rightarrow> nat res" where
  "check_typed T child ts node seen =
     bind_res (if lit ''string'' \<in> set ts then check_string T node else Inr ()) (\<lambda>_.
     if 1 < length ts then
       bind_res (require (structural_keys ts node [] = [])
         (ValueError (lit ''union schema constraints do not apply to a declared type''))) (\<lambda>_. Inr seen)
     else if hd ts = lit ''object'' then check_object child ts node seen
     else if hd ts = lit ''array'' then
       bind_res (check_array node) (\<lambda>_.
       bind_res (require (structural_keys ts node [''items'', ''minItems'', ''maxItems'', ''uniqueItems''] = [])
         (ValueError (lit ''array schema contains inapplicable constraints''))) (\<lambda>_.
       child (case get node ''items'' of Some i \<Rightarrow> i | None \<Rightarrow> JNull) seen))
     else if hd ts = lit ''number'' \<or> hd ts = lit ''integer'' then
       bind_res (check_numeric node) (\<lambda>_.
       bind_res (require (structural_keys ts node NUMERIC_KEYS = [])
         (ValueError (lit ''schema contains inapplicable constraints''))) (\<lambda>_. Inr seen))
     else bind_res (require (structural_keys ts node [] = [])
            (ValueError (lit ''schema contains inapplicable constraints''))) (\<lambda>_. Inr seen))"

primrec validate_node :: "text_env \<Rightarrow> nat \<Rightarrow> bool \<Rightarrow> json \<Rightarrow> nat \<Rightarrow> nat res" where
  "validate_node T 0 = (\<lambda>top_level v seen.
     case v of
       JObj _ \<Rightarrow> value_error ''output schema exceeds the depth limit''
     | _ \<Rightarrow> value_error ''output schema nodes must be objects'')"
| "validate_node T (Suc left) = (\<lambda>top_level v seen.
     case v of
       JObj node \<Rightarrow>
         bind_res (require (keys_without node SCHEMA_KEYS = [])
                    (ValueError (lit ''output schema contains unsupported keys''))) (\<lambda>_.
         bind_res (validate_metadata node) (\<lambda>_.
         case get node ''oneOf'' of
           Some branches \<Rightarrow>
             (case schema_union_shape top_level node branches of
                None \<Rightarrow> value_error ''output schema oneOf must be a single bounded branch authority''
              | Some bs \<Rightarrow> each_state (validate_node T left top_level) bs seen)
         | None \<Rightarrow>
             bind_res (check_types top_level node) (\<lambda>ts.
             bind_res (check_const_enum ts node) (\<lambda>_.
             check_typed T (validate_node T left False) ts node seen))))
     | _ \<Rightarrow> value_error ''output schema nodes must be objects'')"

text \<open>The outer \<open>try\<close>: a \<open>KeyError\<close> or \<open>TypeError\<close> of the walk becomes a \<open>ValueError\<close>.\<close>

definition guard_lookup :: "string \<Rightarrow> 'a res \<Rightarrow> 'a res" where
  "guard_lookup m r =
     (case r of
        Inl (KeyError _) \<Rightarrow> value_error m
      | Inl (TypeError _) \<Rightarrow> value_error m
      | _ \<Rightarrow> r)"

definition validate_output_schema :: "text_env \<Rightarrow> json \<Rightarrow> nat res" where
  "validate_output_schema T schema =
     guard_lookup ''output schema is not a valid JSON schema mapping''
       (validate_node T MAX_OUTPUT_SCHEMA_DEPTH True schema 0)"

section \<open>Which values an accepted schema admits\<close>

text \<open>
  The readers below give a \<open>TypeError\<close> for every shape that a node never has once it has been
  accepted; the lemmas of \<open>Schema_Safety\<close> show that none of them is reached.
\<close>

definition int_field :: "dict \<Rightarrow> string \<Rightarrow> int \<Rightarrow> int res" where
  "int_field node k dflt =
     (case get node k of
        None \<Rightarrow> Inr dflt
      | Some (JInt n) \<Rightarrow> Inr n
      | Some _ \<Rightarrow> Inl (TypeError (lit ''bound is not an integer'')))"

definition in_bounds :: "dict \<Rightarrow> string \<Rightarrow> int \<Rightarrow> string \<Rightarrow> int \<Rightarrow> nat \<Rightarrow> string \<Rightarrow> unit res" where
  "in_bounds node klo dlo khi dhi n m =
     bind_res (int_field node klo dlo) (\<lambda>lo. bind_res (int_field node khi dhi) (\<lambda>hi.
       require (lo \<le> int n \<and> int n \<le> hi) (ValueError (lit m))))"

definition num_field :: "dict \<Rightarrow> string \<Rightarrow> rat option res" where
  "num_field node k =
     (case get node k of
        None \<Rightarrow> Inr None
      | Some JNull \<Rightarrow> Inr None
      | Some v \<Rightarrow> (case num_val v of Some r \<Rightarrow> Inr (Some r) | None \<Rightarrow> Inl (TypeError (lit ''bound is not a number''))))"

fun truthy :: "json \<Rightarrow> bool" where
  "truthy JNull = False"
| "truthy (JBool b) = b"
| "truthy (JInt n) = (n \<noteq> 0)"
| "truthy (JFloat f) = (f \<noteq> Finite 0)"
| "truthy (JStr s) = (s \<noteq> [])"
| "truthy (JArr xs) = (xs \<noteq> [])"
| "truthy (JObj d) = (d \<noteq> [])"

definition value_types :: "dict \<Rightarrow> json list" where
  "value_types node =
     (case get node ''type'' of
        Some (JStr t) \<Rightarrow> [JStr t]
      | Some (JArr xs) \<Rightarrow> xs
      | _ \<Rightarrow> [JStr (case inferred_type (case get node ''const'' of None \<Rightarrow> JNull | Some c \<Rightarrow> c) of
                None \<Rightarrow> [] | Some t \<Rightarrow> t)])"

definition type_matches :: "json \<Rightarrow> json \<Rightarrow> bool" where
  "type_matches item t =
     (case t of JStr s \<Rightarrow> value_matches_type item s | _ \<Rightarrow> (case item of JObj _ \<Rightarrow> True | _ \<Rightarrow> False))"

definition const_enum_admit :: "json \<Rightarrow> dict \<Rightarrow> unit res" where
  "const_enum_admit item node =
     bind_res (require (case get node ''const'' of None \<Rightarrow> True | Some c \<Rightarrow> json_equal item c)
                (ValueError (lit ''structured output field violates const''))) (\<lambda>_.
     case get node ''enum'' of
       None \<Rightarrow> Inr ()
     | Some (JArr xs) \<Rightarrow> require (\<exists>x\<in>set xs. json_equal item x)
         (ValueError (lit ''structured output field is not in enum''))
     | Some _ \<Rightarrow> Inl (TypeError (lit ''enum is not a sequence'')))"

definition string_admit :: "text_env \<Rightarrow> pystr \<Rightarrow> dict \<Rightarrow> unit res" where
  "string_admit T s node =
     bind_res (in_bounds node ''minLength'' 0 ''maxLength'' MAX_STRUCTURED_OUTPUT_BYTES (length s)
                ''structured output field violates string bounds'') (\<lambda>_.
     case get node ''pattern'' of
       Some (JStr p) \<Rightarrow> require (re_search T p s) (ValueError (lit ''structured output field violates pattern''))
     | _ \<Rightarrow> Inr ())"

definition array_admit :: "json list \<Rightarrow> dict \<Rightarrow> unit res" where
  "array_admit xs node =
     bind_res (in_bounds node ''minItems'' 0 ''maxItems'' MAX_OUTPUT_ARRAY_ITEMS (length xs)
                ''structured output field violates array bounds'') (\<lambda>_.
     require ((case get node ''uniqueItems'' of None \<Rightarrow> False | Some v \<Rightarrow> truthy v) \<longrightarrow> pairwise_different xs)
       (ValueError (lit ''structured output field violates uniqueItems'')))"

definition number_admit :: "json \<Rightarrow> dict \<Rightarrow> unit res" where
  "number_admit item node =
     (case num_val item of
        None \<Rightarrow> Inl (TypeError (lit ''not a number''))
      | Some x \<Rightarrow>
          bind_res (num_field node ''minimum'') (\<lambda>lo.
          bind_res (require (pred_option (\<lambda>b. b \<le> x) lo) (ValueError (lit ''structured output field violates minimum''))) (\<lambda>_.
          bind_res (num_field node ''maximum'') (\<lambda>hi.
          bind_res (require (pred_option (\<lambda>b. x \<le> b) hi) (ValueError (lit ''structured output field violates maximum''))) (\<lambda>_.
          bind_res (num_field node ''exclusiveMinimum'') (\<lambda>xlo.
          bind_res (require (pred_option (\<lambda>b. b < x) xlo) (ValueError (lit ''structured output field violates exclusiveMinimum''))) (\<lambda>_.
          bind_res (num_field node ''exclusiveMaximum'') (\<lambda>xhi.
          bind_res (require (pred_option (\<lambda>b. x < b) xhi) (ValueError (lit ''structured output field violates exclusiveMaximum''))) (\<lambda>_.
          case get node ''multipleOf'' of
            None \<Rightarrow> Inr ()
          | Some JNull \<Rightarrow> Inr ()
          | Some m \<Rightarrow> bind_res (is_multiple item m) (\<lambda>b.
              require b (ValueError (lit ''structured output field violates multipleOf''))))))))))))"

text \<open>The object branch up to the loops over the members: the bounds, the count and the keys.\<close>

definition object_admit :: "dict \<Rightarrow> dict \<Rightarrow> nat \<Rightarrow> nat res" where
  "object_admit d node seen =
     bind_res (in_bounds node ''minProperties'' 0 ''maxProperties'' MAX_OUTPUT_OBJECT_PROPERTIES (length d)
                ''structured output field violates object bounds'') (\<lambda>_.
     if MAX_OUTPUT_SCHEMA_PROPERTIES < seen + length d
     then value_error ''structured output exceeds the total property limit''
     else Inr (seen + length d))"

definition record_keys_admit :: "dict \<Rightarrow> dict \<Rightarrow> dict \<Rightarrow> unit res" where
  "record_keys_admit d node properties =
     (let expected = set (keys properties); given = set (keys d)
      in if is_closed_constant_map node properties then
           require (given \<subseteq> expected) (ValueError (lit ''structured output field contains an unsupported map key''))
         else bind_res (case get node ''required'' of
                          Some (JArr xs) \<Rightarrow>
                            (case str_list xs of Some ns \<Rightarrow> Inr (set ns) | None \<Rightarrow> Inl (TypeError (lit ''required'')))
                        | _ \<Rightarrow> Inr expected) (\<lambda>required.
           require (required \<subseteq> given \<and> given \<subseteq> expected)
             (ValueError (lit ''structured output field does not match the closed record''))))"

text \<open>
  The branches of a \<open>oneOf\<close>, each from the same count; only a \<open>ValueError\<close> means that a branch
  does not match.
\<close>

fun try_branches :: "('a \<Rightarrow> 's \<Rightarrow> 's res) \<Rightarrow> 'a list \<Rightarrow> 's \<Rightarrow> 's list res" where
  "try_branches f [] s = Inr []"
| "try_branches f (b # bs) s =
     (case f b s of
        Inr s' \<Rightarrow> bind_res (try_branches f bs s) (\<lambda>ms. Inr (s' # ms))
      | Inl (ValueError _) \<Rightarrow> try_branches f bs s
      | Inl e \<Rightarrow> Inl e)"

definition one_of :: "('a \<Rightarrow> 's \<Rightarrow> 's res) \<Rightarrow> 'a list \<Rightarrow> 's \<Rightarrow> 's res" where
  "one_of f bs s =
     bind_res (try_branches f bs s) (\<lambda>ms. case ms of
        [s'] \<Rightarrow> Inr s'
      | _ \<Rightarrow> value_error ''structured output field must match exactly one oneOf branch'')"

text \<open>The branches of \<open>validate\<close>, with the recursive call as an argument.\<close>

definition admit_array :: "(json \<Rightarrow> json \<Rightarrow> nat \<Rightarrow> nat res) \<Rightarrow> json list \<Rightarrow> dict \<Rightarrow> nat \<Rightarrow> nat res" where
  "admit_array child xs node seen =
     bind_res (array_admit xs node) (\<lambda>_.
       case get node ''items'' of
         None \<Rightarrow> Inl (KeyError (lit ''items''))
       | Some i \<Rightarrow> each_state (\<lambda>x. child x i) xs seen)"

definition admit_object :: "(json \<Rightarrow> json \<Rightarrow> nat \<Rightarrow> nat res) \<Rightarrow> dict \<Rightarrow> dict \<Rightarrow> nat \<Rightarrow> nat res" where
  "admit_object child d node seen =
     bind_res (object_admit d node seen) (\<lambda>s.
       case get node ''properties'' of
         Some (JObj properties) \<Rightarrow>
           bind_res (record_keys_admit d node properties) (\<lambda>_.
           each_state (\<lambda>(k, x). case map_of properties k of
               None \<Rightarrow> (\<lambda>_. Inl (KeyError k))
             | Some c \<Rightarrow> child x c) d s)
       | _ \<Rightarrow>
           (case (get node ''propertyNames'', get node ''additionalProperties'') of
              (Some names, Some additional) \<Rightarrow>
                each_state (\<lambda>(k, x) s. bind_res (child (JStr k) names s) (child x additional)) d s
            | _ \<Rightarrow> Inl (KeyError (lit ''propertyNames''))))"

definition admit_typed ::
    "text_env \<Rightarrow> (json \<Rightarrow> json \<Rightarrow> nat \<Rightarrow> nat res) \<Rightarrow> json \<Rightarrow> json \<Rightarrow> dict \<Rightarrow> nat \<Rightarrow> nat res" where
  "admit_typed T child t item node seen =
     (if item = JNull then Inr seen
      else if t = JStr (lit ''string'') then
        bind_res (string_admit T (case item of JStr s \<Rightarrow> s | _ \<Rightarrow> []) node) (\<lambda>_. Inr seen)
      else if t = JStr (lit ''array'') then
        (case item of
           JArr xs \<Rightarrow> admit_array child xs node seen
         | _ \<Rightarrow> Inl (TypeError (lit ''not a sequence'')))
      else if t = JStr (lit ''number'') \<or> t = JStr (lit ''integer'') then
        bind_res (number_admit item node) (\<lambda>_. Inr seen)
      else if t \<noteq> JStr (lit ''object'') then Inr seen
      else (case item of
              JObj d \<Rightarrow> admit_object child d node seen
            | _ \<Rightarrow> Inl (TypeError (lit ''not a mapping''))))"

primrec validate :: "text_env \<Rightarrow> nat \<Rightarrow> json \<Rightarrow> json \<Rightarrow> nat \<Rightarrow> nat res" where
  "validate T 0 = (\<lambda>item schema seen. value_error ''structured output exceeds the depth limit'')"
| "validate T (Suc left) = (\<lambda>item schema seen.
     case schema of
       JObj node \<Rightarrow>
         (case get node ''oneOf'' of
            Some (JArr bs) \<Rightarrow> one_of (validate T left item) bs seen
          | _ \<Rightarrow>
            (case filter (type_matches item) (value_types node) of
               [] \<Rightarrow> value_error ''structured output field has the wrong JSON type''
             | t # _ \<Rightarrow>
                 bind_res (const_enum_admit item node) (\<lambda>_.
                 admit_typed T (validate T left) t item node seen)))
     | _ \<Rightarrow> Inl (AttributeError (lit ''get'')))"

definition validate_structured_output :: "text_env \<Rightarrow> json \<Rightarrow> json \<Rightarrow> nat res" where
  "validate_structured_output T v schema =
     bind_res (validate_output_schema T schema) (\<lambda>_.
     bind_res (case dumps (frepr T) False v of
                 Inr text \<Rightarrow> Inr text
               | Inl _ \<Rightarrow> value_error ''structured output is not interoperable JSON'') (\<lambda>encoded.
     bind_res (utf8_len encoded) (\<lambda>n.
     if MAX_STRUCTURED_OUTPUT_BYTES < int n then value_error ''structured output exceeds the byte limit''
     else guard_lookup ''structured output does not match the accepted schema''
            (validate T MAX_OUTPUT_SCHEMA_DEPTH v schema 0))))"

end
