(* ===== verification/Schema_Safety.thy ===== *)
theory Schema_Safety
  imports Output_Schema
begin

text \<open>
  What the schema contract of src/src/codex_flow/domain.py guarantees: JSON equality is an
  equivalence, the property budget bounds schemas and values, a value of an accepted schema is
  validated without a lookup or type error, a \<open>oneOf\<close> has exactly one match and a record is
  closed.
\<close>

section \<open>A concrete schema and value\<close>

definition sample_schema :: json where
  "sample_schema = JObj [(lit ''type'', JStr (lit ''object'')),
     (lit ''properties'', JObj [(lit ''ok'', JObj [(lit ''type'', JStr (lit ''boolean''))])]),
     (lit ''required'', JArr [JStr (lit ''ok'')]), (lit ''additionalProperties'', JBool False)]"

definition sample_value :: json where
  "sample_value = JObj [(lit ''ok'', JBool True)]"

definition sample_text_env :: text_env where
  "sample_text_env = \<lparr>re_compiles = (\<lambda>_. True), re_search = (\<lambda>_ _. True), frepr = (\<lambda>_. [])\<rparr>"

lemmas schema_eval = validate_output_schema_def guard_lookup_def get_def keys_without_def keys_def
  SCHEMA_KEYS_def SCHEMA_METADATA_KEYS_def validate_metadata_def has_key_def check_types_def declared_types_def
  SCHEMA_TYPES_def check_const_enum_def check_typed_def check_object_def bound_of_def bounded_integer_def
  schema_limits check_record_def is_closed_constant_map_def check_required_def optional_allowed_def
  structural_keys_def check_members_def

lemmas value_eval = get_def keys_def has_key_def value_types_def type_matches_def value_matches_type_def
  const_enum_admit_def admit_typed_def admit_object_def object_admit_def in_bounds_def int_field_def
  record_keys_admit_def schema_limits is_closed_constant_map_def

lemma ascii_eval: "utf8_len s = Inr (length s)" if "\<forall>c\<in>set s. c < 128"
proof -
  have "length (utf8_surrogatepass s) = length s"
    using that by (induction s) (simp_all add: utf8_surrogatepass_def utf8_char_def)
  moreover have "\<not> (\<exists>c\<in>set s. is_surrogate c)" using that by (force simp: is_surrogate_def)
  ultimately show ?thesis by (simp add: utf8_len_def utf8_strict_def)
qed

lemma sample_leaf:
  "validate_node T (Suc n) False (JObj [(lit ''type'', JStr (lit ''boolean''))]) s = Inr s"
  "validate T (Suc n) (JBool b) (JObj [(lit ''type'', JStr (lit ''boolean''))]) s = Inr s"
  by (simp_all add: schema_eval value_eval)

lemma sample_name: "property_name_ok (lit ''ok'')"
  by (simp add: property_name_ok_def ascii_eval lit_def schema_limits)

lemma sample_node: "validate_node T (Suc (Suc n)) True sample_schema 0 = Inr 1"
  unfolding sample_schema_def
  by (subst validate_node.simps(2))
    (simp add: schema_eval sample_leaf sample_name del: validate_node.simps(2))

lemma sample_schema_ok: "validate_output_schema T sample_schema = Inr 1"
  using sample_node [of T 30] by (simp add: validate_output_schema_def guard_lookup_def schema_limits)

lemma sample_admit: "validate T (Suc (Suc n)) sample_value sample_schema 0 = Inr 1"
  unfolding sample_schema_def sample_value_def
  by (subst validate.simps(2)) (simp add: value_eval sample_leaf del: validate.simps(2))

lemma sample_output_ok: "validate_structured_output T sample_value sample_schema = Inr 1"
proof -
  have d: "dumps (frepr T) False sample_value
      = Inr (lit (CHR 0x7B # CHR 0x22 # ''ok'' @ [CHR 0x22] @ '':true'' @ [CHR 0x7D]))"
    by (simp add: sample_value_def dump_str_def escape_char_def lit_def)
  show ?thesis
    using sample_admit [of T 30] unfolding validate_structured_output_def sample_schema_ok bind_res_simps d
    by (simp add: guard_lookup_def schema_limits ascii_eval lit_def)
qed

section \<open>Equality\<close>

lemma equal_entries_iff:
  "equal_entries d e \<longleftrightarrow> (\<forall>(k, v)\<in>set d. \<exists>w. map_of e k = Some w \<and> json_equal v w)"
  by (induction d) (auto split: option.splits)

lemma equal_items_iff:
  "length xs = length ys \<Longrightarrow> equal_items xs ys \<longleftrightarrow> list_all2 json_equal xs ys"
  by (induction xs ys rule: list_induct2) auto

text \<open>A value with no infinity and no NaN, which is what JSON text can denote.\<close>

fun finite_json :: "json \<Rightarrow> bool" and finite_items :: "(pystr \<times> json) list \<Rightarrow> bool" where
  "finite_json (JFloat f) = (\<exists>r. f = Finite r)"
| "finite_json (JArr xs) = (\<forall>x\<in>set xs. finite_json x)"
| "finite_json (JObj d) = finite_items d"
| "finite_json _ = True"
| "finite_items [] = True"
| "finite_items ((k, v) # d) = (finite_json v \<and> finite_items d)"

lemma finite_items_iff: "finite_items d \<longleftrightarrow> (\<forall>(k, v)\<in>set d. finite_json v)"
  by (induction d) auto

lemma num_val_Some_cases: "num_val v = Some x \<Longrightarrow> (\<exists>n. v = JInt n) \<or> (\<exists>r. v = JFloat (Finite r))"
  by (induction v rule: num_val.induct) auto

lemma json_size_entry: "(k, v) \<in> set d \<Longrightarrow> size v < Suc (size_list (size_prod (\<lambda>_. 0) size) d)"
  by (induction d) auto

lemma json_equal_refl: "wf_json v \<Longrightarrow> finite_json v \<Longrightarrow> json_equal v v"
proof (induction v)
  case (JArr xs)
  then show ?case by (auto simp: equal_items_iff intro!: list_all2_refl list.rel_refl_strong)
next
  case (JObj d)
  have "json_equal v v" if "(k, v) \<in> set d" for k v
    using that JObj.prems JObj.IH [OF that, of v] by (auto simp: wf_items_iff finite_items_iff)
  moreover have "map_of d k = Some v" if "(k, v) \<in> set d" for k v
    using that JObj.prems(1) by (simp add: keys_def)
  ultimately show ?case by (auto simp: equal_entries_iff)
qed auto

lemma json_equal_sym: "json_equal v w \<Longrightarrow> wf_json v \<Longrightarrow> wf_json w \<Longrightarrow> json_equal w v"
proof (induction v arbitrary: w)
  case (JArr xs)
  then obtain ys where w: "w = JArr ys" "length xs = length ys" by (cases w) auto
  with JArr show ?case
    by (auto simp: equal_items_iff list_all2_conv_all_nth all_set_conv_all_nth)
next
  case (JObj d)
  then obtain e where w: "w = JObj e" "set (keys d) = set (keys e)" "equal_entries d e"
    by (cases w) auto
  have "\<exists>v. map_of d k = Some v \<and> json_equal u v" if ku: "(k, u) \<in> set e" for k u
  proof -
    from ku w(2) obtain v where v: "(k, v) \<in> set d" by (force simp: keys_def)
    with w(3) obtain u' where "map_of e k = Some u'" "json_equal v u'"
      by (auto simp: equal_entries_iff)
    moreover have "map_of e k = Some u" using ku JObj.prems(3) w(1) by (simp add: keys_def)
    ultimately have "json_equal v u" by simp
    moreover have "wf_json v" "wf_json u"
      using v ku JObj.prems w(1) by (auto simp: wf_items_iff)
    ultimately have "json_equal u v" using JObj.IH v by force
    moreover have "map_of d k = Some v" using v JObj.prems(2) by (simp add: keys_def)
    ultimately show ?thesis by blast
  qed
  with w show ?case by (auto simp: equal_entries_iff)
next
  case (JInt n)
  then show ?case by (cases w rule: num_val.cases) auto
next
  case (JFloat f)
  then show ?case by (cases f; cases w rule: num_val.cases) auto
qed auto

lemma json_equal_trans: "json_equal u v \<Longrightarrow> json_equal v w \<Longrightarrow> json_equal u w"
proof (induction u arbitrary: v w)
  case (JArr xs)
  then obtain ys where v: "v = JArr ys" "length xs = length ys" by (cases v) auto
  with JArr.prems(2) obtain zs where w: "w = JArr zs" "length ys = length zs" by (cases w) auto
  with v JArr show ?case
    by (auto simp: equal_items_iff list_all2_conv_all_nth)
next
  case (JObj d)
  then obtain e where v: "v = JObj e" "set (keys d) = set (keys e)" "equal_entries d e"
    by (cases v) auto
  with JObj.prems(2) obtain f where w: "w = JObj f" "set (keys e) = set (keys f)" "equal_entries e f"
    by (cases w) auto
  have "\<exists>y. map_of f k = Some y \<and> json_equal a y" if ka: "(k, a) \<in> set d" for k a
  proof -
    from ka v(3) obtain b where b: "map_of e k = Some b" "json_equal a b"
      by (auto simp: equal_entries_iff)
    with w(3) obtain c where "map_of f k = Some c" "json_equal b c"
      by (force simp: equal_entries_iff dest: map_of_SomeD)
    moreover from this(2) b(2) have "json_equal a c" using JObj.IH ka by force
    ultimately show ?thesis by blast
  qed
  with v w show ?case by (auto simp: equal_entries_iff)
next
  case (JInt n)
  then show ?case by (cases v rule: num_val.cases) auto
next
  case (JFloat f)
  then show ?case by (cases f; cases v rule: num_val.cases) auto
qed auto

text \<open>
  The equality of JSON instances (integers and floats compare by value, booleans only with
  booleans, objects as sets of members) is an equivalence on well-formed finite values.
\<close>

theorem json_equality_equivalence:
  assumes "wf_json u" "wf_json v" "finite_json u"
  shows "json_equal u u \<and> (json_equal u v \<longleftrightarrow> json_equal v u)
    \<and> (json_equal u v \<and> json_equal v w \<longrightarrow> json_equal u w)"
  using json_equal_refl [OF assms(1,3)] json_equal_sym [OF _ assms(1,2)] json_equal_sym [OF _ assms(2,1)]
    json_equal_trans [of u v w] by blast

theorem json_equality_equivalence_witness:
  "json_equal (JInt 1) (JFloat (Finite 1)) \<and> json_equal (JFloat (Finite 1)) (JInt 1)
   \<and> \<not> json_equal (JBool True) (JInt 1)"
  using json_equality_equivalence [of "JInt 1" "JFloat (Finite 1)" JNull] by simp

section \<open>The property budget\<close>

definition within_budget :: "nat \<Rightarrow> nat \<Rightarrow> bool" where
  "within_budget s s' \<longleftrightarrow> s \<le> s' \<and> (s \<le> MAX_OUTPUT_SCHEMA_PROPERTIES \<longrightarrow> s' \<le> MAX_OUTPUT_SCHEMA_PROPERTIES)"

lemma budget_refl: "within_budget s s" and budget_trans: "within_budget s t \<Longrightarrow> within_budget t u \<Longrightarrow> within_budget s u"
  by (auto simp: within_budget_def)

lemmas each_state_budget = each_state_mono [where R = within_budget, OF _ _ budget_refl budget_trans]

lemma one_of_Inr:
  assumes "one_of f bs s = Inr s'"
  shows "\<exists>i < length bs. f (bs ! i) s = Inr s' \<and> (\<forall>j < length bs. j \<noteq> i \<longrightarrow> (\<exists>m. f (bs ! j) s = Inl (ValueError m)))"
proof -
  have none: "\<forall>b\<in>set bs. \<exists>m. f b s = Inl (ValueError m)" if "try_branches f bs s = Inr []" for bs
    using that by (induction bs) (auto simp: bind_res_Inr_iff split: sum.splits py_error.splits)
  have "\<exists>i < length bs. f (bs ! i) s = Inr t \<and> (\<forall>j < length bs. j \<noteq> i \<longrightarrow> (\<exists>m. f (bs ! j) s = Inl (ValueError m)))"
    if "try_branches f bs s = Inr [t]" for bs t
    using that
  proof (induction bs)
    case Nil
    then show ?case by simp
  next
    case (Cons b bs)
    show ?case
    proof (cases "f b s")
      case (Inr u)
      with Cons.prems have "u = t" "try_branches f bs s = Inr []" by (auto simp: bind_res_Inr_iff)
      with none [of bs] Inr show ?thesis
        by (intro exI [of _ 0]) (auto simp: nth_Cons all_set_conv_all_nth split: nat.split)
    next
      case (Inl e)
      with Cons.prems obtain m where m: "e = ValueError m" "try_branches f bs s = Inr [t]"
        by (auto split: py_error.splits)
      with Cons.IH obtain i where "i < length bs" "f (bs ! i) s = Inr t"
        "\<forall>j < length bs. j \<noteq> i \<longrightarrow> (\<exists>m. f (bs ! j) s = Inl (ValueError m))" by blast
      with Inl m show ?thesis
        by (intro exI [of _ "Suc i"]) (auto simp: nth_Cons split: nat.split)
    qed
  qed
  moreover from assms obtain ms where ms: "try_branches f bs s = Inr ms"
    "(case ms of [s'] \<Rightarrow> Inr s' | _ \<Rightarrow> value_error ''structured output field must match exactly one oneOf branch'')
       = Inr s'"
    by (auto simp: one_of_def bind_res_Inr_iff)
  moreover from ms(2) have "ms = [s']"
    by (cases ms; cases "tl ms") (auto simp: value_error_def)
  ultimately show ?thesis by blast
qed

text \<open>The validators of schemas and of values keep the budget.\<close>

lemma check_object_cases:
  assumes "check_object child ts node s = Inr s'"
  obtains (closed_record) properties lo hi where "get node ''properties'' = Some (JObj properties)"
      "check_record node properties lo hi = Inr ()" "check_members child properties s = Inr s'"
    | (semantic_map) names additional t where "get node ''properties'' \<in> {None, Some JNull}"
      "get node ''propertyNames'' = Some (JObj names)" "get node ''additionalProperties'' = Some (JObj additional)"
      "child (JObj names) s = Inr t" "child (JObj additional) t = Inr s'"
  using assms
  by (auto simp: check_object_def check_map_def bind_res_Inr_iff value_error_def
      split: if_splits option.splits json.splits)

lemma check_object_bounds:
  assumes "check_object child ts node s = Inr s'"
  shows "\<exists>lo hi. bound_of node ''minProperties'' 0 MAX_OUTPUT_OBJECT_PROPERTIES = Inr lo
    \<and> bound_of node ''maxProperties'' MAX_OUTPUT_OBJECT_PROPERTIES MAX_OUTPUT_OBJECT_PROPERTIES = Inr hi"
  using assms by (auto simp: check_object_def bind_res_Inr_iff)

lemma check_members_each:
  assumes "check_members child properties s = Inr s'"
  shows "\<forall>(k, c)\<in>set properties. \<exists>t t'. child c t = Inr t'"
proof -
  from assms have "each_state (\<lambda>(k, c) s. if property_name_ok k then child c s
      else value_error ''object schema property names must be bounded non-empty strings'') properties
      (s + length properties) = Inr s'"
    by (auto simp: check_members_def value_error_def split: if_splits)
  from each_state_each [OF this] show ?thesis
    by (fastforce simp: value_error_def split: if_splits)
qed

lemma check_members_budget:
  assumes "check_members child properties s = Inr s'"
    and "\<And>c t t'. child c t = Inr t' \<Longrightarrow> within_budget t t'"
  shows "within_budget s s'"
proof -
  from assms(1) have le: "s + length properties \<le> MAX_OUTPUT_SCHEMA_PROPERTIES"
    and run: "each_state (\<lambda>(k, c) s. if property_name_ok k then child c s
      else value_error ''object schema property names must be bounded non-empty strings'') properties
      (s + length properties) = Inr s'"
    by (auto simp: check_members_def value_error_def split: if_splits)
  have "within_budget (s + length properties) s'"
    by (rule each_state_budget [OF run]) (auto simp: value_error_def intro: assms(2) split: if_splits)
  moreover have "within_budget s (s + length properties)" using le by (simp add: within_budget_def)
  ultimately show ?thesis by (rule budget_trans [rotated])
qed

lemma check_typed_budget:
  assumes "check_typed T child ts node s = Inr s'"
    and child: "\<And>c t t'. child c t = Inr t' \<Longrightarrow> within_budget t t'"
  shows "within_budget s s'"
proof -
  from assms(1) have "s' = s \<or> check_object child ts node s = Inr s' \<or> (\<exists>c. child c s = Inr s')"
    by (auto simp: check_typed_def bind_res_Inr_iff split: if_splits)
  then consider "s' = s" | "check_object child ts node s = Inr s'" | c where "child c s = Inr s'" by blast
  then show ?thesis
  proof cases
    case 2
    then show ?thesis
      by (cases rule: check_object_cases) (auto intro: check_members_budget child budget_trans)
  qed (auto simp: budget_refl intro: child)
qed

lemma validate_node_cases:
  assumes "validate_node T n top_level v s = Inr s'"
  obtains (union) left node bs where "n = Suc left" "v = JObj node" "get node ''oneOf'' = Some (JArr bs)"
      "each_state (validate_node T left top_level) bs s = Inr s'"
    | (typed) left node ts where "n = Suc left" "v = JObj node" "get node ''oneOf'' = None"
      "check_types top_level node = Inr ts" "check_const_enum ts node = Inr ()"
      "check_typed T (validate_node T left False) ts node s = Inr s'"
proof (cases n)
  case 0
  with assms that show thesis by (auto simp: value_error_def split: json.splits)
next
  case (Suc left)
  with assms obtain node where v: "v = JObj node" by (cases v) (auto simp: value_error_def)
  show thesis
  proof (cases "get node ''oneOf''")
    case None
    with Suc v assms that(2) show thesis by (auto simp: bind_res_Inr_iff)
  next
    case (Some b)
    with Suc v assms obtain bs where "schema_union_shape top_level node b = Some bs"
      "each_state (validate_node T left top_level) bs s = Inr s'"
      by (auto simp: bind_res_Inr_iff value_error_def split: option.splits)
    moreover from this(1) have "b = JArr bs"
      by (auto simp: schema_union_shape_def split: json.splits if_splits)
    ultimately show thesis using Some Suc v that(1) by blast
  qed
qed

lemma schema_budget: "validate_node T n top_level v s = Inr s' \<Longrightarrow> within_budget s s'"
proof (induction n arbitrary: top_level v s s')
  case 0
  then show ?case by (rule validate_node_cases) simp_all
next
  case (Suc left)
  from Suc.prems show ?case
  proof (cases rule: validate_node_cases)
    case (union left' node bs)
    then show ?thesis by (auto intro: each_state_budget Suc.IH)
  next
    case (typed left' node ts)
    then show ?thesis by (auto intro: check_typed_budget Suc.IH)
  qed
qed

lemma object_admit_budget: "object_admit d node s = Inr s' \<Longrightarrow> within_budget s s' \<and> s' = s + length d"
  by (auto simp: object_admit_def bind_res_Inr_iff value_error_def within_budget_def split: if_splits)

lemma admit_object_cases:
  assumes "admit_object child d node s = Inr s'"
  obtains (closed_record) properties t where "get node ''properties'' = Some (JObj properties)"
      "object_admit d node s = Inr t" "record_keys_admit d node properties = Inr ()"
      "each_state (\<lambda>(k, x). case map_of properties k of None \<Rightarrow> (\<lambda>_. Inl (KeyError k)) | Some c \<Rightarrow> child x c) d t
         = Inr s'"
    | (semantic_map) names additional t where "get node ''propertyNames'' = Some names"
      "get node ''additionalProperties'' = Some additional" "object_admit d node s = Inr t"
      "each_state (\<lambda>(k, x) s. bind_res (child (JStr k) names s) (child x additional)) d t = Inr s'"
proof -
  from assms obtain t where t: "object_admit d node s = Inr t" by (auto simp: admit_object_def bind_res_Inr_iff)
  show thesis
  proof (cases "\<exists>p. get node ''properties'' = Some (JObj p)")
    case True
    with assms t that(1) show thesis by (auto simp: admit_object_def bind_res_Inr_iff)
  next
    case False
    with assms t that(2) show thesis
      by (auto simp: admit_object_def split: option.splits json.splits)
  qed
qed

lemma each_state_budget_pairs:
  assumes "each_state f xs s = Inr s'" "\<And>x t t'. f x t = Inr t' \<Longrightarrow> within_budget t t'"
  shows "within_budget s s'"
  by (rule each_state_budget [OF assms(1)]) (rule assms(2))

lemma admit_object_budget:
  assumes run: "admit_object child d node s = Inr s'"
    and child: "\<And>x c t t'. child x c t = Inr t' \<Longrightarrow> within_budget t t'"
  shows "within_budget s s'"
  using run
proof (cases rule: admit_object_cases)
  case (closed_record properties t)
  have "within_budget t s'"
  proof (rule each_state_budget_pairs [OF closed_record(4)])
    fix y u u'
    assume "(case y of (k, x) \<Rightarrow> case map_of properties k of None \<Rightarrow> (\<lambda>_. Inl (KeyError k)) | Some c \<Rightarrow> child x c) u
      = Inr u'"
    then show "within_budget u u'" by (auto intro: child split: prod.splits option.splits)
  qed
  with object_admit_budget [OF closed_record(2)] show ?thesis by (blast intro: budget_trans)
next
  case (semantic_map names additional t)
  have "within_budget t s'"
  proof (rule each_state_budget_pairs [OF semantic_map(4)])
    fix y u u'
    assume "(case y of (k, x) \<Rightarrow> \<lambda>s. bind_res (child (JStr k) names s) (child x additional)) u = Inr u'"
    then show "within_budget u u'" by (auto simp: bind_res_Inr_iff intro: child budget_trans split: prod.splits)
  qed
  with object_admit_budget [OF semantic_map(3)] show ?thesis by (blast intro: budget_trans)
qed

lemma admit_typed_budget:
  assumes "admit_typed T child t item node s = Inr s'"
    and child: "\<And>x c t t'. child x c t = Inr t' \<Longrightarrow> within_budget t t'"
  shows "within_budget s s'"
proof -
  from assms(1) have "s' = s \<or> (\<exists>xs. item = JArr xs \<and> admit_array child xs node s = Inr s')
    \<or> (\<exists>d. item = JObj d \<and> admit_object child d node s = Inr s')"
    unfolding admit_typed_def by (cases item) (simp_all add: bind_res_Inr_iff split: if_splits)
  then consider "s' = s" | xs where "admit_array child xs node s = Inr s'"
    | d where "admit_object child d node s = Inr s'" by blast
  then show ?thesis
  proof cases
    case 2
    then obtain i where "each_state (\<lambda>x. child x i) xs s = Inr s'"
      by (auto simp: admit_array_def bind_res_Inr_iff split: option.splits)
    then show ?thesis by (rule each_state_budget_pairs) (rule child)
  qed (auto simp: budget_refl intro: admit_object_budget child)
qed

lemma validate_cases:
  assumes "validate T n item v s = Inr s'"
  obtains (union) left node bs where "n = Suc left" "v = JObj node" "get node ''oneOf'' = Some (JArr bs)"
      "one_of (validate T left item) bs s = Inr s'"
    | (typed) left node t where "n = Suc left" "v = JObj node" "t \<in> set (value_types node)"
      "type_matches item t" "const_enum_admit item node = Inr ()"
      "admit_typed T (validate T left) t item node s = Inr s'"
proof (cases n)
  case 0
  with assms show thesis by (simp add: value_error_def)
next
  case (Suc left)
  with assms obtain node where v: "v = JObj node" by (cases v) auto
  show thesis
  proof (cases "\<exists>bs. get node ''oneOf'' = Some (JArr bs)")
    case True
    with Suc v assms that(1) show thesis by auto
  next
    case False
    with Suc v assms have run: "(case filter (type_matches item) (value_types node) of
        [] \<Rightarrow> value_error ''structured output field has the wrong JSON type''
      | t # _ \<Rightarrow> bind_res (const_enum_admit item node) (\<lambda>_. admit_typed T (validate T left) t item node s)) = Inr s'"
      by (simp split: option.splits json.splits)
    then obtain t ts where f: "filter (type_matches item) (value_types node) = t # ts"
      by (cases "filter (type_matches item) (value_types node)") (auto simp: value_error_def)
    then have t: "t \<in> set (value_types node)" "type_matches item t"
      using set_filter [of "type_matches item" "value_types node"] by auto
    from run f have "const_enum_admit item node = Inr ()" "admit_typed T (validate T left) t item node s = Inr s'"
      by (simp_all add: bind_res_Inr_iff)
    with t Suc v that(2) show thesis by blast
  qed
qed

lemma value_budget: "validate T n item v s = Inr s' \<Longrightarrow> within_budget s s'"
proof (induction n arbitrary: item v s s')
  case 0
  then show ?case by (simp add: value_error_def)
next
  case (Suc left)
  from Suc.prems show ?case
  proof (cases rule: validate_cases)
    case (union left' node bs)
    with one_of_Inr [OF union(4)] show ?thesis by (auto intro: Suc.IH)
  next
    case (typed left' node t)
    then show ?thesis by (auto intro: admit_typed_budget Suc.IH)
  qed
qed

text \<open>
  An accepted schema declares at most 1024 properties in all its records together, and a
  value it admits has at most 1024 members in all its objects together.
\<close>

theorem structured_output_budget:
  assumes "validate_structured_output T v schema = Inr n"
  shows "n \<le> MAX_OUTPUT_SCHEMA_PROPERTIES
    \<and> (\<exists>m \<le> MAX_OUTPUT_SCHEMA_PROPERTIES. validate_output_schema T schema = Inr m)"
proof -
  have guard: "guard_lookup m r = Inr x \<Longrightarrow> r = Inr x" for m and r :: "nat res" and x
    by (auto simp: guard_lookup_def value_error_def split: sum.splits py_error.splits)
  from assms obtain m where m: "validate_output_schema T schema = Inr m"
    and v: "validate T MAX_OUTPUT_SCHEMA_DEPTH v schema 0 = Inr n"
    by (auto simp: validate_structured_output_def bind_res_Inr_iff value_error_def
        split: if_splits dest!: guard)
  from m have "validate_node T MAX_OUTPUT_SCHEMA_DEPTH True schema 0 = Inr m"
    unfolding validate_output_schema_def by (rule guard)
  from schema_budget [OF this] value_budget [OF v] m show ?thesis by (simp add: within_budget_def)
qed

theorem structured_output_budget_witness:
  "validate_structured_output sample_text_env sample_value sample_schema = Inr 1
   \<and> 1 \<le> MAX_OUTPUT_SCHEMA_PROPERTIES"
  using structured_output_budget [OF sample_output_ok] sample_output_ok by blast

section \<open>No lookup or type errors\<close>

definition only_expected :: "'a res \<Rightarrow> bool" where
  "only_expected r \<longleftrightarrow> (\<forall>e. r = Inl e \<longrightarrow> (\<exists>m. e = ValueError m) \<or> (\<exists>m. e = OverflowError m))"

lemma only_expected_simps [simp]:
  "only_expected (Inr x)" "only_expected (value_error m)" "only_expected (Inl (ValueError m'))"
  "only_expected (Inl (OverflowError m'))" "only_expected (require c (ValueError m'))"
  by (auto simp: only_expected_def value_error_def)

lemma only_expected_bind:
  "only_expected r \<Longrightarrow> (\<And>x. r = Inr x \<Longrightarrow> only_expected (f x)) \<Longrightarrow> only_expected (bind_res r f)"
  by (auto simp: only_expected_def bind_res_Inl_iff)

lemma only_expected_each:
  assumes "\<And>x s. x \<in> set xs \<Longrightarrow> only_expected (f x s)"
  shows "only_expected (each_state f xs s)"
  using assms by (induction xs arbitrary: s) (auto intro!: only_expected_bind)

lemma only_expected_one_of:
  assumes "\<And>x. x \<in> set bs \<Longrightarrow> only_expected (f x s)"
  shows "only_expected (one_of f bs s)"
proof -
  have "only_expected (try_branches f bs s)"
    using assms
  proof (induction bs)
    case (Cons b bs)
    then have "only_expected (f b s)" "only_expected (try_branches f bs s)" by simp_all
    then show ?case
      by (auto simp: only_expected_def bind_res_Inl_iff split: sum.splits py_error.splits)
  qed simp
  then show ?thesis
    unfolding one_of_def by (rule only_expected_bind) (simp split: list.split)
qed

text \<open>Bounds that were accepted read back as integers.\<close>

lemma bound_of_int_field:
  "bound_of node k d m = Inr b \<Longrightarrow> \<exists>n. int_field node k d' = Inr n"
  by (auto simp: bound_of_def bounded_integer_def int_field_def value_error_def
      split: option.splits json.splits if_splits)

lemma in_bounds_expected:
  assumes "bound_of node k d m = Inr b" "bound_of node k' d' m' = Inr b'"
  shows "only_expected (in_bounds node k e k' e' n t)"
  using bound_of_int_field [OF assms(1), of e] bound_of_int_field [OF assms(2), of e']
  by (auto simp: in_bounds_def)

lemma float_of_int_expected: "only_expected (float_of_int n)"
  by (auto simp: float_of_int_def split: pyfloat.split)

lemma float_of_int_Finite: "float_of_int n = Inr f \<Longrightarrow> \<exists>r. f = Finite r"
  by (cases "fl (of_int n)") (auto simp: float_of_int_def)

lemma py_float_expected: "num_val v \<noteq> None \<Longrightarrow> only_expected (py_float v)"
proof (induction v rule: py_float.induct)
  case (1 n)
  show ?case
    using float_of_int_expected [of n] float_of_int_Finite [of n]
    by (cases "float_of_int n") (auto simp: only_expected_def split: pyfloat.splits)
qed auto

lemma is_multiple_expected:
  assumes "num_val a \<noteq> None" "num_val b \<noteq> None"
  shows "only_expected (is_multiple a b)"
proof -
  have "only_expected (true_div a b)"
  proof (cases "\<exists>m n. a = JInt m \<and> b = JInt n")
    case True
    then show ?thesis by (auto simp: true_div_def split: pyfloat.split)
  next
    case False
    then have "true_div a b = bind_res (py_float a) (\<lambda>x. bind_res (py_float b) (\<lambda>y. Inr (fl (x / y))))"
      by (auto simp: true_div_def split: json.split)
    with assms show ?thesis by (auto intro!: only_expected_bind py_float_expected)
  qed
  then show ?thesis
    unfolding is_multiple_def by (rule only_expected_bind) (simp split: pyfloat.split)
qed

text \<open>Numeric constraints of an accepted node are absent or numbers.\<close>

definition numeric_ready :: "dict \<Rightarrow> bool" where
  "numeric_ready node \<longleftrightarrow>
     (\<forall>k\<in>set NUMERIC_KEYS. get node k = None \<or> (\<exists>v. get node k = Some v \<and> num_val v \<noteq> None))"

lemma num_field_ready:
  "numeric_ready node \<Longrightarrow> k \<in> set NUMERIC_KEYS \<Longrightarrow> \<exists>x. num_field node k = Inr x"
  by (fastforce simp: numeric_ready_def num_field_def split: option.splits json.splits)

lemma number_admit_expected:
  assumes ready: "numeric_ready node" and item: "num_val item \<noteq> None"
  shows "only_expected (number_admit item node)"
proof -
  have mult: "only_expected (case get node ''multipleOf'' of
            None \<Rightarrow> Inr ()
          | Some JNull \<Rightarrow> Inr ()
          | Some m \<Rightarrow> bind_res (is_multiple item m) (\<lambda>b.
              require b (ValueError (lit ''structured output field violates multipleOf''))))"
  proof (cases "get node ''multipleOf''")
    case (Some v)
    with ready have "num_val v \<noteq> None" by (fastforce simp: numeric_ready_def NUMERIC_KEYS_def)
    with item have "only_expected (bind_res (is_multiple item v) (\<lambda>b.
              require b (ValueError (lit ''structured output field violates multipleOf''))))"
      by (intro only_expected_bind is_multiple_expected) simp_all
    with Some show ?thesis by (cases v) simp_all
  qed simp
  have keys: "''minimum'' \<in> set NUMERIC_KEYS" "''maximum'' \<in> set NUMERIC_KEYS"
    "''exclusiveMinimum'' \<in> set NUMERIC_KEYS" "''exclusiveMaximum'' \<in> set NUMERIC_KEYS"
    by (simp_all add: NUMERIC_KEYS_def)
  obtain a b c d where f: "num_field node ''minimum'' = Inr a" "num_field node ''maximum'' = Inr b"
    "num_field node ''exclusiveMinimum'' = Inr c" "num_field node ''exclusiveMaximum'' = Inr d"
    using num_field_ready [OF ready] keys by metis
  obtain x where "num_val item = Some x" using item by blast
  with f show ?thesis
    unfolding number_admit_def by (simp, intro only_expected_bind mult only_expected_simps)
qed

text \<open>What acceptance of a node says about the types its values are matched with.\<close>

definition NUMERIC_TYPES :: "json set" where
  "NUMERIC_TYPES = {JStr (lit ''number''), JStr (lit ''integer'')}"

lemma str_list_Some: "str_list xs = Some ts \<Longrightarrow> xs = map JStr ts"
  by (induction xs arbitrary: ts rule: str_list.induct) auto

lemma value_types_declared:
  assumes "t \<in> set (value_types node)" "declared_types node \<noteq> []"
  shows "t \<in> JStr ` set (declared_types node)
    \<or> (\<exists>c k. get node ''const'' = Some c \<and> inferred_type c = Some k \<and> declared_types node = [k])"
  using assms
  by (fastforce simp: value_types_def declared_types_def const_types_def dest: str_list_Some
      split: option.splits json.splits)

lemma matching_kind:
  assumes "type_matches item t"
  shows "t = JStr (lit ''string'') \<Longrightarrow> \<exists>s. item = JStr s"
    and "t = JStr (lit ''array'') \<Longrightarrow> \<exists>xs. item = JArr xs"
    and "t = JStr (lit ''object'') \<Longrightarrow> \<exists>d. item = JObj d"
    and "t \<in> NUMERIC_TYPES \<Longrightarrow> num_val item \<noteq> None"
proof -
  show "t = JStr (lit ''string'') \<Longrightarrow> \<exists>s. item = JStr s"
    using assms by (cases item) (simp_all add: type_matches_def value_matches_type_def)
  show "t = JStr (lit ''array'') \<Longrightarrow> \<exists>xs. item = JArr xs"
    using assms by (cases item) (simp_all add: type_matches_def value_matches_type_def)
  show "t = JStr (lit ''object'') \<Longrightarrow> \<exists>d. item = JObj d"
    using assms by (cases item) (simp_all add: type_matches_def value_matches_type_def)
  show "t \<in> NUMERIC_TYPES \<Longrightarrow> num_val item \<noteq> None"
    using assms by (cases item)
      (auto simp: type_matches_def value_matches_type_def NUMERIC_TYPES_def is_finite_json_number_def)
qed

text \<open>A value equal to a constant of an inferred type is of the kind of that type.\<close>

lemma const_kind:
  assumes "inferred_type c = Some k" "json_equal item c" "item \<noteq> JNull"
  shows "(\<exists>s. item = JStr s) \<and> k = lit ''string'' \<or> (\<exists>b. item = JBool b)
    \<or> num_val item \<noteq> None \<and> k \<in> {lit ''number'', lit ''integer''}"
proof (cases item)
  case (JInt n)
  then show ?thesis using assms by (cases c rule: num_val.cases) (auto simp: inferred_type_def)
next
  case (JFloat f)
  then show ?thesis using assms by (cases f; cases c rule: num_val.cases) (auto simp: inferred_type_def)
next
  case (JObj d)
  then show ?thesis using assms by (cases c) (auto simp: inferred_type_def)
next
  case (JArr d)
  then show ?thesis using assms by (cases c) (auto simp: inferred_type_def)
next
  case (JStr s)
  then show ?thesis using assms by (auto simp: inferred_type_def)
qed (use assms in auto)

lemma check_types_declared: "check_types top_level node = Inr ts \<Longrightarrow>
    declared_types node = ts \<and> ts \<noteq> [] \<and> (1 < length ts \<longrightarrow> lit ''object'' \<notin> set ts \<and> lit ''array'' \<notin> set ts)"
  by (auto simp: check_types_def Let_def value_error_def split: if_splits)

lemma singleton_type: "ts \<noteq> [] \<Longrightarrow> t \<in> set ts \<Longrightarrow> \<not> 1 < length ts \<Longrightarrow> ts = [t]"
  by (cases ts) auto

lemma accepted_type:
  assumes types: "check_types top_level node = Inr ts" and t: "t \<in> set (value_types node)"
    and m: "type_matches item t" and ce: "const_enum_admit item node = Inr ()" and item: "item \<noteq> JNull"
  shows "t = JStr (lit ''string'') \<Longrightarrow> lit ''string'' \<in> set ts"
    and "t = JStr (lit ''array'') \<Longrightarrow> ts = [lit ''array'']"
    and "t = JStr (lit ''object'') \<Longrightarrow> ts = [lit ''object'']"
    and "t \<in> NUMERIC_TYPES \<Longrightarrow> lit ''number'' \<in> set ts \<or> lit ''integer'' \<in> set ts"
proof -
  note decl = check_types_declared [OF types]
  have eq: "get node ''const'' = Some c \<Longrightarrow> json_equal item c" for c
    using ce by (auto simp: const_enum_admit_def bind_res_Inr_iff)
  have "t \<in> JStr ` set ts \<or> (\<exists>c k. get node ''const'' = Some c \<and> inferred_type c = Some k \<and> ts = [k])"
    using value_types_declared [OF t] decl by auto
  then consider (decl) "t \<in> JStr ` set ts" | (inf) k where "ts = [k]"
    "(\<exists>s. item = JStr s) \<and> k = lit ''string'' \<or> (\<exists>b. item = JBool b)
      \<or> num_val item \<noteq> None \<and> k \<in> {lit ''number'', lit ''integer''}"
    using const_kind [OF _ eq item] by metis
  note cs = this
  note kind = matching_kind [OF m]
  show "t = JStr (lit ''string'') \<Longrightarrow> lit ''string'' \<in> set ts"
    using cs kind(1) by cases auto
  show "t = JStr (lit ''array'') \<Longrightarrow> ts = [lit ''array'']"
    using cs kind(2) decl by cases (auto intro!: singleton_type)
  show "t = JStr (lit ''object'') \<Longrightarrow> ts = [lit ''object'']"
    using cs kind(3) decl by cases (auto intro!: singleton_type)
  show "t \<in> NUMERIC_TYPES \<Longrightarrow> lit ''number'' \<in> set ts \<or> lit ''integer'' \<in> set ts"
    using cs kind(4) by cases (auto simp: NUMERIC_TYPES_def)
qed

text \<open>What acceptance of a typed node provides to each branch of the value validator.\<close>

lemma each_res_require:
  "each_res (\<lambda>k. case get node k of None \<Rightarrow> Inr () | Some v \<Rightarrow> require (P v) e) ks = Inr u \<Longrightarrow>
     k \<in> set ks \<Longrightarrow> get node k = Some v \<Longrightarrow> P v"
  by (auto simp: each_res_Inr split: option.splits)

lemma check_numeric_ready: "check_numeric node = Inr () \<Longrightarrow> numeric_ready node"
proof -
  assume "check_numeric node = Inr ()"
  then have "each_res (\<lambda>k. case get node k of None \<Rightarrow> Inr ()
      | Some v \<Rightarrow> require (is_finite_json_number v)
          (ValueError (lit ''output schema constraint must be a finite JSON number''))) NUMERIC_KEYS = Inr ()"
    by (auto simp: check_numeric_def bind_res_Inr_iff)
  from each_res_require [OF this] show ?thesis
    unfolding numeric_ready_def is_finite_json_number_def by (metis not_None_eq)
qed

lemma keys_without_Nil:
  assumes "keys_without node ks = []" "k \<notin> set ks"
  shows "get node k = None"
  using assms by (auto simp: keys_without_def filter_empty_conv get_None_iff has_key_def)

lemma union_numeric_ready:
  assumes "structural_keys ts node [] = []"
  shows "numeric_ready node"
  unfolding numeric_ready_def
proof (intro ballI disjI1)
  fix k
  assume "k \<in> set NUMERIC_KEYS"
  then have "k \<notin> set (SCHEMA_METADATA_KEYS @ [''type'', ''const'', ''enum'']
       @ (if lit ''string'' \<in> set ts then [''minLength'', ''maxLength'', ''pattern''] else []) @ [])"
    by (auto simp: NUMERIC_KEYS_def SCHEMA_METADATA_KEYS_def)
  with assms show "get node k = None" unfolding structural_keys_def by (rule keys_without_Nil)
qed

lemma check_typed_string:
  assumes "check_typed T child ts node s = Inr s'" "lit ''string'' \<in> set ts"
  shows "only_expected (string_admit T x node)"
proof -
  from assms have "check_string T node = Inr ()" by (auto simp: check_typed_def bind_res_Inr_iff)
  then obtain lo hi where b: "bound_of node ''minLength'' 0 MAX_STRUCTURED_OUTPUT_BYTES = Inr lo"
    "bound_of node ''maxLength'' MAX_STRUCTURED_OUTPUT_BYTES MAX_STRUCTURED_OUTPUT_BYTES = Inr hi"
    by (auto simp: check_string_def bind_res_Inr_iff)
  show ?thesis
    unfolding string_admit_def
    by (intro only_expected_bind in_bounds_expected [OF b]) (simp split: option.split json.split)
qed

lemma check_typed_numeric:
  assumes "check_typed T child ts node s = Inr s'" "ts \<noteq> []"
    and "lit ''number'' \<in> set ts \<or> lit ''integer'' \<in> set ts"
  shows "numeric_ready node"
proof (cases "1 < length ts")
  case True
  with assms(1) show ?thesis
    by (auto simp: check_typed_def bind_res_Inr_iff intro: union_numeric_ready)
next
  case False
  with assms(2,3) have "ts = [lit ''number''] \<or> ts = [lit ''integer'']" by (auto dest: singleton_type)
  with assms(1) show ?thesis
    by (auto simp: check_typed_def bind_res_Inr_iff intro: check_numeric_ready)
qed

lemma check_typed_array:
  assumes "check_typed T child [lit ''array''] node s = Inr s'"
  obtains i where "get node ''items'' = Some i" "\<exists>t t'. child i t = Inr t'" "only_expected (array_admit xs node)"
proof -
  from assms have a: "check_array node = Inr ()"
    and c: "child (case get node ''items'' of Some i \<Rightarrow> i | None \<Rightarrow> JNull) s = Inr s'"
    by (auto simp: check_typed_def bind_res_Inr_iff)
  from a obtain lo hi where i: "has_key node ''items''"
    and b: "bound_of node ''minItems'' 0 MAX_OUTPUT_ARRAY_ITEMS = Inr lo"
      "bound_of node ''maxItems'' MAX_OUTPUT_ARRAY_ITEMS MAX_OUTPUT_ARRAY_ITEMS = Inr hi"
    by (auto simp: check_array_def bind_res_Inr_iff)
  have "only_expected (array_admit xs node)"
    unfolding array_admit_def by (intro only_expected_bind in_bounds_expected [OF b]) simp
  moreover from has_key_obtains [OF i] obtain v where v: "get node ''items'' = Some v" by blast
  moreover from c v have "\<exists>t t'. child v t = Inr t'" by auto
  ultimately show thesis using that by blast
qed

lemma check_required_names:
  assumes "check_required node properties = Inr ()"
  shows "\<exists>xs ns. get node ''required'' = Some (JArr xs) \<and> str_list xs = Some ns
    \<and> set ns \<subseteq> set (keys properties)"
proof -
  from assms obtain names where
    n: "(case get node ''required'' of Some (JArr xs) \<Rightarrow> str_list xs | _ \<Rightarrow> None) = Some names"
    and sub: "set names \<subseteq> set (keys properties)"
    unfolding check_required_def value_error_def by (auto split: option.splits if_splits)
  from n show ?thesis using sub by (auto split: option.splits json.splits)
qed

lemma record_keys_expected:
  assumes "check_record node properties lo hi = Inr ()"
  shows "only_expected (record_keys_admit d node properties)"
proof (cases "is_closed_constant_map node properties")
  case False
  with assms have "check_required node properties = Inr ()"
    by (auto simp: check_record_def Let_def bind_res_Inr_iff value_error_def split: if_splits)
  from check_required_names [OF this] False show ?thesis
    by (auto simp: record_keys_admit_def Let_def)
qed (simp add: record_keys_admit_def Let_def)

lemma record_keys_known:
  assumes "record_keys_admit d node properties = Inr ()" "(k, x) \<in> set d"
  shows "\<exists>c. map_of properties k = Some c \<and> (k, c) \<in> set properties"
proof -
  from assms(2) have "k \<in> set (keys d)" by (force simp: keys_def)
  with assms(1) have "k \<in> set (keys properties)"
    by (auto simp: record_keys_admit_def Let_def bind_res_Inr_iff split: if_splits)
  then obtain c where "map_of properties k = Some c"
    by (metis keys_def map_of_eq_None_iff not_None_eq set_map)
  then show ?thesis by (auto dest: map_of_SomeD)
qed

lemma admit_object_expected:
  assumes acc: "check_typed T child [lit ''object''] node s = Inr s'"
    and rec: "\<And>c t t' x u. child c t = Inr t' \<Longrightarrow> only_expected (admit x c u)"
  shows "only_expected (admit_object admit d node seen)"
proof -
  from acc have obj: "check_object child [lit ''object''] node s = Inr s'"
    by (auto simp: check_typed_def)
  from check_object_bounds [OF obj] obtain lo hi where
    b: "bound_of node ''minProperties'' 0 MAX_OUTPUT_OBJECT_PROPERTIES = Inr lo"
      "bound_of node ''maxProperties'' MAX_OUTPUT_OBJECT_PROPERTIES MAX_OUTPUT_OBJECT_PROPERTIES = Inr hi" by blast
  have bounds: "only_expected (object_admit d node seen)"
    unfolding object_admit_def by (intro only_expected_bind in_bounds_expected [OF b]) simp
  from obj show ?thesis
  proof (cases rule: check_object_cases)
    case (closed_record properties lo' hi')
    have "only_expected (each_state (\<lambda>(k, x). case map_of properties k of
        None \<Rightarrow> (\<lambda>_. Inl (KeyError k)) | Some c \<Rightarrow> admit x c) d t)"
      if "record_keys_admit d node properties = Inr ()" for t
    proof (rule only_expected_each)
      fix y u
      assume y: "y \<in> set d"
      obtain k x where kx: "y = (k, x)" by (cases y)
      from record_keys_known [OF that] y kx obtain c where "map_of properties k = Some c" "(k, c) \<in> set properties"
        by blast
      with check_members_each [OF closed_record(3)] rec kx show
        "only_expected ((case y of (k, x) \<Rightarrow> case map_of properties k of
            None \<Rightarrow> (\<lambda>_. Inl (KeyError k)) | Some c \<Rightarrow> admit x c) u)" by auto
    qed
    with closed_record(1,2) bounds show ?thesis
      unfolding admit_object_def
      by (auto intro!: only_expected_bind record_keys_expected simp: option.case json.case)
  next
    case (semantic_map names additional t)
    have "only_expected (each_state (\<lambda>(k, x) s. bind_res (admit (JStr k) (JObj names) s)
        (admit x (JObj additional))) d u)" for u
      by (rule only_expected_each) (auto intro!: only_expected_bind rec [OF semantic_map(4)] rec [OF semantic_map(5)])
    with semantic_map(1,2,3) bounds show ?thesis
      unfolding admit_object_def by (auto intro!: only_expected_bind)
  qed
qed

lemma admit_typed_expected:
  assumes types: "check_types top_level node = Inr ts" and acc: "check_typed T child ts node s = Inr s'"
    and rec: "\<And>c t t' x u. child c t = Inr t' \<Longrightarrow> only_expected (admit x c u)"
    and t: "t \<in> set (value_types node)" and m: "type_matches item t"
    and ce: "const_enum_admit item node = Inr ()"
  shows "only_expected (admit_typed T admit t item node seen)"
proof (cases "item = JNull")
  case False
  note ty = accepted_type [OF types t m ce False]
  note kind = matching_kind [OF m]
  have "ts \<noteq> []" using check_types_declared [OF types] by blast
  consider (str) "t = JStr (lit ''string'')" | (arr) "t = JStr (lit ''array'')" | (num) "t \<in> NUMERIC_TYPES"
    | (obj) "t = JStr (lit ''object'')"
    | (other) "t \<noteq> JStr (lit ''string'')" "t \<noteq> JStr (lit ''array'')" "t \<notin> NUMERIC_TYPES" "t \<noteq> JStr (lit ''object'')"
    by blast
  then show ?thesis
  proof cases
    case str
    with False check_typed_string [OF acc ty(1)] show ?thesis
      by (auto simp: admit_typed_def intro!: only_expected_bind)
  next
    case arr
    obtain xs where xs: "item = JArr xs" using kind(2) arr by blast
    from acc ty(2) arr have "check_typed T child [lit ''array''] node s = Inr s'" by simp
    from check_typed_array [OF this, of xs] obtain i where "get node ''items'' = Some i"
      "\<exists>t t'. child i t = Inr t'" "only_expected (array_admit xs node)" by metis
    with rec False arr xs show ?thesis
      by (auto simp: admit_typed_def admit_array_def intro!: only_expected_bind only_expected_each)
  next
    case num
    have "only_expected (number_admit item node)"
      by (rule number_admit_expected [OF check_typed_numeric [OF acc \<open>ts \<noteq> []\<close> ty(4) [OF num]] kind(4) [OF num]])
    with num False show ?thesis
      by (auto simp: admit_typed_def NUMERIC_TYPES_def intro!: only_expected_bind)
  next
    case obj
    obtain d where d: "item = JObj d" using kind(3) obj by blast
    from acc ty(3) obj have "check_typed T child [lit ''object''] node s = Inr s'" by simp
    from admit_object_expected [OF this rec] obj False d show ?thesis
      by (simp add: admit_typed_def)
  next
    case other
    with False show ?thesis by (auto simp: admit_typed_def NUMERIC_TYPES_def)
  qed
qed (simp add: admit_typed_def)

lemma const_enum_expected:
  assumes "check_const_enum ts node = Inr ()"
  shows "only_expected (const_enum_admit item node)"
proof -
  have "get node ''enum'' = None \<or> (\<exists>xs. get node ''enum'' = Some (JArr xs))"
    using assms by (auto simp: check_const_enum_def bind_res_Inr_iff value_error_def
        split: option.splits json.splits)
  then show ?thesis by (auto simp: const_enum_admit_def intro!: only_expected_bind)
qed

lemma accepted_expected:
  "validate_node T n top_level schema s = Inr s' \<Longrightarrow> only_expected (validate T n item schema seen)"
proof (induction n arbitrary: top_level schema s s' item seen)
  case 0
  then show ?case by simp
next
  case (Suc left)
  from Suc.prems show ?case
  proof (cases rule: validate_node_cases)
    case (union left' node bs)
    have "only_expected (one_of (validate T left item) bs seen)"
    proof (rule only_expected_one_of)
      fix x
      assume "x \<in> set bs"
      from each_state_each [OF union(4) this] union(1) show "only_expected (validate T left item x seen)"
        using Suc.IH by blast
    qed
    with union show ?thesis by simp
  next
    case (typed left' node ts)
    have "only_expected (case filter (type_matches item) (value_types node) of
        [] \<Rightarrow> value_error ''structured output field has the wrong JSON type''
      | t # _ \<Rightarrow> bind_res (const_enum_admit item node) (\<lambda>_. admit_typed T (validate T left) t item node seen))"
    proof (cases "filter (type_matches item) (value_types node)")
      case (Cons t rest)
      then have t: "t \<in> set (value_types node)" "type_matches item t"
        using set_filter [of "type_matches item" "value_types node"] by auto
      from Cons show ?thesis
        using admit_typed_expected [OF typed(4) typed(6) _ t, of "validate T left"] Suc.IH typed(1)
        by (auto intro!: only_expected_bind const_enum_expected [OF typed(5)])
    qed simp
    moreover from typed(1) have "left' = left" by simp
    ultimately show ?thesis using typed(2,3) by simp
  qed
qed

text \<open>
  C15. Validating any value against an accepted schema ends in acceptance, a \<open>ValueError\<close> or an
  \<open>OverflowError\<close>: the walk never meets a missing key, a value of the wrong shape or a node that
  is no mapping.
\<close>

theorem accepted_schema_walk_is_safe:
  assumes "validate_node T n top_level schema s = Inr s'" "validate T n item schema seen = Inl e"
  shows "(\<exists>m. e = ValueError m) \<or> (\<exists>m. e = OverflowError m)"
  using accepted_expected [OF assms(1), of item seen] assms(2) by (simp add: only_expected_def)

theorem accepted_schema_walk_is_safe_witness:
  "\<exists>e. validate sample_text_env 2 (JArr []) sample_schema 0 = Inl e
     \<and> ((\<exists>m. e = ValueError m) \<or> (\<exists>m. e = OverflowError m))"
proof -
  have acc: "validate_node sample_text_env 2 True sample_schema 0 = Inr 1"
    using sample_node [of sample_text_env 0] by (simp add: numeral_2_eq_2)
  have "validate sample_text_env (Suc 1) (JArr []) sample_schema 0
      = value_error ''structured output field has the wrong JSON type''"
    unfolding sample_schema_def by (subst validate.simps(2)) (simp add: value_eval)
  then have err: "validate sample_text_env 2 (JArr []) sample_schema 0
      = Inl (ValueError (lit ''structured output field has the wrong JSON type''))"
    by (simp add: numeral_2_eq_2 value_error_def)
  from accepted_schema_walk_is_safe [OF acc err] err show ?thesis by blast
qed

section \<open>Unions and records\<close>

text \<open>
  A value is admitted by a \<open>oneOf\<close> only when exactly one branch admits it, every other branch
  refuses it with a \<open>ValueError\<close>, and the members are counted by the matching branch alone.
\<close>

theorem one_of_admits_exactly_one:
  assumes "get node ''oneOf'' = Some (JArr bs)" "validate T (Suc left) item (JObj node) s = Inr s'"
  shows "\<exists>i < length bs. validate T left item (bs ! i) s = Inr s'
    \<and> (\<forall>j < length bs. j \<noteq> i \<longrightarrow> (\<exists>m. validate T left item (bs ! j) s = Inl (ValueError m)))"
proof (rule one_of_Inr)
  from assms show "one_of (validate T left item) bs s = Inr s'" by simp
qed

definition sample_union :: dict where
  "sample_union = [(lit ''oneOf'', JArr [JObj [(lit ''type'', JStr (lit ''boolean''))],
     JObj [(lit ''type'', JStr (lit ''null''))]])]"

theorem one_of_admits_exactly_one_witness:
  "validate sample_text_env 2 JNull (JObj sample_union) 5 = Inr 5
   \<and> (\<exists>i < 2. \<forall>j < 2. j \<noteq> i \<longrightarrow> (\<exists>m. validate sample_text_env 1 JNull
        ([JObj [(lit ''type'', JStr (lit ''boolean''))], JObj [(lit ''type'', JStr (lit ''null''))]] ! j) 5
          = Inl (ValueError m)))"
proof
  have g: "get sample_union ''oneOf'' = Some (JArr [JObj [(lit ''type'', JStr (lit ''boolean''))],
      JObj [(lit ''type'', JStr (lit ''null''))]])"
    by (simp add: sample_union_def get_def)
  have v: "validate sample_text_env (Suc (Suc 0)) JNull (JObj sample_union) 5 = Inr 5"
    using g by (simp add: value_eval one_of_def value_error_def)
  then show "validate sample_text_env 2 JNull (JObj sample_union) 5 = Inr 5"
    by (simp only: numeral_2_eq_2)
  from one_of_admits_exactly_one [OF g v] show
    "\<exists>i < 2. \<forall>j < 2. j \<noteq> i \<longrightarrow> (\<exists>m. validate sample_text_env 1 JNull
        ([JObj [(lit ''type'', JStr (lit ''boolean''))], JObj [(lit ''type'', JStr (lit ''null''))]] ! j) 5
          = Inl (ValueError m))"
    by (auto simp only: list.size One_nat_def numeral_2_eq_2 add_Suc_right add_0_right plus_nat.add_Suc plus_nat.add_0)
qed

text \<open>
  A value admitted by a record schema is a closed record: it has every required name, no name
  that is not declared, and each member is admitted by the schema of its name.
\<close>

theorem record_is_closed:
  assumes "get node ''oneOf'' = None" "get node ''type'' = Some (JStr (lit ''object''))"
    and "get node ''properties'' = Some (JObj properties)" "\<not> is_closed_constant_map node properties"
    and "get node ''required'' = Some (JArr xs)" "str_list xs = Some names"
    and "validate T (Suc left) (JObj d) (JObj node) s = Inr s'"
  shows "set names \<subseteq> set (keys d) \<and> set (keys d) \<subseteq> set (keys properties)
    \<and> (\<forall>(k, x)\<in>set d. \<exists>c t t'. map_of properties k = Some c \<and> validate T left x c t = Inr t')"
  using assms(7)
proof (cases rule: validate_cases)
  case (union left' node' bs)
  with assms(1) show ?thesis by simp
next
  case (typed left' node' t)
  with assms(2) have "t = JStr (lit ''object'')" by (simp add: value_types_def)
  with typed have "admit_object (validate T left) d node s = Inr s'" by (simp add: admit_typed_def)
  then show ?thesis
  proof (cases rule: admit_object_cases)
    case (closed_record properties' u)
    with assms(3) have p: "properties' = properties" by simp
    from closed_record(3) assms(4-6) p have sub: "set names \<subseteq> set (keys d)" "set (keys d) \<subseteq> set (keys properties)"
      by (simp_all add: record_keys_admit_def Let_def bind_res_Inr_iff)
    have "\<exists>c t t'. map_of properties k = Some c \<and> validate T left x c t = Inr t'" if "(k, x) \<in> set d" for k x
      using each_state_each [OF closed_record(4) that] record_keys_known [OF closed_record(3) that] p by force
    with sub show ?thesis by auto
  next
    case (semantic_map names' additional u)
    from \<open>admit_object (validate T left) d node s = Inr s'\<close> assms(3) obtain u where
      u: "record_keys_admit d node properties = Inr ()"
      "each_state (\<lambda>(k, x). case map_of properties k of None \<Rightarrow> (\<lambda>_. Inl (KeyError k)) | Some c \<Rightarrow> validate T left x c) d u
         = Inr s'"
      by (auto simp: admit_object_def bind_res_Inr_iff)
    from u(1) assms(4-6) have sub: "set names \<subseteq> set (keys d)" "set (keys d) \<subseteq> set (keys properties)"
      by (simp_all add: record_keys_admit_def Let_def bind_res_Inr_iff)
    have "\<exists>c t t'. map_of properties k = Some c \<and> validate T left x c t = Inr t'" if "(k, x) \<in> set d" for k x
      using each_state_each [OF u(2) that] record_keys_known [OF u(1) that] by force
    with sub show ?thesis by auto
  qed
qed

theorem record_is_closed_witness:
  "\<exists>s. validate sample_text_env 2 sample_value sample_schema 0 = Inr s
     \<and> {lit ''ok''} \<subseteq> {lit ''ok''}"
proof -
  let ?props = "[(lit ''ok'', JObj [(lit ''type'', JStr (lit ''boolean''))])]"
  let ?node = "[(lit ''type'', JStr (lit ''object'')), (lit ''properties'', JObj ?props),
     (lit ''required'', JArr [JStr (lit ''ok'')]), (lit ''additionalProperties'', JBool False)]"
  have v: "validate sample_text_env (Suc (Suc 0)) (JObj [(lit ''ok'', JBool True)]) (JObj ?node) 0 = Inr 1"
    using sample_admit [of sample_text_env 0] by (simp only: sample_value_def sample_schema_def)
  have "set [lit ''ok''] \<subseteq> set (keys [(lit ''ok'', JBool True)]) \<and> set (keys [(lit ''ok'', JBool True)]) \<subseteq> set (keys ?props)
    \<and> (\<forall>(k, x)\<in>set [(lit ''ok'', JBool True)]. \<exists>c t t'. map_of ?props k = Some c
          \<and> validate sample_text_env (Suc 0) x c t = Inr t')"
    by (rule record_is_closed [OF _ _ _ _ _ _ v, where xs = "[JStr (lit ''ok'')]"])
      (simp_all add: get_def is_closed_constant_map_def has_key_def keys_def)
  with sample_admit [of sample_text_env 0] show ?thesis by (auto simp: numeral_2_eq_2)
qed

section \<open>Integers beyond the range of a double\<close>

lemma bitlen_two_power: "bitlen (2 ^ n) = int n + 1"
proof -
  have "bitlen 1 = 1" by (simp add: bitlen_alt_def)
  with bitlen_pow2 [of 1 n] show ?thesis by simp
qed

lemma round_half_even_of_int: "round_half_even (of_int n) = n"
  by (simp add: round_half_even_def)

text \<open>A bound and its parts as opaque numbers, so that the powers are never written out.\<close>

definition huge_int :: int where
  "huge_int = 2 ^ 1024"

lemma float_of_int_huge:
  "float_of_int huge_int = Inl (OverflowError (lit ''int too large to convert to float''))"
proof -
  define h :: rat where "h = 2 ^ 1024"
  define c :: int where "c = 2 ^ 52"
  have h: "of_int huge_int = h" by (simp only: huge_int_def h_def of_int_power of_int_numeral)
  have pos: "0 < h" unfolding h_def by (rule zero_less_power) simp
  have q: "quotient_of h = (huge_int, 1)" using quotient_of_int [of huge_int] by (simp only: Rat.of_int_def h)
  have b: "bitlen huge_int = 1025" using bitlen_two_power [of 1024] by (simp only: huge_int_def)
  have one: "bitlen 1 = 1" by (simp add: bitlen_alt_def)
  have s: "scale2 1024 1 = h"
    unfolding scale2_def h_def by (simp only: zero_le_numeral if_True mult_1_left nat_numeral)
  have p: "h = of_int c * 2 ^ 972"
    unfolding h_def c_def of_int_power of_int_numeral power_add [symmetric] by (rule arg_cong [of _ _ "power 2"]) simp
  have nn: "\<not> 0 \<le> (- 972 :: int)" "- (- 972 :: int) = 972" "0 \<le> (972 :: int)" by simp_all
  have two: "(2 :: rat) ^ 972 \<noteq> 0" by (rule power_not_zero) simp
  have d: "scale2 (- 972) h = of_int c"
    unfolding scale2_def nn(2) nat_numeral p using nn(1) nonzero_mult_div_cancel_right [OF two, of "of_int c"] by (simp only: if_False)
  have u: "scale2 972 (of_int c) = h" unfolding scale2_def nat_numeral p using nn(3) by (simp only: if_True)
  have k: "(if scale2 1024 1 \<le> h then 1024 else 1024 - 1) = (1024 :: int)" by (simp only: s order.refl if_True)
  have mx: "max (1024 - 52) (- 1074) = (972 :: int)" by simp
  have e0: "1025 - 1 = (1024 :: int)" by simp
  have "fl_pos h = h"
    unfolding fl_pos_def q Let_def prod.case b one e0 k mx d round_half_even_of_int u ..
  moreover have "\<bar>h\<bar> = h" using pos by simp
  ultimately have "fl h = PosInf" using pos unfolding fl_def Let_def h_def [symmetric] by simp
  then show ?thesis by (simp add: float_of_int_def h)
qed

definition huge_multiple_schema :: json where
  "huge_multiple_schema = JObj [(lit ''type'', JStr (lit ''object'')),
     (lit ''properties'', JObj [(lit ''ok'', JObj [(lit ''type'', JStr (lit ''integer'')),
        (lit ''multipleOf'', JInt huge_int)])]),
     (lit ''required'', JArr [JStr (lit ''ok'')]), (lit ''additionalProperties'', JBool False)]"

text \<open>
  A schema whose \<open>multipleOf\<close> is an integer beyond the range of a double is not refused with a
  \<open>ValueError\<close>: the conversion raises an \<open>OverflowError\<close> that no handler of the validator catches.
\<close>

theorem huge_multiple_escapes:
  "validate_output_schema T huge_multiple_schema
     = Inl (OverflowError (lit ''int too large to convert to float''))"
proof -
  have leaf: "validate_node T (Suc n) False (JObj [(lit ''type'', JStr (lit ''integer'')),
      (lit ''multipleOf'', JInt huge_int)]) s
      = Inl (OverflowError (lit ''int too large to convert to float''))" for n s
    by (simp add: schema_eval check_numeric_def NUMERIC_KEYS_def is_finite_json_number_def float_of_int_huge)
  have "validate_node T (Suc (Suc n)) True huge_multiple_schema 0
      = Inl (OverflowError (lit ''int too large to convert to float''))" for n
    unfolding huge_multiple_schema_def
    by (subst validate_node.simps(2)) (simp add: schema_eval leaf sample_name del: validate_node.simps(2))
  from this [of 30] show ?thesis by (simp add: validate_output_schema_def guard_lookup_def schema_limits)
qed

end
