(* ===== verification/Workflow.thy ===== *)
theory Workflow
  imports Py_Json
begin

text \<open>
  The closed vocabulary of src/src/codex_flow/domain.py: identifiers and dispatch ids, the
  states of a milestone and the one transition policy, native permission authority and its
  meet, typed blockers, resource budgets and the immutable retry facts.
\<close>

section \<open>Identifiers\<close>

text \<open>\<open>_ID_PATTERN\<close>: \<open>[A-Za-z0-9][A-Za-z0-9_.-]{0,127}\<close>.\<close>

definition ascii_alnum :: "nat \<Rightarrow> bool" where
  "ascii_alnum c \<longleftrightarrow> (48 \<le> c \<and> c \<le> 57) \<or> (65 \<le> c \<and> c \<le> 90) \<or> (97 \<le> c \<and> c \<le> 122)"

definition id_pattern :: "pystr \<Rightarrow> bool" where
  "id_pattern s \<longleftrightarrow>
     (case s of
        [] \<Rightarrow> False
      | c # cs \<Rightarrow> ascii_alnum c \<and> length cs \<le> 127
          \<and> list_all (\<lambda>d. ascii_alnum d \<or> d = 95 \<or> d = 46 \<or> d = 45) cs)"

definition validated_identifier :: "string \<Rightarrow> pystr \<Rightarrow> pystr res" where
  "validated_identifier label s =
     (if id_pattern s then Inr s else Inl (ValueError (lit label @ lit '' must match the identifier pattern'')))"

definition slash :: nat where "slash = 47"

text \<open>\<open>str.split\<close> on one character: always at least one part.\<close>

fun split_on :: "nat \<Rightarrow> pystr \<Rightarrow> pystr list" where
  "split_on c [] = [[]]"
| "split_on c (x # xs) =
     (if x = c then [] # split_on c xs
      else case split_on c xs of [] \<Rightarrow> [[x]] | p # ps \<Rightarrow> (x # p) # ps)"

text \<open>
  \<open>Generation\<close> of an integer and of a text.  \<open>int\<close> reads more texts than the canonical decimal
  ones, but every other text is refused afterwards because \<open>str(parsed) != value\<close>.
\<close>

definition generation_of_int :: "int \<Rightarrow> int res" where
  "generation_of_int n =
     (if n < 1 then Inl (ValueError (lit ''generation must be a positive integer'')) else Inr n)"

definition digits_value :: "pystr \<Rightarrow> nat" where
  "digits_value s = foldl (\<lambda>a c. 10 * a + (c - 48)) 0 s"

definition generation_of_text :: "pystr \<Rightarrow> int res" where
  "generation_of_text s =
     (if s \<noteq> [] \<and> list_all (\<lambda>c. 48 \<le> c \<and> c \<le> 57) s \<and> py_int_repr (int (digits_value s)) = Inr s
      then generation_of_int (int (digits_value s))
      else Inl (ValueError (lit ''generation must be a canonical integer'')))"

type_synonym dispatch_parts = "pystr \<times> pystr \<times> pystr \<times> int"

definition dispatch_parts_of :: "pystr \<Rightarrow> dispatch_parts res" where
  "dispatch_parts_of s =
     (case split_on slash s of
        [run, milestone, role, generation] \<Rightarrow>
          bind_res (validated_identifier ''run id'' run) (\<lambda>r.
          bind_res (validated_identifier ''milestone id'' milestone) (\<lambda>m.
          bind_res (validated_identifier ''role'' role) (\<lambda>o'.
          bind_res (generation_of_text generation) (\<lambda>g. Inr (r, m, o', g)))))
      | _ \<Rightarrow> Inl (ValueError (lit ''dispatch id must be <run>/<milestone>/<role>/<generation>'')))"

definition dispatch_id :: "pystr \<Rightarrow> pystr res" where
  "dispatch_id s = bind_res (dispatch_parts_of s) (\<lambda>_. Inr s)"

definition dispatch_id_from_parts :: "dispatch_parts \<Rightarrow> pystr res" where
  "dispatch_id_from_parts p =
     (case p of (run, milestone, role, generation) \<Rightarrow>
        bind_res (validated_identifier ''run id'' run) (\<lambda>r.
        bind_res (validated_identifier ''milestone id'' milestone) (\<lambda>m.
        bind_res (validated_identifier ''role'' role) (\<lambda>o'.
        bind_res (generation_of_int generation) (\<lambda>g.
        bind_res (py_int_repr g) (\<lambda>t.
        dispatch_id (r @ slash # m @ slash # o' @ slash # t)))))))"

definition event_id :: "pystr \<Rightarrow> pystr res" where
  "event_id s =
     (if 256 < length s \<or> py_strip s = [] then Inl (ValueError (lit ''event id must be a non-empty bounded string''))
      else if \<exists>c\<in>set s. py_isspace c then Inl (ValueError (lit ''event id must not contain whitespace''))
      else Inr s)"

section \<open>Milestone states and the transition policy\<close>

datatype workflow_state =
    PLANNED | STARTING | RUNNING | NEEDS_DECISION | COMPLETED | REVIEWING | REPAIR_REQUIRED
  | ACCEPTED | BLOCKED | FAILED | CANCELLED

definition TERMINAL_STATES :: "workflow_state list" where
  "TERMINAL_STATES = [ACCEPTED, BLOCKED, FAILED, CANCELLED]"

fun state_text :: "workflow_state \<Rightarrow> string" where
  "state_text PLANNED = ''PLANNED''"
| "state_text STARTING = ''STARTING''"
| "state_text RUNNING = ''RUNNING''"
| "state_text NEEDS_DECISION = ''NEEDS_DECISION''"
| "state_text COMPLETED = ''COMPLETED''"
| "state_text REVIEWING = ''REVIEWING''"
| "state_text REPAIR_REQUIRED = ''REPAIR_REQUIRED''"
| "state_text ACCEPTED = ''ACCEPTED''"
| "state_text BLOCKED = ''BLOCKED''"
| "state_text FAILED = ''FAILED''"
| "state_text CANCELLED = ''CANCELLED''"

definition ALL_STATES :: "workflow_state list" where
  "ALL_STATES = [PLANNED, STARTING, RUNNING, NEEDS_DECISION, COMPLETED, REVIEWING, REPAIR_REQUIRED,
     ACCEPTED, BLOCKED, FAILED, CANCELLED]"

definition coerce_state :: "pystr \<Rightarrow> workflow_state res" where
  "coerce_state s =
     (case find (\<lambda>st. lit (state_text st) = s) ALL_STATES of
        Some st \<Rightarrow> Inr st
      | None \<Rightarrow> Inl (ValueError (lit ''unknown workflow state'')))"

fun allowed_targets :: "workflow_state \<Rightarrow> workflow_state list" where
  "allowed_targets PLANNED = [STARTING, BLOCKED, FAILED, CANCELLED]"
| "allowed_targets STARTING = [RUNNING, BLOCKED, FAILED, CANCELLED]"
| "allowed_targets REPAIR_REQUIRED = [STARTING, RUNNING, REVIEWING, BLOCKED, FAILED, CANCELLED]"
| "allowed_targets NEEDS_DECISION = [RUNNING, REVIEWING, BLOCKED, FAILED, CANCELLED]"
| "allowed_targets RUNNING = [NEEDS_DECISION, COMPLETED, REPAIR_REQUIRED, BLOCKED, FAILED, CANCELLED]"
| "allowed_targets COMPLETED = [REVIEWING, BLOCKED, FAILED, CANCELLED]"
| "allowed_targets REVIEWING = [REPAIR_REQUIRED, ACCEPTED, BLOCKED, FAILED, CANCELLED]"
| "allowed_targets BLOCKED = [REVIEWING, REPAIR_REQUIRED, FAILED, CANCELLED]"
| "allowed_targets FAILED = [REPAIR_REQUIRED, REVIEWING, CANCELLED]"
| "allowed_targets ACCEPTED = []"
| "allowed_targets CANCELLED = []"

definition is_transition_allowed :: "workflow_state \<Rightarrow> workflow_state \<Rightarrow> bool" where
  "is_transition_allowed src tgt \<longleftrightarrow> tgt \<in> set (allowed_targets src)"

section \<open>Native permission authority\<close>

datatype permission_mode = INHERIT_NATIVE | READ_ONLY

record native_authority =
  na_mode :: permission_mode
  na_sandbox :: pystr
  na_approval :: pystr

definition SANDBOX_MODES :: "string list" where
  "SANDBOX_MODES = [''read-only'', ''workspace-write'', ''danger-full-access'']"

definition APPROVAL_POLICIES :: "string list" where
  "APPROVAL_POLICIES = [''untrusted'', ''on-request'', ''never'']"

definition make_authority :: "permission_mode \<Rightarrow> pystr \<Rightarrow> pystr \<Rightarrow> native_authority res" where
  "make_authority m sandbox approval =
     (if sandbox \<notin> set (map lit SANDBOX_MODES)
      then Inl (ValueError (lit ''effective native sandbox mode is unsupported''))
      else if approval \<notin> set (map lit APPROVAL_POLICIES)
      then Inl (ValueError (lit ''effective native approval policy is unsupported''))
      else if m = READ_ONLY \<and> sandbox \<noteq> lit ''read-only''
      then Inl (ValueError (lit ''read-only capsule mode must retain a read-only sandbox''))
      else Inr \<lparr>na_mode = m, na_sandbox = sandbox, na_approval = approval\<rparr>)"

definition sandbox_rank :: "pystr \<Rightarrow> nat" where
  "sandbox_rank s = (if s = lit ''read-only'' then 0 else if s = lit ''workspace-write'' then 1 else 2)"

definition meet :: "native_authority \<Rightarrow> native_authority \<Rightarrow> native_authority res" where
  "meet a b =
     (let sandbox = (if sandbox_rank (na_sandbox b) < sandbox_rank (na_sandbox a) then na_sandbox b else na_sandbox a);
          m = (if na_mode a = READ_ONLY \<or> na_mode b = READ_ONLY then READ_ONLY else INHERIT_NATIVE)
      in if na_approval a = na_approval b then make_authority m sandbox (na_approval a)
         else if lit ''never'' \<in> {na_approval a, na_approval b} then make_authority m sandbox (lit ''never'')
         else Inl (ValueError (lit ''native approval policies are incomparable'')))"

fun mode_text :: "permission_mode \<Rightarrow> string" where
  "mode_text INHERIT_NATIVE = ''inherit_native''"
| "mode_text READ_ONLY = ''read_only''"

definition facts :: "native_authority \<Rightarrow> dict" where
  "facts a =
     [(lit ''mode'', JStr (lit (mode_text (na_mode a)))), (lit ''sandbox_mode'', JStr (na_sandbox a)),
      (lit ''approval_policy'', JStr (na_approval a)), (lit ''monotonic'', JBool True)]"

definition from_facts :: "dict \<Rightarrow> native_authority res" where
  "from_facts d =
     (if set (keys d) \<noteq> {lit ''mode'', lit ''sandbox_mode'', lit ''approval_policy'', lit ''monotonic''}
      then Inl (ValueError (lit ''effective native permission facts have an unsupported shape''))
      else if get d ''monotonic'' \<noteq> Some (JBool True)
      then Inl (ValueError (lit ''effective native permission facts are not monotonic''))
      else case (get d ''mode'', get d ''sandbox_mode'', get d ''approval_policy'') of
             (Some (JStr m), Some (JStr s), Some (JStr p)) \<Rightarrow>
               if m = lit ''inherit_native'' then make_authority INHERIT_NATIVE s p
               else if m = lit ''read_only'' then make_authority READ_ONLY s p
               else Inl (ValueError (lit ''is not a valid NativePermissionMode''))
           | _ \<Rightarrow> Inl (ValueError (lit ''effective native permission facts have invalid values'')))"

section \<open>Typed blockers\<close>

datatype blocker_kind = EXTERNAL | DECISION | EXECUTION
datatype blocker_scope = CURRENT_PROMOTION | CURRENT_REPAIR | FUTURE_MILESTONE | WHOLE_PROGRAM

record typed_blocker =
  gate_id :: pystr
  blocker_kind_of :: blocker_kind
  scope :: blocker_scope
  promotion_blocking :: bool
  required_action :: pystr

definition required_text :: "pystr \<Rightarrow> nat \<Rightarrow> string \<Rightarrow> pystr res" where
  "required_text s limit label =
     (if py_strip s = [] \<or> limit < length s \<or> 0 \<in> set s
      then Inl (ValueError (lit label @ lit '' must be a bounded non-empty string'')) else Inr s)"

definition make_blocker :: "pystr \<Rightarrow> blocker_kind \<Rightarrow> blocker_scope \<Rightarrow> bool \<Rightarrow> pystr \<Rightarrow> typed_blocker res" where
  "make_blocker g k sc blocking action =
     bind_res (required_text g 256 ''blocker gate id'') (\<lambda>_.
     bind_res (required_text action 512 ''blocker required action'') (\<lambda>_.
     Inr \<lparr>gate_id = g, blocker_kind_of = k, scope = sc, promotion_blocking = blocking, required_action = action\<rparr>))"

fun kind_text :: "blocker_kind \<Rightarrow> string" where
  "kind_text EXTERNAL = ''external''"
| "kind_text DECISION = ''decision''"
| "kind_text EXECUTION = ''execution''"

fun scope_text :: "blocker_scope \<Rightarrow> string" where
  "scope_text CURRENT_PROMOTION = ''current_promotion''"
| "scope_text CURRENT_REPAIR = ''current_repair''"
| "scope_text FUTURE_MILESTONE = ''future_milestone''"
| "scope_text WHOLE_PROGRAM = ''whole_program''"

definition blocker_to_json :: "typed_blocker \<Rightarrow> dict" where
  "blocker_to_json b =
     [(lit ''gate_id'', JStr (gate_id b)), (lit ''kind'', JStr (lit (kind_text (blocker_kind_of b)))),
      (lit ''scope'', JStr (lit (scope_text (scope b)))), (lit ''promotion_blocking'', JBool (promotion_blocking b)),
      (lit ''required_action'', JStr (required_action b))]"

text \<open>\<open>Enum(value)\<close>: the member with that value; a value of another type is no member.\<close>

definition enum_of :: "('e \<Rightarrow> string) \<Rightarrow> 'e list \<Rightarrow> json \<Rightarrow> 'e res" where
  "enum_of text members v =
     (case v of
        JStr s \<Rightarrow> (case find (\<lambda>m. lit (text m) = s) members of
            Some m \<Rightarrow> Inr m | None \<Rightarrow> Inl (ValueError (lit ''is not a valid member'')))
      | _ \<Rightarrow> Inl (ValueError (lit ''is not a valid member'')))"

definition text_of :: "json \<Rightarrow> string \<Rightarrow> pystr res" where
  "text_of v label = (case v of JStr s \<Rightarrow> Inr s | _ \<Rightarrow> Inl (ValueError (lit label @ lit '' must be a bounded non-empty string'')))"

definition blocker_from_json :: "dict \<Rightarrow> typed_blocker res" where
  "blocker_from_json d =
     (if set (keys d) \<noteq> {lit ''gate_id'', lit ''kind'', lit ''scope'', lit ''promotion_blocking'', lit ''required_action''}
      then Inl (ValueError (lit ''typed blocker shape is unsupported''))
      else case (get d ''gate_id'', get d ''kind'', get d ''scope'', get d ''promotion_blocking'', get d ''required_action'') of
             (Some g, Some k, Some sc, Some p, Some a) \<Rightarrow>
               bind_res (enum_of kind_text [EXTERNAL, DECISION, EXECUTION] k) (\<lambda>k'.
               bind_res (enum_of scope_text [CURRENT_PROMOTION, CURRENT_REPAIR, FUTURE_MILESTONE, WHOLE_PROGRAM] sc) (\<lambda>sc'.
               bind_res (text_of g ''blocker gate id'') (\<lambda>g'.
               bind_res (required_text g' 256 ''blocker gate id'') (\<lambda>_.
               case p of
                 JBool b \<Rightarrow> bind_res (text_of a ''blocker required action'') (\<lambda>a'. make_blocker g' k' sc' b a')
               | _ \<Rightarrow> Inl (ValueError (lit ''blocker promotion_blocking must be boolean''))))))
           | _ \<Rightarrow> Inl (KeyError (lit ''gate_id'')))"

datatype blocker_operation = READY | START | PROMOTE | INTEGRATE

text \<open>\<open>blocker_applies_to\<close>; the operation is one of the four the source accepts.\<close>

definition blocker_applies_to ::
    "typed_blocker \<Rightarrow> blocker_operation \<Rightarrow> pystr \<Rightarrow> pystr option \<Rightarrow> pystr list \<Rightarrow> bool res" where
  "blocker_applies_to b operation source target dependencies =
     (if \<not> promotion_blocking b then Inr False
      else if scope b = WHOLE_PROGRAM then Inr True
      else case target of
             None \<Rightarrow> Inl (ValueError (lit ''blocker operation requires a target milestone''))
           | Some t \<Rightarrow>
               if operation \<in> {PROMOTE, INTEGRATE}
               then Inr (source = t \<and> scope b \<in> {CURRENT_PROMOTION, CURRENT_REPAIR})
               else Inr (scope b = FUTURE_MILESTONE \<and> source \<in> set dependencies))"

section \<open>Budgets\<close>

datatype budget_exhaustion = TURNS | REPAIRS | REVIEWS | COMPACTIONS | VALIDATIONS | WALL_CLOCK

text \<open>The two durations are finite doubles, so rationals.\<close>

record budget =
  max_turns :: int
  max_repairs :: int
  max_reviews :: int
  max_compactions :: int
  max_validations :: int
  wall_clock_seconds :: rat
  turns :: int
  repairs :: int
  reviews :: int
  compactions :: int
  validations :: int
  elapsed_seconds :: rat

definition budget_ok :: "budget \<Rightarrow> bool" where
  "budget_ok b \<longleftrightarrow>
     0 \<le> max_turns b \<and> 0 \<le> max_repairs b \<and> 0 \<le> max_reviews b \<and> 0 \<le> max_compactions b \<and> 0 \<le> max_validations b
     \<and> 0 < wall_clock_seconds b
     \<and> 0 \<le> turns b \<and> 0 \<le> repairs b \<and> 0 \<le> reviews b \<and> 0 \<le> compactions b \<and> 0 \<le> validations b
     \<and> 0 \<le> elapsed_seconds b"

definition exhausted :: "budget \<Rightarrow> budget_exhaustion option" where
  "exhausted b =
     (let checks = [(turns b, max_turns b, TURNS), (repairs b, max_repairs b, REPAIRS), (reviews b, max_reviews b, REVIEWS),
          (compactions b, max_compactions b, COMPACTIONS), (validations b, max_validations b, VALIDATIONS)]
      in case find (\<lambda>(used, limit, _). limit \<le> used) checks of
           Some (_, _, k) \<Rightarrow> Some k
         | None \<Rightarrow> if wall_clock_seconds b \<le> elapsed_seconds b then Some WALL_CLOCK else None)"

end
