(* ===== verification/Capsule.thy ===== *)
theory Capsule
  imports Schema_Safety Workflow
begin

text \<open>
  The execution capsule of src/src/codex_flow/domain.py: the frozen JSON tree it owns, its
  repository-relative paths and the whole check of \<open>ExecutionCapsule.__post_init__\<close>, with the
  approval gates of a program node.  Enumeration members, identifiers and digests are checked
  where the record is built; the resolution of a path against the file system is a parameter.
\<close>

section \<open>Frozen JSON\<close>

definition has_surrogate :: "pystr \<Rightarrow> bool" where
  "has_surrogate s \<longleftrightarrow> (\<exists>c\<in>set s. is_surrogate c)"

text \<open>\<open>freeze_json\<close> of a JSON tree: the same tree, detached; keys are not looked into.\<close>

fun freeze_json :: "json \<Rightarrow> json res"
and freeze_items :: "json list \<Rightarrow> json list res"
and freeze_entries :: "dict \<Rightarrow> dict res" where
  "freeze_json (JFloat (Finite r)) = Inr (JFloat (Finite r))"
| "freeze_json (JFloat f) = Inl (ValueError (lit ''JSON values must contain only finite numbers''))"
| "freeze_json (JStr s) =
     (if has_surrogate s then Inl (ValueError (lit ''JSON strings must not contain unpaired Unicode surrogates''))
      else Inr (JStr s))"
| "freeze_json (JArr xs) = bind_res (freeze_items xs) (\<lambda>ys. Inr (JArr ys))"
| "freeze_json (JObj d) = bind_res (freeze_entries d) (\<lambda>e. Inr (JObj e))"
| "freeze_json v = Inr v"
| "freeze_items [] = Inr []"
| "freeze_items (x # xs) = bind_res (freeze_json x) (\<lambda>y. bind_res (freeze_items xs) (\<lambda>ys. Inr (y # ys)))"
| "freeze_entries [] = Inr []"
| "freeze_entries ((k, v) # d) =
     bind_res (freeze_json v) (\<lambda>w. bind_res (freeze_entries d) (\<lambda>e. Inr ((k, w) # e)))"

text \<open>\<open>_validate_interoperable_json\<close>, which the strict decoder runs on its result; keys count.\<close>

fun interoperable :: "json \<Rightarrow> bool" and interoperable_entries :: "(pystr \<times> json) list \<Rightarrow> bool" where
  "interoperable (JStr s) = (\<not> has_surrogate s)"
| "interoperable (JArr xs) = (\<forall>x\<in>set xs. interoperable x)"
| "interoperable (JObj d) = interoperable_entries d"
| "interoperable (JFloat f) = (case f of Finite _ \<Rightarrow> True | _ \<Rightarrow> False)"
| "interoperable _ = True"
| "interoperable_entries [] = True"
| "interoperable_entries ((k, v) # d) = (\<not> has_surrogate k \<and> interoperable v \<and> interoperable_entries d)"

section \<open>Paths\<close>

text \<open>
  A repository-relative path is in the form \<open>Path.as_posix\<close> prints: no empty part, no \<open>.\<close> part.
\<close>

definition path_parts :: "pystr \<Rightarrow> pystr list" where
  "path_parts s = split_on slash s"

definition relative_path_ok :: "pystr \<Rightarrow> bool" where
  "relative_path_ok s \<longleftrightarrow>
     s \<noteq> [] \<and> s \<noteq> lit ''.'' \<and> 0 \<notin> set s
     \<and> list_all (\<lambda>p. p \<noteq> [] \<and> p \<noteq> lit ''.'' \<and> p \<noteq> lit ''..'') (path_parts s)"

definition relative_paths :: "pystr list \<Rightarrow> string \<Rightarrow> unit res" where
  "relative_paths values label =
     require (list_all relative_path_ok values \<and> distinct values)
       (ValueError (lit label @ lit '' must contain unique repository-relative paths''))"

text \<open>\<open>p in q.parents\<close> or \<open>p == q\<close>: the parts of \<open>p\<close> start those of \<open>q\<close>.\<close>

definition path_covers :: "pystr \<Rightarrow> pystr \<Rightarrow> bool" where
  "path_covers p q \<longleftrightarrow> take (length (path_parts p)) (path_parts q) = path_parts p"

definition paths_overlap :: "pystr \<Rightarrow> pystr \<Rightarrow> bool" where
  "paths_overlap p q \<longleftrightarrow> path_covers p q \<or> path_covers q p"

definition is_hex :: "nat \<Rightarrow> pystr \<Rightarrow> bool" where
  "is_hex n s \<longleftrightarrow> length s = n \<and> list_all (\<lambda>c. (48 \<le> c \<and> c \<le> 57) \<or> (97 \<le> c \<and> c \<le> 102)) s"

text \<open>\<open>_LANE_PATTERN\<close>: \<open>[a-z0-9][a-z0-9-]{0,63}\<close>.\<close>

definition lane_char :: "nat \<Rightarrow> bool" where
  "lane_char c \<longleftrightarrow> (48 \<le> c \<and> c \<le> 57) \<or> (97 \<le> c \<and> c \<le> 122)"

definition lane_pattern :: "pystr \<Rightarrow> bool" where
  "lane_pattern s \<longleftrightarrow>
     (case s of [] \<Rightarrow> False | c # cs \<Rightarrow> lane_char c \<and> length cs \<le> 63 \<and> list_all (\<lambda>d. lane_char d \<or> d = 45) cs)"

section \<open>Outcomes and approval gates\<close>

datatype outcome_kind = COMMIT | RUNTIME_EVIDENCE
datatype integration_mode = GIT | ALREADY_INTEGRATED | NO_INTEGRATION

definition validate_program_outcome_pair :: "outcome_kind \<Rightarrow> integration_mode \<Rightarrow> unit res" where
  "validate_program_outcome_pair outcome integration =
     require ((outcome, integration) \<in> {(COMMIT, GIT), (COMMIT, ALREADY_INTEGRATED), (RUNTIME_EVIDENCE, NO_INTEGRATION)})
       (ValueError (lit ''program outcome and integration mode are incompatible''))"

record approval_gate =
  ag_id :: pystr
  prerequisites :: "pystr list"
  protected_by :: "pystr list"
  scope_description :: pystr

definition gate_id_pattern :: "pystr \<Rightarrow> bool" where
  "gate_id_pattern s \<longleftrightarrow>
     (case s of
        [] \<Rightarrow> False
      | c # cs \<Rightarrow> ascii_alnum c \<and> length cs \<le> 255
          \<and> list_all (\<lambda>d. ascii_alnum d \<or> d = 95 \<or> d = 46 \<or> d = 45) cs)"

definition gate_milestones :: "string \<Rightarrow> pystr list \<Rightarrow> unit res" where
  "gate_milestones label ms =
     bind_res (require (list_all id_pattern ms) (ValueError (lit ''milestone id must match the identifier pattern''))) (\<lambda>_.
     bind_res (require (ms \<noteq> [] \<and> length ms \<le> 128 \<and> distinct ms)
                (ValueError (lit ''program approval gate '' @ lit label @ lit '' milestones are invalid''))) (\<lambda>_.
     require (sort ms = ms) (ValueError (lit ''program approval gate '' @ lit label @ lit '' milestones must be sorted''))))"

definition make_gate :: "approval_gate \<Rightarrow> approval_gate res" where
  "make_gate g =
     bind_res (require (gate_id_pattern (ag_id g)) (ValueError (lit ''program approval gate id is invalid''))) (\<lambda>_.
     bind_res (gate_milestones ''prerequisite'' (prerequisites g)) (\<lambda>_.
     bind_res (gate_milestones ''protected'' (protected_by g)) (\<lambda>_.
     bind_res (require (set (prerequisites g) \<inter> set (protected_by g) = {})
                (ValueError (lit ''program approval gate prerequisite and protected milestones overlap''))) (\<lambda>_.
     bind_res (require (py_strip (scope_description g) \<noteq> [] \<and> length (scope_description g) \<le> 4096)
                (ValueError (lit ''program approval gate scope description is invalid''))) (\<lambda>_.
     Inr g)))))"

section \<open>The capsule\<close>

datatype workspace_mode = CURRENT_CHECKOUT | MANAGED_WORKTREE
datatype acceptance_mode = OBJECTIVE | VISUAL | ARCHITECTURE

record capsule =
  capsule_version :: int
  cap_milestone :: pystr
  repository_root :: pystr
  workspace_mode_of :: workspace_mode
  workspace_path :: pystr
  branch :: pystr
  base_sha :: pystr
  lane :: pystr
  mutable_paths :: "pystr list"
  protected_paths :: "pystr list"
  cap_model :: pystr
  prompt :: pystr
  output_schema :: json
  acceptance_modes :: "acceptance_mode list"
  local_image_paths :: "pystr list"
  outcome_kind_of :: outcome_kind
  integration_mode_of :: integration_mode
  runtime_artifact_paths :: "pystr list"
  runtime_artifact_max_files :: "int option"
  runtime_artifact_max_bytes :: "int option"
  approval_gates :: "approval_gate list"
  acceptance_criteria_sha256 :: "pystr option"

definition check_workspace :: "capsule \<Rightarrow> unit res" where
  "check_workspace c =
     bind_res (require (lane_pattern (lane c)) (ValueError (lit ''workspace lane must be a lowercase semantic slug''))) (\<lambda>_.
     bind_res (require (branch c \<noteq> [] \<and> \<not> (\<exists>x\<in>set (branch c). py_isspace x))
                (ValueError (lit ''execution branch must be explicit and whitespace-free''))) (\<lambda>_.
     bind_res (require (workspace_mode_of c = MANAGED_WORKTREE \<longrightarrow> branch c = lit ''agent/'' @ lane c)
                (ValueError (lit ''managed worktree branch must match agent/<lane>''))) (\<lambda>_.
     bind_res (require (is_hex 40 (base_sha c))
                (ValueError (lit ''base SHA must be a resolved lowercase 40-character Git SHA''))) (\<lambda>_.
     bind_res (relative_paths (mutable_paths c) ''mutable paths'') (\<lambda>_.
     bind_res (relative_paths (protected_paths c) ''protected paths'') (\<lambda>_.
     bind_res (require (\<not> (\<exists>m\<in>set (mutable_paths c). \<exists>p\<in>set (protected_paths c). paths_overlap m p))
                (ValueError (lit ''mutable and protected paths must not overlap''))) (\<lambda>_.
     require (py_strip (cap_model c) \<noteq> [] \<and> py_strip (prompt c) \<noteq> [])
       (ValueError (lit ''model and prompt must be explicit'')))))))))"

definition check_artifacts :: "capsule \<Rightarrow> unit res" where
  "check_artifacts c =
     bind_res (validate_program_outcome_pair (outcome_kind_of c) (integration_mode_of c)) (\<lambda>_.
     bind_res
       (if outcome_kind_of c = RUNTIME_EVIDENCE then
          bind_res (require (runtime_artifact_paths c \<noteq> [])
                     (ValueError (lit ''runtime evidence capsules require bounded artifact paths''))) (\<lambda>_.
          case (runtime_artifact_max_files c, runtime_artifact_max_bytes c) of
            (Some f, Some b) \<Rightarrow> require (0 < f \<and> 0 < b) (ValueError (lit ''runtime artifact limit must be a positive integer''))
          | _ \<Rightarrow> Inl (ValueError (lit ''runtime evidence capsules require artifact limits'')))
        else require (runtime_artifact_paths c = [] \<and> runtime_artifact_max_files c = None \<and> runtime_artifact_max_bytes c = None)
               (ValueError (lit ''commit capsules cannot carry runtime artifact limits or paths'')))
       (\<lambda>_. relative_paths (runtime_artifact_paths c) ''execution runtime artifact paths''))"

text \<open>\<open>resolve\<close> stands for \<open>Path.resolve(strict=False)\<close>: \<open>None\<close> when it raises.\<close>

definition make_capsule :: "text_env \<Rightarrow> (pystr \<Rightarrow> pystr option) \<Rightarrow> capsule \<Rightarrow> capsule res" where
  "make_capsule T resolve c =
     bind_res (require (capsule_version c \<in> {2, 3}) (ValueError (lit ''unsupported execution capsule version''))) (\<lambda>_.
     case (resolve (repository_root c), resolve (workspace_path c)) of
       (Some r, Some w) \<Rightarrow>
         bind_res (check_workspace c) (\<lambda>_.
         bind_res (freeze_json (output_schema c)) (\<lambda>schema.
         bind_res (case schema of JObj _ \<Rightarrow> Inr () | _ \<Rightarrow> value_error ''execution output schema must be an object'') (\<lambda>_.
         bind_res (validate_output_schema T schema) (\<lambda>_.
         bind_res (require (acceptance_modes c \<noteq> [] \<and> distinct (acceptance_modes c))
                    (ValueError (lit ''execution capsule acceptance modes must be non-empty and unique''))) (\<lambda>_.
         bind_res (require (capsule_version c = 2 \<longrightarrow> local_image_paths c = [])
                    (ValueError (lit ''execution capsule version 2 cannot carry local images''))) (\<lambda>_.
         bind_res (require (capsule_version c = 3 \<longrightarrow> local_image_paths c \<noteq> [])
                    (ValueError (lit ''execution capsule version 3 requires local images''))) (\<lambda>_.
         bind_res (relative_paths (local_image_paths c) ''execution local image paths'') (\<lambda>_.
         bind_res (check_artifacts c) (\<lambda>_.
         bind_res (require (length (approval_gates c) \<le> 32) (ValueError (lit ''execution approval gates are invalid''))) (\<lambda>_.
         bind_res (require (distinct (map ag_id (approval_gates c))) (ValueError (lit ''execution approval gates must be unique''))) (\<lambda>_.
         bind_res (require (case acceptance_criteria_sha256 c of None \<Rightarrow> True | Some d \<Rightarrow> is_hex 64 d)
                    (ValueError (lit ''acceptance criteria digest must be a lowercase SHA-256''))) (\<lambda>_.
         Inr (c\<lparr>repository_root := r, workspace_path := w, output_schema := schema\<rparr>)))))))))))))
     | _ \<Rightarrow> Inl (ValueError (lit ''repository and workspace paths must have a canonical physical identity'')))"

section \<open>What a capsule guarantees\<close>

lemma freeze_identity:
  shows "freeze_json v = Inr w \<Longrightarrow> w = v"
    and "freeze_items xs = Inr ys \<Longrightarrow> ys = xs"
    and "freeze_entries d = Inr e \<Longrightarrow> e = d"
  by (induction v and xs and d arbitrary: w and ys and e rule: freeze_json_freeze_items_freeze_entries.induct)
    (auto simp: bind_res_Inr_iff split: if_splits)

lemma path_covers_refl [simp]: "path_covers p p"
  by (simp add: path_covers_def)

text \<open>Anything below a mutable path is below no protected path, and the other way around.\<close>

lemma covers_common:
  assumes "path_covers p r" "path_covers q r"
  shows "paths_overlap p q"
proof (cases "length (path_parts p) \<le> length (path_parts q)")
  case True
  then have "take (length (path_parts p)) (path_parts q) = path_parts p"
    using assms unfolding path_covers_def by (metis min.absorb1 take_take)
  then show ?thesis by (simp add: paths_overlap_def path_covers_def)
next
  case False
  then have "take (length (path_parts q)) (path_parts p) = path_parts q"
    using assms unfolding path_covers_def by (metis min.absorb1 nat_le_linear take_take)
  then show ?thesis by (simp add: paths_overlap_def path_covers_def)
qed

text \<open>
  C28. Every capsule that is built owns an accepted output schema, and its mutable and protected paths
  separate the repository: no file lies below one of each.
\<close>

theorem capsule_separates_paths:
  assumes "make_capsule T resolve c = Inr c'"
  shows "is_ok (validate_output_schema T (output_schema c'))
    \<and> (\<forall>m\<in>set (mutable_paths c'). \<forall>p\<in>set (protected_paths c'). \<forall>f. \<not> (path_covers m f \<and> path_covers p f))"
proof -
  obtain r w where rw: "resolve (repository_root c) = Some r" "resolve (workspace_path c) = Some w"
    using assms by (auto simp: make_capsule_def bind_res_Inr_iff split: option.splits)
  with assms obtain schema n where
    ws: "check_workspace c = Inr ()" and n: "validate_output_schema T schema = Inr n"
    and c': "c' = c\<lparr>repository_root := r, workspace_path := w, output_schema := schema\<rparr>"
    unfolding make_capsule_def by (simp only: bind_res_Inr_iff option.case prod.case) (elim exE conjE, simp)
  from ws have sep: "\<not> (\<exists>m\<in>set (mutable_paths c). \<exists>p\<in>set (protected_paths c). paths_overlap m p)"
    by (simp add: check_workspace_def bind_res_Inr_iff)
  show ?thesis
  proof (intro conjI ballI allI)
    show "is_ok (validate_output_schema T (output_schema c'))" using n by (simp add: c')
    fix m p f assume "m \<in> set (mutable_paths c')" "p \<in> set (protected_paths c')"
    with sep have "\<not> paths_overlap m p" by (auto simp: c')
    then show "\<not> (path_covers m f \<and> path_covers p f)" using covers_common by blast
  qed
qed

definition sample_capsule :: capsule where
  "sample_capsule = \<lparr>capsule_version = 2, cap_milestone = lit ''m'', repository_root = lit ''/r'',
     workspace_mode_of = CURRENT_CHECKOUT, workspace_path = lit ''/r'', branch = lit ''b'',
     base_sha = replicate 40 48, lane = lit ''l'', mutable_paths = [lit ''src/a''], protected_paths = [lit ''src/b''],
     cap_model = lit ''gpt'', prompt = lit ''go'', output_schema = sample_schema, acceptance_modes = [OBJECTIVE],
     local_image_paths = [], outcome_kind_of = COMMIT, integration_mode_of = GIT, runtime_artifact_paths = [],
     runtime_artifact_max_files = None, runtime_artifact_max_bytes = None, approval_gates = [],
     acceptance_criteria_sha256 = None\<rparr>"

lemma freeze_sample: "freeze_json sample_schema = Inr sample_schema"
  by (simp add: sample_schema_def has_surrogate_def is_surrogate_def lit_def)

lemma sample_capsule_ok: "make_capsule sample_text_env Some sample_capsule = Inr sample_capsule"
proof -
  have "check_workspace sample_capsule = Inr ()"
    by (simp add: check_workspace_def sample_capsule_def lane_pattern_def lane_char_def is_hex_def lit_def
        py_isspace_def py_strip_blank relative_paths_def relative_path_ok_def path_parts_def slash_def
        paths_overlap_def path_covers_def list_all_iff)
  moreover have "check_artifacts sample_capsule = Inr ()"
    by (simp add: check_artifacts_def sample_capsule_def validate_program_outcome_pair_def relative_paths_def)
  moreover have "output_schema sample_capsule = sample_schema" "repository_root sample_capsule = lit ''/r''"
    "workspace_path sample_capsule = lit ''/r''"
    by (simp_all add: sample_capsule_def)
  moreover have "(case sample_schema of JObj _ \<Rightarrow> Inr () | _ \<Rightarrow> value_error m) = Inr ()" for m
    by (simp add: sample_schema_def)
  ultimately show ?thesis
    using freeze_sample sample_schema_ok [of sample_text_env]
    by (simp add: make_capsule_def) (simp add: sample_capsule_def relative_paths_def)
qed

theorem capsule_separates_paths_witness:
  "is_ok (validate_output_schema sample_text_env sample_schema)
   \<and> \<not> (path_covers (lit ''src/a'') (lit ''src/a/x'') \<and> path_covers (lit ''src/b'') (lit ''src/a/x''))"
  using capsule_separates_paths [OF sample_capsule_ok] by (simp add: sample_capsule_def)

end
