(* ===== verification/Program_Graph.thy ===== *)
theory Program_Graph
  imports Capsule
begin

text \<open>
  The program graph of src/src/codex_flow/domain.py: the checks of a node, the depth-first cycle
  check, the reachability loop, the approval gates and the ownership of mutable surfaces, as
  \<open>ProgramGraph.__post_init__\<close> runs them.  A recursion of the source is a recursion on fuel here;
  the lemmas of \<open>Graph_Laws\<close> show that one more than the number of nodes is always enough.
\<close>

section \<open>Nodes\<close>

record program_node =
  node_id :: pystr
  node_capsule :: capsule
  dependencies :: "pystr list"
  review_base_sha :: "pystr option"
  adopted_candidate_sha :: "pystr option"

definition mutable_surfaces :: "program_node \<Rightarrow> pystr list" where
  "mutable_surfaces n = mutable_paths (node_capsule n)"

definition make_node :: "program_node \<Rightarrow> program_node res" where
  "make_node n =
     bind_res (validated_identifier ''milestone id'' (node_id n)) (\<lambda>_.
     bind_res (require (cap_milestone (node_capsule n) = node_id n)
                (ValueError (lit ''program node milestone does not match its capsule''))) (\<lambda>_.
     bind_res (require (list_all id_pattern (dependencies n))
                (ValueError (lit ''milestone id must match the identifier pattern''))) (\<lambda>_.
     bind_res (require (node_id n \<notin> set (dependencies n) \<and> distinct (dependencies n))
                (ValueError (lit ''program node dependencies must be unique and acyclic at the node boundary''))) (\<lambda>_.
     bind_res (case (review_base_sha n, adopted_candidate_sha n) of
         (Some base, Some candidate) \<Rightarrow>
           bind_res (require (is_hex 40 base) (ValueError (lit ''program review base must be a lowercase SHA-1''))) (\<lambda>_.
           bind_res (require (is_hex 40 candidate) (ValueError (lit ''adopted program candidate must be a lowercase SHA-1''))) (\<lambda>_.
           require (integration_mode_of (node_capsule n) = ALREADY_INTEGRATED)
             (ValueError (lit ''review base and adopted candidate are only valid for already-integrated nodes''))))
       | (None, None) \<Rightarrow>
           require (integration_mode_of (node_capsule n) \<noteq> ALREADY_INTEGRATED)
             (ValueError (lit ''already-integrated nodes require an explicit review base and candidate''))
       | _ \<Rightarrow> Inl (ValueError (lit ''adopted program nodes require both review base and candidate'')))
       (\<lambda>_. Inr n)))))"

section \<open>The dependency graph\<close>

text \<open>\<open>graph[node_id]\<close>, of a known node.\<close>

definition deps_of :: "program_node list \<Rightarrow> pystr \<Rightarrow> pystr list" where
  "deps_of nodes k = (case lookup_by node_id k nodes of None \<Rightarrow> [] | Some n \<Rightarrow> dependencies n)"

text \<open>
  \<open>visit\<close>, over the sets \<open>visiting\<close> and \<open>visited\<close>; the dependencies of a node are taken in the order
  they are declared.
\<close>

primrec visit ::
    "('k \<Rightarrow> 'k list) \<Rightarrow> nat \<Rightarrow> 'k \<Rightarrow> 'k list \<times> 'k list \<Rightarrow> ('k list \<times> 'k list) res" where
  "visit succs 0 = (\<lambda>x s. Inl (RuntimeError (lit ''out of fuel'')))"
| "visit succs (Suc fuel) = (\<lambda>x (visiting, visited).
     if x \<in> set visiting then Inl (ValueError (lit ''program graph contains a dependency cycle''))
     else if x \<in> set visited then Inr (visiting, visited)
     else bind_res (each_state (visit succs fuel) (succs x) (x # visiting, visited))
            (\<lambda>(visiting', visited'). Inr (removeAll x visiting', x # visited')))"

definition check_acyclic :: "program_node list \<Rightarrow> unit res" where
  "check_acyclic nodes =
     bind_res (each_state (visit (deps_of nodes) (length nodes + 1)) (map node_id nodes) ([], [])) (\<lambda>_. Inr ())"

text \<open>
  \<open>depends_on\<close>: the loop over \<open>pending\<close>, a stack whose top is its head here; \<open>None\<close> when the fuel
  runs out before the loop ends.
\<close>

fun depends_loop :: "('k \<Rightarrow> 'k list) \<Rightarrow> nat \<Rightarrow> 'k \<Rightarrow> 'k list \<Rightarrow> 'k list \<Rightarrow> bool option" where
  "depends_loop succs fuel tgt [] seen = Some False"
| "depends_loop succs 0 tgt (x # pending) seen = None"
| "depends_loop succs (Suc fuel) tgt (x # pending) seen =
     (if x = tgt then Some True
      else if x \<in> set seen then depends_loop succs fuel tgt pending seen
      else depends_loop succs fuel tgt (rev (succs x) @ pending) (x # seen))"

definition edge_count :: "program_node list \<Rightarrow> nat" where
  "edge_count nodes = sum_list (map (\<lambda>n. length (dependencies n)) nodes)"

definition depends_on :: "program_node list \<Rightarrow> pystr \<Rightarrow> pystr \<Rightarrow> bool" where
  "depends_on nodes x y =
     (depends_loop (deps_of nodes) (length (deps_of nodes x) + edge_count nodes) y (rev (deps_of nodes x)) []
        = Some True)"

section \<open>Gates and surfaces\<close>

definition check_gates :: "program_node list \<Rightarrow> unit res" where
  "check_gates nodes =
     (let gates = concat (map (\<lambda>n. approval_gates (node_capsule n)) nodes); known = set (map node_id nodes)
      in bind_res (require (distinct (map ag_id gates)) (ValueError (lit ''program approval gate ids must be unique''))) (\<lambda>_.
         each_res (\<lambda>g.
           bind_res (require (set (prerequisites g) \<subseteq> known \<and> set (protected_by g) \<subseteq> known)
                      (ValueError (lit ''program approval gate references an unknown milestone''))) (\<lambda>_.
           require (\<not> (\<exists>p\<in>set (protected_by g). \<exists>q\<in>set (prerequisites g). p = q \<or> depends_on nodes p q))
             (ValueError (lit ''program approval gate creates a dependency bypass'')))) gates))"

text \<open>The loop over nodes and surfaces, with the owners of each surface so far.\<close>

definition claim_surface ::
    "program_node list \<Rightarrow> pystr \<Rightarrow> pystr \<Rightarrow> (pystr \<times> pystr list) list \<Rightarrow> (pystr \<times> pystr list) list res" where
  "claim_surface nodes owner surface owned =
     (let owners = (case map_of owned surface of None \<Rightarrow> [] | Some os \<Rightarrow> os)
      in bind_res (require (\<forall>o'\<in>set owners. depends_on nodes owner o' \<or> depends_on nodes o' owner)
                    (ValueError (lit ''program mutable surface has concurrent owners''))) (\<lambda>_.
         Inr (dict_put surface (owners @ [owner]) owned)))"

definition check_surfaces :: "program_node list \<Rightarrow> unit res" where
  "check_surfaces nodes =
     bind_res (each_state (\<lambda>n. each_state (claim_surface nodes (node_id n)) (mutable_surfaces n)) nodes []) (\<lambda>_. Inr ())"

section \<open>The graph\<close>

record program_graph =
  program_id :: pystr
  plan_path :: pystr
  plan_revision_sha256 :: pystr
  graph_nodes :: "program_node list"
  trunk_head :: pystr
  integration_strategy :: pystr

definition absolute_path_ok :: "pystr \<Rightarrow> bool" where
  "absolute_path_ok s \<longleftrightarrow> s \<noteq> [] \<and> hd s = slash \<and> lit ''..'' \<notin> set (path_parts s)"

definition make_graph :: "program_graph \<Rightarrow> program_graph res" where
  "make_graph g =
     (let nodes = graph_nodes g; ids = map node_id nodes
      in bind_res (validated_identifier ''program id'' (program_id g)) (\<lambda>_.
         bind_res (require (absolute_path_ok (plan_path g))
                    (ValueError (lit ''program plan path must be an absolute canonical path''))) (\<lambda>_.
         bind_res (require (is_hex 64 (plan_revision_sha256 g))
                    (ValueError (lit ''program plan revision digest is invalid''))) (\<lambda>_.
         bind_res (require (is_hex 40 (trunk_head g)) (ValueError (lit ''program trunk HEAD is invalid''))) (\<lambda>_.
         bind_res (require (integration_strategy g \<in> {lit ''merge'', lit ''fast_forward'', lit ''cherry_pick''})
                    (ValueError (lit ''program integration strategy is unsupported''))) (\<lambda>_.
         bind_res (require (nodes \<noteq> [] \<and> length nodes \<le> 128)
                    (ValueError (lit ''program graph must contain one to 128 nodes''))) (\<lambda>_.
         bind_res (require (distinct ids) (ValueError (lit ''program graph milestone ids must be unique''))) (\<lambda>_.
         bind_res (require (\<forall>n\<in>set nodes. set (dependencies n) \<subseteq> set ids)
                    (ValueError (lit ''program graph dependency is not declared''))) (\<lambda>_.
         bind_res (check_acyclic nodes) (\<lambda>_.
         bind_res (check_gates nodes) (\<lambda>_.
         bind_res (check_surfaces nodes) (\<lambda>_. Inr g))))))))))))"

definition find_node :: "program_graph \<Rightarrow> pystr \<Rightarrow> program_node res" where
  "find_node g k =
     bind_res (validated_identifier ''milestone id'' k) (\<lambda>_.
     case lookup_by node_id k (graph_nodes g) of Some n \<Rightarrow> Inr n | None \<Rightarrow> Inl (KeyError k))"

definition ready_roots :: "program_graph \<Rightarrow> program_node list" where
  "ready_roots g = filter (\<lambda>n. dependencies n = []) (graph_nodes g)"

section \<open>Candidates\<close>

datatype candidate_disposition = VERIFIED_COMMIT | PRESERVED_DIRTY_WORKSPACE | NO_CANDIDATE

record candidate_record =
  disposition :: candidate_disposition
  cr_workspace_path :: pystr
  commit_sha :: "pystr option"
  workspace_head :: "pystr option"
  workspace_digest :: "pystr option"
  dirty :: bool
  cr_reason :: "pystr option"

definition make_candidate :: "candidate_record \<Rightarrow> candidate_record res" where
  "make_candidate c =
     bind_res (require (absolute_path_ok (cr_workspace_path c))
                (ValueError (lit ''candidate workspace path must be absolute and canonical''))) (\<lambda>_.
     bind_res (require (pred_option (is_hex 40) (commit_sha c)) (ValueError (lit ''candidate commit is invalid''))) (\<lambda>_.
     bind_res (require (pred_option (is_hex 40) (workspace_head c)) (ValueError (lit ''candidate workspace head is invalid''))) (\<lambda>_.
     bind_res (require (pred_option (is_hex 64) (workspace_digest c)) (ValueError (lit ''candidate workspace digest is invalid''))) (\<lambda>_.
     bind_res (case cr_reason c of None \<Rightarrow> Inr [] | Some r \<Rightarrow> required_text r 512 ''candidate inspection reason'') (\<lambda>_.
     bind_res (case disposition c of
         VERIFIED_COMMIT \<Rightarrow> require (commit_sha c \<noteq> None \<and> workspace_head c \<noteq> None)
           (ValueError (lit ''verified candidate requires a commit and workspace head''))
       | PRESERVED_DIRTY_WORKSPACE \<Rightarrow> require (dirty c \<and> commit_sha c = None)
           (ValueError (lit ''dirty candidate must remain commitless and explicitly dirty''))
       | NO_CANDIDATE \<Rightarrow> require (commit_sha c = None) (ValueError (lit ''empty candidate cannot carry a commit'')))
       (\<lambda>_. Inr c))))))"

section \<open>The status projection\<close>

record node_status =
  ns_id :: pystr
  ns_state :: pystr
  ns_dependencies :: "pystr list"
  candidate_sha :: "pystr option"
  review_ids :: "pystr list"
  finding_ids :: "pystr list"
  integrated :: bool
  ns_disposition :: "candidate_disposition option"
  ns_blocker :: "typed_blocker option"
  ns_outcome :: outcome_kind
  ns_integration :: integration_mode
  evidence_sha256 :: "pystr option"
  closure_satisfied :: bool
  unsatisfied_gate_ids :: "pystr list"

definition make_status :: "node_status \<Rightarrow> node_status res" where
  "make_status n =
     bind_res (validated_identifier ''milestone id'' (ns_id n)) (\<lambda>_.
     bind_res (require (py_strip (ns_state n) \<noteq> [] \<and> length (ns_state n) \<le> 64)
                (ValueError (lit ''program node state is invalid''))) (\<lambda>_.
     bind_res (require (list_all id_pattern (ns_dependencies n))
                (ValueError (lit ''milestone id must match the identifier pattern''))) (\<lambda>_.
     bind_res (require (distinct (ns_dependencies n)) (ValueError (lit ''program node dependencies are not unique''))) (\<lambda>_.
     bind_res (require (list_all (\<lambda>s. py_strip s \<noteq> []) (review_ids n)) (ValueError (lit ''program review ids are invalid''))) (\<lambda>_.
     bind_res (require (list_all (\<lambda>s. py_strip s \<noteq> []) (finding_ids n)) (ValueError (lit ''program finding ids are invalid''))) (\<lambda>_.
     bind_res (require (pred_option (is_hex 40) (candidate_sha n)) (ValueError (lit ''program candidate commit is invalid''))) (\<lambda>_.
     bind_res (validate_program_outcome_pair (ns_outcome n) (ns_integration n)) (\<lambda>_.
     bind_res (require (pred_option (is_hex 64) (evidence_sha256 n))
                (ValueError (lit ''program evidence subject must be a lowercase SHA-256''))) (\<lambda>_.
     bind_res (require (ns_outcome n = RUNTIME_EVIDENCE \<longrightarrow> candidate_sha n = None)
                (ValueError (lit ''runtime evidence status cannot carry a commit candidate''))) (\<lambda>_.
     bind_res (require (ns_outcome n = RUNTIME_EVIDENCE \<longrightarrow> \<not> integrated n)
                (ValueError (lit ''runtime evidence status cannot be integrated''))) (\<lambda>_.
     bind_res (require (ns_outcome n = COMMIT \<longrightarrow> evidence_sha256 n = None)
                (ValueError (lit ''commit status cannot carry an evidence subject''))) (\<lambda>_.
     bind_res (require (length (unsatisfied_gate_ids n) \<le> 128 \<and> distinct (unsatisfied_gate_ids n)
                   \<and> list_all (\<lambda>s. py_strip s \<noteq> []) (unsatisfied_gate_ids n))
                (ValueError (lit ''program node unsatisfied gates are invalid''))) (\<lambda>_.
     Inr (n\<lparr>review_ids := sort (remdups (review_ids n)), finding_ids := sort (remdups (finding_ids n)),
            unsatisfied_gate_ids := sort (unsatisfied_gate_ids n)\<rparr>))))))))))))))"

definition node_ready :: "node_status \<Rightarrow> bool" where
  "node_ready n \<longleftrightarrow> ns_state n = lit (state_text PLANNED) \<and> \<not> closure_satisfied n \<and> unsatisfied_gate_ids n = []"

text \<open>\<open>program_node_closure_satisfied\<close>, on a status and on raw facts.\<close>

definition status_closed :: "node_status \<Rightarrow> bool" where
  "status_closed n \<longleftrightarrow>
     (if ns_outcome n = RUNTIME_EVIDENCE then
        ns_integration n = NO_INTEGRATION \<and> evidence_sha256 n \<noteq> None \<and> \<not> integrated n
        \<and> ns_blocker n = None \<and> closure_satisfied n
      else candidate_sha n \<noteq> None \<and> ns_blocker n = None \<and> closure_satisfied n
        \<and> ((ns_integration n = GIT \<and> integrated n) \<or> (ns_integration n = ALREADY_INTEGRATED \<and> integrated n)))"

record closure_facts =
  cf_candidate :: "pystr option"
  cf_evidence :: "pystr option"
  cf_reviews_accepted :: bool
  cf_integrated :: bool
  cf_adopted :: bool
  cf_blocker :: "typed_blocker option"

definition facts_closed :: "outcome_kind \<Rightarrow> integration_mode \<Rightarrow> closure_facts \<Rightarrow> bool res" where
  "facts_closed outcome integration f =
     bind_res (validate_program_outcome_pair outcome integration) (\<lambda>_.
     Inr (if cf_blocker f \<noteq> None \<or> \<not> cf_reviews_accepted f then False
          else if outcome = RUNTIME_EVIDENCE
          then integration = NO_INTEGRATION \<and> cf_evidence f \<noteq> None \<and> \<not> cf_integrated f
          else cf_candidate f \<noteq> None \<and> cf_integrated f
            \<and> (integration = GIT \<or> (integration = ALREADY_INTEGRATED \<and> cf_adopted f))))"

text \<open>\<open>ProgramStatus.ready_milestones\<close>; a blocker is asked with a target, so it never raises.\<close>

definition blocks_ready :: "node_status list \<Rightarrow> node_status \<Rightarrow> bool" where
  "blocks_ready nodes n \<longleftrightarrow>
     (\<exists>src\<in>set nodes. case ns_blocker src of
        None \<Rightarrow> False
      | Some b \<Rightarrow> blocker_applies_to b READY (ns_id src) (Some (ns_id n)) (ns_dependencies n) = Inr True)"

definition ready_milestones :: "node_status list \<Rightarrow> pystr list" where
  "ready_milestones nodes =
     (let closed = set (map ns_id (filter closure_satisfied nodes))
      in map ns_id (filter (\<lambda>n. node_ready n \<and> set (ns_dependencies n) \<subseteq> closed \<and> \<not> blocks_ready nodes n) nodes))"

end
