(* ===== verification/Graph_Laws.thy ===== *)
theory Graph_Laws
  imports Program_Graph
begin

text \<open>
  The graph checks of src/src/codex_flow/domain.py are exact: the depth-first search accepts
  precisely the acyclic graphs, the worklist loop decides reachability, and an accepted graph has
  no concurrent owners of a surface, no gate that a dependency bypasses, and always a milestone to
  start.
\<close>

section \<open>Depth-first search\<close>

definition edges :: "('k \<Rightarrow> 'k list) \<Rightarrow> ('k \<times> 'k) set" where
  "edges succs = {(x, y). y \<in> set (succs x)}"

lemma edges_iff [simp]: "(x, y) \<in> edges succs \<longleftrightarrow> y \<in> set (succs x)"
  by (simp add: edges_def)

text \<open>The visited list is in reverse topological order.\<close>

fun topo :: "('k \<Rightarrow> 'k list) \<Rightarrow> 'k list \<Rightarrow> bool" where
  "topo succs [] = True"
| "topo succs (x # xs) = (set (succs x) \<subseteq> set xs \<and> x \<notin> set xs \<and> topo succs xs)"

definition visit_post :: "('k \<Rightarrow> 'k list) \<Rightarrow> 'k list \<times> 'k list \<Rightarrow> 'k list \<times> 'k list \<Rightarrow> bool" where
  "visit_post succs s s' \<longleftrightarrow>
     fst s' = fst s
     \<and> (\<exists>us. snd s' = us @ snd s \<and> set us \<inter> set (fst s) = {})
     \<and> (topo succs (snd s) \<longrightarrow> topo succs (snd s'))"

lemma visit_post_refl: "visit_post succs s s"
  by (auto simp: visit_post_def)

lemma visit_post_trans: "visit_post succs s t \<Longrightarrow> visit_post succs t u \<Longrightarrow> visit_post succs s u"
  by (auto simp: visit_post_def)

lemma each_state_post:
  assumes run: "each_state f xs s = Inr s'"
    and step: "\<And>x s s'. x \<in> set xs \<Longrightarrow> f x s = Inr s' \<Longrightarrow> R s s' \<and> Q x s'"
    and refl: "\<And>s. R s s" and trans: "\<And>s t u. R s t \<Longrightarrow> R t u \<Longrightarrow> R s u"
    and keep: "\<And>x s s'. R s s' \<Longrightarrow> Q x s \<Longrightarrow> Q x s'"
  shows "R s s' \<and> (\<forall>x\<in>set xs. Q x s')"
  using run step
proof (induction xs arbitrary: s)
  case Nil
  then show ?case by (simp add: refl)
next
  case (Cons x xs)
  then obtain t where t: "f x s = Inr t" "each_state f xs t = Inr s'" by (auto simp: bind_res_Inr_iff)
  from Cons.prems(2) [OF _ t(1)] have x: "R s t" "Q x t" by simp_all
  have rest: "R t s' \<and> (\<forall>x\<in>set xs. Q x s')" by (rule Cons.IH [OF t(2)], rule Cons.prems(2)) simp_all
  then have "R s s'" by (blast intro: trans [OF x(1)])
  moreover have "Q x s'" using rest by (blast intro: keep [OF _ x(2)])
  ultimately show ?case using rest by simp
qed

lemma visit_keeps_post:
  assumes run: "each_state f xs s = Inr s'"
    and step: "\<And>x s s'. f x s = Inr s' \<Longrightarrow> visit_post succs s s' \<and> x \<in> set (snd s')"
  shows "visit_post succs s s' \<and> (\<forall>x\<in>set xs. x \<in> set (snd s'))"
proof (rule each_state_post [OF run])
  show "visit_post succs s t \<and> x \<in> set (snd t)" if "f x s = Inr t" for x s t
    using that by (rule step)
  show "visit_post succs s s" for s by (rule visit_post_refl)
  show "visit_post succs s u" if "visit_post succs s t" "visit_post succs t u" for s t u
    using that by (rule visit_post_trans)
  show "x \<in> set (snd t)" if "visit_post succs s t" "x \<in> set (snd s)" for x s t
    using that by (auto simp: visit_post_def)
qed

lemma visit_ok:
  "visit succs fuel x s = Inr s' \<Longrightarrow> visit_post succs s s' \<and> x \<in> set (snd s')"
proof (induction fuel arbitrary: x s s')
  case 0
  then show ?case by simp
next
  case (Suc fuel)
  obtain visiting visited where s: "s = (visiting, visited)" by (cases s)
  show ?case
  proof (cases "x \<in> set visited")
    case True
    with Suc.prems s show ?thesis by (auto simp: visit_post_refl split: if_splits)
  next
    case False
    with Suc.prems s obtain vg vd where new: "x \<notin> set visiting"
      and run: "each_state (visit succs fuel) (succs x) (x # visiting, visited) = Inr (vg, vd)"
      and s': "s' = (removeAll x vg, x # vd)"
      by (auto simp: bind_res_Inr_iff split: if_splits)
    have vp: "visit_post succs (x # visiting, visited) (vg, vd) \<and> (\<forall>y\<in>set (succs x). y \<in> set (snd (vg, vd)))"
      by (rule visit_keeps_post [OF run]) (rule Suc.IH)
    then have sub: "set (succs x) \<subseteq> set vd" by auto
    from vp obtain us where post: "vg = x # visiting" "vd = us @ visited" "set us \<inter> set (x # visiting) = {}"
      "topo succs visited \<longrightarrow> topo succs vd"
      by (auto simp: visit_post_def)
    with False have "x \<notin> set vd" by auto
    with post sub new s s' show ?thesis by (auto simp: visit_post_def intro!: exI [of _ "x # us"])
  qed
qed

text \<open>With fuel beyond the nodes that are left, the search ends, and a cycle error means a cycle.\<close>

lemma each_state_total:
  assumes "I s" and "\<And>x s. x \<in> set xs \<Longrightarrow> I s \<Longrightarrow> (\<exists>s'. f x s = Inr s' \<and> I s') \<or> (f x s = Inl e \<and> C)"
  shows "(\<exists>s'. each_state f xs s = Inr s' \<and> I s') \<or> (each_state f xs s = Inl e \<and> C)"
  using assms
proof (induction xs arbitrary: s)
  case (Cons x xs)
  from Cons.prems(2) [of x s] Cons.prems(1) consider t where "f x s = Inr t" "I t" | "f x s = Inl e" C
    by auto
  then show ?case
  proof cases
    case 1
    then have "(\<exists>s'. each_state f xs t = Inr s' \<and> I s') \<or> (each_state f xs t = Inl e \<and> C)"
      by (intro Cons.IH Cons.prems(2)) simp_all
    with 1 show ?thesis by simp
  qed simp
qed simp

lemma visit_total:
  assumes "finite K" "\<And>k. k \<in> K \<Longrightarrow> set (succs k) \<subseteq> K"
    and "x \<in> K" "set visiting \<subseteq> K" "distinct visiting" "card K < fuel + length visiting"
    and "\<forall>v\<in>set visiting. (v, x) \<in> (edges succs)\<^sup>+"
  shows "(\<exists>visited'. visit succs fuel x (visiting, visited) = Inr (visiting, visited'))
    \<or> (visit succs fuel x (visiting, visited) = Inl (ValueError (lit ''program graph contains a dependency cycle''))
       \<and> \<not> acyclic (edges succs))"
  using assms(3-)
proof (induction fuel arbitrary: x visiting visited)
  case 0
  then have "length visiting \<le> card K"
    using assms(1) by (metis card_mono distinct_card)
  with 0 show ?case by simp
next
  case (Suc fuel)
  let ?cycle = "ValueError (lit ''program graph contains a dependency cycle'')"
  show ?case
  proof (cases "x \<in> set visiting")
    case True
    with Suc.prems show ?thesis by (auto simp: acyclic_def)
  next
    case new: False
    show ?thesis
    proof (cases "x \<in> set visited")
      case True
      with new show ?thesis by simp
    next
      case False
      have "(\<exists>s'. each_state (visit succs fuel) (succs x) (x # visiting, visited) = Inr s' \<and> fst s' = x # visiting)
        \<or> (each_state (visit succs fuel) (succs x) (x # visiting, visited) = Inl ?cycle \<and> \<not> acyclic (edges succs))"
      proof (rule each_state_total)
        fix y and s :: "'a list \<times> 'a list"
        assume y: "y \<in> set (succs x)" and s: "fst s = x # visiting"
        obtain vd where s: "s = (x # visiting, vd)" using s by (cases s) simp
        have edge: "(x, y) \<in> edges succs" using y by simp
        have "\<forall>v\<in>set (x # visiting). (v, y) \<in> (edges succs)\<^sup>+"
        proof
          fix v
          assume "v \<in> set (x # visiting)"
          then consider "v = x" | "(v, x) \<in> (edges succs)\<^sup>+" using Suc.prems(5) by auto
          then show "(v, y) \<in> (edges succs)\<^sup>+"
            using edge by cases (auto intro: trancl_into_trancl simp del: edges_iff)
        qed
        then have "(\<exists>vd'. visit succs fuel y (x # visiting, vd) = Inr (x # visiting, vd'))
          \<or> (visit succs fuel y (x # visiting, vd) = Inl ?cycle \<and> \<not> acyclic (edges succs))"
          using Suc.prems new y assms(2) [of x] by (intro Suc.IH) auto
        with s show "(\<exists>s'. visit succs fuel y s = Inr s' \<and> fst s' = x # visiting)
          \<or> (visit succs fuel y s = Inl ?cycle \<and> \<not> acyclic (edges succs))" by auto
      qed simp
      with new False show ?thesis by auto
    qed
  qed
qed

lemma topo_closed: "topo succs l \<Longrightarrow> x \<in> set l \<Longrightarrow> (x, y) \<in> (edges succs)\<^sup>* \<Longrightarrow> y \<in> set l"
proof -
  assume t: "topo succs l" and x: "x \<in> set l"
  have closed: "set (succs z) \<subseteq> set l" if "z \<in> set l" for z
    using t that by (induction l) auto
  show "(x, y) \<in> (edges succs)\<^sup>* \<Longrightarrow> y \<in> set l"
    by (induction rule: rtrancl_induct) (use x closed in auto)
qed

lemma topo_acyclic: "topo succs l \<Longrightarrow> x \<in> set l \<Longrightarrow> (x, x) \<notin> (edges succs)\<^sup>+"
proof (induction l)
  case (Cons a l)
  show ?case
  proof (cases "x \<in> set l")
    case True
    with Cons show ?thesis by simp
  next
    case False
    with Cons.prems have x: "x = a" by simp
    show ?thesis
    proof
      assume "(x, x) \<in> (edges succs)\<^sup>+"
      then obtain z where "(x, z) \<in> edges succs" "(z, x) \<in> (edges succs)\<^sup>*" by (auto dest: tranclD)
      moreover from this(1) Cons.prems(1) x have "z \<in> set l" by auto
      ultimately have "x \<in> set l" using topo_closed [of succs l z x] Cons.prems(1) by simp
      with False show False ..
    qed
  qed
qed simp

text \<open>The relation of a list of nodes, and when it is closed.\<close>

definition dep_rel :: "program_node list \<Rightarrow> (pystr \<times> pystr) set" where
  "dep_rel nodes = edges (deps_of nodes)"

definition closed_nodes :: "program_node list \<Rightarrow> bool" where
  "closed_nodes nodes \<longleftrightarrow>
     distinct (map node_id nodes) \<and> (\<forall>n\<in>set nodes. set (dependencies n) \<subseteq> set (map node_id nodes))"

lemma deps_of_closed: "closed_nodes nodes \<Longrightarrow> set (deps_of nodes k) \<subseteq> set (map node_id nodes)"
proof (cases "lookup_by node_id k nodes")
  case (Some n)
  then have "n \<in> set nodes" using lookup_by_in by metis
  with Some show "closed_nodes nodes \<Longrightarrow> ?thesis" by (simp add: deps_of_def closed_nodes_def)
qed (simp add: deps_of_def)

lemma deps_of_unknown: "k \<notin> set (map node_id nodes) \<Longrightarrow> deps_of nodes k = []"
proof -
  assume "k \<notin> set (map node_id nodes)"
  then have "lookup_by node_id k nodes = None" by (simp add: lookup_by_None)
  then show ?thesis by (simp add: deps_of_def)
qed

lemma deps_of_node: "closed_nodes nodes \<Longrightarrow> n \<in> set nodes \<Longrightarrow> deps_of nodes (node_id n) = dependencies n"
  by (simp add: deps_of_def closed_nodes_def lookup_by_unique)

lemma check_acyclic_iff:
  assumes "closed_nodes nodes"
  shows "check_acyclic nodes =
    (if acyclic (dep_rel nodes) then Inr ()
     else Inl (ValueError (lit ''program graph contains a dependency cycle'')))"
proof -
  let ?succs = "deps_of nodes" and ?K = "set (map node_id nodes)"
  let ?cycle = "ValueError (lit ''program graph contains a dependency cycle'')"
  let ?run = "each_state (visit ?succs (length nodes + 1)) (map node_id nodes) ([], [])"
  have card: "card ?K \<le> length nodes" using card_length [of "map node_id nodes"] by simp
  have "(\<exists>s'. ?run = Inr s' \<and> fst s' = []) \<or> (?run = Inl ?cycle \<and> \<not> acyclic (edges ?succs))"
  proof (rule each_state_total)
    fix x and s :: "pystr list \<times> pystr list"
    assume x: "x \<in> ?K" and "fst s = []"
    then obtain vd where s: "s = ([], vd)" by (cases s) simp
    have "(\<exists>vd'. visit ?succs (length nodes + 1) x ([], vd) = Inr ([], vd'))
      \<or> (visit ?succs (length nodes + 1) x ([], vd) = Inl ?cycle \<and> \<not> acyclic (edges ?succs))"
      using x card deps_of_closed [OF assms] by (intro visit_total [where K = ?K]) auto
    with s show "(\<exists>s'. visit ?succs (length nodes + 1) x s = Inr s' \<and> fst s' = [])
      \<or> (visit ?succs (length nodes + 1) x s = Inl ?cycle \<and> \<not> acyclic (edges ?succs))" by auto
  qed simp
  moreover have "acyclic (edges ?succs)" if run: "?run = Inr s'" for s'
  proof -
    have "visit_post ?succs ([], []) s' \<and> (\<forall>x\<in>?K. x \<in> set (snd s'))"
      by (rule visit_keeps_post [OF run]) (rule visit_ok)
    then have t: "topo ?succs (snd s')" and all: "?K \<subseteq> set (snd s')" by (auto simp: visit_post_def)
    have "(x, x) \<notin> (edges ?succs)\<^sup>+" for x
    proof
      assume c: "(x, x) \<in> (edges ?succs)\<^sup>+"
      then obtain z where "(x, z) \<in> edges ?succs" by (auto dest: tranclD)
      then have "deps_of nodes x \<noteq> []" by auto
      then have "x \<in> ?K" using deps_of_unknown by blast
      with topo_acyclic [OF t] all c show False by blast
    qed
    then show ?thesis by (simp add: acyclic_def)
  qed
  ultimately show ?thesis by (auto simp: check_acyclic_def dep_rel_def)
qed

text \<open>
  C29. The cycle check of a program graph is exact and ends: it accepts precisely the graphs without
  a dependency cycle, and refuses every other one with the cycle error.
\<close>

theorem check_acyclic_exact:
  assumes "closed_nodes nodes"
  shows "check_acyclic nodes =
    (if acyclic (dep_rel nodes) then Inr ()
     else Inl (ValueError (lit ''program graph contains a dependency cycle'')))"
  by (rule check_acyclic_iff [OF assms])

section \<open>Reachability\<close>

lemma depends_loop_sound:
  "depends_loop succs fuel tgt pending seen = Some True \<Longrightarrow> \<exists>p\<in>set pending. (p, tgt) \<in> (edges succs)\<^sup>*"
proof (induction succs fuel tgt pending seen rule: depends_loop.induct)
  case (3 succs fuel tgt x pending seen)
  show ?case
  proof (cases "x = tgt")
    case False
    note IH = 3(1) [OF False] 3(2) [OF False]
    from 3(3) False show ?thesis
    proof (cases "x \<in> set seen")
      case True
      with IH(1) 3(3) False show ?thesis by auto
    next
      case new: False
      with IH(2) 3(3) False obtain p where p: "p \<in> set (succs x) \<union> set pending" "(p, tgt) \<in> (edges succs)\<^sup>*" by auto
      show ?thesis
      proof (cases "p \<in> set pending")
        case False
        with p have "(x, p) \<in> edges succs" by simp
        with p(2) have "(x, tgt) \<in> (edges succs)\<^sup>*" by (rule converse_rtrancl_into_rtrancl [rotated])
        then show ?thesis by auto
      qed (use p in auto)
    qed
  qed auto
qed simp_all

lemma closed_unreachable:
  assumes "\<And>z. z \<in> S \<Longrightarrow> z \<noteq> tgt \<and> set (succs z) \<subseteq> S" "p \<in> S"
  shows "(p, tgt) \<notin> (edges succs)\<^sup>*"
proof
  assume "(p, tgt) \<in> (edges succs)\<^sup>*"
  then have "tgt \<in> S" by (induction rule: rtrancl_induct) (use assms in auto)
  with assms(1) show False by blast
qed

lemma depends_loop_closed:
  assumes "depends_loop succs fuel tgt pending seen = Some False"
    "\<forall>z\<in>set seen. z \<noteq> tgt \<and> set (succs z) \<subseteq> set seen \<union> set pending"
  shows "\<exists>S. set seen \<union> set pending \<subseteq> S \<and> (\<forall>z\<in>S. z \<noteq> tgt \<and> set (succs z) \<subseteq> S)"
  using assms
proof (induction succs fuel tgt pending seen rule: depends_loop.induct)
  case (1 succs fuel tgt seen)
  then show ?case by (intro exI [of _ "set seen"]) simp
next
  case (3 succs fuel tgt x pending seen)
  from 3(3) have ne: "x \<noteq> tgt" by auto
  show ?case
  proof (cases "x \<in> set seen")
    case True
    with 3(3) ne have "depends_loop succs fuel tgt pending seen = Some False" by simp
    moreover have "\<forall>z\<in>set seen. z \<noteq> tgt \<and> set (succs z) \<subseteq> set seen \<union> set pending"
      using 3(4) True by auto
    ultimately have "\<exists>S. set seen \<union> set pending \<subseteq> S \<and> (\<forall>z\<in>S. z \<noteq> tgt \<and> set (succs z) \<subseteq> S)"
      by (rule 3(1) [OF ne True])
    moreover have "set seen \<union> set (x # pending) = set seen \<union> set pending" using True by auto
    ultimately show ?thesis by (simp only:)
  next
    case False
    with 3(3) ne have run: "depends_loop succs fuel tgt (rev (succs x) @ pending) (x # seen) = Some False" by simp
    have "\<forall>z\<in>set (x # seen). z \<noteq> tgt \<and> set (succs z) \<subseteq> set (x # seen) \<union> set (rev (succs x) @ pending)"
      using 3(4) ne by auto
    with 3(2) [OF ne False run]
    have "\<exists>S. set (x # seen) \<union> set (rev (succs x) @ pending) \<subseteq> S \<and> (\<forall>z\<in>S. z \<noteq> tgt \<and> set (succs z) \<subseteq> S)" .
    then obtain S where "set (x # seen) \<union> set (rev (succs x) @ pending) \<subseteq> S"
      and all: "\<forall>z\<in>S. z \<noteq> tgt \<and> set (succs z) \<subseteq> S" by (elim exE conjE)
    then have "set seen \<union> set (x # pending) \<subseteq> S" by simp
    with all show ?thesis by (intro exI [of _ S] conjI)
  qed
qed simp

lemma depends_loop_complete:
  assumes "depends_loop succs fuel tgt pending [] = Some False" "p \<in> set pending"
  shows "(p, tgt) \<notin> (edges succs)\<^sup>*"
proof -
  have "\<exists>S. set [] \<union> set pending \<subseteq> S \<and> (\<forall>z\<in>S. z \<noteq> tgt \<and> set (succs z) \<subseteq> S)"
    by (rule depends_loop_closed [OF assms(1)]) simp
  then obtain S where "set [] \<union> set pending \<subseteq> S" and all: "\<forall>z\<in>S. z \<noteq> tgt \<and> set (succs z) \<subseteq> S"
    by (elim exE conjE)
  then have sub: "set pending \<subseteq> S" by simp
  show ?thesis
  proof (rule closed_unreachable [of S])
    show "z \<noteq> tgt \<and> set (succs z) \<subseteq> S" if "z \<in> S" for z using all that by (rule bspec)
    show "p \<in> S" using sub assms(2) by (rule subsetD)
  qed
qed

text \<open>The fuel: every pop of an unseen node adds its edges once.\<close>

definition unseen_edges :: "program_node list \<Rightarrow> pystr list \<Rightarrow> nat" where
  "unseen_edges nodes seen = sum_list (map (\<lambda>n. if node_id n \<in> set seen then 0 else length (dependencies n)) nodes)"

lemma unseen_edges_Nil: "unseen_edges nodes [] = edge_count nodes"
  by (simp add: unseen_edges_def edge_count_def)

lemma unseen_edges_unknown:
  "x \<notin> set (map node_id nodes) \<Longrightarrow> unseen_edges nodes (x # seen) = unseen_edges nodes seen"
  unfolding unseen_edges_def by (induction nodes) auto

lemma unseen_edges_step:
  assumes "distinct (map node_id nodes)" "x \<notin> set seen"
  shows "unseen_edges nodes (x # seen) + length (deps_of nodes x) = unseen_edges nodes seen"
  using assms(1)
proof (induction nodes)
  case Nil
  show ?case by (simp add: unseen_edges_def deps_of_def lookup_by_def select_one_def)
next
  case (Cons n nodes)
  show ?case
  proof (cases "node_id n = x")
    case True
    with Cons.prems have "x \<notin> set (map node_id nodes)" by auto
    from unseen_edges_unknown [OF this] True assms(2) show ?thesis
      by (simp add: unseen_edges_def deps_of_def lookup_by_def select_one_def)
  next
    case False
    then have "deps_of (n # nodes) x = deps_of nodes x"
      by (simp add: deps_of_def lookup_by_def select_one_def)
    with Cons False show ?thesis by (simp add: unseen_edges_def)
  qed
qed

lemma depends_loop_total:
  assumes "distinct (map node_id nodes)"
  shows "length pending + unseen_edges nodes seen \<le> fuel \<Longrightarrow>
    depends_loop (deps_of nodes) fuel tgt pending seen \<noteq> None"
proof (induction "deps_of nodes" fuel tgt pending seen rule: depends_loop.induct)
  case (3 fuel tgt x pending seen)
  then show ?case using unseen_edges_step [OF assms, of x seen] by auto
qed simp_all

lemma depends_on_iff:
  assumes "distinct (map node_id nodes)"
  shows "depends_on nodes x y \<longleftrightarrow> (x, y) \<in> (dep_rel nodes)\<^sup>+"
proof -
  let ?succs = "deps_of nodes"
  let ?run = "depends_loop ?succs (length (?succs x) + edge_count nodes) y (rev (?succs x)) []"
  have total: "?run \<noteq> None"
    by (rule depends_loop_total [OF assms]) (simp add: unseen_edges_Nil)
  have "?run = Some True \<longleftrightarrow> (x, y) \<in> (edges ?succs)\<^sup>+"
  proof
    assume "?run = Some True"
    from depends_loop_sound [OF this] obtain p where "p \<in> set (?succs x)" "(p, y) \<in> (edges ?succs)\<^sup>*" by auto
    then have "(x, p) \<in> edges ?succs" "(p, y) \<in> (edges ?succs)\<^sup>*" by simp_all
    then show "(x, y) \<in> (edges ?succs)\<^sup>+" by (rule rtrancl_into_trancl2)
  next
    assume reach: "(x, y) \<in> (edges ?succs)\<^sup>+"
    show "?run = Some True"
    proof (rule ccontr)
      assume "?run \<noteq> Some True"
      with total have f: "?run = Some False" by auto
      from reach obtain p where p: "p \<in> set (rev (?succs x))" "(p, y) \<in> (edges ?succs)\<^sup>*" by (auto dest: tranclD)
      from depends_loop_complete [OF f p(1)] p(2) show False ..
    qed
  qed
  then show ?thesis by (simp add: depends_on_def dep_rel_def)
qed

text \<open>
  C31. The worklist loop decides dependency: with the fuel of the model it always ends, and it
  answers whether a chain of dependencies leads from one node to the other.
\<close>

theorem depends_on_exact:
  assumes "distinct (map node_id nodes)"
  shows "depends_loop (deps_of nodes) (length (deps_of nodes x) + edge_count nodes) y (rev (deps_of nodes x)) [] \<noteq> None
    \<and> (depends_on nodes x y \<longleftrightarrow> (x, y) \<in> (dep_rel nodes)\<^sup>+)"
  using depends_loop_total [OF assms] depends_on_iff [OF assms] by (simp add: unseen_edges_Nil)

section \<open>Accepted graphs\<close>

text \<open>The owners a surface has so far, and what the loop over the surfaces keeps of them.\<close>

definition owners_of :: "(pystr \<times> pystr list) list \<Rightarrow> pystr \<Rightarrow> pystr set" where
  "owners_of owned s = (case map_of owned s of None \<Rightarrow> {} | Some os \<Rightarrow> set os)"

definition ordered_in :: "program_node list \<Rightarrow> pystr \<Rightarrow> pystr \<Rightarrow> bool" where
  "ordered_in nodes x y \<longleftrightarrow> x = y \<or> depends_on nodes x y \<or> depends_on nodes y x"

definition all_ordered :: "program_node list \<Rightarrow> (pystr \<times> pystr list) list \<Rightarrow> bool" where
  "all_ordered nodes owned \<longleftrightarrow>
     (\<forall>s. \<forall>x\<in>owners_of owned s. \<forall>y\<in>owners_of owned s. ordered_in nodes x y)"

definition claims_grow :: "program_node list \<Rightarrow> (pystr \<times> pystr list) list \<Rightarrow> (pystr \<times> pystr list) list \<Rightarrow> bool" where
  "claims_grow nodes owned owned' \<longleftrightarrow>
     (\<forall>s. owners_of owned s \<subseteq> owners_of owned' s) \<and> (all_ordered nodes owned \<longrightarrow> all_ordered nodes owned')"

lemma claims_grow_refl: "claims_grow nodes owned owned"
  by (simp add: claims_grow_def)

lemma claims_grow_trans: "claims_grow nodes r s \<Longrightarrow> claims_grow nodes s t \<Longrightarrow> claims_grow nodes r t"
  unfolding claims_grow_def by blast

lemma ordered_in_sym: "ordered_in nodes x y \<Longrightarrow> ordered_in nodes y x"
  by (auto simp: ordered_in_def)

lemma claim_surface_ok:
  assumes "claim_surface nodes own s owned = Inr owned'"
  shows "claims_grow nodes owned owned' \<and> own \<in> owners_of owned' s"
proof -
  let ?os = "case map_of owned s of None \<Rightarrow> [] | Some os \<Rightarrow> os"
  from assms have ord: "\<forall>o'\<in>set ?os. depends_on nodes own o' \<or> depends_on nodes o' own"
    and o': "owned' = dict_put s (?os @ [own]) owned"
    by (auto simp: claim_surface_def Let_def bind_res_Inr_iff)
  have new: "owners_of owned' k = (if k = s then insert own (owners_of owned s) else owners_of owned k)" for k
    using o' by (auto simp: owners_of_def map_of_dict_put split: option.splits)
  have old: "owners_of owned s = set ?os" by (simp add: owners_of_def split: option.splits)
  have own: "ordered_in nodes own y" if "y \<in> owners_of owned s" for y
    using ord that by (auto simp: old ordered_in_def)
  have "all_ordered nodes owned'" if a: "all_ordered nodes owned"
  proof -
    have "ordered_in nodes x y" if "x \<in> owners_of owned' k" "y \<in> owners_of owned' k" for x y k
    proof (cases "k = s")
      case False
      with that a show ?thesis by (simp add: new all_ordered_def)
    next
      case True
      with that have "x = own \<or> x \<in> owners_of owned s" "y = own \<or> y \<in> owners_of owned s"
        by (auto simp: new)
      then consider "x = own" "y = own" | "x = own" "y \<in> owners_of owned s" | "y = own" "x \<in> owners_of owned s"
        | "x \<in> owners_of owned s" "y \<in> owners_of owned s" by blast
      then show ?thesis
      proof cases
        case 1
        then show ?thesis by (simp add: ordered_in_def)
      next
        case 2
        with own show ?thesis by simp
      next
        case 3
        with own [THEN ordered_in_sym] show ?thesis by simp
      next
        case 4
        with a show ?thesis unfolding all_ordered_def by blast
      qed
    qed
    then show ?thesis by (simp add: all_ordered_def)
  qed
  with new show ?thesis by (auto simp: claims_grow_def)
qed

lemma check_surfaces_ordered:
  assumes "check_surfaces nodes = Inr ()" "n \<in> set nodes" "m \<in> set nodes"
    and "s \<in> set (mutable_surfaces n)" "s \<in> set (mutable_surfaces m)"
  shows "ordered_in nodes (node_id n) (node_id m)"
proof -
  let ?Q = "\<lambda>n owned. \<forall>s\<in>set (mutable_surfaces n). node_id n \<in> owners_of owned s"
  from assms(1) obtain owned where run:
    "each_state (\<lambda>n. each_state (claim_surface nodes (node_id n)) (mutable_surfaces n)) nodes [] = Inr owned"
    by (auto simp: check_surfaces_def bind_res_Inr_iff)
  have inner: "claims_grow nodes r t \<and> ?Q k t"
    if "each_state (claim_surface nodes (node_id k)) (mutable_surfaces k) r = Inr t" for k r t
  proof (rule each_state_post [OF that, of "claims_grow nodes" "\<lambda>s owned. node_id k \<in> owners_of owned s"])
    show "claims_grow nodes x x" for x by (rule claims_grow_refl)
    show "claims_grow nodes x z" if "claims_grow nodes x y" "claims_grow nodes y z" for x y z
      using that by (rule claims_grow_trans)
    show "claims_grow nodes x y \<and> node_id k \<in> owners_of y s"
      if "claim_surface nodes (node_id k) s x = Inr y" for s x y
      using that by (rule claim_surface_ok)
    show "node_id k \<in> owners_of y s" if "claims_grow nodes x y" "node_id k \<in> owners_of x s" for s x y
      using that unfolding claims_grow_def by blast
  qed
  have "claims_grow nodes [] owned \<and> (\<forall>k\<in>set nodes. ?Q k owned)"
  proof (rule each_state_post [OF run, of "claims_grow nodes" ?Q])
    show "claims_grow nodes x x" for x by (rule claims_grow_refl)
    show "claims_grow nodes x z" if "claims_grow nodes x y" "claims_grow nodes y z" for x y z
      using that by (rule claims_grow_trans)
    show "claims_grow nodes r t \<and> ?Q k t"
      if "each_state (claim_surface nodes (node_id k)) (mutable_surfaces k) r = Inr t" for k r t
      using that by (rule inner)
    show "?Q k y" if "claims_grow nodes x y" "?Q k x" for k x y
      using that unfolding claims_grow_def by blast
  qed
  then have "all_ordered nodes owned" and q: "\<forall>k\<in>set nodes. ?Q k owned"
    by (auto simp: claims_grow_def all_ordered_def owners_of_def)
  moreover from q assms(2-5) have "node_id n \<in> owners_of owned s" "node_id m \<in> owners_of owned s" by blast+
  ultimately show ?thesis unfolding all_ordered_def by blast
qed

lemma make_graph_parts:
  assumes "make_graph g = Inr g'"
  shows "g' = g \<and> graph_nodes g \<noteq> [] \<and> closed_nodes (graph_nodes g) \<and> check_acyclic (graph_nodes g) = Inr ()
    \<and> check_gates (graph_nodes g) = Inr () \<and> check_surfaces (graph_nodes g) = Inr ()"
  using assms unfolding make_graph_def closed_nodes_def Let_def
  by (simp only: bind_res_Inr_iff require_simps) (elim exE conjE, simp)

lemma check_acyclic_sound: "closed_nodes nodes \<Longrightarrow> check_acyclic nodes = Inr () \<Longrightarrow> acyclic (dep_rel nodes)"
  by (rule ccontr) (simp add: check_acyclic_iff)

text \<open>
  C17. What an accepted graph guarantees: its dependencies have no cycle; two different milestones
  that own the same mutable surface are ordered by their dependencies, so they never run at once;
  and no milestone that a gate protects comes, by its dependencies, after one the gate waits for.
\<close>

theorem accepted_graph_is_safe:
  assumes "make_graph g = Inr g'"
  shows "g' = g \<and> acyclic (dep_rel (graph_nodes g))
    \<and> (\<forall>a\<in>set (graph_nodes g). \<forall>b\<in>set (graph_nodes g). \<forall>s\<in>set (mutable_surfaces a) \<inter> set (mutable_surfaces b).
         a = b \<or> (node_id a, node_id b) \<in> (dep_rel (graph_nodes g))\<^sup>+
         \<or> (node_id b, node_id a) \<in> (dep_rel (graph_nodes g))\<^sup>+)
    \<and> (\<forall>n\<in>set (graph_nodes g). \<forall>gate\<in>set (approval_gates (node_capsule n)).
         \<forall>p\<in>set (protected_by gate). \<forall>q\<in>set (prerequisites gate).
           p \<noteq> q \<and> (p, q) \<notin> (dep_rel (graph_nodes g))\<^sup>+)"
    (is "_ \<and> _ \<and> ?surfaces \<and> ?gates")
proof -
  from make_graph_parts [OF assms] have g': "g' = g" and closed: "closed_nodes (graph_nodes g)"
    and run: "check_acyclic (graph_nodes g) = Inr ()" "check_gates (graph_nodes g) = Inr ()"
      "check_surfaces (graph_nodes g) = Inr ()" by auto
  from closed have d: "distinct (map node_id (graph_nodes g))" by (simp add: closed_nodes_def)
  have ?surfaces
  proof (intro ballI)
    fix a b s
    assume a: "a \<in> set (graph_nodes g)" and b: "b \<in> set (graph_nodes g)"
      and s: "s \<in> set (mutable_surfaces a) \<inter> set (mutable_surfaces b)"
    from s have "s \<in> set (mutable_surfaces a)" "s \<in> set (mutable_surfaces b)" by simp_all
    with check_surfaces_ordered [OF run(3) a b] have "ordered_in (graph_nodes g) (node_id a) (node_id b)" by blast
    then show "a = b \<or> (node_id a, node_id b) \<in> (dep_rel (graph_nodes g))\<^sup>+
         \<or> (node_id b, node_id a) \<in> (dep_rel (graph_nodes g))\<^sup>+"
      using same_key_same_row [OF d a b] by (auto simp: ordered_in_def depends_on_iff [OF d])
  qed
  moreover have ?gates
    using run(2) by (auto simp: check_gates_def Let_def bind_res_Inr_iff each_res_Inr depends_on_iff [OF d])
  ultimately show ?thesis using g' check_acyclic_sound [OF closed run(1)] by blast
qed

text \<open>A graph of three milestones: two share a surface and are ordered, a gate protects the third.\<close>

definition sample_gate :: approval_gate where
  "sample_gate = \<lparr>ag_id = lit ''g'', prerequisites = [lit ''a''], protected_by = [lit ''c''],
     scope_description = lit ''go''\<rparr>"

definition sample_nodes :: "program_node list" where
  "sample_nodes =
     [\<lparr>node_id = lit ''b'', node_capsule = sample_capsule, dependencies = [lit ''a''],
       review_base_sha = None, adopted_candidate_sha = None\<rparr>,
      \<lparr>node_id = lit ''a'', node_capsule = sample_capsule\<lparr>approval_gates := [sample_gate]\<rparr>, dependencies = [],
       review_base_sha = None, adopted_candidate_sha = None\<rparr>,
      \<lparr>node_id = lit ''c'', node_capsule = sample_capsule\<lparr>mutable_paths := [lit ''z'']\<rparr>, dependencies = [],
       review_base_sha = None, adopted_candidate_sha = None\<rparr>]"

definition sample_graph :: program_graph where
  "sample_graph = \<lparr>program_id = lit ''p'', plan_path = lit ''/p'', plan_revision_sha256 = replicate 64 48,
     graph_nodes = sample_nodes, trunk_head = replicate 40 48, integration_strategy = lit ''merge''\<rparr>"

lemma deps_of_sample:
  "deps_of sample_nodes = (\<lambda>k. if k = lit ''b'' then [lit ''a''] else [])"
  by (rule ext) (simp add: deps_of_def sample_nodes_def lookup_by_def select_one_def)

lemma sample_nodes_simps:
  "length sample_nodes = 3" "map node_id sample_nodes = [lit ''b'', lit ''a'', lit ''c'']" "sample_nodes \<noteq> []"
  "edge_count sample_nodes = 1"
  by (simp_all add: sample_nodes_def edge_count_def)

lemma closed_sample: "closed_nodes sample_nodes"
  by (simp add: closed_nodes_def sample_nodes_def)

lemma depends_on_sample: "depends_on sample_nodes x y \<longleftrightarrow> x = lit ''b'' \<and> y = lit ''a''"
  by (simp add: depends_on_def deps_of_sample sample_nodes_simps numeral_2_eq_2)

lemma check_sample:
  "check_acyclic sample_nodes = Inr ()" "check_gates sample_nodes = Inr ()" "check_surfaces sample_nodes = Inr ()"
proof -
  show "check_acyclic sample_nodes = Inr ()"
    by (simp add: check_acyclic_def sample_nodes_simps deps_of_sample eval_nat_numeral)
  show "check_gates sample_nodes = Inr ()"
    by (simp add: check_gates_def Let_def depends_on_sample sample_nodes_simps)
      (simp add: sample_nodes_def sample_capsule_def sample_gate_def)
  show "check_surfaces sample_nodes = Inr ()"
    by (simp add: check_surfaces_def)
      (subst (2) sample_nodes_def, simp add: mutable_surfaces_def sample_capsule_def claim_surface_def depends_on_sample)
qed

lemma sample_graph_ok: "make_graph sample_graph = Inr sample_graph"
proof -
  have "validated_identifier ''program id'' (lit ''p'') = Inr (lit ''p'')" "absolute_path_ok (lit ''/p'')"
    by (simp_all add: validated_identifier_def id_pattern_def ascii_alnum_def absolute_path_ok_def slash_def
        path_parts_def lit_def)
  moreover have "is_hex 64 (replicate 64 48)" "is_hex 40 (replicate 40 48)"
    by (simp_all add: is_hex_def list_all_iff)
  moreover have "distinct (map node_id sample_nodes)" "nodes \<in> set sample_nodes \<Longrightarrow> set (dependencies nodes) \<subseteq> set (map node_id sample_nodes)" for nodes
    using closed_sample by (simp_all add: closed_nodes_def)
  ultimately show ?thesis
    using check_sample by (simp add: make_graph_def sample_graph_def Let_def sample_nodes_simps(1,3) del: set_map)
qed

section \<open>Readiness\<close>

lemma acyclic_minimal:
  assumes "acyclic r" "finite r" "x \<in> U"
  shows "\<exists>z\<in>U. \<forall>y. (z, y) \<in> r \<longrightarrow> y \<notin> U"
proof -
  from assms(1,2) have "wf (r\<inverse>)" by (simp add: finite_acyclic_wf_converse)
  from wfE_min [OF this assms(3)] show ?thesis by (metis converse_iff)
qed

lemma finite_dep_rel: "closed_nodes nodes \<Longrightarrow> finite (dep_rel nodes)"
proof -
  assume closed: "closed_nodes nodes"
  have "dep_rel nodes \<subseteq> set (map node_id nodes) \<times> set (map node_id nodes)"
  proof
    fix e
    assume "e \<in> dep_rel nodes"
    then obtain x y where e: "e = (x, y)" "y \<in> set (deps_of nodes x)" by (cases e) (simp add: dep_rel_def)
    then have "x \<in> set (map node_id nodes)" using deps_of_unknown [of x nodes] by (metis empty_iff empty_set)
    with e deps_of_closed [OF closed, of x] show "e \<in> set (map node_id nodes) \<times> set (map node_id nodes)" by blast
  qed
  then show "finite (dep_rel nodes)" by (rule finite_subset) simp
qed

lemma unblocking: "pred_option (\<lambda>b. \<not> promotion_blocking b) (ns_blocker n) \<Longrightarrow>
    \<not> (case ns_blocker n of None \<Rightarrow> False | Some b \<Rightarrow> blocker_applies_to b READY m t d = Inr True)"
  by (cases "ns_blocker n") (simp_all add: blocker_applies_to_def)

text \<open>The status projection of a graph: the same milestones with the same dependencies.\<close>

definition projects :: "program_graph \<Rightarrow> node_status list \<Rightarrow> bool" where
  "projects g nodes \<longleftrightarrow>
     map (\<lambda>s. (ns_id s, ns_dependencies s)) nodes = map (\<lambda>n. (node_id n, dependencies n)) (graph_nodes g)"

lemma projects_rows:
  assumes "projects g nodes"
  shows "map ns_id nodes = map node_id (graph_nodes g)"
    and "n \<in> set (graph_nodes g) \<Longrightarrow> \<exists>s\<in>set nodes. ns_id s = node_id n \<and> ns_dependencies s = dependencies n"
proof -
  show "map ns_id nodes = map node_id (graph_nodes g)"
    using arg_cong [OF assms [unfolded projects_def], of "map fst"] by (simp add: comp_def)
  assume "n \<in> set (graph_nodes g)"
  then have "(node_id n, dependencies n) \<in> set (map (\<lambda>n. (node_id n, dependencies n)) (graph_nodes g))" by auto
  with assms have "(node_id n, dependencies n) \<in> set (map (\<lambda>s. (ns_id s, ns_dependencies s)) nodes)"
    by (simp only: projects_def)
  then show "\<exists>s\<in>set nodes. ns_id s = node_id n \<and> ns_dependencies s = dependencies n" by auto
qed

text \<open>What keeps a milestone from starting although its dependencies are closed.\<close>

definition held_back :: "node_status list \<Rightarrow> node_status \<Rightarrow> bool" where
  "held_back nodes s \<longleftrightarrow> ns_state s \<noteq> lit (state_text PLANNED) \<or> unsatisfied_gate_ids s \<noteq> []
     \<or> (\<exists>t\<in>set nodes. \<exists>b. ns_blocker t = Some b \<and> promotion_blocking b
          \<and> (scope b = WHOLE_PROGRAM \<or> scope b = FUTURE_MILESTONE \<and> ns_id t \<in> set (ns_dependencies s)))"

lemma blocks_ready_iff:
  "blocks_ready nodes s \<longleftrightarrow> (\<exists>t\<in>set nodes. \<exists>b. ns_blocker t = Some b \<and> promotion_blocking b
     \<and> (scope b = WHOLE_PROGRAM \<or> scope b = FUTURE_MILESTONE \<and> ns_id t \<in> set (ns_dependencies s)))"
  unfolding blocks_ready_def by (intro bex_cong refl) (auto simp: blocker_applies_to_def split: option.splits)

lemma not_held_back:
  "\<not> held_back nodes s \<longleftrightarrow> ns_state s = lit (state_text PLANNED) \<and> unsatisfied_gate_ids s = [] \<and> \<not> blocks_ready nodes s"
  unfolding held_back_def blocks_ready_iff by blast

text \<open>
  C18. A program is never stuck without a reason one can name: below every open milestone of an accepted
  graph (or at it) there is an open milestone all of whose dependencies are closed, and it is ready
  unless it is itself no longer planned, has an unsatisfied gate, or is held back by a
  promotion-blocking blocker of the whole program or of one of its dependencies.
\<close>

theorem program_has_ready_milestone:
  assumes "make_graph g = Inr g'" "projects g nodes" "x \<in> set nodes" "\<not> closure_satisfied x"
  shows "\<exists>s\<in>set nodes. \<not> closure_satisfied s \<and> (ns_id x, ns_id s) \<in> (dep_rel (graph_nodes g))\<^sup>*
    \<and> set (ns_dependencies s) \<subseteq> ns_id ` {t \<in> set nodes. closure_satisfied t}
    \<and> (ns_id s \<in> set (ready_milestones nodes) \<or> held_back nodes s)"
proof -
  let ?r = "dep_rel (graph_nodes g)"
  let ?open = "ns_id ` {s \<in> set nodes. \<not> closure_satisfied s}"
  from make_graph_parts [OF assms(1)] have closed: "closed_nodes (graph_nodes g)"
    and run: "check_acyclic (graph_nodes g) = Inr ()" by auto
  from assms(3,4) have "ns_id x \<in> {y \<in> ?open. (ns_id x, y) \<in> ?r\<^sup>*}" by auto
  from acyclic_minimal [OF check_acyclic_sound [OF closed run] finite_dep_rel [OF closed] this]
  obtain z where z: "z \<in> ?open" "(ns_id x, z) \<in> ?r\<^sup>*" and min: "\<forall>y. (z, y) \<in> ?r \<longrightarrow> y \<notin> {y \<in> ?open. (ns_id x, y) \<in> ?r\<^sup>*}"
    by blast
  from z(1) obtain s where s: "s \<in> set nodes" "\<not> closure_satisfied s" "ns_id s = z" by auto
  then have "(z, ns_dependencies s) \<in> set (map (\<lambda>s. (ns_id s, ns_dependencies s)) nodes)" by auto
  then have "(z, ns_dependencies s) \<in> set (map (\<lambda>n. (node_id n, dependencies n)) (graph_nodes g))"
    using assms(2) by (simp only: projects_def)
  then obtain n where n: "n \<in> set (graph_nodes g)" "node_id n = z" "dependencies n = ns_dependencies s" by auto
  have deps: "set (ns_dependencies s) \<subseteq> ns_id ` {t \<in> set nodes. closure_satisfied t}"
  proof
    fix y
    assume y: "y \<in> set (ns_dependencies s)"
    with n have step: "(z, y) \<in> ?r" using deps_of_node [OF closed n(1)] by (simp add: dep_rel_def)
    with z(2) have "(ns_id x, y) \<in> ?r\<^sup>*" by (rule rtrancl_into_rtrancl)
    with min step have "y \<notin> ?open" by blast
    moreover from closed n(1) have "set (dependencies n) \<subseteq> set (map node_id (graph_nodes g))" by (simp add: closed_nodes_def)
    then have "y \<in> set (map ns_id nodes)" using y n(3) projects_rows(1) [OF assms(2)] by auto
    ultimately show "y \<in> ns_id ` {t \<in> set nodes. closure_satisfied t}" by auto
  qed
  have "ns_id s \<in> set (ready_milestones nodes)" if "\<not> held_back nodes s"
    using that [unfolded not_held_back] deps s(1,2) by (auto simp: ready_milestones_def node_ready_def Let_def)
  with s deps z(2) show ?thesis by blast
qed

text \<open>
  C21. The ready milestones are exactly those that may start: planned, open, without an unsatisfied gate,
  every dependency a milestone of the program that is closed, and no promotion-blocking blocker of
  the whole program or, against future milestones, of one of the dependencies.
\<close>

theorem ready_is_startable:
  assumes "distinct (map ns_id nodes)"
  shows "k \<in> set (ready_milestones nodes) \<longleftrightarrow> (\<exists>s\<in>set nodes. ns_id s = k
    \<and> ns_state s = lit (state_text PLANNED) \<and> \<not> closure_satisfied s \<and> unsatisfied_gate_ids s = []
    \<and> set (ns_dependencies s) \<subseteq> ns_id ` set nodes
    \<and> (\<forall>t\<in>set nodes. ns_id t \<in> set (ns_dependencies s) \<longrightarrow> closure_satisfied t)
    \<and> (\<forall>t\<in>set nodes. \<forall>b. ns_blocker t = Some b \<and> promotion_blocking b \<longrightarrow>
         scope b \<noteq> WHOLE_PROGRAM \<and> (scope b = FUTURE_MILESTONE \<longrightarrow> ns_id t \<notin> set (ns_dependencies s))))"
proof -
  let ?closed = "ns_id ` {t \<in> set nodes. closure_satisfied t}"
  have deps: "D \<subseteq> ?closed \<longleftrightarrow> D \<subseteq> ns_id ` set nodes \<and> (\<forall>t\<in>set nodes. ns_id t \<in> D \<longrightarrow> closure_satisfied t)" for D
  proof (intro iffI conjI ballI impI)
    fix t assume D: "D \<subseteq> ?closed" and t: "t \<in> set nodes" "ns_id t \<in> D"
    then obtain u where u: "u \<in> set nodes" "closure_satisfied u" "ns_id u = ns_id t" by auto
    with same_key_same_row [OF assms u(1) t(1)] show "closure_satisfied t" by simp
  qed auto
  have "k \<in> set (ready_milestones nodes) \<longleftrightarrow>
      (\<exists>s\<in>set nodes. ns_id s = k \<and> node_ready s \<and> set (ns_dependencies s) \<subseteq> ?closed \<and> \<not> blocks_ready nodes s)"
    unfolding ready_milestones_def Let_def set_map set_filter by blast
  also have "\<dots> \<longleftrightarrow> (\<exists>s\<in>set nodes. ns_id s = k
    \<and> ns_state s = lit (state_text PLANNED) \<and> \<not> closure_satisfied s \<and> unsatisfied_gate_ids s = []
    \<and> set (ns_dependencies s) \<subseteq> ns_id ` set nodes
    \<and> (\<forall>t\<in>set nodes. ns_id t \<in> set (ns_dependencies s) \<longrightarrow> closure_satisfied t)
    \<and> (\<forall>t\<in>set nodes. \<forall>b. ns_blocker t = Some b \<and> promotion_blocking b \<longrightarrow>
         scope b \<noteq> WHOLE_PROGRAM \<and> (scope b = FUTURE_MILESTONE \<longrightarrow> ns_id t \<notin> set (ns_dependencies s))))"
    by (intro bex_cong refl) (simp only: deps node_ready_def blocks_ready_iff de_Morgan_conj de_Morgan_disj bex_simps not_ex; blast)
  finally show ?thesis .
qed

section \<open>The properties at work\<close>

definition sample_statuses :: "node_status list" where
  "sample_statuses = map (\<lambda>n. \<lparr>ns_id = node_id n, ns_state = lit (state_text PLANNED), ns_dependencies = dependencies n,
      candidate_sha = None, review_ids = [], finding_ids = [], integrated = False, ns_disposition = None,
      ns_blocker = None, ns_outcome = COMMIT, ns_integration = GIT, evidence_sha256 = None,
      closure_satisfied = False, unsatisfied_gate_ids = []\<rparr>) sample_nodes"

theorem check_acyclic_exact_witness: "acyclic (dep_rel sample_nodes)"
  using check_acyclic_exact [OF closed_sample] check_sample(1) by (simp split: if_splits)

theorem depends_on_exact_witness: "(lit ''b'', lit ''a'') \<in> (dep_rel sample_nodes)\<^sup>+"
proof -
  have "distinct (map node_id sample_nodes)" by (simp add: sample_nodes_simps)
  from depends_on_exact [OF this, of "lit ''b''" "lit ''a''"] show ?thesis by (simp add: depends_on_sample)
qed

theorem accepted_graph_is_safe_witness:
  "acyclic (dep_rel (graph_nodes sample_graph))
   \<and> (lit ''c'', lit ''a'') \<notin> (dep_rel (graph_nodes sample_graph))\<^sup>+"
proof -
  note safe = accepted_graph_is_safe [OF sample_graph_ok]
  let ?a = "\<lparr>node_id = lit ''a'', node_capsule = sample_capsule\<lparr>approval_gates := [sample_gate]\<rparr>, dependencies = [],
    review_base_sha = None, adopted_candidate_sha = None\<rparr>"
  have "?a \<in> set (graph_nodes sample_graph)" by (simp add: sample_graph_def sample_nodes_def)
  moreover have "sample_gate \<in> set (approval_gates (node_capsule ?a))"
    "lit ''c'' \<in> set (protected_by sample_gate)" "lit ''a'' \<in> set (prerequisites sample_gate)"
    by (simp_all add: sample_gate_def)
  ultimately show ?thesis using safe by blast
qed

theorem program_has_ready_milestone_witness: "ready_milestones sample_statuses \<noteq> []"
proof -
  have "sample_statuses \<noteq> []" by (simp add: sample_statuses_def sample_nodes_def)
  moreover have all: "\<forall>s\<in>set sample_statuses. \<not> closure_satisfied s \<and> \<not> held_back sample_statuses s"
    unfolding held_back_def sample_statuses_def by simp
  ultimately obtain x where x: "x \<in> set sample_statuses" "\<not> closure_satisfied x" using hd_in_set by blast
  have "projects sample_graph sample_statuses" by (simp add: projects_def sample_graph_def sample_statuses_def sample_nodes_def)
  from program_has_ready_milestone [OF sample_graph_ok this x]
  obtain s where s: "s \<in> set sample_statuses" "ns_id s \<in> set (ready_milestones sample_statuses) \<or> held_back sample_statuses s" by blast
  with all have "ns_id s \<in> set (ready_milestones sample_statuses)" by blast
  then show ?thesis by auto
qed

theorem ready_is_startable_witness:
  "lit ''a'' \<in> set (ready_milestones sample_statuses) \<and> lit ''b'' \<notin> set (ready_milestones sample_statuses)"
proof -
  have d: "distinct (map ns_id sample_statuses)" by (simp add: sample_statuses_def sample_nodes_def)
  show ?thesis unfolding ready_is_startable [OF d] by (simp add: sample_statuses_def sample_nodes_def)
qed

end
