(* ===== verification/Workflow_Laws.thy ===== *)
theory Workflow_Laws
  imports Workflow
begin

text \<open>
  Laws of the vocabulary of src/src/codex_flow/domain.py: dispatch ids print and parse, the
  transition policy leads to acceptance only through review, the meet of two authorities is their
  greatest lower bound, and authority and blockers survive their JSON form.
\<close>

section \<open>Dispatch ids\<close>

lemma digits_value_snoc: "digits_value (s @ [c]) = 10 * digits_value s + (c - 48)"
  by (simp add: digits_value_def)

lemma digits_value_nat_digits: "digits_value (nat_digits n) = n"
proof (induction n rule: nat_digits.induct)
  case (1 n)
  show ?case
  proof (cases "n < 10")
    case True
    then show ?thesis by (simp add: nat_digits.simps [of n] digits_value_def)
  next
    case False
    have "digits_value (nat_digits n) = 10 * (n div 10) + n mod 10"
      using False 1 by (simp add: nat_digits.simps [of n] digits_value_snoc)
    then show ?thesis by simp
  qed
qed

lemma nat_digits_range: "list_all (\<lambda>c. 48 \<le> c \<and> c \<le> 57) (nat_digits n)"
proof (induction n rule: nat_digits.induct)
  case (1 n)
  have "48 + n mod 10 \<le> 57"
  proof -
    have "n mod 10 < 10" by simp
    then show ?thesis by linarith
  qed
  with 1 show ?case by (simp add: nat_digits.simps [of n])
qed

lemma nat_digits_not_Nil [simp]: "nat_digits n \<noteq> []"
  by (simp add: nat_digits.simps [of n])

lemma generation_text_inverse:
  assumes "py_int_repr g = Inr t" "1 \<le> g"
  shows "generation_of_text t = Inr g" and "slash \<notin> set t"
proof -
  from assms have t: "t = nat_digits (nat g)"
    by (auto simp: py_int_repr_def int_str_def split: if_splits)
  have v: "int (digits_value t) = g" using assms(2) by (simp add: t digits_value_nat_digits)
  then show "generation_of_text t = Inr g"
    using assms nat_digits_range [of "nat g"]
    by (simp add: generation_of_text_def generation_of_int_def t [symmetric]) (simp add: t)
  show "slash \<notin> set t"
    using nat_digits_range [of "nat g"] by (auto simp: t list_all_iff slash_def)
qed

lemma generation_text_repr: "generation_of_text t = Inr g \<Longrightarrow> py_int_repr g = Inr t \<and> 1 \<le> g"
  by (auto simp: generation_of_text_def generation_of_int_def split: if_splits)

lemma split_on_append: "c \<notin> set s \<Longrightarrow> split_on c (s @ c # t) = s # split_on c t"
  by (induction s) auto

lemma split_on_none: "c \<notin> set s \<Longrightarrow> split_on c s = [s]"
  by (induction s) auto

lemma split_on_not_Nil [simp]: "split_on c s \<noteq> []"
  by (induction s) (auto split: list.split)

lemma split_on_join:
  "split_on c s = [a, b, d, e] \<Longrightarrow> s = a @ c # b @ c # d @ c # e"
proof -
  have "s = concat (map (\<lambda>p. p @ [c]) (butlast (split_on c s))) @ last (split_on c s)" for s
    by (induction s) (auto split: list.split)
  from this [of s] show "split_on c s = [a, b, d, e] \<Longrightarrow> s = a @ c # b @ c # d @ c # e" by simp
qed

lemma identifier_no_slash: "validated_identifier label s = Inr r \<Longrightarrow> r = s \<and> slash \<notin> set s"
  by (auto simp: validated_identifier_def id_pattern_def ascii_alnum_def slash_def list_all_iff
      split: if_splits list.splits)

lemma identifier_ok: "validated_identifier label s = Inr r \<Longrightarrow> validated_identifier label' s = Inr s"
  by (auto simp: validated_identifier_def split: if_splits)

lemma from_parts_text:
  assumes "dispatch_id_from_parts (r, m, ro, g) = Inr s"
  obtains t where "s = r @ slash # m @ slash # ro @ slash # t" "py_int_repr g = Inr t" "1 \<le> g"
    "validated_identifier ''run id'' r = Inr r" "validated_identifier ''milestone id'' m = Inr m"
    "validated_identifier ''role'' ro = Inr ro"
proof -
  from assms obtain r' m' o' g' t where v: "validated_identifier ''run id'' r = Inr r'"
    "validated_identifier ''milestone id'' m = Inr m'" "validated_identifier ''role'' ro = Inr o'"
    "generation_of_int g = Inr g'" "py_int_repr g' = Inr t"
    "dispatch_id (r' @ slash # m' @ slash # o' @ slash # t) = Inr s"
    by (auto simp: dispatch_id_from_parts_def bind_res_Inr_iff)
  from v(4) have "g' = g" "1 \<le> g" by (auto simp: generation_of_int_def split: if_splits)
  with v identifier_no_slash [OF v(1)] identifier_no_slash [OF v(2)] identifier_no_slash [OF v(3)] that
  show thesis by (auto simp: dispatch_id_def bind_res_Inr_iff)
qed

text \<open>
  C39. Dispatch ids round-trip: the text built from four valid parts parses back to these parts,
  and the parts of an accepted text build that text again.
\<close>

theorem dispatch_id_roundtrip:
  "dispatch_id_from_parts p = Inr s \<longleftrightarrow> dispatch_parts_of s = Inr p"
proof -
  obtain r m ro g where p: "p = (r, m, ro, g)" by (cases p)
  show ?thesis
  proof
    assume "dispatch_id_from_parts p = Inr s"
    with p obtain t where s: "s = r @ slash # m @ slash # ro @ slash # t" and t: "py_int_repr g = Inr t" "1 \<le> g"
      and v: "validated_identifier ''run id'' r = Inr r" "validated_identifier ''milestone id'' m = Inr m"
        "validated_identifier ''role'' ro = Inr ro"
      by (auto elim: from_parts_text)
    have "split_on slash s = [r, m, ro, t]"
      using identifier_no_slash [OF v(1)] identifier_no_slash [OF v(2)] identifier_no_slash [OF v(3)]
        generation_text_inverse(2) [OF t]
      by (simp add: s split_on_append split_on_none)
    with v generation_text_inverse(1) [OF t] p show "dispatch_parts_of s = Inr p"
      by (simp add: dispatch_parts_of_def)
  next
    assume parse: "dispatch_parts_of s = Inr p"
    then obtain r' m' o' t where sp: "split_on slash s = [r', m', o', t]"
      by (auto simp: dispatch_parts_of_def split: list.splits)
    with parse p have v: "validated_identifier ''run id'' r = Inr r" "validated_identifier ''milestone id'' m = Inr m"
        "validated_identifier ''role'' ro = Inr ro" "generation_of_text t = Inr g"
      and eq: "r' = r" "m' = m" "o' = ro"
      by (auto simp: dispatch_parts_of_def bind_res_Inr_iff dest: identifier_no_slash identifier_ok)
    from split_on_join [OF sp] eq have s: "s = r @ slash # m @ slash # ro @ slash # t" by simp
    from parse have "dispatch_id s = Inr s" by (simp add: dispatch_id_def)
    with v generation_text_repr [OF v(4)] p s show "dispatch_id_from_parts p = Inr s"
      by (simp add: dispatch_id_from_parts_def generation_of_int_def)
  qed
qed

section \<open>The transition policy\<close>

text \<open>A run of transitions, as the list of the states it visits.\<close>

fun legal_run :: "workflow_state list \<Rightarrow> bool" where
  "legal_run (s # t # xs) = (is_transition_allowed s t \<and> legal_run (t # xs))"
| "legal_run _ = True"

lemma allowed_to_accepted: "is_transition_allowed s ACCEPTED \<longleftrightarrow> s = REVIEWING"
  by (cases s) (simp_all add: is_transition_allowed_def)

lemma accepted_absorbs: "legal_run (ACCEPTED # xs) \<Longrightarrow> xs = []"
  by (cases xs) (simp_all add: is_transition_allowed_def)

lemma cancelled_absorbs: "legal_run (CANCELLED # xs) \<Longrightarrow> xs = []"
  by (cases xs) (simp_all add: is_transition_allowed_def)

text \<open>
  C33. Acceptance only follows review: whatever transitions a milestone takes, a run that enters
  \<open>ACCEPTED\<close> does so directly from \<open>REVIEWING\<close>, and nothing follows \<open>ACCEPTED\<close> or \<open>CANCELLED\<close>.
\<close>

theorem acceptance_follows_review:
  assumes "legal_run (xs @ s # t # ys)" "t = ACCEPTED \<or> t = CANCELLED"
  shows "ys = [] \<and> (t = ACCEPTED \<longrightarrow> s = REVIEWING) \<and> s \<notin> {ACCEPTED, CANCELLED}"
proof -
  from assms(1) have run: "is_transition_allowed s t \<and> legal_run (t # ys)"
    by (induction xs rule: legal_run.induct) (auto simp: neq_Nil_conv)
  with assms(2) accepted_absorbs [of ys] cancelled_absorbs [of ys] allowed_to_accepted [of s]
  show ?thesis by (auto simp: is_transition_allowed_def)
qed

theorem acceptance_follows_review_witness:
  "legal_run [PLANNED, STARTING, RUNNING, COMPLETED, REVIEWING, ACCEPTED] \<and> REVIEWING = REVIEWING"
  using acceptance_follows_review [of "[PLANNED, STARTING, RUNNING, COMPLETED]" REVIEWING ACCEPTED "[]"]
  by (simp add: is_transition_allowed_def)

text \<open>
  The only states without a successor are \<open>ACCEPTED\<close> and \<open>CANCELLED\<close>; from every other one a
  milestone can be cancelled at once, and \<open>REVIEWING\<close> is at most two transitions away.
\<close>

theorem transition_policy_live:
  "((\<forall>t. \<not> is_transition_allowed s t) \<longleftrightarrow> s \<in> {ACCEPTED, CANCELLED})
   \<and> (s \<notin> {ACCEPTED, CANCELLED} \<longrightarrow> is_transition_allowed s CANCELLED
       \<and> (\<exists>xs. length xs \<le> 1 \<and> legal_run (s # xs @ [REVIEWING])))"
proof -
  have blocked: "is_transition_allowed BLOCKED REVIEWING" by (simp add: is_transition_allowed_def)
  have "\<exists>xs. length xs \<le> 1 \<and> legal_run (s # xs @ [REVIEWING])" if "s \<notin> {ACCEPTED, CANCELLED}"
  proof (cases "is_transition_allowed s REVIEWING")
    case True
    then show ?thesis by (intro exI [of _ "[]"]) simp
  next
    case False
    with that have "is_transition_allowed s BLOCKED"
      by (cases s) (simp_all add: is_transition_allowed_def)
    with blocked show ?thesis by (intro exI [of _ "[BLOCKED]"]) simp
  qed
  moreover have "(\<forall>t. \<not> is_transition_allowed s t) \<longleftrightarrow> s \<in> {ACCEPTED, CANCELLED}"
  proof (cases "s \<in> {ACCEPTED, CANCELLED}")
    case True
    then show ?thesis by (auto simp: is_transition_allowed_def)
  next
    case False
    then have "is_transition_allowed s CANCELLED" by (cases s) (simp_all add: is_transition_allowed_def)
    with False show ?thesis by blast
  qed
  moreover have "s \<notin> {ACCEPTED, CANCELLED} \<longrightarrow> is_transition_allowed s CANCELLED"
    by (cases s) (simp_all add: is_transition_allowed_def)
  ultimately show ?thesis by blast
qed

theorem transition_policy_live_witness:
  "is_transition_allowed FAILED CANCELLED \<and> (\<exists>xs. length xs \<le> 1 \<and> legal_run (PLANNED # xs @ [REVIEWING]))"
  using transition_policy_live [of FAILED] transition_policy_live [of PLANNED] by simp

section \<open>Authority\<close>

definition valid_authority :: "native_authority \<Rightarrow> bool" where
  "valid_authority a \<longleftrightarrow> make_authority (na_mode a) (na_sandbox a) (na_approval a) = Inr a"

text \<open>\<open>a\<close> grants no more than \<open>b\<close>.\<close>

definition no_broader :: "native_authority \<Rightarrow> native_authority \<Rightarrow> bool" where
  "no_broader a b \<longleftrightarrow>
     sandbox_rank (na_sandbox a) \<le> sandbox_rank (na_sandbox b)
     \<and> (na_approval a = na_approval b \<or> na_approval a = lit ''never'')
     \<and> (na_mode b = READ_ONLY \<longrightarrow> na_mode a = READ_ONLY)"

lemma make_authority_Inr: "make_authority m s p = Inr a \<longleftrightarrow>
    s \<in> set (map lit SANDBOX_MODES) \<and> p \<in> set (map lit APPROVAL_POLICIES)
    \<and> (m = READ_ONLY \<longrightarrow> s = lit ''read-only'') \<and> a = \<lparr>na_mode = m, na_sandbox = s, na_approval = p\<rparr>"
  by (auto simp: make_authority_def)

lemma valid_authority_iff: "valid_authority a \<longleftrightarrow>
    na_sandbox a \<in> set (map lit SANDBOX_MODES) \<and> na_approval a \<in> set (map lit APPROVAL_POLICIES)
    \<and> (na_mode a = READ_ONLY \<longrightarrow> na_sandbox a = lit ''read-only'')"
  by (simp add: valid_authority_def make_authority_Inr)

lemma meet_approval:
  assumes "valid_authority a" "valid_authority b"
    and p: "p = na_approval a \<and> na_approval a = na_approval b \<or>
      p = lit ''never'' \<and> na_approval a \<noteq> na_approval b \<and> lit ''never'' \<in> {na_approval a, na_approval b}"
  shows "meet a b = Inr \<lparr>na_mode = (if na_mode a = READ_ONLY \<or> na_mode b = READ_ONLY then READ_ONLY else INHERIT_NATIVE),
    na_sandbox = (if sandbox_rank (na_sandbox b) < sandbox_rank (na_sandbox a) then na_sandbox b else na_sandbox a),
    na_approval = p\<rparr>"
proof -
  let ?m = "if na_mode a = READ_ONLY \<or> na_mode b = READ_ONLY then READ_ONLY else INHERIT_NATIVE"
  let ?s = "if sandbox_rank (na_sandbox b) < sandbox_rank (na_sandbox a) then na_sandbox b else na_sandbox a"
  have "?m = READ_ONLY \<longrightarrow> ?s = lit ''read-only''"
    using assms(1,2) by (auto simp: valid_authority_iff SANDBOX_MODES_def sandbox_rank_def split: if_splits)
  moreover have "?s \<in> set (map lit SANDBOX_MODES)" using assms(1,2) by (simp add: valid_authority_iff)
  moreover have "p \<in> set (map lit APPROVAL_POLICIES)"
    using assms by (auto simp: valid_authority_iff APPROVAL_POLICIES_def)
  ultimately have "make_authority ?m ?s p = Inr \<lparr>na_mode = ?m, na_sandbox = ?s, na_approval = p\<rparr>"
    unfolding make_authority_Inr by blast
  with p show ?thesis unfolding meet_def Let_def by auto
qed

text \<open>
  C30. The meet of two valid authorities is valid and their greatest lower bound: it grants no more
  than either, and everything that grants no more than both grants no more than it.  It is
  refused exactly when one asks on request, the other is untrusted and neither is never.
\<close>

theorem meet_is_greatest_lower_bound:
  assumes "valid_authority a" "valid_authority b"
  shows "case meet a b of
      Inr c \<Rightarrow> valid_authority c \<and> no_broader c a \<and> no_broader c b
        \<and> (\<forall>d. valid_authority d \<and> no_broader d a \<and> no_broader d b \<longrightarrow> no_broader d c)
    | Inl _ \<Rightarrow> na_approval a \<noteq> na_approval b \<and> lit ''never'' \<notin> {na_approval a, na_approval b}"
proof (cases "na_approval a = na_approval b \<or> lit ''never'' \<in> {na_approval a, na_approval b}")
  case False
  then show ?thesis by (simp add: meet_def Let_def)
next
  case True
  define p where "p = (if na_approval a = na_approval b then na_approval a else lit ''never'')"
  let ?c = "\<lparr>na_mode = (if na_mode a = READ_ONLY \<or> na_mode b = READ_ONLY then READ_ONLY else INHERIT_NATIVE),
    na_sandbox = (if sandbox_rank (na_sandbox b) < sandbox_rank (na_sandbox a) then na_sandbox b else na_sandbox a),
    na_approval = p\<rparr>"
  have m: "meet a b = Inr ?c"
    by (rule meet_approval [OF assms]) (use True in \<open>auto simp: p_def\<close>)
  moreover have "valid_authority ?c"
    using m by (auto simp: meet_def Let_def make_authority_Inr valid_authority_def split: if_splits)
  moreover have "no_broader ?c a \<and> no_broader ?c b"
    using True by (auto simp: no_broader_def p_def)
  moreover have "no_broader d ?c" if "no_broader d a" "no_broader d b" for d
    using that True by (auto simp: no_broader_def p_def)
  ultimately show ?thesis by simp
qed

theorem meet_is_greatest_lower_bound_witness:
  "\<exists>c. meet \<lparr>na_mode = READ_ONLY, na_sandbox = lit ''read-only'', na_approval = lit ''on-request''\<rparr>
      \<lparr>na_mode = INHERIT_NATIVE, na_sandbox = lit ''workspace-write'', na_approval = lit ''never''\<rparr> = Inr c
    \<and> valid_authority c"
proof -
  let ?a = "\<lparr>na_mode = READ_ONLY, na_sandbox = lit ''read-only'', na_approval = lit ''on-request''\<rparr>"
  let ?b = "\<lparr>na_mode = INHERIT_NATIVE, na_sandbox = lit ''workspace-write'', na_approval = lit ''never''\<rparr>"
  have v: "valid_authority ?a" "valid_authority ?b"
    by (simp_all add: valid_authority_iff SANDBOX_MODES_def APPROVAL_POLICIES_def)
  from meet_is_greatest_lower_bound [OF v] show ?thesis by (auto split: sum.splits)
qed

text \<open>
  C40. An authority survives the facts it is retained as across processes, and a blocker survives
  its JSON form.
\<close>

theorem authority_and_blocker_roundtrip:
  assumes "valid_authority a" "make_blocker g k sc blocking action = Inr b"
  shows "from_facts (facts a) = Inr a \<and> blocker_from_json (blocker_to_json b) = Inr b"
proof
  have k: "set (keys (facts a)) = {lit ''mode'', lit ''sandbox_mode'', lit ''approval_policy'', lit ''monotonic''}"
    by (auto simp: facts_def)
  show "from_facts (facts a) = Inr a"
    using assms(1) k by (cases "na_mode a") (simp_all add: from_facts_def valid_authority_def, simp_all add: facts_def get_def)
  have kb: "set (keys (blocker_to_json b))
      = {lit ''gate_id'', lit ''kind'', lit ''scope'', lit ''promotion_blocking'', lit ''required_action''}"
    by (auto simp: blocker_to_json_def)
  from assms(2) have b: "b = \<lparr>gate_id = g, blocker_kind_of = k, scope = sc, promotion_blocking = blocking, required_action = action\<rparr>"
    and req: "required_text g 256 ''blocker gate id'' = Inr g" "required_text action 512 ''blocker required action'' = Inr action"
    by (auto simp: make_blocker_def required_text_def bind_res_Inr_iff split: if_splits)
  have e: "enum_of kind_text [EXTERNAL, DECISION, EXECUTION] (JStr (lit (kind_text k))) = Inr k"
    by (cases k) (simp_all add: enum_of_def)
  have e': "enum_of scope_text [CURRENT_PROMOTION, CURRENT_REPAIR, FUTURE_MILESTONE, WHOLE_PROGRAM]
      (JStr (lit (scope_text sc))) = Inr sc"
    by (cases sc) (simp_all add: enum_of_def)
  have g: "get (blocker_to_json b) ''gate_id'' = Some (JStr g)" "get (blocker_to_json b) ''kind'' = Some (JStr (lit (kind_text k)))"
    "get (blocker_to_json b) ''scope'' = Some (JStr (lit (scope_text sc)))"
    "get (blocker_to_json b) ''promotion_blocking'' = Some (JBool blocking)"
    "get (blocker_to_json b) ''required_action'' = Some (JStr action)"
    by (simp_all add: blocker_to_json_def get_def b)
  show "blocker_from_json (blocker_to_json b) = Inr b"
    using kb g e e' req assms(2) by (simp add: blocker_from_json_def text_of_def)
qed

theorem authority_and_blocker_roundtrip_witness:
  "\<exists>b. make_blocker (lit ''g'') DECISION WHOLE_PROGRAM True (lit ''ask'') = Inr b
     \<and> blocker_from_json (blocker_to_json b) = Inr b"
proof -
  have v: "valid_authority \<lparr>na_mode = READ_ONLY, na_sandbox = lit ''read-only'', na_approval = lit ''never''\<rparr>"
    by (simp add: valid_authority_iff SANDBOX_MODES_def APPROVAL_POLICIES_def)
  obtain b where b: "make_blocker (lit ''g'') DECISION WHOLE_PROGRAM True (lit ''ask'') = Inr b"
    by (auto simp: make_blocker_def required_text_def py_strip_blank py_isspace_def lit_def)
  from authority_and_blocker_roundtrip [OF v b] b show ?thesis by blast
qed

end
