(* ===== verification/Ledger_Tables.thy ===== *)
theory Ledger_Tables
  imports Capsule
begin

text \<open>
  The durable tables of src/src/codex_flow/ledger.py as records of rows, and the atomic transaction
  every write goes through.  A time is the number of microseconds its text stands for: the source
  writes every time with the same width, so comparing the texts is comparing the numbers.  A column
  that holds the JSON text of a typed value is that value here.
\<close>

type_synonym time = int

text \<open>What SQLite raises when a statement breaks a constraint of a table.\<close>

definition integrity_error :: "string \<Rightarrow> py_error" where
  "integrity_error m = IntegrityError (lit m)"

text \<open>The primary key of a milestone: its run and its own identifier.\<close>

datatype mkey = MKey (mk_run: pystr) (mk_milestone: pystr)

section \<open>Runs, milestones, dispatches and events\<close>

text \<open>
  \<open>run_program\<close> is \<open>None\<close> for a run without a registered program, and otherwise whether the retained
  graph of the program has an approval gate.
\<close>

record run_row =
  run_id :: pystr
  run_created :: time
  run_closed :: "time option"
  run_program :: "bool option"

record milestone_row =
  ms_key :: mkey
  ms_state :: workflow_state
  ms_created :: time
  ms_updated :: time

record dispatch_row =
  dp_id :: pystr
  dp_key :: mkey
  dp_role :: pystr
  dp_generation :: int
  dp_claimed :: time

datatype event_type = Dispatch_Claimed | State_Transition

datatype reason_code =
    DECISION_REQUIRED | ACCEPTANCE_AMBIGUITY | CONTRACT_CHANGE | ENVIRONMENT_BLOCKED | REVIEW_REJECTED
  | CONTEXT_ROLLOVER | TRANSPORT_FAILURE | EXECUTION_FAILURE | TERMINAL_OUTCOME | DISPATCH_CLAIMED

record event_row =
  ev_id :: pystr
  ev_key :: mkey
  ev_sequence :: int
  ev_from :: "workflow_state option"
  ev_to :: workflow_state
  ev_type :: event_type
  ev_reason :: "reason_code option"
  ev_dispatch :: "pystr option"
  ev_occurred :: time

section \<open>Executions\<close>

datatype execution_status =
    EX_PLANNED | EX_THREAD_STARTED | EX_COMPLETED | EX_FAILED | EX_CANCELLED | EX_UNCERTAIN_PRE_IDENTITY

datatype controller_checkpoint =
    CAPSULE_PLANNED | WORKSPACE_LEASED | WORKSPACE_BASELINE_DURABLE | THREAD_STARTING
  | THREAD_IDENTITY_DURABLE | TURN_DURABLE | VALIDATION_DURABLE | RESULT_DURABLE

record validation =
  va_argv :: "pystr list"
  va_exit :: int
  va_stdout :: pystr
  va_stderr :: pystr
  va_timed_out :: bool
  va_duration :: rat
  va_error :: "pystr option"

record execution_row =
  ex_key :: mkey
  ex_capsule_path :: pystr
  ex_capsule_sha :: pystr
  ex_workspace :: pystr
  ex_model :: pystr
  ex_effort :: pystr
  ex_status :: execution_status
  ex_checkpoint :: controller_checkpoint
  ex_thread :: "pystr option"
  ex_turn :: "pystr option"
  ex_output :: "json option"
  ex_result :: "json option"
  ex_validation :: "validation option"
  ex_protected_before :: pystr
  ex_protected_after :: "pystr option"
  ex_created :: time
  ex_updated :: time

type_synonym baseline = "(pystr \<times> pystr) list"

record integrity_row =
  in_key :: mkey
  in_profile :: pystr
  in_compat :: pystr
  in_permission :: native_authority
  in_baseline_head :: pystr
  in_baseline :: baseline
  in_terminal :: "(pystr \<times> baseline) option"
  in_turn_started :: "time option"
  in_git_before :: "pystr option"
  in_git_after :: "pystr option"
  in_updated :: time

record lease_row =
  ls_workspace :: pystr
  ls_root :: pystr
  ls_mode :: workspace_mode
  ls_branch :: pystr
  ls_base :: pystr
  ls_lane :: pystr
  ls_owner :: pystr

record sdk_event_row =
  se_key :: mkey
  se_turn :: pystr
  se_sequence :: int
  se_method :: pystr
  se_event_turn :: "pystr option"

text \<open>
  A host action: everything but the capability token is compared as one value, the JSON of the
  remaining fields.
\<close>

record native_action =
  na_dispatch :: pystr
  na_workspace :: pystr
  na_token :: pystr
  na_challenge :: pystr
  na_facts :: json

datatype app_native_state = Prepared | Bound | App_Completed | App_Failed | App_Cancelled

record app_native_row =
  an_dispatch :: pystr
  an_key :: mkey
  an_state :: app_native_state
  an_action :: native_action
  an_identity :: "(pystr \<times> pystr) option"
  an_result :: "json option"
  an_baseline_head :: pystr
  an_baseline :: baseline
  an_git_before :: pystr
  an_git_after :: "pystr option"
  an_controller_state :: pystr
  an_terminal :: "(pystr \<times> baseline) option"

section \<open>The dispatch queue and its satellites\<close>

datatype queue_state =
    Queued | Claimed | Starting | Running | Inspection_Pending | Retry_Wait | Continuation_Pending
  | Human_Attention | Result_Submitted | Finalizing | Queue_Completed | Queue_Failed | Queue_Cancelled

text \<open>The texts a queue row was enqueued with: capsule, action and route.\<close>

type_synonym queue_facts = "pystr \<times> pystr option \<times> pystr"

record queue_row =
  q_dispatch :: pystr
  q_key :: mkey
  q_role :: pystr
  q_generation :: int
  q_backend :: pystr
  q_facts :: queue_facts
  q_workspace :: pystr
  q_contract :: pystr
  q_state :: queue_state
  q_sequence :: int
  q_available :: time
  q_claim :: "(int \<times> pystr) option"
  q_attempt :: int
  q_thread :: "pystr option"
  q_host :: "pystr option"
  q_raw :: "(pystr \<times> pystr) option"
  q_terminal :: "pystr option"
  q_updated :: time

record capability_row =
  c_dispatch :: pystr
  c_generation :: int
  c_attempt :: int
  c_schema :: pystr
  c_workspace :: pystr
  c_backend :: pystr
  c_issued :: time
  c_expires :: time
  c_consumed :: "time option"
  c_token :: pystr
  c_accepted :: "pystr option"

record liveness_row =
  l_dispatch :: pystr
  l_generation :: int
  l_attempt :: int
  l_pid :: int
  l_birth :: pystr
  l_token :: pystr
  l_expires :: time
  l_seen :: time
  l_exited :: "time option"

datatype command_state = Command_Pending | Command_Sent | Command_Acknowledged | Command_Rejected | Command_Unresolved

record command_row =
  cc_id :: pystr
  cc_dispatch :: pystr
  cc_state :: command_state
  cc_acknowledged :: "time option"

datatype strategy =
    No_Strategy | Backoff | Fresh_Thread | Schema_Correction | Same_Thread_Continuation | Attention_Strategy

text \<open>A retry policy; the five budgets are pairs of what was used and what there is.\<close>

record retry_row =
  rp_dispatch :: pystr
  rp_revision :: int
  rp_pre_identity :: "int \<times> int"
  rp_invalid_chain :: "int \<times> int"
  rp_schema_envelope :: "int \<times> int"
  rp_post_identity_loss :: "int \<times> int"
  rp_provider_transient :: "int \<times> int"
  rp_provider_grant :: int
  rp_prior :: "pystr option \<times> pystr option"
  rp_strategy :: strategy
  rp_next_eligible :: "time option"
  rp_last_failure :: "pystr option"
  rp_attention :: "pystr option"

datatype recovery_phase =
    No_Recovery | Rec_Inspection | Rec_Retry_Wait | Rec_Continuation | Rec_Attention | Rec_Completed | Rec_Failed

record recovery_row =
  rs_dispatch :: pystr
  rs_provider :: "pystr option \<times> pystr option"
  rs_inspection :: "int \<times> int"
  rs_continuation :: "int \<times> int"
  rs_fresh_thread :: "int \<times> int"
  rs_fresh_after_idle :: bool
  rs_state :: recovery_phase
  rs_exit_class :: "pystr option"
  rs_exit_code :: "int option"
  rs_next_eligible :: "time option"
  rs_inspected :: "(pystr option \<times> pystr option \<times> pystr option)"
  rs_attention :: "pystr option"
  rs_exited :: "time option"

text \<open>A reasoned recovery action of which the cancellations matter here.\<close>

record control_row =
  rc_action :: pystr
  rc_dispatch :: pystr
  rc_kind :: pystr

datatype outbox_outcome = Outbox_Pending | Enqueued | Not_Required

record successor_out_row =
  so_source :: pystr
  so_successor :: "pystr option"
  so_outcome :: outbox_outcome
  so_completed :: "time option"

datatype notification_outcome = Notify_Not_Applicable | Unavailable | Attempted_Ok | Attempted_Failed

record notification_row =
  n_dispatch :: pystr
  n_digest :: pystr
  n_task :: "pystr option"
  n_outcome :: notification_outcome
  n_attempted :: "time option"

text \<open>What a queue row was bound to: plan, authority, the thread that asked for it, its next checkpoint.\<close>

record binding_facts =
  bf_plan_path :: pystr
  bf_plan :: pystr
  bf_projection :: pystr
  bf_mode :: permission_mode
  bf_profile :: "pystr option"
  bf_compat :: "pystr option"
  bf_permission :: "native_authority option"

record binding_row =
  b_dispatch :: pystr
  b_facts :: binding_facts
  b_source_thread :: "pystr option"
  b_deadline :: "time option"
  b_armed :: bool

text \<open>The workspace captured when a repair completed; its result is bound to it later.\<close>

record capture_row =
  tc_dispatch :: pystr
  tc_result :: "pystr option"

record successor_row =
  as_source :: pystr
  as_successor :: pystr
  as_released :: "time option"

section \<open>Wakes, decisions and the harness\<close>

datatype cycle_kind = Checkpoint | Terminal

datatype wake_state =
    Wake_Not_Applicable | Wake_Pending | Wake_Starting | Wake_Delivered | Wake_Failed | Wake_Ambiguous | Wake_Suppressed

record wake_row =
  w_delivery :: pystr
  w_dispatch :: pystr
  w_decision :: pystr
  w_kind :: cycle_kind
  w_cycle :: int
  w_source_thread :: "pystr option"
  w_state :: wake_state
  w_attempts :: int
  w_source_turn :: "pystr option"

datatype decision_state =
    Pending_Delivery | Awaiting_Claim | Decision_Claimed | Action_Committed | Acknowledged | Superseded
  | Decision_Attention | Legacy_Closed

record decision_row =
  d_id :: pystr
  d_dispatch :: pystr
  d_kind :: cycle_kind
  d_cycle :: int
  d_state :: decision_state
  d_revision :: int
  d_deadline :: time
  d_generation :: int
  d_action :: "pystr option"
  d_claimant :: "(pystr \<times> pystr \<times> pystr) option"
  d_claim_expires :: "time option"
  d_attention :: "pystr option"
  d_superseded :: "time option"

datatype generation_state = Gen_Prepared | Delivery_Starting | Gen_Active | Gen_Terminal

record generation_row =
  g_decision :: pystr
  g_generation :: int
  g_lineage :: pystr
  g_state :: generation_state
  g_thread :: "pystr option"
  g_turn :: "pystr option"

record harness_row =
  h_epoch :: int
  h_nonce :: pystr
  h_pid :: int
  h_birth :: pystr
  h_acquired :: time
  h_renewed :: time
  h_expires :: time
  h_digest :: pystr
  h_version :: pystr
  h_shutdown :: bool

section \<open>The ledger\<close>

text \<open>\<open>refresh_pending\<close>: some row of \<open>service_refresh_starts\<close> is unresolved.\<close>

record ledger =
  runs :: "run_row list"
  milestones :: "milestone_row list"
  dispatches :: "dispatch_row list"
  events :: "event_row list"
  executions :: "execution_row list"
  integrity :: "integrity_row list"
  leases :: "lease_row list"
  sdk_events :: "sdk_event_row list"
  app_native :: "app_native_row list"
  queue :: "queue_row list"
  bindings :: "binding_row list"
  captures :: "capture_row list"
  capabilities :: "capability_row list"
  liveness :: "liveness_row list"
  commands :: "command_row list"
  retries :: "retry_row list"
  recoveries :: "recovery_row list"
  controls :: "control_row list"
  successor_outbox :: "successor_out_row list"
  notifications :: "notification_row list"
  successors :: "successor_row list"
  wakes :: "wake_row list"
  decisions :: "decision_row list"
  generations :: "generation_row list"
  refresh_pending :: bool
  harness :: "harness_row option"

type_synonym 'a ledger_op = "ledger \<Rightarrow> ('a \<times> ledger) res"

text \<open>
  \<open>_transaction\<close>: the rows are validated before the body and again before the commit; whatever
  raises leaves the ledger as it was, which is why a failing operation returns no ledger.
\<close>

definition atomically :: "(ledger \<Rightarrow> unit res) \<Rightarrow> 'a ledger_op \<Rightarrow> 'a ledger_op" where
  "atomically V f l =
     bind_res (V l) (\<lambda>_. bind_res (f l) (\<lambda>(x, l'). bind_res (V l') (\<lambda>_. Inr (x, l'))))"

text \<open>The ledger after an operation: unchanged when it raised.\<close>

definition after_op :: "'a ledger_op \<Rightarrow> ledger \<Rightarrow> ledger" where
  "after_op f l = (case f l of Inl _ \<Rightarrow> l | Inr (_, l') \<Rightarrow> l')"

lemma atomically_Inr:
  "atomically V f l = Inr (x, l') \<longleftrightarrow> V l = Inr () \<and> f l = Inr (x, l') \<and> V l' = Inr ()"
  by (auto simp: atomically_def bind_res_Inr_iff split: prod.splits)

text \<open>An operation whose body keeps the rows valid is not disturbed by the second validation.\<close>

lemma atomically_kept:
  assumes "V l = Inr ()" and "\<And>x l'. f l = Inr (x, l') \<Longrightarrow> V l' = Inr ()"
  shows "atomically V f l = f l"
  using assms by (cases "f l") (auto simp: atomically_def bind_res_def split: prod.splits sum.splits)

end
