(* ===== verification/Ledger_Validate.thy ===== *)
theory Ledger_Validate
  imports Ledger_Tables "HOL-Library.Product_Lexorder"
begin

text \<open>
  The part of \<open>Ledger._validate_rows\<close> that governs runs, milestones, dispatches, the event history,
  executions, and the rows of the dispatch queue with its capabilities, worker leases, outboxes and
  wakes: every transaction of the ledger runs it before its body and again before the commit.
\<close>

definition corrupt :: "string \<Rightarrow> py_error" where
  "corrupt m = CorruptSchemaError (lit m)"

section \<open>Ownership and identity\<close>

definition check_orphans :: "ledger \<Rightarrow> unit res" where
  "check_orphans l =
     require ((\<forall>m\<in>set (milestones l). mk_run (ms_key m) \<in> run_id ` set (runs l))
         \<and> (\<forall>d\<in>set (dispatches l). dp_key d \<in> ms_key ` set (milestones l))
         \<and> (\<forall>e\<in>set (events l). ev_key e \<in> ms_key ` set (milestones l))
         \<and> (\<forall>e\<in>set (events l). case ev_dispatch e of None \<Rightarrow> True | Some i \<Rightarrow> i \<in> dp_id ` set (dispatches l))
         \<and> (\<forall>w\<in>set (leases l). ls_owner w \<in> run_id ` set (runs l))
         \<and> (\<forall>x\<in>set (executions l). ex_key x \<in> ms_key ` set (milestones l))
         \<and> (\<forall>s\<in>set (sdk_events l). se_key s \<in> ex_key ` set (executions l))
         \<and> (\<forall>i\<in>set (integrity l). in_key i \<in> ex_key ` set (executions l))
         \<and> (\<forall>a\<in>set (app_native l). an_dispatch a \<in> dp_id ` set (dispatches l)
               \<and> an_key a \<in> ex_key ` set (executions l)))
       (corrupt ''workflow ledger contains orphan rows'')"

definition check_duplicates :: "ledger \<Rightarrow> unit res" where
  "check_duplicates l =
     require (distinct (map ms_key (milestones l))
         \<and> distinct (map (\<lambda>d. (dp_key d, dp_role d, dp_generation d)) (dispatches l))
         \<and> distinct (map (\<lambda>e. (ev_key e, ev_sequence e)) (events l)))
       (corrupt ''workflow ledger contains duplicate logical rows'')"

definition check_dispatch :: "ledger \<Rightarrow> dispatch_row \<Rightarrow> unit res" where
  "check_dispatch l d =
     bind_res (dispatch_id_from_parts (mk_run (dp_key d), mk_milestone (dp_key d), dp_role d, dp_generation d)) (\<lambda>i.
     bind_res (require (dp_id d = i) (corrupt ''dispatch identity does not match its columns'')) (\<lambda>_.
     require (dp_key d \<in> ms_key ` set (milestones l)) (corrupt ''dispatch points outside its milestone'')))"

section \<open>The event history\<close>

definition event_id_of :: "mkey \<Rightarrow> int \<Rightarrow> pystr res" where
  "event_id_of k n = bind_res (py_int_repr n) (\<lambda>t. event_id (mk_run k @ slash # mk_milestone k @ slash # t))"

definition executor_role :: pystr where
  "executor_role = lit ''executor''"

definition check_claim :: "ledger \<Rightarrow> event_row \<Rightarrow> unit res" where
  "check_claim l e =
     bind_res (require (ev_dispatch e \<noteq> None \<and> ev_reason e = Some DISPATCH_CLAIMED)
                (corrupt ''dispatch claim event has an invalid causal contract'')) (\<lambda>_.
     case (case ev_dispatch e of None \<Rightarrow> None | Some i \<Rightarrow> lookup_by dp_id i (dispatches l)) of
       None \<Rightarrow> Inl (corrupt ''dispatch claim event does not match its dispatch row'')
     | Some d \<Rightarrow>
         bind_res (require (dp_key d = ev_key e) (corrupt ''dispatch claim event does not match its dispatch row'')) (\<lambda>_.
         require ((dp_generation d = 1 \<and> ev_from e = Some PLANNED \<and> ev_to e = STARTING)
             \<or> (dp_role d = executor_role \<and> 1 < dp_generation d
                 \<and> ev_from e = Some REPAIR_REQUIRED \<and> ev_to e = STARTING))
           (corrupt ''dispatch claim event has an invalid causal contract'')))"

definition check_event :: "ledger \<Rightarrow> event_row \<Rightarrow> unit res" where
  "check_event l e =
     bind_res (event_id_of (ev_key e) (ev_sequence e)) (\<lambda>i.
     bind_res (require (ev_id e = i) (corrupt ''event identity does not match its columns'')) (\<lambda>_.
     bind_res (require (case ev_from e of None \<Rightarrow> False | Some s \<Rightarrow> is_transition_allowed s (ev_to e))
                (corrupt ''event contains a forbidden state transition'')) (\<lambda>_.
     if ev_type e = Dispatch_Claimed then check_claim l e
     else bind_res (require (ev_dispatch e = None \<and> ev_reason e \<noteq> Some DISPATCH_CLAIMED)
                     (corrupt ''normal state transition carries dispatch authority'')) (\<lambda>_.
          require (\<not> (ev_from e = Some PLANNED \<and> ev_to e = STARTING))
            (corrupt ''PLANNED -> STARTING requires a dispatch claim event'')))))"

definition claim_count :: "ledger \<Rightarrow> pystr \<Rightarrow> nat" where
  "claim_count l i = length (filter (\<lambda>e. ev_type e = Dispatch_Claimed \<and> ev_dispatch e = Some i) (events l))"

definition check_claim_count :: "ledger \<Rightarrow> dispatch_row \<Rightarrow> unit res" where
  "check_claim_count l d =
     require (if dp_role d = executor_role then claim_count l (dp_id d) = 1 else claim_count l (dp_id d) \<le> 1)
       (corrupt ''dispatch claim event count violates its role contract'')"

definition history :: "ledger \<Rightarrow> mkey \<Rightarrow> event_row list" where
  "history l k = sort_key ev_sequence (filter (\<lambda>e. ev_key e = k) (events l))"

fun replay :: "workflow_state \<Rightarrow> event_row list \<Rightarrow> workflow_state option" where
  "replay s [] = Some s"
| "replay s (e # es) = (if ev_from e = Some s then replay (ev_to e) es else None)"

definition check_milestone :: "ledger \<Rightarrow> milestone_row \<Rightarrow> unit res" where
  "check_milestone l m =
     (let h = history l (ms_key m)
      in bind_res (require (map ev_sequence h = map int [1..<Suc (length h)])
                    (corrupt ''milestone event sequence is not contiguous'')) (\<lambda>_.
         case replay PLANNED h of
           None \<Rightarrow> Inl (corrupt ''milestone event history is non-causal'')
         | Some s \<Rightarrow> require (s = ms_state m) (corrupt ''milestone state does not match replayed history'')))"

section \<open>Executions\<close>

definition turn_starting_marker :: json where
  "turn_starting_marker = JObj [(lit ''__controller_checkpoint'', JStr (lit ''turn_starting''))]"

definition check_app_native :: "ledger \<Rightarrow> app_native_row \<Rightarrow> unit res" where
  "check_app_native l a =
     (case lookup_by dp_id (na_dispatch (an_action a)) (dispatches l) of
        None \<Rightarrow> Inl (corrupt ''App-native action lacks its executor dispatch authority'')
      | Some d \<Rightarrow>
          bind_res (require (dp_role d = executor_role)
                     (corrupt ''App-native action lacks its executor dispatch authority'')) (\<lambda>_.
          require (dp_key d = an_key a) (corrupt ''App-native action does not match its execution identity'')))"

definition check_owner :: "ledger \<Rightarrow> execution_row \<Rightarrow> unit res" where
  "check_owner l x =
     (let app = lookup_by an_key (ex_key x) (app_native l);
          owned = (\<lambda>w. case lookup_by ls_workspace w (leases l) of
                     None \<Rightarrow> False | Some lease \<Rightarrow> ls_owner lease = mk_run (ex_key x))
      in bind_res (case app of None \<Rightarrow> Inr ()
            | Some a \<Rightarrow> require (na_workspace (an_action a) = ex_workspace x \<and> owned (na_workspace (an_action a)))
                (corrupt ''App-native action workspace does not match execution/lease authority'')) (\<lambda>_.
         bind_res (case app of None \<Rightarrow> Inr ()
            | Some a \<Rightarrow> require (map_option snd (an_identity a) = ex_thread x)
                (corrupt ''App-native host/thread identity does not match its execution'')) (\<lambda>_.
         bind_res (require (ex_status x \<in> {EX_PLANNED, EX_CANCELLED}
                       \<or> lookup_by in_key (ex_key x) (integrity l) \<noteq> None \<or> app \<noteq> None)
                (corrupt ''non-planned execution lacks its integrity authority row'')) (\<lambda>_.
         require (ex_status x \<in> {EX_PLANNED, EX_CANCELLED} \<or> owned (ex_workspace x))
           (corrupt ''active execution has no matching workspace lease'')))))"

definition check_status :: "app_native_row option \<Rightarrow> workflow_state \<Rightarrow> execution_row \<Rightarrow> unit res" where
  "check_status app st x =
     (case ex_status x of
        EX_PLANNED \<Rightarrow>
          require (ex_checkpoint x \<in> {CAPSULE_PLANNED, WORKSPACE_LEASED, WORKSPACE_BASELINE_DURABLE, THREAD_STARTING}
              \<and> ex_thread x = None)
            (corrupt ''planned execution has post-plan authority'')
      | EX_THREAD_STARTED \<Rightarrow>
          bind_res (require (ex_thread x \<noteq> None \<and> ex_checkpoint x \<in> {THREAD_IDENTITY_DURABLE, TURN_DURABLE})
                     (corrupt ''started execution has incomplete thread authority'')) (\<lambda>_.
          bind_res (require (st = RUNNING) (corrupt ''started execution is not paired with RUNNING workflow state'')) (\<lambda>_.
          case app of None \<Rightarrow> Inr ()
          | Some a \<Rightarrow> require (an_state a = Bound \<and> map_option snd (an_identity a) = ex_thread x \<and> an_identity a \<noteq> None)
              (corrupt ''started App-native execution has mismatched host identity'')))
      | EX_COMPLETED \<Rightarrow>
          bind_res (require (ex_checkpoint x = RESULT_DURABLE \<and> ex_thread x \<noteq> None
                        \<and> (ex_turn x \<noteq> None \<or> app \<noteq> None) \<and> ex_result x \<noteq> None \<and> ex_validation x \<noteq> None
                        \<and> ex_protected_after x \<noteq> None)
                     (corrupt ''completed execution is missing terminal evidence'')) (\<lambda>_.
          bind_res (require (st \<notin> {PLANNED, CANCELLED})
                     (corrupt ''completed execution is not paired with a valid post-execution workflow state'')) (\<lambda>_.
          case app of None \<Rightarrow> Inr ()
          | Some a \<Rightarrow> require (an_state a = App_Completed \<and> an_result a \<noteq> None \<and> an_result a = ex_result x)
              (corrupt ''completed App-native execution has mismatched terminal result'')))
      | EX_UNCERTAIN_PRE_IDENTITY \<Rightarrow>
          bind_res (require (ex_thread x = None) (corrupt ''pre-identity uncertainty cannot carry a thread identity'')) (\<lambda>_.
          require (st = STARTING) (corrupt ''pre-identity uncertainty is not paired with STARTING workflow state''))
      | EX_FAILED \<Rightarrow>
          bind_res (require (ex_checkpoint x = RESULT_DURABLE \<and> ex_result x \<noteq> None \<and> ex_protected_after x \<noteq> None)
                     (corrupt ''failed execution is missing terminal evidence'')) (\<lambda>_.
          bind_res (case app of None \<Rightarrow> Inr ()
             | Some a \<Rightarrow> require (an_state a = App_Failed \<and> an_result a \<noteq> None \<and> an_result a = ex_result x)
                 (corrupt ''failed App-native execution has mismatched terminal result'')) (\<lambda>_.
          require (st = FAILED) (corrupt ''failed execution is not paired with FAILED workflow state'')))
      | EX_CANCELLED \<Rightarrow>
          bind_res (require (st = CANCELLED) (corrupt ''cancelled execution is not paired with CANCELLED workflow state'')) (\<lambda>_.
          case app of None \<Rightarrow> Inr ()
          | Some a \<Rightarrow> require (an_state a = App_Cancelled \<and> an_result a = None)
              (corrupt ''cancelled execution has nonterminal App-native recovery state'')))"

definition check_turn :: "ledger \<Rightarrow> execution_row \<Rightarrow> unit res" where
  "check_turn l x =
     (let rows = sort_key (\<lambda>s. (se_turn s, se_sequence s)) (filter (\<lambda>s. se_key s = ex_key x) (sdk_events l))
      in bind_res (require (ex_turn x = None \<or> rows = [] \<or> map se_sequence rows = map int [0..<length rows])
                    (corrupt ''SDK lifecycle sequence is not contiguous'')) (\<lambda>_.
         case lookup_by in_key (ex_key x) (integrity l) of
           None \<Rightarrow> Inr ()
         | Some i \<Rightarrow>
             bind_res (require (in_git_before i \<noteq> None)
                        (corrupt ''controller execution lacks its pre-external Git authority'')) (\<lambda>_.
             bind_res (require (ex_status x = EX_COMPLETED \<longrightarrow> in_terminal i \<noteq> None)
                        (corrupt ''completed controller execution lacks terminal workspace authority'')) (\<lambda>_.
             bind_res (require (ex_turn x \<noteq> None \<longrightarrow> in_turn_started i \<noteq> None)
                        (corrupt ''durable SDK turn lacks causal turn-start authority'')) (\<lambda>_.
             bind_res (require (ex_turn x = None \<and> in_turn_started i \<noteq> None \<longrightarrow> ex_output x = Some turn_starting_marker)
                        (corrupt ''turn-start authority lacks its active external-call marker'')) (\<lambda>_.
             require (ex_output x = Some turn_starting_marker \<longrightarrow> in_turn_started i \<noteq> None)
               (corrupt ''turn-start marker lacks durable causal authority'')))))))"

definition check_execution :: "ledger \<Rightarrow> execution_row \<Rightarrow> unit res" where
  "check_execution l x =
     bind_res (check_owner l x) (\<lambda>_.
     case lookup_by ms_key (ex_key x) (milestones l) of
       None \<Rightarrow> Inl (corrupt ''workflow ledger contains orphan rows'')
     | Some m \<Rightarrow>
         bind_res (check_status (lookup_by an_key (ex_key x) (app_native l)) (ms_state m) x) (\<lambda>_. check_turn l x))"

definition check_integrity :: "integrity_row \<Rightarrow> unit res" where
  "check_integrity i =
     require (in_git_after i \<noteq> None \<longrightarrow> in_git_before i \<noteq> None)
       (corrupt ''Git authority after-state lacks its pre-turn authority'')"

definition validate_workflow :: "ledger \<Rightarrow> unit res" where
  "validate_workflow l =
     bind_res (check_orphans l) (\<lambda>_.
     bind_res (check_duplicates l) (\<lambda>_.
     bind_res (each_res (check_dispatch l) (dispatches l)) (\<lambda>_.
     bind_res (each_res (check_event l) (events l)) (\<lambda>_.
     bind_res (each_res (check_claim_count l) (dispatches l)) (\<lambda>_.
     bind_res (each_res (check_milestone l) (milestones l)) (\<lambda>_.
     bind_res (each_res (check_app_native l) (app_native l)) (\<lambda>_.
     bind_res (require (distinct (map an_key (app_native l)))
                (corrupt ''execution has duplicate App-native ownership'')) (\<lambda>_.
     bind_res (each_res (check_execution l) (executions l)) (\<lambda>_.
     each_res check_integrity (integrity l))))))))))"

section \<open>The dispatch queue\<close>

text \<open>
  What the ledger asks of code outside it: SHA-256 of a text, the terminal status a raw worker
  result stands for under a result contract, \<open>None\<close> when it is malformed, and the digest of the result
  contract that is no longer accepted, and the redaction of a control text, whose patterns are not
  modelled.
\<close>

record ledger_env =
  sha256 :: "pystr \<Rightarrow> pystr"
  result_status :: "pystr \<Rightarrow> pystr \<Rightarrow> pystr option"
  retired_contract :: pystr
  redact :: "pystr \<Rightarrow> pystr"

definition check_queue_identity :: "ledger_env \<Rightarrow> ledger \<Rightarrow> queue_row \<Rightarrow> unit res" where
  "check_queue_identity E l q =
     bind_res (case lookup_by dp_id (q_dispatch q) (dispatches l) of
         None \<Rightarrow> Inl (corrupt ''queue dispatch identity does not match legacy dispatch authority'')
       | Some d \<Rightarrow> require ((q_key q, q_role q, q_generation q) = (dp_key d, dp_role d, dp_generation d))
           (corrupt ''queue dispatch identity does not match legacy dispatch authority'')) (\<lambda>_.
     if q_state q \<in> {Queue_Completed, Queue_Failed} then
       (case q_raw q of
          None \<Rightarrow> Inl (corrupt ''queue terminal raw result exceeds its bound'')
        | Some (raw, digest) \<Rightarrow>
            bind_res (utf8_len raw) (\<lambda>n.
            bind_res (require (n \<le> 65536) (corrupt ''queue terminal raw result exceeds its bound'')) (\<lambda>_.
            case result_status E (q_contract q) raw of
              None \<Rightarrow> Inl (corrupt ''queue terminal raw result is malformed'')
            | Some status \<Rightarrow>
                bind_res (require (sha256 E raw = digest) (corrupt ''queue terminal raw result digest is invalid'')) (\<lambda>_.
                require (Some status = q_terminal q) (corrupt ''queue terminal status does not match raw result'')))))
     else Inr ())"

definition check_capability :: "ledger \<Rightarrow> capability_row \<Rightarrow> unit res" where
  "check_capability l c =
     (case lookup_by q_dispatch (c_dispatch c) (queue l) of
        None \<Rightarrow> Inl (corrupt ''attempt capability binding conflicts with queue'')
      | Some q \<Rightarrow>
          bind_res (require ((c_generation c, c_attempt c, c_backend c, c_workspace c, c_schema c)
                        = (q_generation q, q_attempt q, q_backend q, q_workspace q, q_contract q))
                     (corrupt ''attempt capability binding conflicts with queue'')) (\<lambda>_.
          bind_res (require ((c_consumed c \<noteq> None) = (c_accepted c \<noteq> None))
                     (corrupt ''attempt capability consumed/accepted facts are misaligned'')) (\<lambda>_.
          bind_res (require (q_state q \<noteq> Queue_Cancelled)
                     (corrupt ''cancelled queue row retains an attempt capability'')) (\<lambda>_.
          bind_res (require (c_consumed c \<noteq> None
                        \<longrightarrow> q_state q \<in> {Result_Submitted, Finalizing, Queue_Completed, Queue_Failed})
                     (corrupt ''consumed capability is attached to a non-result queue state'')) (\<lambda>_.
          require (c_consumed c \<noteq> None \<longrightarrow> map_option snd (q_raw q) = c_accepted c)
            (corrupt ''consumed capability digest does not match queue result''))))))"

definition active_states :: "queue_state list" where
  "active_states = [Queued, Claimed, Starting, Running, Inspection_Pending, Retry_Wait, Continuation_Pending, Human_Attention]"

definition check_successor_out :: "ledger \<Rightarrow> queue_row \<Rightarrow> successor_out_row \<Rightarrow> unit res" where
  "check_successor_out l q s =
     (case so_outcome s of
        Enqueued \<Rightarrow>
          (case so_successor s of
             None \<Rightarrow> Inl (corrupt ''enqueued successor fact is missing a distinct dispatch'')
           | Some i \<Rightarrow>
               bind_res (require (i \<noteq> q_dispatch q) (corrupt ''enqueued successor fact is missing a distinct dispatch'')) (\<lambda>_.
               bind_res (require (i \<in> q_dispatch ` set (queue l)) (corrupt ''enqueued successor fact points outside the queue'')) (\<lambda>_.
               require (so_completed s \<noteq> None) (corrupt ''enqueued successor fact is incomplete''))))
      | Not_Required \<Rightarrow> require (so_successor s = None) (corrupt ''not-required successor fact carries a dispatch'')
      | Outbox_Pending \<Rightarrow> require (so_completed s = None) (corrupt ''pending successor fact is marked complete''))"

definition check_queue_row :: "ledger \<Rightarrow> queue_row \<Rightarrow> unit res" where
  "check_queue_row l q =
     (let succ = lookup_by so_source (q_dispatch q) (successor_outbox l);
          note = lookup_by n_dispatch (q_dispatch q) (notifications l)
      in bind_res (require (q_state q = Result_Submitted \<longrightarrow> q_raw q \<noteq> None \<and> q_terminal q \<noteq> None)
                    (corrupt ''submitted queue row lacks its raw result fact'')) (\<lambda>_.
         bind_res (require (q_state q \<in> {Queue_Completed, Queue_Failed} \<longrightarrow> q_raw q \<noteq> None \<and> q_terminal q \<noteq> None)
                    (corrupt ''result terminal queue row lacks immutable result fact'')) (\<lambda>_.
         bind_res (require (q_state q \<in> set active_states \<longrightarrow> q_raw q = None \<and> q_terminal q = None)
                    (corrupt ''nonterminal queue row carries terminal result facts'')) (\<lambda>_.
         bind_res (require (q_state q = Queue_Cancelled \<longrightarrow> q_raw q = None \<and> q_terminal q = None)
                    (corrupt ''cancelled queue row carries a fabricated result fact'')) (\<lambda>_.
         bind_res (require (q_state q = Queue_Cancelled \<longrightarrow> q_claim q = None)
                    (corrupt ''cancelled queue row retains a claim fact'')) (\<lambda>_.
         bind_res (require (q_state q \<in> {Queue_Completed, Queue_Failed} \<longrightarrow> succ \<noteq> None \<and> note \<noteq> None)
                    (corrupt ''terminal queue row lacks successor/notification outbox facts'')) (\<lambda>_.
         bind_res (require (q_state q = Queue_Cancelled \<longrightarrow> succ = None \<and> note = None)
                    (corrupt ''cancelled queue row carries successor/notification facts'')) (\<lambda>_.
         bind_res (case succ of None \<Rightarrow> Inr () | Some s \<Rightarrow> check_successor_out l q s) (\<lambda>_.
         case note of None \<Rightarrow> Inr ()
         | Some n \<Rightarrow> require (n_outcome n \<in> {Attempted_Ok, Attempted_Failed} \<longrightarrow> n_attempted n \<noteq> None)
             (corrupt ''notification attempt lacks its timestamp''))))))))))"

definition check_liveness :: "ledger \<Rightarrow> liveness_row \<Rightarrow> unit res" where
  "check_liveness l w =
     (case lookup_by q_dispatch (l_dispatch w) (queue l) of
        None \<Rightarrow> Inl (corrupt ''worker liveness identity conflicts with queue attempt'')
      | Some q \<Rightarrow>
          bind_res (require ((l_generation w, l_attempt w) = (q_generation q, q_attempt q))
                     (corrupt ''worker liveness identity conflicts with queue attempt'')) (\<lambda>_.
          bind_res (require (l_exited w \<noteq> None \<longrightarrow> q_state q \<notin> {Queued, Claimed, Starting, Running})
                     (corrupt ''queue retains an active state after its bound worker exited'')) (\<lambda>_.
          require (q_state q = Queue_Cancelled \<longrightarrow> l_exited w \<noteq> None)
            (corrupt ''cancelled queue retains an unacknowledged live worker''))))"

definition check_successor :: "ledger \<Rightarrow> successor_row \<Rightarrow> unit res" where
  "check_successor l s =
     bind_res (require (as_source s \<in> q_dispatch ` set (queue l) \<and> as_successor s \<in> q_dispatch ` set (queue l))
                (corrupt ''authorized successor points outside the queue'')) (\<lambda>_.
     require (as_released s \<noteq> None \<longrightarrow>
         (case lookup_by q_dispatch (as_source s) (queue l) of
            None \<Rightarrow> False | Some q \<Rightarrow> q_state q \<in> {Queue_Completed, Queue_Failed}))
       (corrupt ''successor released before source terminal commit''))"

text \<open>The binding of a queue row: the checkpoint is armed when it has a deadline.\<close>

definition check_binding :: "binding_row \<Rightarrow> unit res" where
  "check_binding b = require (b_deadline b = None \<longleftrightarrow> \<not> b_armed b) (corrupt ''queue checkpoint arm facts are inconsistent'')"

text \<open>Deterministic names: \<open>wake/DISPATCH/KIND\<close>, with the cycle from the second on, and its decision.\<close>

fun kind_text :: "cycle_kind \<Rightarrow> pystr" where
  "kind_text Checkpoint = lit ''checkpoint''"
| "kind_text Terminal = lit ''terminal''"

definition wake_delivery_id :: "pystr \<Rightarrow> cycle_kind \<Rightarrow> int \<Rightarrow> pystr res" where
  "wake_delivery_id i kind cycle =
     (let base = lit ''wake/'' @ i @ lit ''/'' @ kind_text kind
      in if cycle = 1 then Inr base else bind_res (py_int_repr cycle) (\<lambda>t. Inr (base @ lit ''/'' @ t)))"

definition decision_id_of :: "pystr \<Rightarrow> pystr" where
  "decision_id_of delivery = lit ''decision/'' @ delivery"

text \<open>Of a wake: its decision, its name, its source and its retry budget; the payload text is not modelled.\<close>

definition check_wake :: "ledger \<Rightarrow> wake_row \<Rightarrow> unit res" where
  "check_wake l w =
     bind_res (require (case lookup_by d_id (w_decision w) (decisions l) of
                  None \<Rightarrow> False | Some d \<Rightarrow> d_dispatch d = w_dispatch w \<and> d_kind d = w_kind w)
                (corrupt ''wake delivery decision identity is conflicting'')) (\<lambda>_.
     bind_res (wake_delivery_id (w_dispatch w) (w_kind w) (w_cycle w)) (\<lambda>i.
     bind_res (require (w_delivery w = i) (corrupt ''wake delivery identity is not deterministic'')) (\<lambda>_.
     case lookup_by b_dispatch (w_dispatch w) (bindings l) of
       None \<Rightarrow> Inl (corrupt ''wake delivery lacks queue binding authority'')
     | Some b \<Rightarrow>
         bind_res (require (w_dispatch w \<in> q_dispatch ` set (queue l))
                    (corrupt ''wake delivery lacks queue binding authority'')) (\<lambda>_.
         bind_res (require (w_source_thread w = b_source_thread b \<or> w_state w = Wake_Suppressed)
                    (corrupt ''wake source identity conflicts with the queue binding'')) (\<lambda>_.
         bind_res (require (w_state w = Wake_Pending \<longrightarrow> w_attempts w < 2)
                    (corrupt ''pending wake has exhausted its retry budget'')) (\<lambda>_.
         require (w_state w = Wake_Failed \<longrightarrow> w_attempts w = 2)
           (corrupt ''failed wake does not carry its exhausted retry budget'')))))))"

definition check_wakes_of :: "ledger \<Rightarrow> queue_row \<Rightarrow> unit res" where
  "check_wakes_of l q =
     (let ws = filter (\<lambda>w. w_dispatch w = q_dispatch q) (wakes l);
          cs = map w_cycle (filter (\<lambda>w. w_kind w = Checkpoint) ws); ts = filter (\<lambda>w. w_kind w = Terminal) ws
      in bind_res (require (length cs \<le> 64 \<and> distinct cs) (corrupt ''queue dispatch has duplicate checkpoint cycles'')) (\<lambda>_.
         bind_res (require (sort cs = map int [1..<Suc (length cs)]) (corrupt ''checkpoint cycles are not contiguous'')) (\<lambda>_.
         bind_res (require (length ts \<le> 1) (corrupt ''queue dispatch has duplicate wake deliveries'')) (\<lambda>_.
         bind_res (require (q_state q \<in> {Queue_Completed, Queue_Failed} \<longrightarrow> length ts = 1)
                    (corrupt ''terminal queue dispatch lacks exactly one terminal wake'')) (\<lambda>_.
         require (q_state q = Queue_Cancelled \<longrightarrow> ws = []) (corrupt ''cancelled queue dispatch carries a wake''))))))"

text \<open>The recovery state of a row: budgets, the reason for attention, and the queue state it goes with.\<close>

fun recovery_queue_state :: "recovery_phase \<Rightarrow> queue_state option" where
  "recovery_queue_state No_Recovery = None"
| "recovery_queue_state Rec_Inspection = Some Inspection_Pending"
| "recovery_queue_state Rec_Retry_Wait = Some Retry_Wait"
| "recovery_queue_state Rec_Continuation = Some Continuation_Pending"
| "recovery_queue_state Rec_Attention = Some Human_Attention"
| "recovery_queue_state Rec_Completed = Some Queue_Completed"
| "recovery_queue_state Rec_Failed = Some Queue_Failed"

definition within_budget :: "int \<times> int \<Rightarrow> bool" where
  "within_budget b \<longleftrightarrow> fst b \<le> snd b"

definition check_recovery :: "ledger \<Rightarrow> recovery_row \<Rightarrow> unit res" where
  "check_recovery l r =
     bind_res (require (within_budget (rs_inspection r)) (corrupt ''recovery inspection budget regressed'')) (\<lambda>_.
     bind_res (require (within_budget (rs_continuation r)) (corrupt ''recovery continuation budget regressed'')) (\<lambda>_.
     bind_res (require (within_budget (rs_fresh_thread r)) (corrupt ''recovery fresh-thread budget regressed'')) (\<lambda>_.
     bind_res (require (rs_state r = Rec_Attention \<longleftrightarrow> rs_attention r \<noteq> None)
                (corrupt ''nonterminal recovery carries human-attention reason'')) (\<lambda>_.
     bind_res (require (rs_state r \<in> {Rec_Retry_Wait, Rec_Continuation} \<longleftrightarrow> rs_next_eligible r \<noteq> None)
                (corrupt ''terminal or idle recovery carries unexpected eligibility'')) (\<lambda>_.
     require (case recovery_queue_state (rs_state r) of None \<Rightarrow> True
              | Some st \<Rightarrow> map_option q_state (lookup_by q_dispatch (rs_dispatch r) (queue l)) = Some st)
       (corrupt ''queue state conflicts with recovery state''))))))"

text \<open>A retry policy: what was used of its budgets, and the reason for attention.\<close>

definition used_within_budget :: "int \<times> int \<Rightarrow> bool" where
  "used_within_budget b \<longleftrightarrow> 0 \<le> fst b \<and> fst b \<le> snd b"

definition check_retry :: "retry_row \<Rightarrow> unit res" where
  "check_retry r =
     bind_res (require (\<forall>b\<in>{rp_pre_identity r, rp_invalid_chain r, rp_schema_envelope r, rp_post_identity_loss r,
                            rp_provider_transient r}. used_within_budget b)
                (corrupt ''retry policy consumed count exceeds its immutable budget'')) (\<lambda>_.
     bind_res (require (rp_provider_grant r \<in> {0, 1}) (corrupt ''provider transient grant fact is invalid'')) (\<lambda>_.
     bind_res (require (snd (rp_provider_transient r) \<le> 3 + rp_provider_grant r)
                (corrupt ''provider transient budget lacks its grant fact'')) (\<lambda>_.
     bind_res (require (rp_strategy r = Attention_Strategy \<longleftrightarrow> rp_attention r \<noteq> None)
                (corrupt ''nonterminal retry state carries a human-attention reason'')) (\<lambda>_.
     require (0 \<le> rp_revision r) (corrupt ''retry policy revision is invalid'')))))"

text \<open>The workspace captured for a control repair, before and after its result.\<close>

definition control_repair :: "ledger \<Rightarrow> queue_row \<Rightarrow> bool" where
  "control_repair l q \<longleftrightarrow> q_role q = executor_role \<and> q_generation q = 2
     \<and> (case lookup_by run_id (mk_run (q_key q)) (runs l) of None \<Rightarrow> False | Some r \<Rightarrow> run_program r = None)"

definition check_capture :: "ledger \<Rightarrow> capture_row \<Rightarrow> unit res" where
  "check_capture l t =
     (case lookup_by q_dispatch (tc_dispatch t) (queue l) of
        None \<Rightarrow> Inl (corrupt ''dispatch terminal integrity conflicts with its repair result'')
      | Some q \<Rightarrow>
          bind_res (require (control_repair l q) (corrupt ''dispatch terminal integrity conflicts with its repair result'')) (\<lambda>_.
          case tc_result t of
            None \<Rightarrow> require (q_raw q = None \<and> q_terminal q = None
                \<and> q_state q \<in> {Starting, Running, Inspection_Pending, Retry_Wait, Continuation_Pending, Human_Attention})
              (corrupt ''unbound dispatch terminal integrity conflicts with its repair result'')
          | Some digest \<Rightarrow> require (q_state q \<in> {Result_Submitted, Queue_Completed, Queue_Failed} \<and> q_terminal q \<noteq> None
                \<and> map_option snd (q_raw q) = Some digest)
              (corrupt ''bound dispatch terminal integrity conflicts with its repair result'')))"

text \<open>A controller decision: its lease, its end, its action and its wake; its texts are not modelled.\<close>

definition check_decision :: "ledger \<Rightarrow> decision_row \<Rightarrow> unit res" where
  "check_decision l d =
     bind_res (require (d_state d = Decision_Claimed \<longleftrightarrow> d_claim_expires d \<noteq> None)
                (corrupt ''non-claimed controller decision carries a live claim lease'')) (\<lambda>_.
     bind_res (require (d_state d = Decision_Claimed \<longrightarrow> d_claimant d \<noteq> None)
                (corrupt ''claimed controller decision lacks lease facts'')) (\<lambda>_.
     bind_res (require (d_state d \<in> {Action_Committed, Acknowledged} \<longrightarrow> d_action d \<noteq> None)
                (corrupt ''committed controller decision lacks action facts'')) (\<lambda>_.
     bind_res (require (d_state d \<notin> {Action_Committed, Acknowledged, Decision_Attention} \<longrightarrow> d_action d = None)
                (corrupt ''non-committed controller decision carries action facts'')) (\<lambda>_.
     bind_res (require (d_state d = Superseded \<longleftrightarrow> d_superseded d \<noteq> None)
                (corrupt ''non-superseded controller decision carries superseded timestamp'')) (\<lambda>_.
     bind_res (require (d_state d = Decision_Attention \<longleftrightarrow> d_attention d \<noteq> None)
                (corrupt ''non-attention controller decision carries an attention reason'')) (\<lambda>_.
     case lookup_by w_decision (d_id d) (wakes l) of
       None \<Rightarrow> require (d_state d \<in> {Action_Committed, Acknowledged, Superseded, Legacy_Closed})
         (corrupt ''controller decision lacks its wake delivery'')
     | Some w \<Rightarrow>
         bind_res (require (1 \<le> w_cycle w \<and> w_cycle w \<le> 64) (corrupt ''controller wake cycle sequence is invalid'')) (\<lambda>_.
         bind_res (require (d_id d = decision_id_of (w_delivery w))
                    (corrupt ''controller decision identity is not bound to its wake'')) (\<lambda>_.
         bind_res (require (w_state w = Wake_Pending \<longrightarrow> d_state d = Pending_Delivery)
                    (corrupt ''pending wake has a non-pending controller decision'')) (\<lambda>_.
         bind_res (require ((w_dispatch w, w_kind w, w_cycle w) = (d_dispatch d, d_kind d, d_cycle d))
                    (corrupt ''controller wake identity is conflicting'')) (\<lambda>_.
         bind_res (require (w_state w = Wake_Suppressed \<longrightarrow> w_source_turn w = None)
                    (corrupt ''suppressed controller wake carries a source turn'')) (\<lambda>_.
         bind_res (require (d_state d = Pending_Delivery
                       \<longrightarrow> w_state w \<in> {Wake_Pending, Wake_Starting, Wake_Failed, Wake_Ambiguous})
                    (corrupt ''pending-delivery controller decision lacks a pending wake'')) (\<lambda>_.
         require (d_state d = Awaiting_Claim
             \<longrightarrow> w_state w \<in> {Wake_Delivered, Wake_Not_Applicable, Wake_Suppressed, Wake_Failed})
           (corrupt ''awaiting-claim controller decision has an undelivered wake'')))))))))))))"

definition validate_queue :: "ledger_env \<Rightarrow> ledger \<Rightarrow> unit res" where
  "validate_queue E l =
     bind_res (require (distinct (map (\<lambda>c. (c_dispatch c, c_generation c, c_attempt c)) (capabilities l)))
                (corrupt ''duplicate attempt capability fact'')) (\<lambda>_.
     bind_res (require (distinct (map n_dispatch (notifications l))) (corrupt ''duplicate terminal notification fact'')) (\<lambda>_.
     bind_res (each_res (check_capture l) (captures l)) (\<lambda>_.
     bind_res (each_res (check_queue_identity E l) (queue l)) (\<lambda>_.
     bind_res (each_res (check_capability l) (capabilities l)) (\<lambda>_.
     bind_res (each_res (check_queue_row l) (queue l)) (\<lambda>_.
     bind_res (require (b_dispatch ` set (bindings l) = q_dispatch ` set (queue l))
                (corrupt ''every queue dispatch must have exactly one immutable v11 binding'')) (\<lambda>_.
     bind_res (each_res check_binding (bindings l)) (\<lambda>_.
     bind_res (each_res (check_liveness l) (liveness l)) (\<lambda>_.
     bind_res (each_res (check_successor l) (successors l)) (\<lambda>_.
     bind_res (each_res (check_wake l) (wakes l)) (\<lambda>_.
     bind_res (each_res (check_wakes_of l) (queue l)) (\<lambda>_.
     bind_res (require (rs_dispatch ` set (recoveries l) = q_dispatch ` set (queue l))
                (corrupt ''every queue dispatch must have exactly one v12 recovery state'')) (\<lambda>_.
     bind_res (each_res (check_recovery l) (recoveries l)) (\<lambda>_.
     bind_res (require (rp_dispatch ` set (retries l) = q_dispatch ` set (queue l))
                (corrupt ''every queue dispatch must have one live-worker retry policy'')) (\<lambda>_.
     bind_res (each_res check_retry (retries l)) (\<lambda>_.
     each_res (check_decision l) (decisions l)))))))))))))))))"

definition validate_rows :: "ledger_env \<Rightarrow> ledger \<Rightarrow> unit res" where
  "validate_rows E l = bind_res (validate_queue E l) (\<lambda>_. validate_workflow l)"

end
