(* ===== verification/Ledger_Queue.thy ===== *)
theory Ledger_Queue
  imports Ledger_Validate
begin

text \<open>
  The dispatch queue of src/src/codex_flow/ledger.py and the harness lease that fences it: claims,
  cancellation, recovery, attempt capabilities, worker leases and results.  The argument \<open>now\<close> is
  what \<open>utc_now\<close> returns; where the source asks twice within one transaction the model uses one
  value.  Durations are microseconds.
\<close>

definition stale :: "string \<Rightarrow> py_error" where
  "stale m = StaleWriter (lit m)"

definition no_queue_row :: "pystr \<Rightarrow> py_error" where
  "no_queue_row i = RecordNotFound (lit ''queue dispatch does not exist: '' @ i)"

text \<open>\<open>SELECT * FROM dispatch_queue WHERE dispatch_id = ?\<close>, of a row that must exist.\<close>

definition queue_dispatch :: "ledger \<Rightarrow> pystr \<Rightarrow> queue_row res" where
  "queue_dispatch l i = (case lookup_by q_dispatch i (queue l) of None \<Rightarrow> Inl (no_queue_row i) | Some q \<Rightarrow> Inr q)"

definition returning :: "pystr \<Rightarrow> ledger \<Rightarrow> (queue_row \<times> ledger) res" where
  "returning i l = bind_res (queue_dispatch l i) (\<lambda>q. Inr (q, l))"

definition expires_after :: "time \<Rightarrow> int \<Rightarrow> time res" where
  "expires_after now seconds =
     (if seconds \<le> 0 then Inl (ValueError (lit ''lease/checkpoint duration must be positive'')) else Inr (now + seconds))"

section \<open>The harness lease\<close>

definition live_harness :: "ledger \<Rightarrow> int \<Rightarrow> time \<Rightarrow> bool" where
  "live_harness l epoch now = (case harness l of None \<Rightarrow> False | Some h \<Rightarrow> h_epoch h = epoch \<and> now < h_expires h)"

definition require_live_harness :: "ledger \<Rightarrow> int \<Rightarrow> time \<Rightarrow> unit res" where
  "require_live_harness l epoch now = require (live_harness l epoch now) (stale ''operation requires a live harness lease'')"

definition acquire_harness ::
    "time \<Rightarrow> int \<Rightarrow> pystr \<Rightarrow> pystr \<Rightarrow> pystr \<Rightarrow> pystr \<Rightarrow> int \<Rightarrow> harness_row ledger_op" where
  "acquire_harness now pid birth digest version nonce lease l =
     bind_res (require (0 < pid \<and> 0 < lease \<and> birth \<noteq> [] \<and> version \<noteq> [])
                (ValueError (lit ''harness lease facts are invalid''))) (\<lambda>_.
     bind_res (require (is_hex 64 digest \<and> is_hex 64 nonce) (ValueError (lit ''harness digest is invalid''))) (\<lambda>_.
     bind_res (case harness l of
         None \<Rightarrow> Inr 1
       | Some h \<Rightarrow>
           bind_res (require (h_shutdown h \<or> h_expires h \<le> now \<or> h_nonce h = nonce)
                      (stale ''another live harness owns the repository'')) (\<lambda>_. Inr (h_epoch h + 1))) (\<lambda>epoch.
     let h = \<lparr>h_epoch = epoch, h_nonce = nonce, h_pid = pid, h_birth = birth, h_acquired = now, h_renewed = now,
              h_expires = now + lease, h_digest = digest, h_version = version, h_shutdown = False\<rparr>
     in Inr (h, l\<lparr>harness := Some h\<rparr>))))"

definition owned_harness :: "ledger \<Rightarrow> int \<Rightarrow> pystr \<Rightarrow> harness_row res" where
  "owned_harness l epoch nonce =
     (case harness l of
        None \<Rightarrow> Inl (stale ''harness lease is stale'')
      | Some h \<Rightarrow> bind_res (require (h_epoch h = epoch \<and> h_nonce h = nonce) (stale ''harness lease is stale'')) (\<lambda>_. Inr h))"

definition renew_harness :: "time \<Rightarrow> int \<Rightarrow> pystr \<Rightarrow> int \<Rightarrow> harness_row ledger_op" where
  "renew_harness now epoch nonce lease l =
     bind_res (require (0 < epoch \<and> is_hex 64 nonce) (ValueError (lit ''harness renewal facts are invalid''))) (\<lambda>_.
     bind_res (owned_harness l epoch nonce) (\<lambda>h.
     let h' = h\<lparr>h_renewed := now, h_expires := now + lease\<rparr> in Inr (h', l\<lparr>harness := Some h'\<rparr>)))"

definition request_harness_shutdown :: "int \<Rightarrow> pystr \<Rightarrow> harness_row ledger_op" where
  "request_harness_shutdown epoch nonce l =
     bind_res (owned_harness l epoch nonce) (\<lambda>h.
     let h' = h\<lparr>h_shutdown := True\<rparr> in Inr (h', l\<lparr>harness := Some h'\<rparr>))"

text \<open>\<open>_live_controller_claim_count_in_transaction\<close>; a claim is complete or absent here.\<close>

definition live_claim :: "time \<Rightarrow> decision_row \<Rightarrow> bool res" where
  "live_claim now d =
     (case d_claim_expires d of
        None \<Rightarrow> Inr False
      | Some t \<Rightarrow>
          if d_state d \<in> {Acknowledged, Superseded, Legacy_Closed} then Inr False
          else if d_claimant d = None then Inl (corrupt ''controller claim or lease facts are incomplete'')
          else Inr (now < t))"

definition raise_if_active_children :: "time \<Rightarrow> ledger \<Rightarrow> unit res" where
  "raise_if_active_children now l =
     bind_res (each_res (\<lambda>d. bind_res (live_claim now d) (\<lambda>_. Inr ())) (decisions l)) (\<lambda>_.
     bind_res (require (\<forall>d\<in>set (decisions l). live_claim now d \<noteq> Inr True)
                (HarnessRefreshBlocked (lit ''harness refresh deferred while a controller claim is active''))) (\<lambda>_.
     bind_res (require (\<forall>q\<in>set (queue l). q_state q \<notin> {Claimed, Starting, Running})
                (HarnessRefreshBlocked (lit ''harness refresh deferred while a worker launch is active''))) (\<lambda>_.
     bind_res (require (\<forall>w\<in>set (liveness l). l_exited w \<noteq> None)
                (HarnessRefreshBlocked (lit ''harness refresh deferred while a worker child is active''))) (\<lambda>_.
     require (\<forall>g\<in>set (generations l). g_state g \<notin> {Delivery_Starting, Gen_Active})
       (HarnessRefreshBlocked (lit ''harness refresh deferred while a controller child is active''))))))"

text \<open>\<open>arm_harness_refresh_fence()\<close> without an expected start.\<close>

definition arm_harness_refresh_fence :: "time \<Rightarrow> harness_row option ledger_op" where
  "arm_harness_refresh_fence now l =
     bind_res (require (\<not> refresh_pending l)
                (HarnessRefreshBlocked (lit ''unresolved prior refresh start must be reconciled before fencing''))) (\<lambda>_.
     bind_res (raise_if_active_children now l) (\<lambda>_.
     let h' = map_option (\<lambda>h. h\<lparr>h_shutdown := True\<rparr>) (harness l) in Inr (h', l\<lparr>harness := h'\<rparr>)))"

definition harness_refresh_fenced :: "ledger \<Rightarrow> bool" where
  "harness_refresh_fenced l = (case harness l of None \<Rightarrow> False | Some h \<Rightarrow> h_shutdown h)"

section \<open>Cancellation\<close>

definition update_queue :: "pystr \<Rightarrow> (queue_row \<Rightarrow> queue_row) \<Rightarrow> ledger \<Rightarrow> ledger" where
  "update_queue i f l = l\<lparr>queue := update_where (\<lambda>q. q_dispatch q = i) f (queue l)\<rparr>"

definition clear_recovery :: "recovery_row \<Rightarrow> recovery_row" where
  "clear_recovery r = r\<lparr>rs_state := No_Recovery, rs_next_eligible := None, rs_inspected := (None, None, None),
     rs_attention := None\<rparr>"

definition clear_retry :: "retry_row \<Rightarrow> retry_row" where
  "clear_retry r = r\<lparr>rp_revision := rp_revision r + 1, rp_strategy := No_Strategy, rp_next_eligible := None,
     rp_attention := None\<rparr>"

definition forget_attempt :: "pystr \<Rightarrow> ledger \<Rightarrow> ledger" where
  "forget_attempt i l = l\<lparr>capabilities := delete_where (\<lambda>c. c_dispatch c = i) (capabilities l),
     liveness := delete_where (\<lambda>w. l_dispatch w = i) (liveness l)\<rparr>"

definition unresolve_commands :: "time \<Rightarrow> pystr \<Rightarrow> ledger \<Rightarrow> ledger" where
  "unresolve_commands now i l = l\<lparr>commands :=
     update_where (\<lambda>c. cc_dispatch c = i \<and> cc_state c \<in> {Command_Pending, Command_Sent})
       (\<lambda>c. c\<lparr>cc_state := Command_Unresolved,
              cc_acknowledged := (case cc_acknowledged c of None \<Rightarrow> Some now | Some t \<Rightarrow> Some t)\<rparr>) (commands l)\<rparr>"

definition retire_checkpoints :: "time \<Rightarrow> pystr \<Rightarrow> ledger \<Rightarrow> ledger" where
  "retire_checkpoints now i l = l\<lparr>
     decisions := update_where (\<lambda>d. d_dispatch d = i \<and> d_kind d = Checkpoint
         \<and> d_state d \<notin> {Action_Committed, Acknowledged, Superseded, Legacy_Closed})
       (\<lambda>d. d\<lparr>d_state := Superseded, d_superseded := Some now, d_claim_expires := None, d_attention := None\<rparr>) (decisions l),
     wakes := delete_where (\<lambda>w. w_dispatch w = i \<and> w_kind w = Checkpoint) (wakes l)\<rparr>"

definition check_cancellable :: "time \<Rightarrow> int option \<Rightarrow> queue_row \<Rightarrow> ledger \<Rightarrow> unit res" where
  "check_cancellable now epoch q l =
     bind_res (require (q_state q \<notin> {Result_Submitted, Finalizing, Queue_Completed, Queue_Failed})
                (stale ''queue dispatch cannot be cancelled'')) (\<lambda>_.
     bind_res (case epoch of None \<Rightarrow> Inr ()
        | Some e \<Rightarrow>
            bind_res (require (map_option fst (q_claim q) = Some e) (stale ''queue cancellation claim epoch is stale'')) (\<lambda>_.
            require (live_harness l e now) (stale ''queue cancellation requires a live harness lease''))) (\<lambda>_.
     bind_res (require (q_raw q = None \<and> q_terminal q = None)
                (corrupt ''active queue dispatch carries terminal result facts'')) (\<lambda>_.
     require (q_dispatch q \<notin> so_source ` set (successor_outbox l) \<and> q_dispatch q \<notin> n_dispatch ` set (notifications l))
       (corrupt ''active queue dispatch carries terminal outbox facts''))))"

definition cancel_queue_row :: "time \<Rightarrow> int option \<Rightarrow> bool \<Rightarrow> queue_row \<Rightarrow> queue_row ledger_op" where
  "cancel_queue_row now epoch retain q l =
     (let i = q_dispatch q
      in if q_state q = Queue_Cancelled then Inr (q, l)
         else bind_res (check_cancellable now epoch q l) (\<lambda>_.
           let l1 = unresolve_commands now i l;
               l2 = l1\<lparr>capabilities := delete_where (\<lambda>c. c_dispatch c = i) (capabilities l1)\<rparr>
           in bind_res (if retain
                then case lookup_by l_dispatch i (liveness l2) of
                       None \<Rightarrow> Inl (stale ''worker cancellation lacks durable exit acknowledgement'')
                     | Some w \<Rightarrow> bind_res (require (l_exited w \<noteq> None)
                         (stale ''worker cancellation lacks durable exit acknowledgement'')) (\<lambda>_. Inr l2)
                else Inr (l2\<lparr>liveness := delete_where (\<lambda>w. l_dispatch w = i) (liveness l2)\<rparr>)) (\<lambda>l3.
           let l4 = l3\<lparr>queue := update_where (\<lambda>q. q_dispatch q = i \<and> q_state q \<in> set active_states)
                  (\<lambda>q. q\<lparr>q_state := Queue_Cancelled, q_claim := None, q_raw := None, q_terminal := None, q_updated := now\<rparr>)
                  (queue l3)\<rparr>;
               l5 = l4\<lparr>retries := update_where (\<lambda>r. rp_dispatch r = i) clear_retry (retries l4),
                       recoveries := update_where (\<lambda>r. rs_dispatch r = i) clear_recovery (recoveries l4)\<rparr>
           in returning i (retire_checkpoints now i l5))))"

definition cancel_queue_dispatch :: "time \<Rightarrow> pystr \<Rightarrow> int option \<Rightarrow> queue_row ledger_op" where
  "cancel_queue_dispatch now i epoch l =
     bind_res (queue_dispatch l i) (\<lambda>q. cancel_queue_row now epoch False q l)"

text \<open>\<open>acknowledge_worker_cancellation_exit\<close>, of a command id that is already accepted.\<close>

definition acknowledge_worker_cancellation_exit ::
    "time \<Rightarrow> pystr \<Rightarrow> pystr \<Rightarrow> int \<Rightarrow> pystr \<Rightarrow> int option \<Rightarrow> queue_row ledger_op" where
  "acknowledge_worker_cancellation_exit now i action pid birth code l =
     bind_res (require (0 < pid \<and> birth \<noteq> []) (ValueError (lit ''worker cancellation exit identity is invalid''))) (\<lambda>_.
     case (lookup_by rc_action action (controls l), lookup_by q_dispatch i (queue l)) of
       (Some a, Some q) \<Rightarrow>
         bind_res (require (rc_dispatch a = i \<and> rc_kind a = lit ''cancel'')
                    (stale ''worker cancellation action identity conflicts'')) (\<lambda>_.
         if q_state q = Queue_Cancelled then Inr (q, l)
         else case lookup_by l_dispatch i (liveness l) of
                None \<Rightarrow> Inl (stale ''worker cancellation exit identity is stale'')
              | Some w \<Rightarrow>
                  bind_res (require (l_pid w = pid \<and> l_birth w = birth)
                             (stale ''worker cancellation exit identity is stale'')) (\<lambda>_.
                  let l1 = (if l_exited w = None
                       then l\<lparr>liveness := update_where (\<lambda>w. l_dispatch w = i)
                                (\<lambda>w. w\<lparr>l_exited := Some now, l_seen := now\<rparr>) (liveness l),
                              recoveries := update_where (\<lambda>r. rs_dispatch r = i)
                                (\<lambda>r. r\<lparr>rs_exit_class := Some (lit ''harness-cancelled''), rs_exit_code := code,
                                       rs_exited := Some now\<rparr>) (recoveries l)\<rparr>
                       else l)
                  in cancel_queue_row now None True q l1))
     | _ \<Rightarrow> Inl (RecordNotFound (lit ''worker cancellation does not exist'')))"

section \<open>Claims and queue states\<close>

definition eligible :: "ledger \<Rightarrow> time \<Rightarrow> queue_row \<Rightarrow> bool" where
  "eligible l now q \<longleftrightarrow>
     q_state q = Queued \<and> q_available q \<le> now
     \<and> \<not> (\<exists>r\<in>set (retries l). rp_dispatch r = q_dispatch q \<and> rp_strategy r = Backoff
            \<and> (case rp_next_eligible r of None \<Rightarrow> False | Some t \<Rightarrow> now < t))
     \<and> \<not> (\<exists>a\<in>set (successors l). as_successor a = q_dispatch q \<and> as_released a = None)"

definition first_eligible :: "ledger \<Rightarrow> time \<Rightarrow> queue_row option" where
  "first_eligible l now =
     (case filter (eligible l now) (sort_key q_sequence (queue l)) of [] \<Rightarrow> None | q # _ \<Rightarrow> Some q)"

definition require_queue_program_capability :: "ledger \<Rightarrow> queue_row \<Rightarrow> unit res" where
  "require_queue_program_capability l q =
     (case lookup_by run_id (mk_run (q_key q)) (runs l) of
        None \<Rightarrow> Inl (corrupt ''queue dispatch run is missing'')
      | Some r \<Rightarrow> require (run_program r \<noteq> Some True) (stale ''approval_capability_unavailable''))"

definition claim_queue_dispatch :: "time \<Rightarrow> int \<Rightarrow> pystr \<Rightarrow> queue_row option ledger_op" where
  "claim_queue_dispatch now epoch nonce l =
     bind_res (require (0 < epoch \<and> is_hex 64 nonce) (ValueError (lit ''queue claim authority is invalid''))) (\<lambda>_.
     bind_res (require (live_harness l epoch now) (stale ''queue claim requires a live harness lease'')) (\<lambda>_.
     bind_res (require (\<not> harness_refresh_fenced l)
                (HarnessRefreshBlocked (lit ''harness refresh fence is active''))) (\<lambda>_.
     case first_eligible l now of
       None \<Rightarrow> Inr (None, l)
     | Some q \<Rightarrow>
         bind_res (require_queue_program_capability l q) (\<lambda>_.
         if map_option ex_status (lookup_by ex_key (q_key q) (executions l)) = Some EX_CANCELLED
         then bind_res (cancel_queue_row now None False q l) (\<lambda>(_, l'). Inr (None, l'))
         else let l' = l\<lparr>queue := update_where (\<lambda>r. q_dispatch r = q_dispatch q \<and> q_state r = Queued)
                           (\<lambda>r. r\<lparr>q_state := Claimed, q_claim := Some (epoch, nonce), q_updated := now\<rparr>) (queue l)\<rparr>
              in Inr (lookup_by q_dispatch (q_dispatch q) (queue l'), l')))))"

fun queue_targets :: "queue_state \<Rightarrow> queue_state list" where
  "queue_targets Queued = [Queued, Claimed, Queue_Cancelled]"
| "queue_targets Claimed = [Claimed, Starting, Queued, Queue_Cancelled]"
| "queue_targets Starting = [Starting, Running, Queued, Result_Submitted, Queue_Failed, Queue_Cancelled]"
| "queue_targets Running = [Running, Result_Submitted, Queued, Queue_Failed, Queue_Cancelled]"
| "queue_targets Inspection_Pending = [Inspection_Pending, Retry_Wait, Continuation_Pending, Queue_Completed, Queue_Failed,
     Human_Attention, Queued, Queue_Cancelled]"
| "queue_targets Retry_Wait = [Retry_Wait, Inspection_Pending, Human_Attention, Queue_Completed, Queue_Failed, Queued,
     Queue_Cancelled]"
| "queue_targets Continuation_Pending = [Continuation_Pending, Inspection_Pending, Queue_Completed, Queue_Failed,
     Human_Attention, Queued, Queue_Cancelled]"
| "queue_targets Human_Attention = [Human_Attention]"
| "queue_targets Result_Submitted = [Result_Submitted, Finalizing, Queue_Completed, Queue_Failed]"
| "queue_targets Finalizing = [Finalizing, Queue_Completed, Queue_Failed]"
| "queue_targets Queue_Completed = [Queue_Completed]"
| "queue_targets Queue_Failed = [Queue_Failed]"
| "queue_targets Queue_Cancelled = [Queue_Cancelled]"

definition set_queue_state :: "time \<Rightarrow> pystr \<Rightarrow> queue_state \<Rightarrow> int option \<Rightarrow> queue_row ledger_op" where
  "set_queue_state now i st epoch l =
     (if st = Queue_Cancelled then cancel_queue_dispatch now i epoch l
      else bind_res (queue_dispatch l i) (\<lambda>q.
        bind_res (require (epoch = None \<or> map_option fst (q_claim q) = epoch)
                   (stale ''queue dispatch claim epoch is stale'')) (\<lambda>_.
        bind_res (require (st \<in> set (queue_targets (q_state q))
                      \<and> (q_state q \<in> {Queue_Completed, Queue_Failed, Queue_Cancelled} \<longrightarrow> q_state q = st))
                   (stale ''queue state transition is not allowed'')) (\<lambda>_.
        bind_res (case epoch of None \<Rightarrow> Inr ()
           | Some e \<Rightarrow> require (live_harness l e now) (stale ''queue state transition requires a live harness lease'')) (\<lambda>_.
        returning i (update_queue i (\<lambda>q. q\<lparr>q_state := st, q_updated := now\<rparr>) l))))))"

definition recover_queue_dispatch :: "time \<Rightarrow> pystr \<Rightarrow> int \<Rightarrow> bool \<Rightarrow> queue_row ledger_op" where
  "recover_queue_dispatch now i epoch keep_thread l =
     bind_res (require (0 < epoch) (ValueError (lit ''recovery epoch is invalid''))) (\<lambda>_.
     bind_res (require (live_harness l epoch now) (stale ''queue recovery requires a live harness lease'')) (\<lambda>_.
     bind_res (queue_dispatch l i) (\<lambda>q.
     if q_state q \<in> {Queue_Completed, Queue_Failed, Queue_Cancelled, Queued} then Inr (q, l)
     else bind_res (require (q_state q \<notin> {Inspection_Pending, Retry_Wait, Continuation_Pending, Human_Attention})
                     (stale ''recovery-state dispatch requires its typed recovery action'')) (\<lambda>_.
       let l1 = update_queue i (\<lambda>r. r\<lparr>q_state := Queued, q_claim := None, q_attempt := q_attempt r + 1,
                  q_thread := (if keep_thread then q_thread q else None), q_host := None, q_updated := now\<rparr>)
                  (forget_attempt i l)
       in returning i (l1\<lparr>recoveries := update_where (\<lambda>r. rs_dispatch r = i) clear_recovery (recoveries l1)\<rparr>)))))"

section \<open>Attempt capabilities and worker leases\<close>

definition CAPABILITY_MIN :: int where "CAPABILITY_MIN = 30000000"
definition CAPABILITY_MAX :: int where "CAPABILITY_MAX = 300000000"

definition bounded_lifetime :: "int \<Rightarrow> int" where
  "bounded_lifetime seconds = min (max seconds CAPABILITY_MIN) CAPABILITY_MAX"

text \<open>The expiry a capability gets: a requested time is moved into the bounds of an active attempt.\<close>

definition capability_expiry :: "time \<Rightarrow> int \<Rightarrow> time option \<Rightarrow> time" where
  "capability_expiry now seconds requested =
     (let lo = now + bounded_lifetime seconds; hi = now + CAPABILITY_MAX
      in case requested of None \<Rightarrow> lo
         | Some t \<Rightarrow> if t \<le> now then lo else if hi \<le> t then hi else if t < lo then lo else t)"

definition is_capability :: "pystr \<Rightarrow> int \<Rightarrow> int \<Rightarrow> capability_row \<Rightarrow> bool" where
  "is_capability i generation attempt_no c \<longleftrightarrow>
     c_dispatch c = i \<and> c_generation c = generation \<and> c_attempt c = attempt_no"

definition extend_capability :: "pystr \<Rightarrow> int \<Rightarrow> int \<Rightarrow> time \<Rightarrow> ledger \<Rightarrow> ledger" where
  "extend_capability i generation attempt_no expiry l = l\<lparr>capabilities :=
     update_where (\<lambda>c. is_capability i generation attempt_no c \<and> c_consumed c = None)
       (\<lambda>c. c\<lparr>c_expires := expiry\<rparr>) (capabilities l)\<rparr>"

definition issue_attempt_capability ::
    "time \<Rightarrow> pystr \<Rightarrow> int \<Rightarrow> int \<Rightarrow> pystr \<Rightarrow> pystr \<Rightarrow> pystr \<Rightarrow> pystr \<Rightarrow> time option \<Rightarrow> int \<Rightarrow> capability_row ledger_op" where
  "issue_attempt_capability now i generation attempt_no schema workspace backend token requested lease l =
     bind_res (require (backend \<in> {lit ''sdk_headless'', lit ''app_native''})
                (ValueError (lit ''unsupported capability operation or backend''))) (\<lambda>_.
     bind_res (require (is_hex 64 schema \<and> is_hex 64 token) (ValueError (lit ''capability digest is invalid''))) (\<lambda>_.
     bind_res (require (0 < lease) (ValueError (lit ''capability lease duration is invalid''))) (\<lambda>_.
     bind_res (queue_dispatch l i) (\<lambda>q.
     bind_res (require ((generation, attempt_no, backend, workspace, schema)
                   = (q_generation q, q_attempt q, q_backend q, q_workspace q, q_contract q))
                (stale ''attempt capability does not match queue binding'')) (\<lambda>_.
     let expiry = capability_expiry now lease requested
     in case select_one (is_capability i generation attempt_no) (capabilities l) of
          Some c \<Rightarrow>
            bind_res (require ((c_schema c, c_workspace c, c_backend c, c_token c) = (schema, workspace, backend, token))
                       (stale ''attempt capability facts conflict'')) (\<lambda>_.
            if c_consumed c = None \<and> c_expires c \<le> now
            then Inr (c\<lparr>c_expires := expiry\<rparr>, extend_capability i generation attempt_no expiry l)
            else Inr (c, l))
        | None \<Rightarrow>
            let c = \<lparr>c_dispatch = i, c_generation = generation, c_attempt = attempt_no, c_schema = schema,
                     c_workspace = workspace, c_backend = backend, c_issued = now, c_expires = expiry,
                     c_consumed = None, c_token = token, c_accepted = None\<rparr>
            in Inr (c, l\<lparr>capabilities := capabilities l @ [c]\<rparr>))))))"

definition worker_process_ok :: "int \<Rightarrow> int \<Rightarrow> unit res" where
  "worker_process_ok generation attempt_no =
     require (1 \<le> generation \<and> 1 \<le> attempt_no) (ValueError (lit ''worker process identity is invalid''))"

definition bind_worker_liveness ::
    "time \<Rightarrow> pystr \<Rightarrow> int \<Rightarrow> int \<Rightarrow> int \<Rightarrow> int \<Rightarrow> pystr \<Rightarrow> pystr \<Rightarrow> int \<Rightarrow> liveness_row ledger_op" where
  "bind_worker_liveness now i epoch generation attempt_no pid birth token lease l =
     bind_res (worker_process_ok generation attempt_no) (\<lambda>_.
     bind_res (require (0 < pid \<and> birth \<noteq> [] \<and> is_hex 64 token)
                (ValueError (lit ''worker liveness facts are invalid''))) (\<lambda>_.
     bind_res (expires_after now lease) (\<lambda>expires.
     bind_res (require_live_harness l epoch now) (\<lambda>_.
     bind_res (queue_dispatch l i) (\<lambda>q.
     bind_res (require ((q_generation q, q_attempt q, map_option fst (q_claim q)) = (generation, attempt_no, Some epoch))
                (stale ''worker liveness claim is stale'')) (\<lambda>_.
     bind_res (require (map_option c_token (select_one (is_capability i generation attempt_no) (capabilities l)) = Some token)
                (stale ''worker liveness token is not bound to the attempt capability'')) (\<lambda>_.
     bind_res (require (q_state q \<in> {Claimed, Starting, Running})
                (stale ''worker liveness requires an active queue claim'')) (\<lambda>_.
     let l1 = extend_capability i generation attempt_no (now + bounded_lifetime lease) l
     in bind_res (case lookup_by l_dispatch i (liveness l1) of
            Some w \<Rightarrow>
              bind_res (require ((l_generation w, l_attempt w, l_pid w, l_birth w, l_token w)
                            = (generation, attempt_no, pid, birth, token))
                         (stale ''worker liveness identity is conflicting'')) (\<lambda>_. Inr (w, l1))
          | None \<Rightarrow>
              let w = \<lparr>l_dispatch = i, l_generation = generation, l_attempt = attempt_no, l_pid = pid, l_birth = birth,
                       l_token = token, l_expires = expires, l_seen = now, l_exited = None\<rparr>
              in Inr (w, l1\<lparr>liveness := liveness l1 @ [w]\<rparr>)) (\<lambda>(w, l2).
        Inr (w, l2\<lparr>queue := update_where (\<lambda>q. q_dispatch q = i \<and> q_state q = Claimed)
                      (\<lambda>q. q\<lparr>q_state := Starting, q_updated := now\<rparr>) (queue l2)\<rparr>))))))))))"

text \<open>A worker token is presented in plain; it must be ASCII, and its digest is compared.\<close>

definition token_digest :: "ledger_env \<Rightarrow> pystr \<Rightarrow> string \<Rightarrow> pystr res" where
  "token_digest E token what = (if list_all (\<lambda>c. c < 128) token then Inr (sha256 E token) else Inl (stale what))"

definition bind_worker_thread ::
    "ledger_env \<Rightarrow> time \<Rightarrow> pystr \<Rightarrow> int \<Rightarrow> int \<Rightarrow> int \<Rightarrow> pystr \<Rightarrow> pystr \<Rightarrow> queue_row ledger_op" where
  "bind_worker_thread E now i epoch generation attempt_no token thread l =
     bind_res (worker_process_ok generation attempt_no) (\<lambda>_.
     bind_res (token_digest E token ''worker capability token is invalid'') (\<lambda>digest.
     bind_res (require_live_harness l epoch now) (\<lambda>_.
     bind_res (queue_dispatch l i) (\<lambda>q.
     bind_res (require ((q_generation q, q_attempt q, map_option fst (q_claim q)) = (generation, attempt_no, Some epoch))
                (stale ''worker thread claim is stale'')) (\<lambda>_.
     bind_res (require (map_option c_token (select_one (is_capability i generation attempt_no) (capabilities l)) = Some digest)
                (stale ''worker capability does not match thread binding'')) (\<lambda>_.
     bind_res (require (q_thread q = None \<or> q_thread q = Some thread)
                (stale ''worker thread identity is conflicting'')) (\<lambda>_.
     returning i (l\<lparr>queue := update_where (\<lambda>q. q_dispatch q = i \<and> q_state q \<in> {Claimed, Starting, Running})
       (\<lambda>q. q\<lparr>q_state := Running, q_thread := Some thread, q_updated := now\<rparr>) (queue l)\<rparr>))))))))"

definition renew_worker_liveness ::
    "ledger_env \<Rightarrow> time \<Rightarrow> pystr \<Rightarrow> int \<Rightarrow> int \<Rightarrow> pystr \<Rightarrow> int \<Rightarrow> int option \<Rightarrow> liveness_row ledger_op" where
  "renew_worker_liveness E now i generation attempt_no token lease epoch l =
     bind_res (worker_process_ok generation attempt_no) (\<lambda>_.
     bind_res (token_digest E token ''worker lease token is invalid'') (\<lambda>digest.
     bind_res (case epoch of None \<Rightarrow> Inr () | Some e \<Rightarrow> require_live_harness l e now) (\<lambda>_.
     case lookup_by l_dispatch i (liveness l) of
       None \<Rightarrow> Inl (stale ''worker liveness lease does not exist'')
     | Some w \<Rightarrow>
         bind_res (require ((l_generation w, l_attempt w, l_token w) = (generation, attempt_no, digest))
                    (stale ''worker liveness lease is stale'')) (\<lambda>_.
         bind_res (require (map_option q_state (lookup_by q_dispatch i (queue l)) \<in> {Some Starting, Some Running})
                    (stale ''worker liveness lease is no longer active'')) (\<lambda>_.
         bind_res (expires_after now lease) (\<lambda>expires.
         let l1 = l\<lparr>liveness := update_where (\<lambda>w. l_dispatch w = i)
                     (\<lambda>w. w\<lparr>l_expires := expires, l_seen := now\<rparr>) (liveness l)\<rparr>
         in Inr (w\<lparr>l_expires := expires, l_seen := now\<rparr>,
                 extend_capability i generation attempt_no (now + bounded_lifetime lease) l1)))))))"

definition adopt_live_worker :: "time \<Rightarrow> pystr \<Rightarrow> int \<Rightarrow> int \<Rightarrow> pystr \<Rightarrow> pystr \<Rightarrow> queue_row ledger_op" where
  "adopt_live_worker now i epoch pid birth nonce l =
     bind_res (require (0 < epoch \<and> 0 < pid \<and> birth \<noteq> []) (ValueError (lit ''live worker adoption facts are invalid''))) (\<lambda>_.
     bind_res (require (is_hex 64 nonce) (ValueError (lit ''worker adoption claim nonce is invalid''))) (\<lambda>_.
     bind_res (require_live_harness l epoch now) (\<lambda>_.
     case (lookup_by q_dispatch i (queue l), lookup_by l_dispatch i (liveness l)) of
       (Some q, Some w) \<Rightarrow>
         bind_res (require (l_pid w = pid \<and> l_birth w = birth \<and> l_exited w = None)
                    (stale ''worker adoption identity is stale'')) (\<lambda>_.
         bind_res (require (q_state q \<in> {Claimed, Starting, Running})
                    (stale ''only an active worker may be adopted'')) (\<lambda>_.
         returning i (l\<lparr>queue := update_where (\<lambda>q. q_dispatch q = i \<and> q_state q \<in> {Claimed, Starting, Running})
           (\<lambda>q. q\<lparr>q_claim := Some (epoch, nonce), q_updated := now\<rparr>) (queue l)\<rparr>)))
     | _ \<Rightarrow> Inl (RecordNotFound (lit ''live worker does not exist'')))))"

section \<open>Results\<close>

definition failed_statuses :: "pystr list" where
  "failed_statuses = [lit ''failed'', lit ''external_blocked'', lit ''needs_decision'']"

definition late_result_allowed :: "ledger \<Rightarrow> pystr \<Rightarrow> int \<Rightarrow> int \<Rightarrow> bool" where
  "late_result_allowed l i generation attempt_no \<longleftrightarrow>
     (case (lookup_by rp_dispatch i (retries l), lookup_by rs_dispatch i (recoveries l), lookup_by l_dispatch i (liveness l)) of
        (Some r, Some s, Some w) \<Rightarrow>
          rp_last_failure r = Some (lit ''result_transport_after_identity'') \<and> rp_strategy r = Attention_Strategy
          \<and> rs_exit_class s = Some (lit ''result-transport-after-identity'') \<and> rs_state s = Rec_Attention
          \<and> l_generation w = generation \<and> l_attempt w = attempt_no \<and> l_exited w \<noteq> None
      | _ \<Rightarrow> False)"

definition submit_in_transaction ::
    "ledger_env \<Rightarrow> time \<Rightarrow> pystr \<Rightarrow> int \<Rightarrow> int \<Rightarrow> pystr \<Rightarrow> pystr \<Rightarrow> pystr \<Rightarrow> queue_row ledger_op" where
  "submit_in_transaction E now i generation attempt_no token raw status l =
     bind_res (worker_process_ok generation attempt_no) (\<lambda>_.
     bind_res (queue_dispatch l i) (\<lambda>q.
     case select_one (is_capability i generation attempt_no) (capabilities l) of
       None \<Rightarrow> Inl (stale ''result capability does not exist'')
     | Some c \<Rightarrow>
         bind_res (require ((c_generation c, c_attempt c, c_backend c, c_workspace c, c_schema c)
                       = (q_generation q, q_attempt q, q_backend q, q_workspace q, q_contract q))
                    (stale ''result capability binding is conflicting'')) (\<lambda>_.
         bind_res (token_digest E token ''result capability token is invalid'') (\<lambda>digest.
         bind_res (require (c_token c = digest) (stale ''result capability token is invalid'')) (\<lambda>_.
         bind_res (require (\<not> (\<exists>a\<in>set (controls l). rc_dispatch a = i \<and> rc_kind a = lit ''cancel''))
                    (stale ''pending worker cancellation rejects a result'')) (\<lambda>_.
         bind_res (require (q_state q \<noteq> Queue_Cancelled) (stale ''cancelled queue dispatch rejects a result'')) (\<lambda>_.
         if q_state q \<in> {Queue_Completed, Queue_Failed}
         then bind_res (require (map_option snd (q_raw q) = Some (sha256 E raw))
                         (stale ''terminal queue result is immutable'')) (\<lambda>_. Inr (q, l))
         else if c_consumed c \<noteq> None
         then bind_res (require (c_accepted c = Some (sha256 E raw))
                         (stale ''result capability has already been consumed'')) (\<lambda>_. Inr (q, l))
         else bind_res (require (now < c_expires c) (stale ''result capability has expired'')) (\<lambda>_.
           bind_res (require (q_state q \<in> {Starting, Running, Inspection_Pending, Retry_Wait, Continuation_Pending, Result_Submitted}
                         \<or> (q_state q = Human_Attention \<and> late_result_allowed l i generation attempt_no))
                      (stale ''result submission is not allowed from the queue state'')) (\<lambda>_.
           let l1 = l\<lparr>capabilities := update_where (is_capability i generation attempt_no)
                        (\<lambda>c. c\<lparr>c_consumed := Some now, c_accepted := Some (sha256 E raw)\<rparr>) (capabilities l)\<rparr>;
               l2 = update_queue i (\<lambda>q. q\<lparr>q_state := Result_Submitted, q_raw := Some (raw, sha256 E raw),
                        q_terminal := Some status, q_updated := now\<rparr>) l1
           in returning i (l2\<lparr>recoveries := update_where (\<lambda>r. rs_dispatch r = i)
                (\<lambda>r. r\<lparr>rs_state := (if status \<in> set failed_statuses then Rec_Failed else Rec_Completed),
                       rs_next_eligible := None, rs_attention := None\<rparr>) (recoveries l2)\<rparr>))))))))))"

text \<open>\<open>submit_queue_result\<close>: the result is parsed under the row's contract before the transaction.\<close>

definition parse_queue_result :: "ledger_env \<Rightarrow> ledger \<Rightarrow> pystr \<Rightarrow> pystr \<Rightarrow> pystr res" where
  "parse_queue_result E l i raw =
     bind_res (queue_dispatch l i) (\<lambda>q. case result_status E (q_contract q) raw of
       None \<Rightarrow> Inl (ValueError (lit ''queue result contract is unsupported'')) | Some status \<Rightarrow> Inr status)"

definition submit_queue_result ::
    "ledger_env \<Rightarrow> time \<Rightarrow> pystr \<Rightarrow> int \<Rightarrow> int \<Rightarrow> pystr \<Rightarrow> pystr \<Rightarrow> queue_row ledger_op" where
  "submit_queue_result E now i generation attempt_no token raw l =
     bind_res (parse_queue_result E l i raw) (\<lambda>status.
     atomically (validate_rows E) (submit_in_transaction E now i generation attempt_no token raw status) l)"

definition authorize_successor :: "time \<Rightarrow> pystr \<Rightarrow> pystr \<Rightarrow> successor_row ledger_op" where
  "authorize_successor now source successor l =
     bind_res (require (source \<noteq> [] \<and> successor \<noteq> [] \<and> source \<noteq> successor)
                (ValueError (lit ''successor identity is invalid''))) (\<lambda>_.
     case (lookup_by q_dispatch source (queue l), lookup_by q_dispatch successor (queue l)) of
       (Some s, Some t) \<Rightarrow>
         bind_res (require (q_state s \<notin> {Result_Submitted, Finalizing, Queue_Completed, Queue_Failed, Queue_Cancelled})
                    (stale ''successor authorization must precede source execution'')) (\<lambda>_.
         bind_res (require (q_state t = Queued) (stale ''successor authorization requires a queued dispatch'')) (\<lambda>_.
         case select_one (\<lambda>a. as_source a = source \<and> as_successor a = successor) (successors l) of
           Some a \<Rightarrow> Inr (a, l)
         | None \<Rightarrow> let a = \<lparr>as_source = source, as_successor = successor, as_released = None\<rparr>
                   in Inr (a, l\<lparr>successors := successors l @ [a]\<rparr>)))
     | _ \<Rightarrow> Inl (RecordNotFound (lit ''successor authorization references an unknown queue dispatch'')))"

end
