(* ===== verification/Ledger_Execution.thy ===== *)
theory Ledger_Execution
  imports Ledger_Queue
begin

text \<open>
  Runs, milestones, dispatch claims, the transition of a milestone, and the life of one execution
  from its plan to its terminal result, as src/src/codex_flow/ledger.py writes them.  Each operation
  is the body of one transaction; \<open>now\<close> is what \<open>utc_now\<close> returned.  The re-reading of a row that was
  just written (\<open>_verify_run\<close> and its kin) guards against database triggers and is not modelled.
\<close>

section \<open>Records\<close>

definition create_run :: "time \<Rightarrow> pystr \<Rightarrow> run_row ledger_op" where
  "create_run now r l =
     bind_res (validated_identifier ''run id'' r) (\<lambda>_.
     case lookup_by run_id r (runs l) of
       Some row \<Rightarrow> Inr (row, l)
     | None \<Rightarrow> let row = \<lparr>run_id = r, run_created = now, run_closed = None, run_program = None\<rparr>
               in Inr (row, l\<lparr>runs := runs l @ [row]\<rparr>))"

definition get_run :: "ledger \<Rightarrow> pystr \<Rightarrow> run_row res" where
  "get_run l r = (case lookup_by run_id r (runs l) of
     None \<Rightarrow> Inl (RecordNotFound (lit ''run does not exist'')) | Some row \<Rightarrow> Inr row)"

definition close_run :: "time \<Rightarrow> pystr \<Rightarrow> run_row ledger_op" where
  "close_run now r l =
     bind_res (get_run l r) (\<lambda>row.
     let row' = row\<lparr>run_closed := (case run_closed row of None \<Rightarrow> Some now | Some t \<Rightarrow> Some t)\<rparr>
     in Inr (row', l\<lparr>runs := update_where (\<lambda>x. run_id x = r)
               (\<lambda>x. x\<lparr>run_closed := (case run_closed x of None \<Rightarrow> Some now | Some t \<Rightarrow> Some t)\<rparr>) (runs l)\<rparr>))"

definition create_milestone :: "time \<Rightarrow> pystr \<Rightarrow> pystr \<Rightarrow> milestone_row ledger_op" where
  "create_milestone now r m l =
     bind_res (validated_identifier ''run id'' r) (\<lambda>_.
     bind_res (validated_identifier ''milestone id'' m) (\<lambda>_.
     bind_res (get_run l r) (\<lambda>_.
     case lookup_by ms_key (MKey r m) (milestones l) of
       Some row \<Rightarrow> Inr (row, l)
     | None \<Rightarrow> let row = \<lparr>ms_key = MKey r m, ms_state = PLANNED, ms_created = now, ms_updated = now\<rparr>
               in Inr (row, l\<lparr>milestones := milestones l @ [row]\<rparr>))))"

definition get_milestone :: "ledger \<Rightarrow> mkey \<Rightarrow> milestone_row res" where
  "get_milestone l k = (case lookup_by ms_key k (milestones l) of
     None \<Rightarrow> Inl (RecordNotFound (lit ''milestone does not exist'')) | Some row \<Rightarrow> Inr row)"

definition current_state :: "ledger \<Rightarrow> mkey \<Rightarrow> workflow_state res" where
  "current_state l k = bind_res (get_milestone l k) (\<lambda>m. Inr (ms_state m))"

definition get_execution :: "ledger \<Rightarrow> mkey \<Rightarrow> execution_row res" where
  "get_execution l k = (case lookup_by ex_key k (executions l) of
     None \<Rightarrow> Inl (RecordNotFound (lit ''execution does not exist'')) | Some row \<Rightarrow> Inr row)"

definition get_execution_integrity :: "ledger \<Rightarrow> mkey \<Rightarrow> integrity_row res" where
  "get_execution_integrity l k = (case lookup_by in_key k (integrity l) of
     None \<Rightarrow> Inl (KeyError (lit ''unknown execution integrity'')) | Some row \<Rightarrow> Inr row)"

section \<open>Events and transitions\<close>

definition next_sequence :: "ledger \<Rightarrow> mkey \<Rightarrow> int" where
  "next_sequence l k = fold max (map ev_sequence (filter (\<lambda>e. ev_key e = k) (events l))) 0 + 1"

definition append_event ::
    "time \<Rightarrow> mkey \<Rightarrow> workflow_state \<Rightarrow> workflow_state \<Rightarrow> event_type \<Rightarrow> reason_code option \<Rightarrow> pystr option
     \<Rightarrow> event_row ledger_op" where
  "append_event now k src tgt kind why dispatch l =
     bind_res (event_id_of k (next_sequence l k)) (\<lambda>i.
     let e = \<lparr>ev_id = i, ev_key = k, ev_sequence = next_sequence l k, ev_from = Some src, ev_to = tgt, ev_type = kind,
              ev_reason = why, ev_dispatch = dispatch, ev_occurred = now\<rparr>
     in Inr (e, l\<lparr>events := events l @ [e]\<rparr>))"

definition set_milestone_state :: "time \<Rightarrow> mkey \<Rightarrow> workflow_state \<Rightarrow> ledger \<Rightarrow> ledger" where
  "set_milestone_state now k st l = l\<lparr>milestones :=
     update_where (\<lambda>m. ms_key m = k) (\<lambda>m. m\<lparr>ms_state := st, ms_updated := now\<rparr>) (milestones l)\<rparr>"

text \<open>The pair of statements every state change consists of: the milestone row and its event.\<close>

definition move_milestone ::
    "time \<Rightarrow> mkey \<Rightarrow> workflow_state \<Rightarrow> workflow_state \<Rightarrow> event_type \<Rightarrow> reason_code option \<Rightarrow> pystr option
     \<Rightarrow> event_row ledger_op" where
  "move_milestone now k src tgt kind why dispatch l =
     append_event now k src tgt kind why dispatch (set_milestone_state now k tgt l)"

definition claim_dispatch :: "time \<Rightarrow> pystr \<Rightarrow> pystr \<Rightarrow> pystr \<Rightarrow> int \<Rightarrow> dispatch_row ledger_op" where
  "claim_dispatch now r m role generation l =
     bind_res (require (generation = 1) (DispatchConflict (lit ''initial dispatch claim requires generation 1''))) (\<lambda>_.
     bind_res (dispatch_id_from_parts (r, m, role, generation)) (\<lambda>i.
     bind_res (get_run l r) (\<lambda>_.
     case lookup_by dp_id i (dispatches l) of
       Some d \<Rightarrow> Inr (d, l)
     | None \<Rightarrow>
         bind_res (require (\<not> (\<exists>d\<in>set (dispatches l). dp_key d = MKey r m \<and> dp_role d = role))
                    (DispatchConflict (lit ''milestone role is owned''))) (\<lambda>_.
         bind_res (get_milestone l (MKey r m)) (\<lambda>cur.
         bind_res (require (ms_state cur = PLANNED) (InvalidTransition (lit ''dispatch claim requires PLANNED''))) (\<lambda>_.
         let d = \<lparr>dp_id = i, dp_key = MKey r m, dp_role = role, dp_generation = generation, dp_claimed = now\<rparr>
         in bind_res (move_milestone now (MKey r m) PLANNED STARTING Dispatch_Claimed (Some DISPATCH_CLAIMED) (Some i)
                        (l\<lparr>dispatches := dispatches l @ [d]\<rparr>)) (\<lambda>(_, l'). Inr (d, l'))))))))"

text \<open>\<open>transition\<close> of the default event type and without a dispatch, which are the only ones it accepts.\<close>

definition transition ::
    "time \<Rightarrow> mkey \<Rightarrow> workflow_state \<Rightarrow> workflow_state \<Rightarrow> reason_code option \<Rightarrow> event_row ledger_op" where
  "transition now k target expected why l =
     bind_res (require (why \<noteq> Some DISPATCH_CLAIMED)
                (ValueError (lit ''dispatch_claimed reason is reserved for claim_dispatch''))) (\<lambda>_.
     bind_res (get_milestone l k) (\<lambda>cur.
     bind_res (require (ms_state cur = expected) (stale ''stale milestone writer'')) (\<lambda>_.
     bind_res (require (\<not> (ms_state cur = PLANNED \<and> target = STARTING))
                (InvalidTransition (lit ''PLANNED -> STARTING is reserved for claim_dispatch''))) (\<lambda>_.
     bind_res (require (is_transition_allowed (ms_state cur) target)
                (InvalidTransition (lit ''the transition is not allowed''))) (\<lambda>_.
     move_milestone now k (ms_state cur) target State_Transition
       (if why = None \<and> target \<in> set TERMINAL_STATES then Some TERMINAL_OUTCOME else why) None l)))))"

section \<open>Planning and the workspace lease\<close>

definition terminal_status :: "execution_status \<Rightarrow> bool" where
  "terminal_status s \<longleftrightarrow> s \<in> {EX_COMPLETED, EX_FAILED, EX_CANCELLED}"

definition reject_terminal :: "execution_row \<Rightarrow> unit res" where
  "reject_terminal x = require (\<not> terminal_status (ex_status x)) (stale ''terminal execution rejects further mutation'')"

definition update_execution :: "mkey \<Rightarrow> (execution_row \<Rightarrow> execution_row) \<Rightarrow> ledger \<Rightarrow> ledger" where
  "update_execution k f l = l\<lparr>executions := update_where (\<lambda>x. ex_key x = k) f (executions l)\<rparr>"

definition update_integrity :: "mkey \<Rightarrow> (integrity_row \<Rightarrow> integrity_row) \<Rightarrow> ledger \<Rightarrow> ledger" where
  "update_integrity k f l = l\<lparr>integrity := update_where (\<lambda>x. in_key x = k) f (integrity l)\<rparr>"

definition returning_execution :: "mkey \<Rightarrow> ledger \<Rightarrow> (execution_row \<times> ledger) res" where
  "returning_execution k l = bind_res (get_execution l k) (\<lambda>x. Inr (x, l))"

text \<open>The facts of a plan: where the capsule is, its digest, and what the execution will use.\<close>

record plan =
  pl_path :: pystr
  pl_sha :: pystr
  pl_workspace :: pystr
  pl_model :: pystr
  pl_effort :: pystr
  pl_protected :: pystr

definition plan_execution :: "time \<Rightarrow> mkey \<Rightarrow> plan \<Rightarrow> execution_row ledger_op" where
  "plan_execution now k p l =
     bind_res (require (is_hex 64 (pl_sha p) \<and> is_hex 64 (pl_protected p))
                (ValueError (lit ''digest must be a lowercase SHA-256 digest''))) (\<lambda>_.
     bind_res (require (pl_path p \<noteq> [] \<and> hd (pl_path p) = slash) (ValueError (lit ''capsule path must be absolute''))) (\<lambda>_.
     bind_res (get_run l (mk_run k)) (\<lambda>_.
     bind_res (get_milestone l k) (\<lambda>_.
     case lookup_by ex_key k (executions l) of
       Some x \<Rightarrow>
         bind_res (reject_terminal x) (\<lambda>_.
         bind_res (require ((ex_capsule_path x, ex_capsule_sha x, ex_workspace x, ex_model x, ex_effort x, ex_protected_before x)
                       = (pl_path p, pl_sha p, pl_workspace p, pl_model p, pl_effort p, pl_protected p))
                    (WorkspaceLeaseConflict (lit ''execution capsule conflicts with its durable plan''))) (\<lambda>_. Inr (x, l)))
     | None \<Rightarrow>
         let x = \<lparr>ex_key = k, ex_capsule_path = pl_path p, ex_capsule_sha = pl_sha p, ex_workspace = pl_workspace p,
                  ex_model = pl_model p, ex_effort = pl_effort p, ex_status = EX_PLANNED, ex_checkpoint = CAPSULE_PLANNED,
                  ex_thread = None, ex_turn = None, ex_output = None, ex_result = None, ex_validation = None,
                  ex_protected_before = pl_protected p, ex_protected_after = None, ex_created = now, ex_updated = now\<rparr>
         in Inr (x, l\<lparr>executions := executions l @ [x]\<rparr>)))))"

text \<open>Another execution that holds the workspace: not terminal, and past its plan.\<close>

definition holds_workspace :: "pystr \<Rightarrow> execution_row \<Rightarrow> bool" where
  "holds_workspace w x \<longleftrightarrow> ex_workspace x = w \<and> \<not> terminal_status (ex_status x) \<and> ex_checkpoint x \<noteq> CAPSULE_PLANNED"

definition settle_lease :: "mkey \<Rightarrow> lease_row \<Rightarrow> ledger \<Rightarrow> (lease_row \<times> ledger) res" where
  "settle_lease k want l =
     (let owner = select_one (\<lambda>w. ls_owner w = mk_run k \<and> ls_lane w = ls_lane want) (leases l);
          path_owner = lookup_by ls_workspace (ls_workspace want) (leases l)
      in case (if owner \<noteq> None then owner else path_owner) of
           None \<Rightarrow> Inr (want, l\<lparr>leases := leases l @ [want]\<rparr>)
         | Some lease \<Rightarrow>
             bind_res (require (owner = None \<or> path_owner = None
                           \<or> map_option ls_workspace owner = map_option ls_workspace path_owner)
                        (WorkspaceLeaseConflict (lit ''run lane and workspace are leased by different owners''))) (\<lambda>_.
             bind_res (require (lease = want) (WorkspaceLeaseConflict (lit ''workspace is already leased under different facts''))) (\<lambda>_.
             bind_res (require (\<not> (\<exists>x\<in>set (executions l). holds_workspace (ls_workspace want) x \<and> ex_key x \<noteq> k))
                        (WorkspaceLeaseConflict (lit ''workspace already has a nonterminal execution owner''))) (\<lambda>_.
             Inr (lease, l)))))"

text \<open>The lease a capsule asks for, whose owner is the run of the capsule.\<close>

definition acquire_workspace_lease :: "time \<Rightarrow> mkey \<Rightarrow> lease_row \<Rightarrow> lease_row ledger_op" where
  "acquire_workspace_lease now k want l =
     bind_res (get_execution l k) (\<lambda>x.
     bind_res (reject_terminal x) (\<lambda>_.
     bind_res (require (ex_workspace x = ls_workspace want)
                (WorkspaceLeaseConflict (lit ''durable execution selected a different workspace''))) (\<lambda>_.
     bind_res (settle_lease k (want\<lparr>ls_owner := mk_run k\<rparr>) l) (\<lambda>(lease, l').
     Inr (lease, if ex_status x = EX_PLANNED \<and> ex_checkpoint x = CAPSULE_PLANNED
                 then update_execution k (\<lambda>x. x\<lparr>ex_checkpoint := WORKSPACE_LEASED, ex_updated := now\<rparr>) l' else l')))))"

section \<open>Native profile and baseline\<close>

definition signature_ok :: "pystr \<Rightarrow> bool" where
  "signature_ok s \<longleftrightarrow>
     s = lit ''missing''
     \<or> (take 5 s = lit ''file:'' \<and> is_hex 64 (drop 5 s))
     \<or> (take 10 s = lit ''directory:'' \<and> is_hex 64 (drop 10 s))"

fun baseline_ok :: "pystr \<Rightarrow> baseline \<Rightarrow> bool" where
  "baseline_ok prior [] = True"
| "baseline_ok prior ((path, signature) # rest) =
     (prior < path \<and> path \<noteq> lit ''.'' \<and> list_all (\<lambda>p. p \<noteq> [] \<and> p \<noteq> lit ''.'' \<and> p \<noteq> lit ''..'') (path_parts path)
      \<and> signature_ok signature \<and> baseline_ok path rest)"

definition check_baseline :: "baseline \<Rightarrow> unit res" where
  "check_baseline b = require (baseline_ok [] b)
     (ValueError (lit ''workspace baseline paths must be sorted unique repository-relative paths''))"

record profile_facts =
  pf_profile :: pystr
  pf_compat :: pystr
  pf_permission :: native_authority
  pf_head :: pystr
  pf_baseline :: baseline
  pf_git :: pystr

definition check_profile :: "profile_facts \<Rightarrow> unit res" where
  "check_profile p =
     bind_res (require (is_hex 64 (pf_profile p) \<and> is_hex 64 (pf_compat p))
                (ValueError (lit ''native digest must be a lowercase SHA-256 digest''))) (\<lambda>_.
     bind_res (require (is_hex 40 (pf_head p)) (ValueError (lit ''workspace baseline HEAD must be a lowercase Git SHA''))) (\<lambda>_.
     bind_res (check_baseline (pf_baseline p)) (\<lambda>_.
     require (is_hex 64 (pf_git p)) (ValueError (lit ''Git authority digest must be a lowercase SHA-256 digest'')))))"

definition record_native_profile :: "time \<Rightarrow> mkey \<Rightarrow> profile_facts \<Rightarrow> integrity_row ledger_op" where
  "record_native_profile now k p l =
     bind_res (check_profile p) (\<lambda>_.
     bind_res (get_execution l k) (\<lambda>x.
     bind_res (reject_terminal x) (\<lambda>_.
     bind_res (require (ex_status x = EX_PLANNED \<and> ex_checkpoint x \<in> {WORKSPACE_LEASED, WORKSPACE_BASELINE_DURABLE})
                (stale ''native profile binding requires a planned leased execution'')) (\<lambda>_.
     case lookup_by in_key k (integrity l) of
       Some i \<Rightarrow>
         bind_res (require ((in_profile i, in_compat i, in_permission i, in_baseline_head i, in_baseline i, in_git_before i)
                       = (pf_profile p, pf_compat p, pf_permission p, pf_head p, pf_baseline p, Some (pf_git p)))
                    (stale ''execution is already bound to a different native profile'')) (\<lambda>_. Inr (i, l))
     | None \<Rightarrow>
         let i = \<lparr>in_key = k, in_profile = pf_profile p, in_compat = pf_compat p, in_permission = pf_permission p,
                  in_baseline_head = pf_head p, in_baseline = pf_baseline p, in_terminal = None, in_turn_started = None,
                  in_git_before = Some (pf_git p), in_git_after = None, in_updated = now\<rparr>
         in Inr (i, update_execution k (\<lambda>x. x\<lparr>ex_checkpoint := WORKSPACE_BASELINE_DURABLE, ex_updated := now\<rparr>)
                      (l\<lparr>integrity := integrity l @ [i]\<rparr>))))))"

definition rebind_native_profile_for_resume ::
    "time \<Rightarrow> mkey \<Rightarrow> pystr \<Rightarrow> pystr \<Rightarrow> native_authority \<Rightarrow> integrity_row ledger_op" where
  "rebind_native_profile_for_resume now k profile compat_sha candidate l =
     bind_res (require (is_hex 64 profile \<and> is_hex 64 compat_sha)
                (ValueError (lit ''native digest must be a lowercase SHA-256 digest''))) (\<lambda>_.
     bind_res (get_execution l k) (\<lambda>x.
     bind_res (reject_terminal x) (\<lambda>_.
     bind_res (require (ex_status x = EX_THREAD_STARTED \<and> ex_thread x \<noteq> None)
                (stale ''native profile resume rebind requires a durable active SDK thread'')) (\<lambda>_.
     bind_res (get_execution_integrity l k) (\<lambda>i.
     bind_res (require (in_compat i = compat_sha)
                (NativeCompatibilityConflict (lit ''native provider/routing/discovery compatibility changed''))) (\<lambda>_.
     case meet (in_permission i) candidate of
       Inl _ \<Rightarrow> Inl (NativePermissionConflict (lit ''native permission authority changed incompatibly''))
     | Inr effective \<Rightarrow>
         let l' = update_integrity k (\<lambda>i. i\<lparr>in_profile := profile, in_permission := effective, in_updated := now\<rparr>) l
         in bind_res (get_execution_integrity l' k) (\<lambda>i'. Inr (i', l'))))))))"

definition record_git_authority_before :: "time \<Rightarrow> mkey \<Rightarrow> pystr \<Rightarrow> integrity_row ledger_op" where
  "record_git_authority_before now k authority l =
     bind_res (require (is_hex 64 authority) (ValueError (lit ''Git authority digest must be a lowercase SHA-256 digest''))) (\<lambda>_.
     bind_res (get_execution l k) (\<lambda>x.
     bind_res (reject_terminal x) (\<lambda>_.
     bind_res (require (ex_status x = EX_THREAD_STARTED \<and> ex_thread x \<noteq> None)
                (stale ''Git authority binding requires a durable active SDK thread'')) (\<lambda>_.
     bind_res (get_execution_integrity l k) (\<lambda>i.
     case in_git_before i of
       Some g \<Rightarrow> bind_res (require (g = authority) (stale ''execution Git authority changed before its SDK turn'')) (\<lambda>_. Inr (i, l))
     | None \<Rightarrow>
         let l' = update_integrity k (\<lambda>i. i\<lparr>in_git_before := Some authority, in_updated := now\<rparr>) l
         in bind_res (get_execution_integrity l' k) (\<lambda>i'. Inr (i', l')))))))"

section \<open>The thread boundary\<close>

definition at_thread_boundary :: "execution_row \<Rightarrow> bool" where
  "at_thread_boundary x \<longleftrightarrow> ex_status x = EX_PLANNED \<and> ex_checkpoint x = THREAD_STARTING \<and> ex_thread x = None"

definition record_thread_starting :: "time \<Rightarrow> mkey \<Rightarrow> execution_row ledger_op" where
  "record_thread_starting now k l =
     bind_res (get_execution l k) (\<lambda>x.
     bind_res (reject_terminal x) (\<lambda>_.
     bind_res (require (ex_status x = EX_PLANNED) (stale ''SDK thread start requires a planned execution'')) (\<lambda>_.
     if ex_checkpoint x = THREAD_STARTING then Inr (x, l)
     else bind_res (require (ex_checkpoint x = WORKSPACE_BASELINE_DURABLE)
                     (stale ''SDK thread start requires a durable per-milestone workspace baseline'')) (\<lambda>_.
       returning_execution k (update_execution k (\<lambda>x. x\<lparr>ex_checkpoint := THREAD_STARTING, ex_updated := now\<rparr>) l)))))"

definition record_pre_identity_uncertainty :: "time \<Rightarrow> mkey \<Rightarrow> execution_row ledger_op" where
  "record_pre_identity_uncertainty now k l =
     bind_res (get_execution l k) (\<lambda>x.
     bind_res (reject_terminal x) (\<lambda>_.
     bind_res (require (at_thread_boundary x)
                (stale ''pre-identity uncertainty requires the active thread-start boundary'')) (\<lambda>_.
     returning_execution k (update_execution k (\<lambda>x. x\<lparr>ex_status := EX_UNCERTAIN_PRE_IDENTITY, ex_updated := now\<rparr>) l))))"

definition reject_thread_start_authorization :: "time \<Rightarrow> mkey \<Rightarrow> execution_row ledger_op" where
  "reject_thread_start_authorization now k l =
     bind_res (get_execution l k) (\<lambda>x.
     bind_res (reject_terminal x) (\<lambda>_.
     bind_res (require (at_thread_boundary x)
                (stale ''thread-start authorization rejection requires the uncalled external boundary'')) (\<lambda>_.
     returning_execution k (update_execution k (\<lambda>x. x\<lparr>ex_checkpoint := WORKSPACE_BASELINE_DURABLE, ex_updated := now\<rparr>) l))))"

definition record_thread_identity :: "time \<Rightarrow> mkey \<Rightarrow> pystr \<Rightarrow> execution_row ledger_op" where
  "record_thread_identity now k thread l =
     bind_res (get_execution l k) (\<lambda>x.
     bind_res (reject_terminal x) (\<lambda>_.
     case ex_thread x of
       Some t \<Rightarrow> bind_res (require (t = thread) (stale ''execution already owns a different SDK thread identity'')) (\<lambda>_. Inr (x, l))
     | None \<Rightarrow>
         bind_res (require (ex_status x = EX_PLANNED \<and> ex_checkpoint x = THREAD_STARTING)
                    (stale ''thread identity requires a planned leased execution'')) (\<lambda>_.
         bind_res (get_milestone l k) (\<lambda>m.
         bind_res (require (ms_state m = STARTING) (stale ''thread identity requires a STARTING workflow state'')) (\<lambda>_.
         bind_res (move_milestone now k STARTING RUNNING State_Transition None None
                     (update_execution k (\<lambda>x. x\<lparr>ex_status := EX_THREAD_STARTED, ex_checkpoint := THREAD_IDENTITY_DURABLE,
                        ex_thread := Some thread, ex_updated := now\<rparr>) l)) (\<lambda>(_, l').
         returning_execution k l'))))))"

section \<open>The turn boundary\<close>

definition record_turn_starting :: "time \<Rightarrow> mkey \<Rightarrow> execution_row ledger_op" where
  "record_turn_starting now k l =
     bind_res (get_execution l k) (\<lambda>x.
     bind_res (reject_terminal x) (\<lambda>_.
     bind_res (require (ex_status x = EX_THREAD_STARTED \<and> ex_thread x \<noteq> None)
                (stale ''turn start requires a durable SDK thread'')) (\<lambda>_.
     if ex_turn x \<noteq> None \<or> ex_output x = Some turn_starting_marker then Inr (x, l)
     else bind_res (get_execution_integrity l k) (\<lambda>_.
       returning_execution k
         (update_integrity k (\<lambda>i. i\<lparr>in_turn_started := (case in_turn_started i of None \<Rightarrow> Some now | Some t \<Rightarrow> Some t),
                                    in_updated := now\<rparr>)
           (update_execution k (\<lambda>x. x\<lparr>ex_output := Some turn_starting_marker, ex_updated := now\<rparr>) l))))))"

definition reject_turn_authorization :: "time \<Rightarrow> mkey \<Rightarrow> execution_row ledger_op" where
  "reject_turn_authorization now k l =
     bind_res (get_execution l k) (\<lambda>x.
     bind_res (reject_terminal x) (\<lambda>_.
     bind_res (get_execution_integrity l k) (\<lambda>i.
     bind_res (require (ex_status x = EX_THREAD_STARTED \<and> ex_thread x \<noteq> None \<and> ex_turn x = None
                   \<and> ex_output x = Some turn_starting_marker \<and> in_turn_started i \<noteq> None)
                (stale ''turn authorization rejection requires the uncalled external boundary'')) (\<lambda>_.
     returning_execution k
       (update_integrity k (\<lambda>i. i\<lparr>in_turn_started := None, in_updated := now\<rparr>)
         (update_execution k (\<lambda>x. x\<lparr>ex_output := None, ex_updated := now\<rparr>) l))))))"

text \<open>An observed turn; its structured output is the object that is stored, empty when there was none.\<close>

record observation =
  ob_thread :: pystr
  ob_turn :: pystr
  ob_output :: json
  ob_events :: "(int \<times> pystr \<times> pystr option) list"

definition sdk_rows :: "mkey \<Rightarrow> pystr \<Rightarrow> (int \<times> pystr \<times> pystr option) list \<Rightarrow> sdk_event_row list" where
  "sdk_rows k turn es = map (\<lambda>(n, method, t). \<lparr>se_key = k, se_turn = turn, se_sequence = n, se_method = method,
     se_event_turn = t\<rparr>) es"

definition durable_events :: "ledger \<Rightarrow> mkey \<Rightarrow> pystr \<Rightarrow> (int \<times> pystr \<times> pystr option) list" where
  "durable_events l k turn = map (\<lambda>s. (se_sequence s, se_method s, se_event_turn s))
     (sort_key se_sequence (filter (\<lambda>s. se_key s = k \<and> se_turn s = turn) (sdk_events l)))"

definition record_turn :: "time \<Rightarrow> mkey \<Rightarrow> observation \<Rightarrow> execution_row ledger_op" where
  "record_turn now k ob l =
     bind_res (get_execution l k) (\<lambda>x.
     bind_res (reject_terminal x) (\<lambda>_.
     bind_res (require (ex_status x = EX_THREAD_STARTED \<and> ex_thread x \<noteq> None)
                (stale ''turn observation requires a durable active SDK thread'')) (\<lambda>_.
     bind_res (require (ex_thread x = Some (ob_thread ob)) (stale ''turn observation belongs to a different SDK thread'')) (\<lambda>_.
     bind_res (get_execution_integrity l k) (\<lambda>i.
     case ex_turn x of
       Some t \<Rightarrow>
         bind_res (require (t = ob_turn ob) (stale ''execution already owns a different SDK turn'')) (\<lambda>_.
         bind_res (require (in_turn_started i \<noteq> None) (corrupt ''durable SDK turn lacks causal turn-start authority'')) (\<lambda>_.
         bind_res (require (ex_output x = Some (ob_output ob) \<and> durable_events l k t = ob_events ob)
                    (stale ''execution already owns different durable SDK turn facts'')) (\<lambda>_. Inr (x, l))))
     | None \<Rightarrow>
         bind_res (require (in_turn_started i \<noteq> None \<and> ex_output x = Some turn_starting_marker)
                    (stale ''turn observation requires prior durable turn-start authority'')) (\<lambda>_.
         returning_execution k
           (update_execution k (\<lambda>x. x\<lparr>ex_checkpoint := TURN_DURABLE, ex_turn := Some (ob_turn ob),
                                      ex_output := Some (ob_output ob), ex_updated := now\<rparr>)
             (l\<lparr>sdk_events := sdk_events l @ sdk_rows k (ob_turn ob) (ob_events ob)\<rparr>))))))))"

section \<open>Terminal results and cancellation\<close>

record outcome =
  oc_result :: json
  oc_status :: "pystr option"
  oc_validation :: validation
  oc_protected :: pystr
  oc_git :: pystr
  oc_terminal :: "(pystr \<times> baseline) option"

text \<open>\<open>str.lower\<close> of the status texts that matter: ASCII letters.\<close>

definition ascii_lower :: "pystr \<Rightarrow> pystr" where
  "ascii_lower s = map (\<lambda>c. if 65 \<le> c \<and> c \<le> 90 then c + 32 else c) s"

definition outcome_failed :: "pystr option \<Rightarrow> bool" where
  "outcome_failed s = (case s of None \<Rightarrow> False
     | Some t \<Rightarrow> ascii_lower (py_strip t) \<in> set (map lit [''failed'', ''failure'', ''blocked'', ''cancelled'', ''error'']))"

definition terminal_of :: "outcome \<Rightarrow> execution_status" where
  "terminal_of oc = (if va_exit (oc_validation oc) = 0 \<and> \<not> va_timed_out (oc_validation oc) \<and> \<not> outcome_failed (oc_status oc)
     then EX_COMPLETED else EX_FAILED)"

definition check_outcome :: "outcome \<Rightarrow> unit res" where
  "check_outcome oc =
     bind_res (require (is_hex 64 (oc_protected oc) \<and> is_hex 64 (oc_git oc))
                (ValueError (lit ''digest must be a lowercase SHA-256 digest''))) (\<lambda>_.
     bind_res (case oc_terminal oc of None \<Rightarrow> Inr ()
        | Some (head, b) \<Rightarrow> bind_res (require (is_hex 40 head)
            (ValueError (lit ''workspace terminal HEAD must be a lowercase Git SHA''))) (\<lambda>_. check_baseline b)) (\<lambda>_.
     require (terminal_of oc = EX_COMPLETED \<longrightarrow> oc_terminal oc \<noteq> None)
       (stale ''completed execution requires accepted terminal workspace authority'')))"

definition record_terminal_execution :: "time \<Rightarrow> mkey \<Rightarrow> outcome \<Rightarrow> execution_row ledger_op" where
  "record_terminal_execution now k oc l =
     bind_res (check_outcome oc) (\<lambda>_.
     let terminal = terminal_of oc; target = (if terminal = EX_COMPLETED then COMPLETED else FAILED)
     in bind_res (get_execution l k) (\<lambda>x.
        bind_res (reject_terminal x) (\<lambda>_.
        bind_res (require (ex_status x = EX_THREAD_STARTED \<and> ex_turn x \<noteq> None)
                   (stale ''terminal result requires a durable SDK turn'')) (\<lambda>_.
        bind_res (get_execution_integrity l k) (\<lambda>i.
        bind_res (require (in_git_before i \<noteq> None)
                   (stale ''terminal result requires a durable pre-turn Git authority snapshot'')) (\<lambda>_.
        bind_res (get_milestone l k) (\<lambda>m.
        bind_res (require (ms_state m = RUNNING) (stale ''terminal result requires a RUNNING workflow state'')) (\<lambda>_.
        bind_res (move_milestone now k RUNNING target State_Transition
                    (Some (if terminal = EX_COMPLETED then TERMINAL_OUTCOME else EXECUTION_FAILURE)) None
          (update_integrity k (\<lambda>i. i\<lparr>in_git_after := Some (oc_git oc),
               in_terminal := (if terminal = EX_COMPLETED then oc_terminal oc else None), in_updated := now\<rparr>)
            (update_execution k (\<lambda>x. x\<lparr>ex_status := terminal, ex_checkpoint := RESULT_DURABLE,
               ex_result := Some (oc_result oc), ex_validation := Some (oc_validation oc),
               ex_protected_after := Some (oc_protected oc), ex_updated := now\<rparr>) l))) (\<lambda>(_, l').
        returning_execution k l')))))))))"

definition cancel_execution :: "time \<Rightarrow> mkey \<Rightarrow> execution_row ledger_op" where
  "cancel_execution now k l =
     bind_res (get_execution l k) (\<lambda>x.
     bind_res (reject_terminal x) (\<lambda>_.
     bind_res (get_milestone l k) (\<lambda>m.
     if ms_state m \<in> set TERMINAL_STATES then Inr (x, l)
     else bind_res (case select_one (\<lambda>q. q_key q = k) (queue l) of
            None \<Rightarrow> Inr l
          | Some q \<Rightarrow> bind_res (cancel_queue_row now None False q l) (\<lambda>(_, l'). Inr l')) (\<lambda>l1.
       let l2 = update_execution k (\<lambda>x. x\<lparr>ex_status := EX_CANCELLED, ex_checkpoint := RESULT_DURABLE, ex_updated := now\<rparr>) l1;
           l3 = l2\<lparr>app_native := update_where (\<lambda>a. an_key a = k) (\<lambda>a. a\<lparr>an_state := App_Cancelled\<rparr>) (app_native l2)\<rparr>
       in bind_res (move_milestone now k (ms_state m) CANCELLED State_Transition None None l3) (\<lambda>(_, l').
          returning_execution k l')))))"

end
