(* ===== verification/Execution_Laws.thy ===== *)
theory Execution_Laws
  imports Ledger_Execution "HOL-Library.Sublist"
begin

text \<open>
  What the transactions of the workflow half of src/src/codex_flow/ledger.py keep: the rows stay
  valid without the help of the second validation, a milestone is the replay of its events, an
  execution never loses an identity it was given and never leaves a terminal status, and no two
  executions hold one workspace.
\<close>

section \<open>Validity in parts\<close>

text \<open>The part of the validation that looks at the history, the part that looks at one execution.\<close>

definition history_ok :: "ledger \<Rightarrow> bool" where
  "history_ok l \<longleftrightarrow>
     (\<forall>d\<in>set (dispatches l). check_dispatch l d = Inr ()) \<and> (\<forall>e\<in>set (events l). check_event l e = Inr ())
     \<and> (\<forall>d\<in>set (dispatches l). check_claim_count l d = Inr ()) \<and> (\<forall>m\<in>set (milestones l). check_milestone l m = Inr ())"

definition apps_ok :: "ledger \<Rightarrow> bool" where
  "apps_ok l \<longleftrightarrow> (\<forall>a\<in>set (app_native l). check_app_native l a = Inr ()) \<and> distinct (map an_key (app_native l))"

definition executions_ok :: "ledger \<Rightarrow> bool" where
  "executions_ok l \<longleftrightarrow> (\<forall>x\<in>set (executions l). check_execution l x = Inr ())"

definition integrity_ok :: "ledger \<Rightarrow> bool" where
  "integrity_ok l \<longleftrightarrow> (\<forall>i\<in>set (integrity l). check_integrity i = Inr ())"

lemma validate_workflow_iff:
  "validate_workflow l = Inr () \<longleftrightarrow>
     check_orphans l = Inr () \<and> check_duplicates l = Inr () \<and> history_ok l \<and> apps_ok l \<and> executions_ok l \<and> integrity_ok l"
  by (auto simp: validate_workflow_def bind_res_Inr_iff each_res_Inr history_ok_def apps_ok_def executions_ok_def
      integrity_ok_def)

text \<open>The primary keys SQLite enforces.\<close>

definition sql_keys :: "ledger \<Rightarrow> bool" where
  "sql_keys l \<longleftrightarrow> distinct (map run_id (runs l)) \<and> distinct (map ms_key (milestones l)) \<and> distinct (map dp_id (dispatches l))
     \<and> distinct (map ex_key (executions l)) \<and> distinct (map in_key (integrity l)) \<and> distinct (map ls_workspace (leases l))
     \<and> distinct (map an_key (app_native l))"

lemma map_update_key: "(\<And>r. key (f r) = key r) \<Longrightarrow> map key (update_where P f rows) = map key rows"
  by (simp add: map_update_where)

lemma image_update_key: "(\<And>r. key (f r) = key r) \<Longrightarrow> key ` set (update_where P f rows) = key ` set rows"
  by (metis map_update_key set_map)

lemma lookup_by_appends:
  "lookup_by key k (xs @ ys) = (case lookup_by key k xs of None \<Rightarrow> lookup_by key k ys | Some r \<Rightarrow> Some r)"
  unfolding lookup_by_def select_one_def by (induction xs) auto

lemma ball_lookup:
  assumes "distinct (map key rows)"
  shows "(\<forall>r\<in>set rows. P r) \<longleftrightarrow> (\<forall>k r. lookup_by key k rows = Some r \<longrightarrow> P r)"
  using lookup_by_unique [OF assms] by (auto dest: lookup_by_in)

section \<open>Frames\<close>

text \<open>
  An operation on the milestone \<open>k\<close> leaves everything that belongs to another milestone as it was:
  what \<open>check_execution\<close> reads of another execution.
\<close>

definition sdk_of :: "ledger \<Rightarrow> mkey \<Rightarrow> sdk_event_row list" where
  "sdk_of l k = filter (\<lambda>s. se_key s = k) (sdk_events l)"

definition state_of :: "ledger \<Rightarrow> mkey \<Rightarrow> workflow_state option" where
  "state_of l k = map_option ms_state (lookup_by ms_key k (milestones l))"

definition frame :: "mkey \<Rightarrow> ledger \<Rightarrow> ledger \<Rightarrow> bool" where
  "frame k l l' \<longleftrightarrow>
     (\<forall>j. j \<noteq> k \<longrightarrow> lookup_by ex_key j (executions l') = lookup_by ex_key j (executions l)
        \<and> lookup_by in_key j (integrity l') = lookup_by in_key j (integrity l)
        \<and> lookup_by an_key j (app_native l') = lookup_by an_key j (app_native l)
        \<and> state_of l' j = state_of l j \<and> sdk_of l' j = sdk_of l j)
     \<and> (\<forall>w r. lookup_by ls_workspace w (leases l) = Some r \<longrightarrow> lookup_by ls_workspace w (leases l') = Some r)"

lemma frame_refl: "frame k l l"
  by (simp add: frame_def)

lemma frame_trans: "frame k l l' \<Longrightarrow> frame k l' l'' \<Longrightarrow> frame k l l''"
  by (simp add: frame_def)

text \<open>\<open>check_execution\<close> as a function of what it reads.\<close>

definition leased :: "ledger \<Rightarrow> pystr \<Rightarrow> pystr \<Rightarrow> bool" where
  "leased l w r \<longleftrightarrow> (case lookup_by ls_workspace w (leases l) of None \<Rightarrow> False | Some lease \<Rightarrow> ls_owner lease = r)"

lemma check_owner_iff:
  "check_owner l x = Inr () \<longleftrightarrow>
     (\<forall>a. lookup_by an_key (ex_key x) (app_native l) = Some a \<longrightarrow>
        na_workspace (an_action a) = ex_workspace x \<and> leased l (ex_workspace x) (mk_run (ex_key x))
        \<and> map_option snd (an_identity a) = ex_thread x)
     \<and> (ex_status x \<in> {EX_PLANNED, EX_CANCELLED} \<or> lookup_by in_key (ex_key x) (integrity l) \<noteq> None
         \<or> lookup_by an_key (ex_key x) (app_native l) \<noteq> None)
     \<and> (ex_status x \<in> {EX_PLANNED, EX_CANCELLED} \<or> leased l (ex_workspace x) (mk_run (ex_key x)))"
  by (auto simp: check_owner_def leased_def Let_def bind_res_Inr_iff split: option.splits)

lemma check_turn_iff:
  "check_turn l x = Inr () \<longleftrightarrow>
     (let rows = sort_key (\<lambda>s. (se_turn s, se_sequence s)) (sdk_of l (ex_key x))
      in ex_turn x = None \<or> rows = [] \<or> map se_sequence rows = map int [0..<length rows])
     \<and> (\<forall>i. lookup_by in_key (ex_key x) (integrity l) = Some i \<longrightarrow>
          in_git_before i \<noteq> None \<and> (ex_status x = EX_COMPLETED \<longrightarrow> in_terminal i \<noteq> None)
          \<and> (ex_turn x \<noteq> None \<longrightarrow> in_turn_started i \<noteq> None)
          \<and> (ex_turn x = None \<and> in_turn_started i \<noteq> None \<longrightarrow> ex_output x = Some turn_starting_marker)
          \<and> (ex_output x = Some turn_starting_marker \<longrightarrow> in_turn_started i \<noteq> None))"
  by (cases "lookup_by in_key (ex_key x) (integrity l)")
    (simp_all add: check_turn_def sdk_of_def Let_def bind_res_Inr_iff)

lemma check_execution_iff:
  "check_execution l x = Inr () \<longleftrightarrow>
     check_owner l x = Inr () \<and> check_turn l x = Inr ()
     \<and> (\<exists>st. state_of l (ex_key x) = Some st
          \<and> check_status (lookup_by an_key (ex_key x) (app_native l)) st x = Inr ())"
  by (cases "lookup_by ms_key (ex_key x) (milestones l)")
    (auto simp: check_execution_def state_of_def bind_res_Inr_iff)

lemma frame_leased: "frame k l l' \<Longrightarrow> leased l w r \<Longrightarrow> leased l' w r"
  by (auto simp: frame_def leased_def split: option.splits)

lemma frame_check_execution:
  assumes "frame k l l'" "ex_key x \<noteq> k" "check_execution l x = Inr ()"
  shows "check_execution l' x = Inr ()"
proof -
  from assms(1,2) have eq: "lookup_by in_key (ex_key x) (integrity l') = lookup_by in_key (ex_key x) (integrity l)"
    "lookup_by an_key (ex_key x) (app_native l') = lookup_by an_key (ex_key x) (app_native l)"
    "state_of l' (ex_key x) = state_of l (ex_key x)" "sdk_of l' (ex_key x) = sdk_of l (ex_key x)"
    by (simp_all add: frame_def)
  have mono: "leased l w r \<Longrightarrow> leased l' w r" for w r by (rule frame_leased [OF assms(1)])
  from assms(3) have owner: "check_owner l x = Inr ()" and turn: "check_turn l x = Inr ()"
    and st: "\<exists>st. state_of l (ex_key x) = Some st \<and> check_status (lookup_by an_key (ex_key x) (app_native l)) st x = Inr ()"
    by (simp_all add: check_execution_iff)
  from turn have turn': "check_turn l' x = Inr ()" unfolding check_turn_iff eq .
  have owner': "check_owner l' x = Inr ()"
  proof (cases "leased l (ex_workspace x) (mk_run (ex_key x))")
    case True
    with mono have same: "leased l' (ex_workspace x) (mk_run (ex_key x)) = leased l (ex_workspace x) (mk_run (ex_key x))" by simp
    from owner show ?thesis unfolding check_owner_iff eq same .
  next
    case False
    with owner have "lookup_by an_key (ex_key x) (app_native l) = None" "ex_status x \<in> {EX_PLANNED, EX_CANCELLED}"
      unfolding check_owner_iff by (metis option.exhaust, metis)
    then show ?thesis by (simp add: check_owner_iff eq)
  qed
  from turn' owner' st show ?thesis unfolding check_execution_iff eq by (intro conjI)
qed

lemma executions_ok_frame:
  assumes "executions_ok l" "frame k l l'" "sql_keys l" "sql_keys l'"
    and "\<And>x. lookup_by ex_key k (executions l') = Some x \<Longrightarrow> check_execution l' x = Inr ()"
  shows "executions_ok l'"
proof -
  from assms(3,4) have d: "distinct (map ex_key (executions l))" "distinct (map ex_key (executions l'))"
    by (simp_all add: sql_keys_def)
  have "check_execution l' x = Inr ()" if x: "lookup_by ex_key j (executions l') = Some x" for j x
  proof (cases "j = k")
    case False
    with assms(2) x have old: "lookup_by ex_key j (executions l) = Some x" by (simp add: frame_def)
    from lookup_by_in [OF old] have x': "x \<in> set (executions l)" "ex_key x \<noteq> k" using False by auto
    with assms(1) have "check_execution l x = Inr ()" by (simp add: executions_ok_def)
    with frame_check_execution [OF assms(2) x'(2)] show ?thesis .
  qed (use assms(5) x in simp)
  then show ?thesis using lookup_by_unique [OF d(2)] by (auto simp: executions_ok_def)
qed

section \<open>The event history\<close>

lemma insort_key_last: "f a \<le> f x \<Longrightarrow> insort_key f a (ys @ [x]) = insort_key f a ys @ [x]"
  by (induction ys) auto

lemma sort_key_append_max:
  "(\<And>y. y \<in> set xs \<Longrightarrow> f y \<le> f x) \<Longrightarrow> sort_key f (xs @ [x]) = sort_key f xs @ [x]"
  by (induction xs) (simp_all add: insort_key_last)

lemma fold_max_bounds: "a \<le> fold max xs (a::int) \<and> (\<forall>x\<in>set xs. x \<le> fold max xs a) \<and> fold max xs a \<in> insert a (set xs)"
proof (induction xs arbitrary: a)
  case (Cons x xs)
  from Cons.IH [of "max x a"] show ?case by auto
qed simp

lemma set_history: "set (history l k) = {e \<in> set (events l). ev_key e = k}"
  by (auto simp: history_def)

lemma next_sequence_above: "e \<in> set (events l) \<Longrightarrow> ev_key e = k \<Longrightarrow> ev_sequence e < next_sequence l k"
  using fold_max_bounds [of 0 "map ev_sequence (filter (\<lambda>e. ev_key e = k) (events l))"]
  by (fastforce simp: next_sequence_def)

lemma next_sequence_length:
  assumes "map ev_sequence (history l k) = map int [1..<Suc (length (history l k))]"
  shows "next_sequence l k = int (length (history l k)) + 1"
proof -
  let ?xs = "map ev_sequence (filter (\<lambda>e. ev_key e = k) (events l))" and ?n = "length (history l k)"
  have xs: "set ?xs = int ` {1..<Suc ?n}"
  proof -
    have "set ?xs = set (map ev_sequence (history l k))" by (auto simp: set_history)
    also have "\<dots> = int ` {1..<Suc ?n}" unfolding assms by auto
    finally show ?thesis .
  qed
  note b = fold_max_bounds [of 0 ?xs]
  have le: "fold max ?xs 0 \<le> int ?n" using b unfolding xs by auto
  have ge: "int ?n \<le> fold max ?xs 0"
  proof (cases "?n = 0")
    case False
    then have "?n \<in> {1..<Suc ?n}" by (simp add: Suc_leI)
    then have "int ?n \<in> set ?xs" unfolding xs by (rule imageI)
    with b show ?thesis by blast
  qed (use b in simp)
  from le ge show ?thesis by (simp add: next_sequence_def)
qed

lemma history_append:
  assumes "events l' = events l @ [e]" "ev_sequence e = next_sequence l (ev_key e)"
  shows "history l' j = (if j = ev_key e then history l j @ [e] else history l j)"
proof (cases "j = ev_key e")
  case True
  have "sort_key ev_sequence (filter (\<lambda>e. ev_key e = j) (events l) @ [e]) = sort_key ev_sequence (filter (\<lambda>e. ev_key e = j) (events l)) @ [e]"
    by (rule sort_key_append_max) (use next_sequence_above [of _ l j] assms(2) True in \<open>auto intro: less_imp_le\<close>)
  with True assms(1) show ?thesis by (simp add: history_def)
next
  case False
  with assms(1) show ?thesis by (simp add: history_def)
qed

lemma replay_append: "replay s (es @ [e]) = (case replay s es of None \<Rightarrow> None | Some t \<Rightarrow> if ev_from e = Some t then Some (ev_to e) else None)"
  by (induction es arbitrary: s) auto

lemma check_milestone_iff:
  "check_milestone l m = Inr () \<longleftrightarrow>
     map ev_sequence (history l (ms_key m)) = map int [1..<Suc (length (history l (ms_key m)))]
     \<and> replay PLANNED (history l (ms_key m)) = Some (ms_state m)"
  by (auto simp: check_milestone_def Let_def bind_res_Inr_iff split: option.splits)

lemma check_milestone_append:
  assumes "check_milestone l m = Inr ()" "events l' = events l @ [e]" "ev_sequence e = next_sequence l (ev_key e)"
    and "ms_key m' = ms_key m"
    and "ms_key m = ev_key e \<Longrightarrow> ev_from e = Some (ms_state m) \<and> ms_state m' = ev_to e"
    and "ms_key m \<noteq> ev_key e \<Longrightarrow> ms_state m' = ms_state m"
  shows "check_milestone l' m' = Inr ()"
proof (cases "ms_key m = ev_key e")
  case False
  with assms show ?thesis by (simp add: check_milestone_iff history_append [OF assms(2,3)])
next
  case True
  let ?h = "history l (ev_key e)"
  from assms(1) True have seq: "map ev_sequence ?h = map int [1..<Suc (length ?h)]"
    and rep: "replay PLANNED ?h = Some (ms_state m)" by (simp_all add: check_milestone_iff)
  from next_sequence_length [OF seq] assms(3) have "ev_sequence e = int (length ?h) + 1" by simp
  with seq rep True assms(4,5) show ?thesis
    by (simp add: check_milestone_iff history_append [OF assms(2,3)] replay_append)
qed

lemma check_claim_mono:
  assumes "dispatches l' = dispatches l @ ds" "check_event l e = Inr ()"
  shows "check_event l' e = Inr ()"
proof -
  have "check_claim l' e = Inr ()" if "check_claim l e = Inr ()"
  proof -
    from that obtain i d where "ev_dispatch e = Some i" "lookup_by dp_id i (dispatches l) = Some d"
      by (auto simp: check_claim_def bind_res_Inr_iff split: option.splits)
    moreover from this have "lookup_by dp_id i (dispatches l') = Some d" by (simp add: assms(1) lookup_by_appends)
    ultimately show ?thesis using that by (simp add: check_claim_def)
  qed
  with assms(2) show ?thesis by (auto simp: check_event_def bind_res_Inr_iff)
qed

lemma check_dispatch_keys:
  "ms_key ` set (milestones l') = ms_key ` set (milestones l) \<Longrightarrow> check_dispatch l' d = check_dispatch l d"
  by (simp add: check_dispatch_def)

lemma history_ok_append:
  assumes ok: "history_ok l" and keys: "sql_keys l"
    and l': "dispatches l' = dispatches l @ ds" "events l' = events l @ [e]"
      "milestones l' = update_where (\<lambda>m. ms_key m = ev_key e) (\<lambda>m. m\<lparr>ms_state := ev_to e, ms_updated := now\<rparr>) (milestones l)"
    and m: "lookup_by ms_key (ev_key e) (milestones l) = Some m" "ev_from e = Some (ms_state m)"
    and e: "ev_sequence e = next_sequence l (ev_key e)" "check_event l' e = Inr ()"
    and d: "\<And>d. d \<in> set ds \<Longrightarrow> check_dispatch l' d = Inr ()"
      "\<And>d. d \<in> set (dispatches l') \<Longrightarrow> check_claim_count l' d = Inr ()"
  shows "history_ok l'"
proof -
  have keys': "ms_key ` set (milestones l') = ms_key ` set (milestones l)"
    by (simp add: l'(3) image_update_key)
  have "check_dispatch l' r = Inr ()" if "r \<in> set (dispatches l')" for r
    using that ok d(1) by (auto simp: l'(1) history_ok_def check_dispatch_keys [OF keys'])
  moreover have "check_event l' r = Inr ()" if "r \<in> set (events l')" for r
    using that ok e(2) check_claim_mono [OF l'(1)] by (auto simp: l'(2) history_ok_def)
  moreover have "check_milestone l' r = Inr ()" if r: "r \<in> set (milestones l')" for r
  proof -
    from r obtain r0 where r0: "r0 \<in> set (milestones l)"
      "r = (if ms_key r0 = ev_key e then r0\<lparr>ms_state := ev_to e, ms_updated := now\<rparr> else r0)"
      unfolding l'(3) update_where_def by auto
    from keys have dist: "distinct (map ms_key (milestones l))" by (simp add: sql_keys_def)
    have old: "check_milestone l r0 = Inr ()" using ok r0(1) by (simp add: history_ok_def)
    have same: "r0 = m" if "ms_key r0 = ev_key e"
      using lookup_by_unique [OF dist r0(1)] that m(1) by simp
    show ?thesis
      by (rule check_milestone_append [OF old l'(2) e(1)]) (use r0(2) same m(2) in auto)
  qed
  ultimately show ?thesis using d(2) by (simp add: history_ok_def)
qed

text \<open>Moving a milestone by a plain transition.\<close>

lemma move_milestone_fields:
  assumes "move_milestone now k src tgt kind why dispatch l = Inr (e, l')"
  shows "event_id_of k (next_sequence l k) = Inr (ev_id e)"
    "e = \<lparr>ev_id = ev_id e, ev_key = k, ev_sequence = next_sequence l k, ev_from = Some src, ev_to = tgt, ev_type = kind,
          ev_reason = why, ev_dispatch = dispatch, ev_occurred = now\<rparr>"
    "l' = (set_milestone_state now k tgt l)\<lparr>events := events l @ [e]\<rparr>"
proof -
  have "next_sequence (set_milestone_state now k tgt l) k = next_sequence l k"
    "events (set_milestone_state now k tgt l) = events l"
    by (simp_all add: next_sequence_def set_milestone_state_def)
  with assms show "event_id_of k (next_sequence l k) = Inr (ev_id e)"
    "e = \<lparr>ev_id = ev_id e, ev_key = k, ev_sequence = next_sequence l k, ev_from = Some src, ev_to = tgt, ev_type = kind,
          ev_reason = why, ev_dispatch = dispatch, ev_occurred = now\<rparr>"
    "l' = (set_milestone_state now k tgt l)\<lparr>events := events l @ [e]\<rparr>"
    by (auto simp: move_milestone_def append_event_def bind_res_Inr_iff Let_def)
qed

lemma move_milestone_history:
  assumes "move_milestone now k src tgt State_Transition why None l = Inr (e, l')"
    and "history_ok l" "sql_keys l" "state_of l k = Some src"
    and "is_transition_allowed src tgt" "why \<noteq> Some DISPATCH_CLAIMED" "\<not> (src = PLANNED \<and> tgt = STARTING)"
  shows "history_ok l'"
proof -
  note f = move_milestone_fields [OF assms(1)]
  from f(2) have ek: "ev_key e = k" "ev_sequence e = next_sequence l (ev_key e)" "ev_from e = Some src" "ev_to e = tgt"
    "ev_type e = State_Transition" "ev_reason e = why" "ev_dispatch e = None"
    by (metis event_row.select_convs)+
  from assms(4) obtain m where m: "lookup_by ms_key (ev_key e) (milestones l) = Some m" "ev_from e = Some (ms_state m)"
    by (auto simp: state_of_def ek)
  have l': "dispatches l' = dispatches l @ []" "events l' = events l @ [e]"
    "milestones l' = update_where (\<lambda>m. ms_key m = ev_key e) (\<lambda>m. m\<lparr>ms_state := ev_to e, ms_updated := now\<rparr>) (milestones l)"
    by (simp_all add: f(3) set_milestone_state_def ek)
  show ?thesis
  proof (rule history_ok_append [OF assms(2,3) l' m ek(2)])
    show "check_event l' e = Inr ()" using assms(5-7) f(1) ek by (simp add: check_event_def)
    show "check_claim_count l' d = Inr ()" if "d \<in> set (dispatches l')" for d
    proof -
      have "claim_count l' (dp_id d) = claim_count l (dp_id d)" by (simp add: claim_count_def l'(2) ek)
      moreover have "check_claim_count l d = Inr ()" using assms(2) that by (simp add: history_ok_def l'(1))
      ultimately show ?thesis by (simp add: check_claim_count_def split: if_splits)
    qed
  qed simp
qed

section \<open>The invariant\<close>

text \<open>
  What an execution row must be, as a function of what surrounds it: whether its run owns its
  workspace, its host action, its integrity row, the state of its milestone and its SDK events.
  Beyond the validation of the source it says that an execution past its plan keeps its lease until
  it ends, that a prepared one has its integrity row, that SDK events need a turn, and that a plan
  has neither turn nor output.
\<close>

definition turn_rows_ok :: "execution_row \<Rightarrow> sdk_event_row list \<Rightarrow> bool" where
  "turn_rows_ok x sdk \<longleftrightarrow>
     (let rows = sort_key (\<lambda>s. (se_turn s, se_sequence s)) sdk
      in ex_turn x = None \<or> rows = [] \<or> map se_sequence rows = map int [0..<length rows])"

definition integrity_fits :: "execution_row \<Rightarrow> integrity_row \<Rightarrow> bool" where
  "integrity_fits x i \<longleftrightarrow>
     in_git_before i \<noteq> None \<and> (ex_status x = EX_COMPLETED \<longrightarrow> in_terminal i \<noteq> None)
     \<and> (ex_turn x \<noteq> None \<longrightarrow> in_turn_started i \<noteq> None)
     \<and> (ex_turn x = None \<and> in_turn_started i \<noteq> None \<longrightarrow> ex_output x = Some turn_starting_marker)
     \<and> (ex_output x = Some turn_starting_marker \<longrightarrow> in_turn_started i \<noteq> None)"

definition live_row :: "execution_row \<Rightarrow> bool" where
  "live_row x \<longleftrightarrow> \<not> terminal_status (ex_status x) \<and> ex_checkpoint x \<noteq> CAPSULE_PLANNED"

definition row_ok ::
    "bool \<Rightarrow> app_native_row option \<Rightarrow> integrity_row option \<Rightarrow> workflow_state \<Rightarrow> sdk_event_row list \<Rightarrow> execution_row \<Rightarrow> bool" where
  "row_ok own app integ st sdk x \<longleftrightarrow>
     (\<forall>a. app = Some a \<longrightarrow> na_workspace (an_action a) = ex_workspace x \<and> own \<and> map_option snd (an_identity a) = ex_thread x)
     \<and> (ex_status x \<in> {EX_PLANNED, EX_CANCELLED} \<or> integ \<noteq> None \<or> app \<noteq> None)
     \<and> (ex_status x \<in> {EX_PLANNED, EX_CANCELLED} \<or> own)
     \<and> check_status app st x = Inr () \<and> turn_rows_ok x sdk
     \<and> (\<forall>i. integ = Some i \<longrightarrow> integrity_fits x i)
     \<and> (live_row x \<longrightarrow> own)
     \<and> (ex_status x = EX_PLANNED \<and> ex_checkpoint x \<in> {WORKSPACE_BASELINE_DURABLE, THREAD_STARTING} \<longrightarrow> integ \<noteq> None \<or> app \<noteq> None)
     \<and> (ex_turn x = None \<longrightarrow> sdk = [])
     \<and> (ex_status x = EX_PLANNED \<longrightarrow> ex_turn x = None \<and> ex_output x = None)"

definition extra :: "ledger \<Rightarrow> execution_row \<Rightarrow> bool" where
  "extra l x \<longleftrightarrow>
     (live_row x \<longrightarrow> leased l (ex_workspace x) (mk_run (ex_key x)))
     \<and> (ex_status x = EX_PLANNED \<and> ex_checkpoint x \<in> {WORKSPACE_BASELINE_DURABLE, THREAD_STARTING} \<longrightarrow>
          lookup_by in_key (ex_key x) (integrity l) \<noteq> None \<or> lookup_by an_key (ex_key x) (app_native l) \<noteq> None)
     \<and> (ex_turn x = None \<longrightarrow> sdk_of l (ex_key x) = [])
     \<and> (ex_status x = EX_PLANNED \<longrightarrow> ex_turn x = None \<and> ex_output x = None)"

definition row_ok_in :: "ledger \<Rightarrow> execution_row \<Rightarrow> bool" where
  "row_ok_in l x \<longleftrightarrow> (\<exists>st. state_of l (ex_key x) = Some st
     \<and> row_ok (leased l (ex_workspace x) (mk_run (ex_key x))) (lookup_by an_key (ex_key x) (app_native l))
         (lookup_by in_key (ex_key x) (integrity l)) st (sdk_of l (ex_key x)) x)"

lemma row_ok_in_iff: "row_ok_in l x \<longleftrightarrow> check_execution l x = Inr () \<and> extra l x"
proof (cases "state_of l (ex_key x)")
  case None
  then show ?thesis by (simp add: row_ok_in_def check_execution_iff)
next
  case (Some st)
  show ?thesis
    unfolding row_ok_in_def row_ok_def check_execution_iff check_owner_iff check_turn_iff extra_def turn_rows_ok_def
      integrity_fits_def Some option.inject simp_thms
    by (intro iffI; elim conjE; intro conjI; assumption)
qed

definition exclusive :: "ledger \<Rightarrow> bool" where
  "exclusive l \<longleftrightarrow> (\<forall>x\<in>set (executions l). \<forall>y\<in>set (executions l). \<forall>w.
     holds_workspace w x \<and> holds_workspace w y \<longrightarrow> ex_key x = ex_key y)"

definition exec_inv :: "ledger \<Rightarrow> bool" where
  "exec_inv l \<longleftrightarrow> sql_keys l \<and> validate_workflow l = Inr () \<and> (\<forall>x\<in>set (executions l). extra l x) \<and> exclusive l"

lemma exec_inv_row: "exec_inv l \<Longrightarrow> x \<in> set (executions l) \<Longrightarrow> row_ok_in l x"
  by (simp add: exec_inv_def row_ok_in_iff validate_workflow_iff executions_ok_def)

lemma frame_extra:
  assumes "frame k l l'" "ex_key x \<noteq> k" "extra l x"
  shows "extra l' x"
proof -
  from assms(1,2) have eq: "lookup_by in_key (ex_key x) (integrity l') = lookup_by in_key (ex_key x) (integrity l)"
    "lookup_by an_key (ex_key x) (app_native l') = lookup_by an_key (ex_key x) (app_native l)"
    "sdk_of l' (ex_key x) = sdk_of l (ex_key x)"
    by (simp_all add: frame_def)
  from assms(3) frame_leased [OF assms(1)] show ?thesis unfolding extra_def eq by blast
qed

lemma exec_inv_frame:
  assumes inv: "exec_inv l" and fr: "frame k l l'" and keys: "sql_keys l'"
    and parts: "check_orphans l' = Inr ()" "check_duplicates l' = Inr ()" "history_ok l'" "apps_ok l'" "integrity_ok l'"
    and at: "\<And>x. lookup_by ex_key k (executions l') = Some x \<Longrightarrow> row_ok_in l' x"
    and hold: "\<And>x w y. lookup_by ex_key k (executions l') = Some x \<Longrightarrow> holds_workspace w x \<Longrightarrow>
      y \<in> set (executions l) \<Longrightarrow> ex_key y \<noteq> k \<Longrightarrow> \<not> holds_workspace w y"
  shows "exec_inv l'"
proof -
  from keys have d: "distinct (map ex_key (executions l'))" by (simp add: sql_keys_def)
  have other: "x \<in> set (executions l)" if "x \<in> set (executions l')" "ex_key x \<noteq> k" for x
  proof -
    from lookup_by_unique [OF d that(1)] fr that(2) have "lookup_by ex_key (ex_key x) (executions l) = Some x"
      by (simp add: frame_def)
    then show ?thesis by (blast dest: lookup_by_in)
  qed
  have mine: "lookup_by ex_key k (executions l') = Some x" if "x \<in> set (executions l')" "ex_key x = k" for x
    using lookup_by_unique [OF d that(1)] that(2) by simp
  have "row_ok_in l' x" if x: "x \<in> set (executions l')" for x
  proof (cases "ex_key x = k")
    case True
    with mine [OF x] at show ?thesis by simp
  next
    case False
    from exec_inv_row [OF inv other [OF x False]] frame_check_execution [OF fr False] frame_extra [OF fr False]
    show ?thesis unfolding row_ok_in_iff by blast
  qed
  then have "executions_ok l'" "\<forall>x\<in>set (executions l'). extra l' x"
    by (simp_all add: executions_ok_def row_ok_in_iff)
  moreover have "exclusive l'"
    unfolding exclusive_def
  proof (intro ballI allI impI, elim conjE)
    fix x y w
    assume x: "x \<in> set (executions l')" "holds_workspace w x" and y: "y \<in> set (executions l')" "holds_workspace w y"
    consider "ex_key x = k" "ex_key y = k" | "ex_key x = k" "ex_key y \<noteq> k" | "ex_key x \<noteq> k" "ex_key y = k"
      | "ex_key x \<noteq> k" "ex_key y \<noteq> k" by blast
    then show "ex_key x = ex_key y"
    proof cases
      case 2
      from hold [OF mine [OF x(1) 2(1)] x(2) other [OF y(1) 2(2)] 2(2)] y(2) show ?thesis by blast
    next
      case 3
      from hold [OF mine [OF y(1) 3(2)] y(2) other [OF x(1) 3(1)] 3(1)] x(2) show ?thesis by blast
    next
      case 4
      from inv other [OF x(1) 4(1)] other [OF y(1) 4(2)] x(2) y(2) show ?thesis
        unfolding exec_inv_def exclusive_def by blast
    qed simp
  qed
  ultimately show ?thesis using keys parts by (simp add: exec_inv_def validate_workflow_iff)
qed

section \<open>Operations on one milestone\<close>

lemma lookup_update_key:
  "(\<And>r. key (f r) = key r) \<Longrightarrow> lookup_by key j (update_where (\<lambda>r. key r = k) f rows) =
     (if j = k then map_option f (lookup_by key j rows) else lookup_by key j rows)"
  by (rule lookup_by_update)

lemma ball_same_keys:
  assumes "key ` A = key ` B"
  shows "(\<forall>x\<in>A. P (key x)) \<longleftrightarrow> (\<forall>x\<in>B. P (key x))"
proof -
  have "(\<forall>x\<in>A. P (key x)) \<longleftrightarrow> (\<forall>k\<in>key ` A. P k)" by simp
  also have "\<dots> \<longleftrightarrow> (\<forall>x\<in>B. P (key x))" unfolding assms by simp
  finally show ?thesis .
qed

lemma check_claim_count_moved:
  assumes "\<And>i. filter (\<lambda>e. ev_type e = Dispatch_Claimed \<and> ev_dispatch e = Some i) (events l')
      = filter (\<lambda>e. ev_type e = Dispatch_Claimed \<and> ev_dispatch e = Some i) (events l)"
  shows "check_claim_count l' d = check_claim_count l d"
  by (simp add: check_claim_count_def claim_count_def assms)

text \<open>
  Most operations update one execution and its integrity row, may add SDK events and may move the
  milestone; whatever else they touch is not of the workflow half.
\<close>

lemma local_update_inv:
  assumes inv: "exec_inv l" and x: "lookup_by ex_key k (executions l) = Some x"
    and ex: "executions l' = update_where (\<lambda>x. ex_key x = k) f (executions l)" "\<And>x. ex_key (f x) = ex_key x"
    and int: "integrity l' = update_where (\<lambda>i. in_key i = k) g (integrity l)" "\<And>i. in_key (g i) = in_key i"
    and sdk: "sdk_events l' = sdk_events l @ ss" "\<And>s. s \<in> set ss \<Longrightarrow> se_key s = k"
    and same: "runs l' = runs l" "dispatches l' = dispatches l" "leases l' = leases l" "app_native l' = app_native l"
    and ms: "milestones l' = update_where (\<lambda>m. ms_key m = k) h (milestones l)" "\<And>m. ms_key (h m) = ms_key m"
    and ev: "\<And>e. e \<in> set (events l') \<Longrightarrow> e \<in> set (events l) \<or> (ev_key e = k \<and> ev_dispatch e = None)"
    and dup: "distinct (map (\<lambda>e. (ev_key e, ev_sequence e)) (events l'))" and hist: "history_ok l'"
    and gi: "\<And>i. in_git_before i \<noteq> None \<Longrightarrow> in_git_before (g i) \<noteq> None"
    and at: "\<And>st. state_of l k = Some st \<Longrightarrow>
      row_ok (leased l (ex_workspace x) (mk_run k)) (lookup_by an_key k (app_native l)) (lookup_by in_key k (integrity l)) st
        (sdk_of l k) x \<Longrightarrow>
      state_of l' k \<noteq> None \<and>
      row_ok (leased l (ex_workspace (f x)) (mk_run k)) (lookup_by an_key k (app_native l))
        (map_option g (lookup_by in_key k (integrity l))) (the (state_of l' k)) (sdk_of l k @ ss) (f x)"
    and hold: "\<And>w. holds_workspace w (f x) \<Longrightarrow> holds_workspace w x"
  shows "exec_inv l'"
proof (rule exec_inv_frame [OF inv])
  from inv have keys: "sql_keys l" and valid: "validate_workflow l = Inr ()" and excl: "exclusive l"
    by (simp_all add: exec_inv_def)
  note parts = valid [unfolded validate_workflow_iff]
  show "frame k l l'"
    using sdk(2) by (auto simp: frame_def ex int same ms state_of_def sdk_of_def sdk(1) lookup_update_key filter_empty_conv)
  show "sql_keys l'"
    using keys by (simp add: sql_keys_def same ex int ms map_update_key)
  have xk: "ex_key x = k" "x \<in> set (executions l)" using lookup_by_in [OF x] by simp_all
  have kex: "k \<in> ex_key ` set (executions l)" using xk by auto
  moreover from parts have "ex_key ` set (executions l) \<subseteq> ms_key ` set (milestones l)" by (auto simp: check_orphans_def)
  ultimately have kms: "k \<in> ms_key ` set (milestones l)" by blast
  have imgs: "ms_key ` set (milestones l') = ms_key ` set (milestones l)"
    "ex_key ` set (executions l') = ex_key ` set (executions l)" "in_key ` set (integrity l') = in_key ` set (integrity l)"
    by (simp_all add: ms ex int image_update_key)
  from parts have orph: "check_orphans l = Inr ()" by blast
  show "check_orphans l' = Inr ()"
  proof -
    have m: "(\<forall>m\<in>set (milestones l'). mk_run (ms_key m) \<in> S) \<longleftrightarrow> (\<forall>m\<in>set (milestones l). mk_run (ms_key m) \<in> S)" for S
      by (rule ball_same_keys [OF imgs(1)])
    have e: "(\<forall>x\<in>set (executions l'). ex_key x \<in> S) \<longleftrightarrow> (\<forall>x\<in>set (executions l). ex_key x \<in> S)" for S
      by (rule ball_same_keys [OF imgs(2)])
    have i: "(\<forall>x\<in>set (integrity l'). in_key x \<in> S) \<longleftrightarrow> (\<forall>x\<in>set (integrity l). in_key x \<in> S)" for S
      by (rule ball_same_keys [OF imgs(3)])
    have "(\<forall>e\<in>set (events l'). ev_key e \<in> ms_key ` set (milestones l))"
      "\<forall>e\<in>set (events l'). case ev_dispatch e of None \<Rightarrow> True | Some i \<Rightarrow> i \<in> dp_id ` set (dispatches l)"
      using orph ev kms by (fastforce simp: check_orphans_def)+
    moreover have "\<forall>s\<in>set (sdk_events l'). se_key s \<in> ex_key ` set (executions l)"
      using orph sdk kex by (auto simp: check_orphans_def)
    ultimately show ?thesis
      using orph [unfolded check_orphans_def require_simps]
      unfolding check_orphans_def require_simps imgs same m e i by - (elim conjE, intro conjI; assumption)
  qed
  show "check_duplicates l' = Inr ()" using parts dup by (simp add: check_duplicates_def same ms map_update_key)
  show "history_ok l'" by (rule hist)
  show "apps_ok l'" using parts by (simp add: apps_ok_def check_app_native_def same)
  show "integrity_ok l'"
  proof -
    from keys have d: "distinct (map in_key (integrity l))" by (simp add: sql_keys_def)
    have "in_git_before i \<noteq> None" if "i \<in> set (integrity l)" for i
    proof -
      from orph that have "in_key i \<in> ex_key ` set (executions l)" by (simp add: check_orphans_def)
      then obtain y where y: "y \<in> set (executions l)" "ex_key y = in_key i" by auto
      from exec_inv_row [OF inv y(1)] lookup_by_unique [OF d that] y(2) show ?thesis
        by (auto simp: row_ok_in_def row_ok_def integrity_fits_def)
    qed
    then show ?thesis using gi by (auto simp: integrity_ok_def check_integrity_def int(1) update_where_def)
  qed
  fix x'
  assume "lookup_by ex_key k (executions l') = Some x'"
  with x have x': "x' = f x" by (simp add: ex lookup_update_key)
  from exec_inv_row [OF inv xk(2)] xk(1) obtain st where "state_of l k = Some st"
    "row_ok (leased l (ex_workspace x) (mk_run k)) (lookup_by an_key k (app_native l)) (lookup_by in_key k (integrity l)) st
        (sdk_of l k) x" by (auto simp: row_ok_in_def)
  from at [OF this] show "row_ok_in l' x'"
    using sdk(2) by (auto simp: row_ok_in_def x' ex(2) xk(1) same leased_def int lookup_update_key sdk_of_def sdk(1))
  fix w y
  assume "holds_workspace w x'" "y \<in> set (executions l)" "ex_key y \<noteq> k"
  with hold [of w] x' xk excl show "\<not> holds_workspace w y" by (auto simp: exclusive_def)
qed

end
