(* ===== verification/Execution_Steps.thy ===== *)
theory Execution_Steps
  imports Execution_Laws "HOL-Library.Multiset"
begin

text \<open>
  Every operation on a milestone and its execution keeps the invariant of Execution_Laws by its own
  guards: one lemma per operation, all of them instances of a few lemmas on the updates the
  operations are made of.
\<close>

section \<open>Rows of an execution without a host action\<close>

lemma update_where_id [simp]: "update_where P id rows = rows" "update_where P (\<lambda>r. r) rows = rows"
  by (induction rows) (simp_all add: update_where_def)

lemma update_where_none: "(\<And>r. r \<in> set rows \<Longrightarrow> \<not> P r) \<Longrightarrow> update_where P f rows = rows"
  by (induction rows) (simp_all add: update_where_def)

lemma holds_workspace_iff: "holds_workspace w x \<longleftrightarrow> ex_workspace x = w \<and> live_row x"
  by (auto simp: holds_workspace_def live_row_def)

lemma row_ok_plain:
  "row_ok own None integ st sdk x \<longleftrightarrow>
     (ex_status x \<in> {EX_PLANNED, EX_CANCELLED} \<or> integ \<noteq> None \<and> own)
     \<and> check_status None st x = Inr () \<and> turn_rows_ok x sdk
     \<and> (\<forall>i. integ = Some i \<longrightarrow> integrity_fits x i)
     \<and> (live_row x \<longrightarrow> own)
     \<and> (ex_status x = EX_PLANNED \<and> ex_checkpoint x \<in> {WORKSPACE_BASELINE_DURABLE, THREAD_STARTING} \<longrightarrow> integ \<noteq> None)
     \<and> (ex_turn x = None \<longrightarrow> sdk = [])
     \<and> (ex_status x = EX_PLANNED \<longrightarrow> ex_turn x = None \<and> ex_output x = None)"
  unfolding row_ok_def by blast

lemma check_status_plain:
  "check_status None st x = Inr () \<longleftrightarrow>
     (case ex_status x of
        EX_PLANNED \<Rightarrow> ex_checkpoint x \<in> {CAPSULE_PLANNED, WORKSPACE_LEASED, WORKSPACE_BASELINE_DURABLE, THREAD_STARTING}
          \<and> ex_thread x = None
      | EX_THREAD_STARTED \<Rightarrow> ex_thread x \<noteq> None \<and> ex_checkpoint x \<in> {THREAD_IDENTITY_DURABLE, TURN_DURABLE} \<and> st = RUNNING
      | EX_COMPLETED \<Rightarrow> ex_checkpoint x = RESULT_DURABLE \<and> ex_thread x \<noteq> None \<and> ex_turn x \<noteq> None \<and> ex_result x \<noteq> None
          \<and> ex_validation x \<noteq> None \<and> ex_protected_after x \<noteq> None \<and> st \<notin> {PLANNED, CANCELLED}
      | EX_UNCERTAIN_PRE_IDENTITY \<Rightarrow> ex_thread x = None \<and> st = STARTING
      | EX_FAILED \<Rightarrow> ex_checkpoint x = RESULT_DURABLE \<and> ex_result x \<noteq> None \<and> ex_protected_after x \<noteq> None \<and> st = FAILED
      | EX_CANCELLED \<Rightarrow> st = CANCELLED)"
  by (cases "ex_status x") (auto simp: check_status_def bind_res_Inr_iff)

lemma row_ok_integrity:
  "row_ok own None integ st sdk x \<Longrightarrow> (\<And>i. integrity_fits x i \<Longrightarrow> integrity_fits x (g i)) \<Longrightarrow>
   row_ok own None (map_option g integ) st sdk x"
  by (cases integ) (simp_all add: row_ok_plain)

text \<open>No milestone of a ledger whose executions are the controller's has a host action.\<close>

definition own_app :: "ledger \<Rightarrow> bool" where
  "own_app l \<longleftrightarrow> app_native l = []"

lemma own_app_lookup: "own_app l \<Longrightarrow> lookup_by an_key k (app_native l) = None"
  by (simp add: own_app_def lookup_by_None)

section \<open>The updates the operations are made of\<close>

lemma exec_inv_history: "exec_inv l \<Longrightarrow> history_ok l" "exec_inv l \<Longrightarrow> sql_keys l"
  by (simp_all add: exec_inv_def validate_workflow_iff)

lemma exec_inv_dup: "exec_inv l \<Longrightarrow> distinct (map (\<lambda>e. (ev_key e, ev_sequence e)) (events l))"
  by (simp add: exec_inv_def validate_workflow_iff check_duplicates_def)

lemma history_ok_cong:
  assumes "dispatches l' = dispatches l" "events l' = events l" "milestones l' = milestones l"
  shows "history_ok l' = history_ok l"
  unfolding history_ok_def check_dispatch_def check_event_def check_claim_def check_claim_count_def claim_count_def
    check_milestone_def history_def assms ..

lemma state_of_cong: "milestones l' = milestones l \<Longrightarrow> state_of l' k = state_of l k"
  by (simp add: state_of_def)

text \<open>An update of an execution and of its integrity row, with the SDK events it records.\<close>

lemma update_inv:
  assumes inv: "exec_inv l" and x: "lookup_by ex_key k (executions l) = Some x" and app: "own_app l"
    and f: "\<And>x. ex_key (f x) = ex_key x" "ex_workspace (f x) = ex_workspace x" "live_row (f x) \<Longrightarrow> live_row x"
    and g: "\<And>i. in_key (g i) = in_key i" "\<And>i. in_git_before i \<noteq> None \<Longrightarrow> in_git_before (g i) \<noteq> None"
    and ss: "\<And>s. s \<in> set ss \<Longrightarrow> se_key s = k"
    and at: "\<And>own st. row_ok own None (lookup_by in_key k (integrity l)) st (sdk_of l k) x \<Longrightarrow> state_of l k = Some st \<Longrightarrow>
      row_ok own None (map_option g (lookup_by in_key k (integrity l))) st (sdk_of l k @ ss) (f x)"
  shows "exec_inv (update_integrity k g (update_execution k f (l\<lparr>sdk_events := sdk_events l @ ss\<rparr>)))"
    (is "exec_inv ?l")
proof (rule local_update_inv [OF inv x, where f = f and g = g and ss = ss and h = id])
  note fields = update_integrity_def update_execution_def
  show "executions ?l = update_where (\<lambda>x. ex_key x = k) f (executions l)"
    "integrity ?l = update_where (\<lambda>i. in_key i = k) g (integrity l)" "sdk_events ?l = sdk_events l @ ss"
    "runs ?l = runs l" "dispatches ?l = dispatches l" "leases ?l = leases l" "app_native ?l = app_native l"
    "milestones ?l = update_where (\<lambda>m. ms_key m = k) id (milestones l)"
    by (simp_all add: fields)
  show "distinct (map (\<lambda>e. (ev_key e, ev_sequence e)) (events ?l))" using exec_inv_dup [OF inv] by (simp add: fields)
  have "history_ok ?l = history_ok l" by (rule history_ok_cong) (simp_all add: fields)
  with exec_inv_history(1) [OF inv] show "history_ok ?l" by simp
  show "holds_workspace w (f x) \<Longrightarrow> holds_workspace w x" for w using f(2,3) by (simp add: holds_workspace_iff)
  have st: "state_of ?l k = state_of l k" by (rule state_of_cong) (simp add: fields)
  fix st
  assume s: "state_of l k = Some st" and "row_ok (leased l (ex_workspace x) (mk_run k)) (lookup_by an_key k (app_native l))
    (lookup_by in_key k (integrity l)) st (sdk_of l k) x"
  with at [of "leased l (ex_workspace x) (mk_run k)" st] f(2)
  show "state_of ?l k \<noteq> None \<and> row_ok (leased l (ex_workspace (f x)) (mk_run k)) (lookup_by an_key k (app_native l))
      (map_option g (lookup_by in_key k (integrity l))) (the (state_of ?l k)) (sdk_of l k @ ss) (f x)"
    by (simp add: st s own_app_lookup [OF app])
qed (use f g ss in \<open>simp_all add: update_integrity_def update_execution_def\<close>)

lemma update_execution_inv:
  assumes inv: "exec_inv l" and x: "lookup_by ex_key k (executions l) = Some x" and app: "own_app l"
    and f: "\<And>x. ex_key (f x) = ex_key x" "ex_workspace (f x) = ex_workspace x" "live_row (f x) \<Longrightarrow> live_row x"
    and at: "\<And>own integ st sdk. row_ok own None integ st sdk x \<Longrightarrow> state_of l k = Some st \<Longrightarrow>
      row_ok own None integ st sdk (f x)"
  shows "exec_inv (update_execution k f l)"
proof -
  have "exec_inv (update_integrity k id (update_execution k f (l\<lparr>sdk_events := sdk_events l @ []\<rparr>)))"
    by (rule update_inv [OF inv x app f]) (use at in \<open>simp_all add: option.map_id0\<close>)
  then show ?thesis by (simp add: update_integrity_def)
qed

lemma update_integrity_inv:
  assumes inv: "exec_inv l" and x: "lookup_by ex_key k (executions l) = Some x" and app: "own_app l"
    and g: "\<And>i. in_key (g i) = in_key i" "\<And>i. in_git_before i \<noteq> None \<Longrightarrow> in_git_before (g i) \<noteq> None"
    and at: "\<And>own integ st sdk. row_ok own None integ st sdk x \<Longrightarrow> row_ok own None (map_option g integ) st sdk x"
  shows "exec_inv (update_integrity k g l)"
proof -
  have "exec_inv (update_integrity k g (update_execution k id (l\<lparr>sdk_events := sdk_events l @ []\<rparr>)))"
    by (rule update_inv [OF inv x app]) (use g at in simp_all)
  then show ?thesis by (simp add: update_execution_def)
qed

text \<open>The same with a plain transition of the milestone.\<close>

lemma move_inv:
  assumes inv: "exec_inv l" and x: "lookup_by ex_key k (executions l) = Some x" and app: "own_app l"
    and f: "\<And>x. ex_key (f x) = ex_key x" "ex_workspace (f x) = ex_workspace x" "live_row (f x) \<Longrightarrow> live_row x"
    and g: "\<And>i. in_key (g i) = in_key i" "\<And>i. in_git_before i \<noteq> None \<Longrightarrow> in_git_before (g i) \<noteq> None"
    and mv: "move_milestone now k src tgt State_Transition why None (update_integrity k g (update_execution k f l)) = Inr (e, l')"
    and st: "state_of l k = Some src" "is_transition_allowed src tgt" "why \<noteq> Some DISPATCH_CLAIMED"
      "\<not> (src = PLANNED \<and> tgt = STARTING)"
    and at: "\<And>own integ sdk. row_ok own None integ src sdk x \<Longrightarrow> row_ok own None (map_option g integ) tgt sdk (f x)"
  shows "exec_inv l'"
proof (rule local_update_inv [OF inv x, where f = f and g = g and ss = "[]"
      and h = "\<lambda>m. m\<lparr>ms_state := tgt, ms_updated := now\<rparr>"])
  let ?l = "update_integrity k g (update_execution k f l)"
  note fields = update_integrity_def update_execution_def set_milestone_state_def
  note mf = move_milestone_fields [OF mv]
  have l': "l' = (set_milestone_state now k tgt ?l)\<lparr>events := events l @ [e]\<rparr>" using mf(3) by (simp add: fields)
  show "executions l' = update_where (\<lambda>x. ex_key x = k) f (executions l)"
    "integrity l' = update_where (\<lambda>i. in_key i = k) g (integrity l)" "sdk_events l' = sdk_events l @ []"
    "runs l' = runs l" "dispatches l' = dispatches l" "leases l' = leases l" "app_native l' = app_native l"
    "milestones l' = update_where (\<lambda>m. ms_key m = k) (\<lambda>m. m\<lparr>ms_state := tgt, ms_updated := now\<rparr>) (milestones l)"
    by (simp_all add: l' fields)
  have ek: "ev_key e = k" "ev_dispatch e = None" "ev_sequence e = next_sequence l k"
    using mf(2) by (metis event_row.select_convs, metis event_row.select_convs,
        metis event_row.select_convs next_sequence_def fields(1,2) ledger.select_convs(4) ledger.surjective ledger.update_convs)
  show "distinct (map (\<lambda>e. (ev_key e, ev_sequence e)) (events l'))"
    using exec_inv_dup [OF inv] next_sequence_above [of _ l k] by (fastforce simp: l' ek)
  show "e' \<in> set (events l) \<or> ev_key e' = k \<and> ev_dispatch e' = None" if "e' \<in> set (events l')" for e'
    using that ek by (auto simp: l')
  have "history_ok ?l = history_ok l" by (rule history_ok_cong) (simp_all add: fields)
  moreover have "sql_keys ?l" using exec_inv_history(2) [OF inv] f(1) g(1) by (simp add: sql_keys_def fields map_update_key)
  moreover have "state_of ?l k = Some src" using st(1) state_of_cong [of ?l l k] by (simp add: fields)
  ultimately show "history_ok l'" using move_milestone_history [OF mv] exec_inv_history(1) [OF inv] st by simp
  show "holds_workspace w (f x) \<Longrightarrow> holds_workspace w x" for w using f(2,3) by (simp add: holds_workspace_iff)
  have st': "state_of l' k = Some tgt"
    using st(1) by (auto simp: l' state_of_def fields lookup_update_key)
  fix s
  assume "state_of l k = Some s" and "row_ok (leased l (ex_workspace x) (mk_run k)) (lookup_by an_key k (app_native l))
    (lookup_by in_key k (integrity l)) s (sdk_of l k) x"
  with at st(1) f(2) show "state_of l' k \<noteq> None \<and> row_ok (leased l (ex_workspace (f x)) (mk_run k))
      (lookup_by an_key k (app_native l)) (map_option g (lookup_by in_key k (integrity l))) (the (state_of l' k))
      (sdk_of l k @ []) (f x)"
    by (simp add: st' own_app_lookup [OF app])
qed (use f g in simp_all)

section \<open>The operations on an execution\<close>

lemma get_execution_iff: "get_execution l k = Inr x \<longleftrightarrow> lookup_by ex_key k (executions l) = Some x"
  by (simp add: get_execution_def split: option.splits)

lemma get_milestone_iff: "get_milestone l k = Inr m \<longleftrightarrow> lookup_by ms_key k (milestones l) = Some m"
  by (simp add: get_milestone_def split: option.splits)

lemma get_integrity_iff: "get_execution_integrity l k = Inr i \<longleftrightarrow> lookup_by in_key k (integrity l) = Some i"
  by (simp add: get_execution_integrity_def split: option.splits)

lemma reject_terminal_iff: "reject_terminal x = Inr u \<longleftrightarrow> ex_status x \<in> {EX_PLANNED, EX_THREAD_STARTED, EX_UNCERTAIN_PRE_IDENTITY}"
  by (cases "ex_status x") (simp_all add: reject_terminal_def terminal_status_def)

lemma state_of_milestone: "lookup_by ms_key k (milestones l) = Some m \<Longrightarrow> state_of l k = Some (ms_state m)"
  by (simp add: state_of_def)

lemmas body_iff = bind_res_Inr_iff get_execution_iff get_milestone_iff get_integrity_iff reject_terminal_iff
  returning_execution_def

lemmas row_facts = row_ok_plain check_status_plain live_row_def terminal_status_def turn_rows_ok_def integrity_fits_def

lemma record_thread_starting_inv:
  assumes "record_thread_starting now k l = Inr (r, l')" "exec_inv l" "own_app l"
  shows "exec_inv l'"
proof -
  from assms(1) obtain x where x: "lookup_by ex_key k (executions l) = Some x" "ex_status x = EX_PLANNED"
    and c: "l' = l \<or> ex_checkpoint x = WORKSPACE_BASELINE_DURABLE
      \<and> l' = update_execution k (\<lambda>x. x\<lparr>ex_checkpoint := THREAD_STARTING, ex_updated := now\<rparr>) l"
    by (auto simp: record_thread_starting_def body_iff split: if_splits)
  from c show ?thesis
  proof
    assume c: "ex_checkpoint x = WORKSPACE_BASELINE_DURABLE
      \<and> l' = update_execution k (\<lambda>x. x\<lparr>ex_checkpoint := THREAD_STARTING, ex_updated := now\<rparr>) l"
    show ?thesis unfolding c [THEN conjunct2]
      by (rule update_execution_inv [OF assms(2) x(1) assms(3)]) (use x(2) c in \<open>auto simp: row_facts\<close>)
  qed (use assms(2) in simp)
qed

text \<open>An uncertain thread start is only recorded while the milestone is still starting.\<close>

lemma record_pre_identity_uncertainty_inv:
  assumes "record_pre_identity_uncertainty now k l = Inr (r, l')" "exec_inv l" "own_app l" "state_of l k = Some STARTING"
  shows "exec_inv l'"
proof -
  from assms(1) obtain x where x: "lookup_by ex_key k (executions l) = Some x" "at_thread_boundary x"
    and l': "l' = update_execution k (\<lambda>x. x\<lparr>ex_status := EX_UNCERTAIN_PRE_IDENTITY, ex_updated := now\<rparr>) l"
    by (auto simp: record_pre_identity_uncertainty_def body_iff)
  show ?thesis unfolding l'
    by (rule update_execution_inv [OF assms(2) x(1) assms(3)])
      (use x(2) assms(4) in \<open>auto simp: row_facts at_thread_boundary_def\<close>)
qed

lemma reject_thread_start_inv:
  assumes "reject_thread_start_authorization now k l = Inr (r, l')" "exec_inv l" "own_app l"
  shows "exec_inv l'"
proof -
  from assms(1) obtain x where x: "lookup_by ex_key k (executions l) = Some x" "at_thread_boundary x"
    and l': "l' = update_execution k (\<lambda>x. x\<lparr>ex_checkpoint := WORKSPACE_BASELINE_DURABLE, ex_updated := now\<rparr>) l"
    by (auto simp: reject_thread_start_authorization_def body_iff)
  show ?thesis unfolding l'
    by (rule update_execution_inv [OF assms(2) x(1) assms(3)]) (use x(2) in \<open>auto simp: row_facts at_thread_boundary_def\<close>)
qed

lemma record_thread_identity_inv:
  assumes "record_thread_identity now k t l = Inr (r, l')" "exec_inv l" "own_app l"
  shows "exec_inv l'"
proof -
  let ?f = "\<lambda>x. x\<lparr>ex_status := EX_THREAD_STARTED, ex_checkpoint := THREAD_IDENTITY_DURABLE, ex_thread := Some t, ex_updated := now\<rparr>"
  from assms(1) obtain x where x: "lookup_by ex_key k (executions l) = Some x"
    and c: "l' = l \<or> (\<exists>e m. ex_status x = EX_PLANNED \<and> ex_checkpoint x = THREAD_STARTING
      \<and> lookup_by ms_key k (milestones l) = Some m \<and> ms_state m = STARTING
      \<and> move_milestone now k STARTING RUNNING State_Transition None None (update_integrity k id (update_execution k ?f l)) = Inr (e, l'))"
    by (auto simp: record_thread_identity_def body_iff update_integrity_def split: option.splits prod.splits)
  from c show ?thesis
  proof
    assume "\<exists>e m. ex_status x = EX_PLANNED \<and> ex_checkpoint x = THREAD_STARTING
      \<and> lookup_by ms_key k (milestones l) = Some m \<and> ms_state m = STARTING
      \<and> move_milestone now k STARTING RUNNING State_Transition None None (update_integrity k id (update_execution k ?f l)) = Inr (e, l')"
    then obtain e m where p: "ex_status x = EX_PLANNED" "ex_checkpoint x = THREAD_STARTING"
      and m: "lookup_by ms_key k (milestones l) = Some m" "ms_state m = STARTING"
      and mv: "move_milestone now k STARTING RUNNING State_Transition None None (update_integrity k id (update_execution k ?f l)) = Inr (e, l')"
      by blast
    from state_of_milestone [OF m(1)] m(2) have st: "state_of l k = Some STARTING" by simp
    show ?thesis
      by (rule move_inv [OF assms(2) x assms(3) _ _ _ _ _ mv st]) (use p in \<open>auto simp: row_facts is_transition_allowed_def\<close>)
  qed (use assms(2) in simp)
qed

lemma record_turn_starting_inv:
  assumes "record_turn_starting now k l = Inr (r, l')" "exec_inv l" "own_app l"
  shows "exec_inv l'"
proof -
  let ?f = "\<lambda>x. x\<lparr>ex_output := Some turn_starting_marker, ex_updated := now\<rparr>"
  let ?g = "\<lambda>i. i\<lparr>in_turn_started := (case in_turn_started i of None \<Rightarrow> Some now | Some t \<Rightarrow> Some t), in_updated := now\<rparr>"
  from assms(1) obtain x where x: "lookup_by ex_key k (executions l) = Some x" "ex_status x = EX_THREAD_STARTED"
    and c: "l' = l \<or> ex_turn x = None \<and> l' = update_integrity k ?g (update_execution k ?f (l\<lparr>sdk_events := sdk_events l @ []\<rparr>))"
    by (auto simp: record_turn_starting_def body_iff split: if_splits)
  from c show ?thesis
  proof
    assume c: "ex_turn x = None \<and> l' = update_integrity k ?g (update_execution k ?f (l\<lparr>sdk_events := sdk_events l @ []\<rparr>))"
    show ?thesis unfolding c [THEN conjunct2]
      by (rule update_inv [OF assms(2) x(1) assms(3)]) (use x(2) c in \<open>auto simp: row_facts split: option.splits\<close>)
  qed (use assms(2) in simp)
qed

lemma reject_turn_inv:
  assumes "reject_turn_authorization now k l = Inr (r, l')" "exec_inv l" "own_app l"
  shows "exec_inv l'"
proof -
  let ?f = "\<lambda>x. x\<lparr>ex_output := None, ex_updated := now\<rparr>" and ?g = "\<lambda>i. i\<lparr>in_turn_started := None, in_updated := now\<rparr>"
  from assms(1) obtain x where x: "lookup_by ex_key k (executions l) = Some x" "ex_status x = EX_THREAD_STARTED" "ex_turn x = None"
    and l': "l' = update_integrity k ?g (update_execution k ?f (l\<lparr>sdk_events := sdk_events l @ []\<rparr>))"
    by (auto simp: reject_turn_authorization_def body_iff)
  show ?thesis unfolding l'
    by (rule update_inv [OF assms(2) x(1) assms(3)]) (use x(2,3) in \<open>auto simp: row_facts turn_starting_marker_def\<close>)
qed

lemma started_live:
  assumes "exec_inv l" "own_app l" "lookup_by ex_key k (executions l) = Some x" "ex_status x = EX_THREAD_STARTED"
  shows "live_row x"
proof -
  from exec_inv_row [OF assms(1)] lookup_by_in [OF assms(3)] have "row_ok_in l x" by blast
  then show ?thesis
    using assms(4) own_app_lookup [OF assms(2)] by (auto simp: row_ok_in_def row_ok_plain check_status_plain live_row_def terminal_status_def)
qed

text \<open>The sequence numbers of the observed events are those from 0 on, in any order.\<close>

definition contiguous_events :: "observation \<Rightarrow> bool" where
  "contiguous_events ob \<longleftrightarrow> sort (map fst (ob_events ob)) = map int [0..<length (ob_events ob)]"

lemma sort_map_Pair: "sort (map (Pair (t::'a::linorder)) xs) = map (Pair t) (sort (xs::'b::linorder list))"
  by (rule properties_for_sort) (simp_all add: sorted_map less_eq_prod_def comp_def)

lemma map_sort_key: "map f (sort_key f xs) = sort (map f xs)"
  by (rule properties_for_sort [symmetric]) simp_all

lemma sdk_rows_sequences:
  "map se_sequence (sort_key (\<lambda>s. (se_turn s, se_sequence s)) (sdk_rows k turn es)) = sort (map fst es)"
proof -
  let ?f = "\<lambda>s. (se_turn s, se_sequence s)"
  have "map ?f (sort_key ?f (sdk_rows k turn es)) = sort (map ?f (sdk_rows k turn es))"
    by (rule map_sort_key)
  also have "map ?f (sdk_rows k turn es) = map (Pair turn) (map fst es)" by (auto simp: sdk_rows_def)
  also have "sort \<dots> = map (Pair turn) (sort (map fst es))" by (rule sort_map_Pair)
  finally have "map snd (map ?f (sort_key ?f (sdk_rows k turn es))) = sort (map fst es)" by (simp add: comp_def)
  then show ?thesis by (simp add: comp_def)
qed

lemma turn_rows_ok_new:
  assumes "ex_turn x \<noteq> None"
  shows "turn_rows_ok x (sdk_rows k turn (ob_events ob)) \<longleftrightarrow> contiguous_events ob"
proof -
  let ?rows = "sort_key (\<lambda>s. (se_turn s, se_sequence s)) (sdk_rows k turn (ob_events ob))"
  have len: "length ?rows = length (ob_events ob)" by (simp add: sdk_rows_def)
  have "turn_rows_ok x (sdk_rows k turn (ob_events ob)) \<longleftrightarrow>
      ?rows = [] \<or> map se_sequence ?rows = map int [0..<length ?rows]"
    using assms by (simp only: turn_rows_ok_def Let_def simp_thms)
  also have "\<dots> \<longleftrightarrow> ?rows = [] \<or> contiguous_events ob"
    by (simp only: sdk_rows_sequences contiguous_events_def len)
  also have "\<dots> \<longleftrightarrow> contiguous_events ob"
  proof -
    have "ob_events ob = []" if "?rows = []" using len that by simp
    then show ?thesis by (auto simp: contiguous_events_def)
  qed
  finally show ?thesis .
qed

lemma record_turn_inv:
  assumes "record_turn now k ob l = Inr (r, l')" "exec_inv l" "own_app l" "contiguous_events ob"
  shows "exec_inv l'"
proof -
  let ?f = "\<lambda>x. x\<lparr>ex_checkpoint := TURN_DURABLE, ex_turn := Some (ob_turn ob), ex_output := Some (ob_output ob), ex_updated := now\<rparr>"
  let ?ss = "sdk_rows k (ob_turn ob) (ob_events ob)"
  from assms(1) obtain x i where x: "lookup_by ex_key k (executions l) = Some x" "ex_status x = EX_THREAD_STARTED" "ex_thread x \<noteq> None"
    and i: "lookup_by in_key k (integrity l) = Some i" by (auto simp: record_turn_def body_iff)
  have c: "l' = l \<or> (ex_turn x = None \<and> in_turn_started i \<noteq> None
      \<and> l' = update_integrity k id (update_execution k ?f (l\<lparr>sdk_events := sdk_events l @ ?ss\<rparr>)))"
    using assms(1) x i by (cases "ex_turn x") (auto simp: record_turn_def body_iff update_integrity_def)
  from c show ?thesis
  proof
    assume c: "ex_turn x = None \<and> in_turn_started i \<noteq> None
      \<and> l' = update_integrity k id (update_execution k ?f (l\<lparr>sdk_events := sdk_events l @ ?ss\<rparr>))"
    then have l': "l' = update_integrity k id (update_execution k ?f (l\<lparr>sdk_events := sdk_events l @ ?ss\<rparr>))" by blast
    show ?thesis unfolding l'
    proof (rule update_inv [OF assms(2) x(1) assms(3)])
      fix own st
      assume ok: "row_ok own None (lookup_by in_key k (integrity l)) st (sdk_of l k) x"
      then have empty: "sdk_of l k = []" using c by (simp add: row_ok_plain)
      have "turn_rows_ok (?f x) ?ss" using assms(4) by (simp add: turn_rows_ok_new)
      with ok c x(2,3) i show "row_ok own None (map_option id (lookup_by in_key k (integrity l))) st (sdk_of l k @ ?ss) (?f x)"
        by (simp add: empty row_ok_plain check_status_plain integrity_fits_def live_row_def terminal_status_def)
    qed (use started_live [OF assms(2,3) x(1,2)] in \<open>auto simp: sdk_rows_def\<close>)
  qed (use assms(2) in simp)
qed

lemma terminal_of_cases: "terminal_of oc \<in> {EX_COMPLETED, EX_FAILED}"
  by (simp add: terminal_of_def)

lemma record_terminal_inv:
  assumes "record_terminal_execution now k oc l = Inr (r, l')" "exec_inv l" "own_app l"
  shows "exec_inv l'"
proof -
  let ?t = "terminal_of oc"
  let ?f = "\<lambda>x. x\<lparr>ex_status := ?t, ex_checkpoint := RESULT_DURABLE, ex_result := Some (oc_result oc),
    ex_validation := Some (oc_validation oc), ex_protected_after := Some (oc_protected oc), ex_updated := now\<rparr>"
  let ?g = "\<lambda>i. i\<lparr>in_git_after := Some (oc_git oc), in_terminal := (if ?t = EX_COMPLETED then oc_terminal oc else None), in_updated := now\<rparr>"
  let ?why = "Some (if ?t = EX_COMPLETED then TERMINAL_OUTCOME else EXECUTION_FAILURE)"
  let ?tgt = "if ?t = EX_COMPLETED then COMPLETED else FAILED"
  from assms(1) obtain x m e where x: "lookup_by ex_key k (executions l) = Some x" "ex_status x = EX_THREAD_STARTED" "ex_turn x \<noteq> None"
    and m: "lookup_by ms_key k (milestones l) = Some m" "ms_state m = RUNNING" and oc: "check_outcome oc = Inr ()"
    and mv: "move_milestone now k RUNNING ?tgt State_Transition ?why None (update_integrity k ?g (update_execution k ?f l)) = Inr (e, l')"
    by (auto simp: record_terminal_execution_def body_iff Let_def split: prod.splits)
  from oc have fin: "?t = EX_COMPLETED \<Longrightarrow> oc_terminal oc \<noteq> None" by (auto simp: check_outcome_def bind_res_Inr_iff)
  from state_of_milestone [OF m(1)] m(2) have st: "state_of l k = Some RUNNING" by simp
  show ?thesis
  proof (rule move_inv [OF assms(2) x(1) assms(3) _ _ _ _ _ mv st])
    show "is_transition_allowed RUNNING ?tgt" by (simp add: is_transition_allowed_def)
    fix own integ sdk
    assume "row_ok own None integ RUNNING sdk x"
    then have th: "ex_thread x \<noteq> None" and rows: "turn_rows_ok x sdk" and i: "own" "\<And>i. integ = Some i \<Longrightarrow> integrity_fits x i"
      "integ \<noteq> None"
      using x(2,3) by (simp_all add: row_ok_plain check_status_plain)
    from rows have rows': "turn_rows_ok (?f x) sdk" by (simp add: turn_rows_ok_def)
    from i(2,3) fin x(3) have fits: "\<And>i. map_option ?g integ = Some i \<Longrightarrow> integrity_fits (?f x) i"
      by (auto simp: integrity_fits_def)
    have "check_status None ?tgt (?f x) = Inr ()"
      using terminal_of_cases [of oc] th x(3) by (auto simp: check_status_plain)
    with rows' fits i(1,3) x(3) terminal_of_cases [of oc] show "row_ok own None (map_option ?g integ) ?tgt sdk (?f x)"
      unfolding row_ok_plain by auto
  qed (use terminal_of_cases [of oc] in \<open>auto simp: live_row_def terminal_status_def\<close>)
qed

lemma rebind_inv:
  assumes "rebind_native_profile_for_resume now k p c a l = Inr (r, l')" "exec_inv l" "own_app l"
  shows "exec_inv l'"
proof -
  from assms(1) obtain x i where x: "lookup_by ex_key k (executions l) = Some x"
    and i: "lookup_by in_key k (integrity l) = Some i" by (auto simp: rebind_native_profile_for_resume_def body_iff)
  obtain eff where l': "l' = update_integrity k (\<lambda>i. i\<lparr>in_profile := p, in_permission := eff, in_updated := now\<rparr>) l"
    using assms(1) x i by (cases "meet (in_permission i) a") (auto simp: rebind_native_profile_for_resume_def body_iff Let_def)
  show ?thesis unfolding l' by (rule update_integrity_inv [OF assms(2) x assms(3)])
      (auto simp: integrity_fits_def intro: row_ok_integrity)
qed

lemma record_git_inv:
  assumes "record_git_authority_before now k a l = Inr (r, l')" "exec_inv l" "own_app l"
  shows "exec_inv l'"
proof -
  from assms(1) obtain x where x: "lookup_by ex_key k (executions l) = Some x"
    and c: "l' = l \<or> l' = update_integrity k (\<lambda>i. i\<lparr>in_git_before := Some a, in_updated := now\<rparr>) l"
    by (auto simp: record_git_authority_before_def body_iff Let_def split: option.splits)
  from c show ?thesis
  proof
    assume l': "l' = update_integrity k (\<lambda>i. i\<lparr>in_git_before := Some a, in_updated := now\<rparr>) l"
    show ?thesis unfolding l' by (rule update_integrity_inv [OF assms(2) x assms(3)])
      (auto simp: integrity_fits_def intro: row_ok_integrity)
  qed (use assms(2) in simp)
qed

end
