(* ===== verification/Execution_Growth.thy ===== *)
theory Execution_Growth
  imports Execution_Steps
begin

text \<open>
  The operations that add a row: runs, milestones, dispatch claims, plans, leases and native
  profiles; and the transition of a milestone.  Each keeps the invariant of Execution_Laws.
\<close>

lemma exec_inv_parts:
  assumes "exec_inv l"
  shows "sql_keys l" "check_orphans l = Inr ()" "check_duplicates l = Inr ()" "history_ok l" "apps_ok l" "executions_ok l"
    "integrity_ok l" "exclusive l"
  using assms by (simp_all add: exec_inv_def validate_workflow_iff)

lemma orphanD:
  assumes "check_orphans l = Inr ()"
  shows "\<And>e. e \<in> set (events l) \<Longrightarrow> ev_key e \<in> ms_key ` set (milestones l)"
    "\<And>x. x \<in> set (executions l) \<Longrightarrow> ex_key x \<in> ms_key ` set (milestones l)"
    "\<And>i. i \<in> set (integrity l) \<Longrightarrow> in_key i \<in> ex_key ` set (executions l)"
    "\<And>s. s \<in> set (sdk_events l) \<Longrightarrow> se_key s \<in> ex_key ` set (executions l)"
    "\<And>e i. e \<in> set (events l) \<Longrightarrow> ev_dispatch e = Some i \<Longrightarrow> i \<in> dp_id ` set (dispatches l)"
  using assms by (auto simp: check_orphans_def split: option.splits)

lemma check_event_cong:
  assumes "dispatches l' = dispatches l"
  shows "check_event l' e = check_event l e"
  unfolding check_event_def check_claim_def assms ..

lemma check_claim_count_cong: "events l' = events l \<Longrightarrow> check_claim_count l' d = check_claim_count l d"
  unfolding check_claim_count_def claim_count_def by simp

lemma not_in_image: "k \<notin> f ` A \<Longrightarrow> x \<in> A \<Longrightarrow> f x \<noteq> k"
  by blast

lemma exclusive_at:
  assumes "exec_inv l" "lookup_by ex_key k (executions l) = Some x" "holds_workspace w x"
    and "y \<in> set (executions l)" "ex_key y \<noteq> k"
  shows "\<not> holds_workspace w y"
  using exec_inv_parts(8) [OF assms(1)] lookup_by_in [OF assms(2)] assms(3-5) by (auto simp: exclusive_def)

lemma row_ok_mono: "row_ok own app integ st sdk x \<Longrightarrow> (own \<Longrightarrow> own') \<Longrightarrow> row_ok own' app integ st sdk x"
  unfolding row_ok_def by (elim conjE, intro conjI) blast+

section \<open>Runs and milestones\<close>

lemma runs_inv:
  assumes inv: "exec_inv l" and l': "l' = l\<lparr>runs := rs\<rparr>" and rs: "run_id ` set (runs l) \<subseteq> run_id ` set rs" "distinct (map run_id rs)"
  shows "exec_inv l'"
proof (rule exec_inv_frame [OF inv])
  note p = exec_inv_parts [OF inv]
  show "frame (MKey [] []) l l'" by (simp add: frame_def l' state_of_def sdk_of_def)
  show "sql_keys l'" using p(1) rs(2) by (simp add: sql_keys_def l')
  show "check_orphans l' = Inr ()" using p(2) rs(1) unfolding check_orphans_def require_simps l' by (auto split: option.splits)
  show "check_duplicates l' = Inr ()" using p(3) by (simp add: check_duplicates_def l')
  show "history_ok l'" using p(4) history_ok_cong [of l' l] by (simp add: l')
  show "apps_ok l'" using p(5) by (simp add: apps_ok_def check_app_native_def l')
  show "integrity_ok l'" using p(7) by (simp add: integrity_ok_def l')
  fix x assume x: "lookup_by ex_key (MKey [] []) (executions l') = Some x"
  then have x': "lookup_by ex_key (MKey [] []) (executions l) = Some x" by (simp add: l')
  from exec_inv_row [OF inv] lookup_by_in [OF x'] have "row_ok_in l x" by blast
  then show "row_ok_in l' x" by (simp add: row_ok_in_def l' state_of_def sdk_of_def leased_def)
  fix w y assume "holds_workspace w x" "y \<in> set (executions l)" "ex_key y \<noteq> MKey [] []"
  with exclusive_at [OF inv x'] show "\<not> holds_workspace w y" .
qed

lemma get_run_iff: "get_run l r = Inr row \<longleftrightarrow> lookup_by run_id r (runs l) = Some row"
  by (simp add: get_run_def split: option.splits)

lemma create_run_inv:
  assumes "create_run now r l = Inr (row, l')" "exec_inv l"
  shows "exec_inv l'"
proof (cases "lookup_by run_id r (runs l)")
  case None
  with assms(1) have l': "l' = l\<lparr>runs := runs l @ [\<lparr>run_id = r, run_created = now, run_closed = None, run_program = None\<rparr>]\<rparr>"
    by (auto simp: create_run_def bind_res_Inr_iff Let_def)
  show ?thesis
    by (rule runs_inv [OF assms(2) l']) (use None exec_inv_parts(1) [OF assms(2)] in \<open>auto simp: sql_keys_def lookup_by_None\<close>)
next
  case (Some row')
  with assms show ?thesis by (simp add: create_run_def bind_res_Inr_iff)
qed

lemma close_run_inv:
  assumes "close_run now r l = Inr (row, l')" "exec_inv l"
  shows "exec_inv l'"
proof -
  let ?f = "\<lambda>x. x\<lparr>run_closed := (case run_closed x of None \<Rightarrow> Some now | Some t \<Rightarrow> Some t)\<rparr>"
  from assms(1) have l': "l' = l\<lparr>runs := update_where (\<lambda>x. run_id x = r) ?f (runs l)\<rparr>"
    by (auto simp: close_run_def bind_res_Inr_iff Let_def)
  have keys: "map run_id (update_where (\<lambda>x. run_id x = r) ?f (runs l)) = map run_id (runs l)" by (simp add: map_update_key)
  show ?thesis
    by (rule runs_inv [OF assms(2) l'])
      (use keys exec_inv_parts(1) [OF assms(2)] in \<open>simp_all add: sql_keys_def image_update_key\<close>)
qed

lemma lookup_new: "lookup_by key j (rows @ [r]) = (if key r = j \<and> lookup_by key j rows = None then Some r else lookup_by key j rows)"
  by (cases "lookup_by key j rows") (auto simp: lookup_by_append)

lemma create_milestone_inv:
  assumes "create_milestone now r m l = Inr (row, l')" "exec_inv l"
  shows "exec_inv l'"
proof (cases "lookup_by ms_key (MKey r m) (milestones l)")
  case (Some row')
  with assms show ?thesis by (auto simp: create_milestone_def bind_res_Inr_iff)
next
  case None
  let ?k = "MKey r m" and ?m = "\<lparr>ms_key = MKey r m, ms_state = PLANNED, ms_created = now, ms_updated = now\<rparr>"
  note p = exec_inv_parts [OF assms(2)]
  from assms(1) None obtain run where l': "l' = l\<lparr>milestones := milestones l @ [?m]\<rparr>" and run: "lookup_by run_id r (runs l) = Some run"
    by (auto simp: create_milestone_def bind_res_Inr_iff Let_def get_run_iff)
  from None have new: "?k \<notin> ms_key ` set (milestones l)" by (simp add: lookup_by_None)
  have noex: "lookup_by ex_key ?k (executions l) = None"
    using new p(2) by (auto simp: lookup_by_None check_orphans_def)
  show ?thesis
  proof (rule exec_inv_frame [OF assms(2)])
    show "frame ?k l l'" by (simp add: frame_def l' state_of_def sdk_of_def lookup_new)
    show "sql_keys l'" using p(1) new by (simp add: sql_keys_def l')
    show "check_orphans l' = Inr ()"
      using p(2) lookup_by_in [OF run] unfolding check_orphans_def require_simps l' by (auto split: option.splits)
    show "check_duplicates l' = Inr ()" using p(3) new by (simp add: check_duplicates_def l')
    have "\<forall>e\<in>set (events l). ev_key e \<noteq> ?k" using new orphanD(1) [OF p(2)] by metis
    then have h: "history l ?k = []" by (simp add: history_def)
    have same: "history l' = history l" by (simp add: history_def l' fun_eq_iff)
    have "check_milestone l' x = Inr ()" if "x \<in> set (milestones l')" for x
      using that p(4) h by (auto simp: l' history_ok_def check_milestone_iff same [unfolded l'])
    moreover have "check_dispatch l' d = Inr ()" if "d \<in> set (dispatches l')" for d
      using that p(4) by (auto simp: l' history_ok_def check_dispatch_def bind_res_Inr_iff)
    ultimately show "history_ok l'"
      using p(4) check_event_cong [of l' l] check_claim_count_cong [of l' l] by (simp add: history_ok_def l')
    show "apps_ok l'" using p(5) by (simp add: apps_ok_def check_app_native_def l')
    show "integrity_ok l'" using p(7) by (simp add: integrity_ok_def l')
  qed (simp_all add: l' noex)
qed

section \<open>Transitions and claims\<close>

text \<open>What lets a milestone move: it has no execution, a planned one, or a completed one that stays.\<close>

definition state_free :: "ledger \<Rightarrow> mkey \<Rightarrow> workflow_state \<Rightarrow> bool" where
  "state_free l k tgt \<longleftrightarrow> (case lookup_by ex_key k (executions l) of
     None \<Rightarrow> True
   | Some x \<Rightarrow> ex_status x = EX_PLANNED \<or> (ex_status x = EX_COMPLETED \<and> tgt \<notin> {PLANNED, CANCELLED}))"

lemma shift_inv:
  assumes inv: "exec_inv l" and app: "own_app l" and st: "state_of l k = Some src" and free: "state_free l k tgt"
    and l': "l' = l\<lparr>milestones := update_where (\<lambda>m. ms_key m = k) (\<lambda>m. m\<lparr>ms_state := tgt, ms_updated := now\<rparr>) (milestones l),
      dispatches := dispatches l @ ds, events := events l @ [e]\<rparr>"
    and e: "ev_key e = k" "ev_sequence e = next_sequence l k"
    and ds: "\<And>d. d \<in> set ds \<Longrightarrow> dp_key d = k" "distinct (map dp_id (dispatches l @ ds))"
      "distinct (map (\<lambda>d. (dp_key d, dp_role d, dp_generation d)) (dispatches l @ ds))"
      "\<And>i. ev_dispatch e = Some i \<Longrightarrow> i \<in> dp_id ` set (dispatches l @ ds)"
    and hist: "history_ok l'"
  shows "exec_inv l'"
proof (rule exec_inv_frame [OF inv])
  note p = exec_inv_parts [OF inv]
  have keys: "ms_key ` set (milestones l') = ms_key ` set (milestones l)" "map ms_key (milestones l') = map ms_key (milestones l)"
    by (simp_all add: l' image_update_key map_update_key)
  from st have kms: "k \<in> ms_key ` set (milestones l)" by (auto simp: state_of_def dest: lookup_by_in)
  show "frame k l l'" by (simp add: frame_def l' state_of_def sdk_of_def lookup_update_key)
  show "sql_keys l'" using p(1) ds(2) by (simp add: sql_keys_def l' map_update_key)
  have m: "(\<forall>m\<in>set (milestones l'). mk_run (ms_key m) \<in> S) \<longleftrightarrow> (\<forall>m\<in>set (milestones l). mk_run (ms_key m) \<in> S)" for S
    by (rule ball_same_keys [OF keys(1)])
  have "(\<forall>d\<in>set (dispatches l'). dp_key d \<in> ms_key ` set (milestones l))"
    using p(2) ds(1) kms by (auto simp: check_orphans_def l')
  moreover have "(\<forall>e\<in>set (events l'). ev_key e \<in> ms_key ` set (milestones l))"
    using p(2) e(1) kms by (auto simp: check_orphans_def l')
  moreover have "\<forall>e\<in>set (events l'). case ev_dispatch e of None \<Rightarrow> True | Some i \<Rightarrow> i \<in> dp_id ` set (dispatches l')"
    using p(2) ds(4) by (fastforce simp: check_orphans_def l' split: option.splits)
  moreover have "\<forall>a\<in>set (app_native l'). an_dispatch a \<in> dp_id ` set (dispatches l') \<and> an_key a \<in> ex_key ` set (executions l')"
    using app by (simp add: own_app_def l')
  ultimately show "check_orphans l' = Inr ()"
    using p(2) unfolding check_orphans_def require_simps m keys(1) by (simp add: l')
  show "check_duplicates l' = Inr ()"
    using p(3) ds(3) next_sequence_above [of _ l k] by (fastforce simp: check_duplicates_def l' map_update_key e)
  show "history_ok l'" by (rule hist)
  show "apps_ok l'" using app by (simp add: apps_ok_def own_app_def l')
  show "integrity_ok l'" using p(7) by (simp add: integrity_ok_def l')
  fix x assume "lookup_by ex_key k (executions l') = Some x"
  then have x: "lookup_by ex_key k (executions l) = Some x" by (simp add: l')
  have kx: "ex_key x = k" using lookup_by_in [OF x] by blast
  have st': "state_of l' k = Some tgt" using st by (auto simp: l' state_of_def lookup_update_key)
  from exec_inv_row [OF inv] lookup_by_in [OF x] have "row_ok_in l x" by blast
  with free x st show "row_ok_in l' x"
    unfolding row_ok_in_def kx st' state_free_def own_app_lookup [OF app]
    by (auto simp: l' leased_def sdk_of_def own_app_lookup [OF app] row_ok_plain check_status_plain)
  fix w y assume "holds_workspace w x" "y \<in> set (executions l)" "ex_key y \<noteq> k"
  with exclusive_at [OF inv x] show "\<not> holds_workspace w y" .
qed

lemma transition_move:
  assumes "transition now k tgt expected why l = Inr (e, l')"
  obtains why' where "move_milestone now k expected tgt State_Transition why' None l = Inr (e, l')" "state_of l k = Some expected"
    "is_transition_allowed expected tgt" "why' \<noteq> Some DISPATCH_CLAIMED" "\<not> (expected = PLANNED \<and> tgt = STARTING)"
proof -
  let ?why = "if why = None \<and> tgt \<in> set TERMINAL_STATES then Some TERMINAL_OUTCOME else why"
  from assms have "move_milestone now k expected tgt State_Transition ?why None l = Inr (e, l')" "state_of l k = Some expected"
    "is_transition_allowed expected tgt" "why \<noteq> Some DISPATCH_CLAIMED" "\<not> (expected = PLANNED \<and> tgt = STARTING)"
    by (auto simp: transition_def bind_res_Inr_iff get_milestone_iff state_of_def)
  then show ?thesis by (intro that [of ?why]) auto
qed

lemma transition_inv:
  assumes "transition now k tgt expected why l = Inr (e, l')" "exec_inv l" "own_app l" "state_free l k tgt"
  shows "exec_inv l'"
proof -
  from assms(1) obtain why' where mv: "move_milestone now k expected tgt State_Transition why' None l = Inr (e, l')"
    and st: "state_of l k = Some expected"
    and ok: "is_transition_allowed expected tgt" "why' \<noteq> Some DISPATCH_CLAIMED" "\<not> (expected = PLANNED \<and> tgt = STARTING)"
    by (rule transition_move)
  note mf = move_milestone_fields [OF mv]
  have e: "ev_key e = k" "ev_sequence e = next_sequence l k" "ev_dispatch e = None"
    using mf(2) by (metis event_row.select_convs)+
  show ?thesis
  proof (rule shift_inv [OF assms(2,3) st assms(4), where ds = "[]"])
    show "l' = l\<lparr>milestones := update_where (\<lambda>m. ms_key m = k) (\<lambda>m. m\<lparr>ms_state := tgt, ms_updated := now\<rparr>) (milestones l),
      dispatches := dispatches l @ [], events := events l @ [e]\<rparr>" by (simp add: mf(3) set_milestone_state_def)
    show "history_ok l'"
      by (rule move_milestone_history [OF mv exec_inv_history [OF assms(2)] st ok])
    show "distinct (map dp_id (dispatches l @ []))"
      "distinct (map (\<lambda>d. (dp_key d, dp_role d, dp_generation d)) (dispatches l @ []))"
      using exec_inv_parts(1,3) [OF assms(2)] by (simp_all add: sql_keys_def check_duplicates_def)
  qed (simp_all add: e)
qed

lemma claim_dispatch_inv:
  assumes "claim_dispatch now r m role g l = Inr (d, l')" "exec_inv l" "own_app l"
  shows "exec_inv l'"
proof (cases "d \<in> set (dispatches l) \<and> l' = l")
  case True
  with assms(2) show ?thesis by simp
next
  case False
  let ?k = "MKey r m"
  note p = exec_inv_parts [OF assms(2)]
  from assms(1) obtain i where g: "g = 1" and i: "dispatch_id_from_parts (r, m, role, g) = Inr i"
    by (auto simp: claim_dispatch_def bind_res_Inr_iff)
  from False assms(1) i g have new1: "lookup_by dp_id i (dispatches l) = None"
    by (cases "lookup_by dp_id i (dispatches l)") (auto simp: claim_dispatch_def bind_res_Inr_iff dest: lookup_by_in)
  from assms(1) i g new1 obtain c e where new2: "\<not> (\<exists>d\<in>set (dispatches l). dp_key d = ?k \<and> dp_role d = role)"
    and c: "lookup_by ms_key ?k (milestones l) = Some c" "ms_state c = PLANNED"
    and d: "d = \<lparr>dp_id = i, dp_key = ?k, dp_role = role, dp_generation = g, dp_claimed = now\<rparr>"
    and mv: "move_milestone now ?k PLANNED STARTING Dispatch_Claimed (Some DISPATCH_CLAIMED) (Some i)
      (l\<lparr>dispatches := dispatches l @ [d]\<rparr>) = Inr (e, l')"
    by (auto simp: claim_dispatch_def bind_res_Inr_iff get_milestone_iff Let_def split: prod.splits)
  note new = new1 new2
  from lookup_by_in [OF c(1)] have kms: "?k \<in> ms_key ` set (milestones l)" by (metis imageI)
  note mf = move_milestone_fields [OF mv]
  have seq: "next_sequence (l\<lparr>dispatches := dispatches l @ [d]\<rparr>) ?k = next_sequence l ?k" by (simp add: next_sequence_def)
  have e: "ev_key e = ?k" "ev_sequence e = next_sequence l ?k" "ev_dispatch e = Some i" "ev_from e = Some PLANNED" "ev_to e = STARTING"
    "ev_type e = Dispatch_Claimed" "ev_reason e = Some DISPATCH_CLAIMED"
    using mf(2) unfolding seq by (metis event_row.select_convs)+
  have l': "l' = l\<lparr>milestones := update_where (\<lambda>m. ms_key m = ?k) (\<lambda>m. m\<lparr>ms_state := STARTING, ms_updated := now\<rparr>) (milestones l),
      dispatches := dispatches l @ [d], events := events l @ [e]\<rparr>"
    by (simp add: mf(3) set_milestone_state_def)
  from c have st: "state_of l ?k = Some PLANNED" by (simp add: state_of_def)
  have free: "state_free l ?k STARTING"
  proof (cases "lookup_by ex_key ?k (executions l)")
    case (Some x)
    from exec_inv_row [OF assms(2)] lookup_by_in [OF Some] have "row_ok_in l x" by blast
    moreover have "ex_key x = ?k" using lookup_by_in [OF Some] by blast
    ultimately show ?thesis using Some st own_app_lookup [OF assms(3)]
      by (cases "ex_status x") (auto simp: state_free_def row_ok_in_def row_ok_plain check_status_plain)
  qed (simp add: state_free_def)
  have fresh: "i \<notin> dp_id ` set (dispatches l)" using new(1) by (simp add: lookup_by_None)
  have none: "ev_dispatch e' \<noteq> Some i" if "e' \<in> set (events l)" for e'
    using p(2) fresh that by (force simp: check_orphans_def)
  have count: "claim_count l' j = (if j = i then 1 else claim_count l j)" for j
    using none by (auto simp: claim_count_def l' e filter_empty_conv)
  show ?thesis
  proof (rule shift_inv [OF assms(2,3) st free l' e(1,2)])
    show "distinct (map dp_id (dispatches l @ [d]))" using p(1) fresh by (simp add: sql_keys_def d)
    show "distinct (map (\<lambda>d. (dp_key d, dp_role d, dp_generation d)) (dispatches l @ [d]))"
      using p(3) new(2) by (auto simp: check_duplicates_def d)
    show "history_ok l'"
    proof (rule history_ok_append [OF p(4,1)])
      show "dispatches l' = dispatches l @ [d]" "events l' = events l @ [e]"
        "milestones l' = update_where (\<lambda>m. ms_key m = ev_key e) (\<lambda>m. m\<lparr>ms_state := ev_to e, ms_updated := now\<rparr>) (milestones l)"
        "lookup_by ms_key (ev_key e) (milestones l) = Some c" "ev_from e = Some (ms_state c)"
        "ev_sequence e = next_sequence l (ev_key e)"
        using c by (simp_all add: l' e)
      have find: "lookup_by dp_id i (dispatches l') = Some d" using new(1) by (simp add: l' lookup_new d)
      show "check_event l' e = Inr ()"
        using mf(1) find g unfolding seq by (simp add: check_event_def e is_transition_allowed_def check_claim_def d)
      show "check_dispatch l' d' = Inr ()" if "d' \<in> set [d]" for d'
        using that i kms by (auto simp: check_dispatch_def d l' image_update_key)
      show "check_claim_count l' d' = Inr ()" if "d' \<in> set (dispatches l')" for d'
      proof (cases "dp_id d' = i")
        case False
        with that have "d' \<in> set (dispatches l)" by (auto simp: l' d)
        with p(4) have "check_claim_count l d' = Inr ()" by (simp add: history_ok_def)
        with False show ?thesis by (simp add: check_claim_count_def count split: if_splits)
      qed (simp add: check_claim_count_def count)
    qed
  qed (use e in \<open>auto simp: d\<close>)
qed

section \<open>Plans, leases and native profiles\<close>

lemma plan_execution_inv:
  assumes "plan_execution now k p l = Inr (x, l')" "exec_inv l" "own_app l"
  shows "exec_inv l'"
proof (cases "lookup_by ex_key k (executions l)")
  case (Some row)
  with assms show ?thesis by (auto simp: plan_execution_def bind_res_Inr_iff)
next
  case None
  note q = exec_inv_parts [OF assms(2)]
  from assms(1) None obtain m where m: "lookup_by ms_key k (milestones l) = Some m" and l': "l' = l\<lparr>executions := executions l @ [x]\<rparr>"
    and x: "ex_key x = k" "ex_status x = EX_PLANNED" "ex_checkpoint x = CAPSULE_PLANNED" "ex_thread x = None" "ex_turn x = None"
      "ex_output x = None"
    by (auto simp: plan_execution_def bind_res_Inr_iff get_milestone_iff Let_def)
  from None have new: "k \<notin> ex_key ` set (executions l)" by (simp add: lookup_by_None)
  from lookup_by_in [OF m] have kms: "ex_key x \<in> ms_key ` set (milestones l)" unfolding x(1) by blast
  have "k \<notin> in_key ` set (integrity l)" "\<forall>s\<in>set (sdk_events l). se_key s \<noteq> k"
    using new orphanD(3,4) [OF q(2)] by (metis imageE, metis)
  then have noint: "lookup_by in_key k (integrity l) = None" and nosdk: "sdk_of l k = []"
    by (simp_all add: lookup_by_None sdk_of_def)
  show ?thesis
  proof (rule exec_inv_frame [OF assms(2)])
    show "frame k l l'" by (simp add: frame_def l' state_of_def sdk_of_def lookup_new x)
    show "sql_keys l'" using q(1) new by (simp add: sql_keys_def l' x)
    show "check_orphans l' = Inr ()"
      using q(2) kms unfolding check_orphans_def require_simps l' by (auto split: option.splits)
    show "check_duplicates l' = Inr ()" using q(3) by (simp add: check_duplicates_def l')
    show "history_ok l'" using q(4) history_ok_cong [of l' l] by (simp add: l')
    show "apps_ok l'" using q(5) by (simp add: apps_ok_def check_app_native_def l')
    show "integrity_ok l'" using q(7) by (simp add: integrity_ok_def l')
    fix y assume "lookup_by ex_key k (executions l') = Some y"
    with None have y: "y = x" by (simp add: l' lookup_new x)
    have st: "state_of l' k = Some (ms_state m)" using m by (simp add: state_of_def l')
    have same: "own_app l'" "sdk_of l' k = []" "lookup_by in_key k (integrity l') = None"
      using assms(3) nosdk noint by (simp_all add: l' own_app_def sdk_of_def)
    show "row_ok_in l' y"
      unfolding row_ok_in_def y x(1) st same own_app_lookup [OF same(1)] by (simp add: x row_facts)
    fix w z assume "holds_workspace w y"
    then show "\<not> holds_workspace w z" by (simp add: y holds_workspace_def x)
  qed
qed

lemma record_native_profile_inv:
  assumes "record_native_profile now k p l = Inr (i, l')" "exec_inv l" "own_app l"
  shows "exec_inv l'"
proof (cases "lookup_by in_key k (integrity l)")
  case (Some row)
  with assms show ?thesis by (auto simp: record_native_profile_def bind_res_Inr_iff)
next
  case None
  let ?f = "\<lambda>x. x\<lparr>ex_checkpoint := WORKSPACE_BASELINE_DURABLE, ex_updated := now\<rparr>"
  note q = exec_inv_parts [OF assms(2)]
  from assms(1) None obtain x where x: "lookup_by ex_key k (executions l) = Some x" "ex_status x = EX_PLANNED"
      "ex_checkpoint x \<in> {WORKSPACE_LEASED, WORKSPACE_BASELINE_DURABLE}"
    and l': "l' = update_execution k ?f (l\<lparr>integrity := integrity l @ [i]\<rparr>)"
    and i: "in_key i = k" "in_git_before i \<noteq> None" "in_turn_started i = None"
    by (auto simp: record_native_profile_def body_iff Let_def)
  have kx: "ex_key x = k" "x \<in> set (executions l)" using lookup_by_in [OF x(1)] by blast+
  have row: "row_ok_in l x" using exec_inv_row [OF assms(2)] kx by blast
  from None have new: "k \<notin> in_key ` set (integrity l)" by (simp add: lookup_by_None)
  have imgs: "ex_key ` set (executions l') = ex_key ` set (executions l)"
    by (simp add: l' update_execution_def image_update_key)
  have e: "(\<forall>x\<in>set (executions l'). ex_key x \<in> S) \<longleftrightarrow> (\<forall>x\<in>set (executions l). ex_key x \<in> S)" for S
    by (rule ball_same_keys [OF imgs])
  show ?thesis
  proof (rule exec_inv_frame [OF assms(2)])
    show "frame k l l'" by (simp add: frame_def l' update_execution_def state_of_def sdk_of_def lookup_new lookup_update_key i)
    show "sql_keys l'" using q(1) new by (simp add: sql_keys_def l' update_execution_def map_update_key i)
    show "check_orphans l' = Inr ()"
      using q(2) kx i(1) unfolding check_orphans_def require_simps imgs e
      by (auto simp: l' update_execution_def split: option.splits)
    show "check_duplicates l' = Inr ()" using q(3) by (simp add: check_duplicates_def l' update_execution_def)
    show "history_ok l'" using q(4) history_ok_cong [of l' l] by (simp add: l' update_execution_def)
    show "apps_ok l'" using assms(3) by (simp add: apps_ok_def own_app_def l' update_execution_def)
    show "integrity_ok l'" using q(7) i(2) by (auto simp: integrity_ok_def l' update_execution_def check_integrity_def)
    fix y assume "lookup_by ex_key k (executions l') = Some y"
    with x(1) have y: "y = ?f x" by (simp add: l' update_execution_def lookup_update_key)
    have same: "state_of l' k = state_of l k" "sdk_of l' k = sdk_of l k" "lookup_by in_key k (integrity l') = Some i"
      "leased l' w r = leased l w r" "own_app l'" for w r
      using None assms(3) by (simp_all add: l' update_execution_def state_of_def sdk_of_def lookup_new i leased_def own_app_def)
    show "row_ok_in l' y"
      using row x(2,3) i None
      by (auto simp: y row_ok_in_def kx(1) same own_app_lookup [OF same(5)] own_app_lookup [OF assms(3)] row_facts turn_starting_marker_def)
    fix w z assume h: "holds_workspace w y" "z \<in> set (executions l)" "ex_key z \<noteq> k"
    then have "holds_workspace w x" using x(2,3) by (auto simp: y holds_workspace_def)
    with exclusive_at [OF assms(2) x(1) _ h(2,3)] show "\<not> holds_workspace w z" by blast
  qed
qed

text \<open>
  A lease that is already there was given to the run of the milestone, and nobody else holds the
  workspace; a new lease is for a workspace nobody can hold, since holders have their lease.
\<close>

lemma settle_lease_cases:
  assumes "settle_lease k want l = Inr (lease, l')"
  obtains "l' = l\<lparr>leases := leases l @ [want]\<rparr>" "lookup_by ls_workspace (ls_workspace want) (leases l) = None"
    | "l' = l" "lookup_by ls_workspace (ls_workspace want) (leases l) = Some want"
      "\<And>y. y \<in> set (executions l) \<Longrightarrow> ex_key y \<noteq> k \<Longrightarrow> \<not> holds_workspace (ls_workspace want) y"
    | "l' = l" "\<exists>r\<in>set (leases l). r = want"
      "\<And>y. y \<in> set (executions l) \<Longrightarrow> ex_key y \<noteq> k \<Longrightarrow> \<not> holds_workspace (ls_workspace want) y"
proof -
  define owner where "owner = select_one (\<lambda>w. ls_owner w = mk_run k \<and> ls_lane w = ls_lane want) (leases l)"
  define path where "path = lookup_by ls_workspace (ls_workspace want) (leases l)"
  show ?thesis
  proof (cases owner)
    case (Some r)
    then have "r \<in> set (leases l)" unfolding owner_def by (blast dest: select_one_Some)
    with assms Some show ?thesis
      by (intro that(3)) (auto simp: settle_lease_def Let_def owner_def [symmetric] bind_res_Inr_iff)
  next
    case None
    show ?thesis
    proof (cases path)
      case (Some r)
      with assms None show ?thesis
        by (intro that(2)) (auto simp: settle_lease_def Let_def owner_def [symmetric] path_def [symmetric] bind_res_Inr_iff,
            simp_all add: path_def)
    next
      assume "path = None"
      with assms None show ?thesis
        by (intro that(1)) (auto simp: settle_lease_def Let_def owner_def [symmetric] path_def [symmetric], simp add: path_def)
    qed
  qed
qed

lemma lease_inv:
  assumes inv: "exec_inv l" and l': "l' = l\<lparr>leases := leases l @ [want]\<rparr>"
    and new: "lookup_by ls_workspace (ls_workspace want) (leases l) = None" and run: "ls_owner want \<in> run_id ` set (runs l)"
  shows "exec_inv l'"
proof (rule exec_inv_frame [OF inv])
  note p = exec_inv_parts [OF inv]
  have mono: "leased l w r \<Longrightarrow> leased l' w r" for w r
    by (simp add: leased_def l' lookup_new split: option.splits)
  show "frame (MKey [] []) l l'" by (simp add: frame_def l' state_of_def sdk_of_def lookup_new)
  show "sql_keys l'" using p(1) new by (simp add: sql_keys_def l' lookup_by_None)
  show "check_orphans l' = Inr ()" using p(2) run unfolding check_orphans_def require_simps l' by (auto split: option.splits)
  show "check_duplicates l' = Inr ()" using p(3) by (simp add: check_duplicates_def l')
  show "history_ok l'" using p(4) history_ok_cong [of l' l] by (simp add: l')
  show "apps_ok l'" using p(5) by (simp add: apps_ok_def check_app_native_def l')
  show "integrity_ok l'" using p(7) by (simp add: integrity_ok_def l')
  fix x assume x: "lookup_by ex_key (MKey [] []) (executions l') = Some x"
  then have x': "lookup_by ex_key (MKey [] []) (executions l) = Some x" by (simp add: l')
  from exec_inv_row [OF inv] lookup_by_in [OF x'] have "row_ok_in l x" by blast
  then obtain st where st: "state_of l (ex_key x) = Some st" and ok: "row_ok (leased l (ex_workspace x) (mk_run (ex_key x)))
      (lookup_by an_key (ex_key x) (app_native l)) (lookup_by in_key (ex_key x) (integrity l)) st (sdk_of l (ex_key x)) x"
    by (auto simp: row_ok_in_def)
  have same: "state_of l' (ex_key x) = state_of l (ex_key x)" "sdk_of l' (ex_key x) = sdk_of l (ex_key x)"
    "app_native l' = app_native l" "integrity l' = integrity l"
    by (simp_all add: l' state_of_def sdk_of_def)
  from row_ok_mono [OF ok mono] st show "row_ok_in l' x" unfolding row_ok_in_def same by blast
  fix w y assume "holds_workspace w x" "y \<in> set (executions l)" "ex_key y \<noteq> MKey [] []"
  with exclusive_at [OF inv x'] show "\<not> holds_workspace w y" .
qed

lemma holder_leased:
  assumes "exec_inv l" "y \<in> set (executions l)" "holds_workspace w y"
  shows "lookup_by ls_workspace w (leases l) \<noteq> None"
proof -
  from assms(1,2) have "extra l y" by (simp add: exec_inv_def)
  with assms(3) show ?thesis by (auto simp: extra_def holds_workspace_iff leased_def split: option.splits)
qed

lemma lease_step_inv:
  assumes inv: "exec_inv l" and app: "own_app l" and x: "lookup_by ex_key k (executions l) = Some x"
    and p: "ex_status x = EX_PLANNED" "ex_checkpoint x = CAPSULE_PLANNED"
    and own: "leased l (ex_workspace x) (mk_run k)"
    and free: "\<And>y. y \<in> set (executions l) \<Longrightarrow> ex_key y \<noteq> k \<Longrightarrow> \<not> holds_workspace (ex_workspace x) y"
  shows "exec_inv (update_execution k (\<lambda>x. x\<lparr>ex_checkpoint := WORKSPACE_LEASED, ex_updated := now\<rparr>) l)"
    (is "exec_inv (update_execution k ?f l)")
proof (rule exec_inv_frame [OF inv])
  let ?l = "update_execution k ?f l"
  note q = exec_inv_parts [OF inv]
  have kx: "ex_key x = k" "x \<in> set (executions l)" using lookup_by_in [OF x] by blast+
  have imgs: "ex_key ` set (executions ?l) = ex_key ` set (executions l)" by (simp add: update_execution_def image_update_key)
  have e: "(\<forall>x\<in>set (executions ?l). ex_key x \<in> S) \<longleftrightarrow> (\<forall>x\<in>set (executions l). ex_key x \<in> S)" for S
    by (rule ball_same_keys [OF imgs])
  have same: "state_of ?l j = state_of l j" "sdk_of ?l j = sdk_of l j" "leased ?l w r = leased l w r" "own_app ?l"
      "integrity ?l = integrity l" for j w r
    using app by (simp_all add: update_execution_def state_of_def sdk_of_def leased_def own_app_def)
  show "frame k l ?l" by (simp add: frame_def update_execution_def state_of_def sdk_of_def lookup_update_key)
  show "sql_keys ?l" using q(1) by (simp add: sql_keys_def update_execution_def map_update_key)
  show "check_orphans ?l = Inr ()"
    using q(2) unfolding check_orphans_def require_simps imgs e by (simp add: update_execution_def split: option.splits)
  show "check_duplicates ?l = Inr ()" using q(3) by (simp add: check_duplicates_def update_execution_def)
  show "history_ok ?l" using q(4) history_ok_cong [of ?l l] by (simp add: update_execution_def)
  show "apps_ok ?l" using same(4) by (simp add: apps_ok_def own_app_def)
  show "integrity_ok ?l" using q(7) by (simp add: integrity_ok_def same(5))
  from exec_inv_row [OF inv kx(2)] obtain st where st: "state_of l k = Some st"
      "row_ok (leased l (ex_workspace x) (mk_run k)) None (lookup_by in_key k (integrity l)) st (sdk_of l k) x"
    by (auto simp: row_ok_in_def kx(1) own_app_lookup [OF app])
  fix y assume "lookup_by ex_key k (executions ?l) = Some y"
  with x have y: "y = ?f x" by (simp add: update_execution_def lookup_update_key)
  have ky: "ex_key y = k" "ex_workspace y = ex_workspace x" by (simp_all add: y kx)
  show "row_ok_in ?l y"
    unfolding row_ok_in_def ky same own_app_lookup [OF same(4)] st(1)
    using st(2) own p by (auto simp: y row_ok_plain check_status_plain turn_rows_ok_def integrity_fits_def)
  fix w z assume "holds_workspace w y" "z \<in> set (executions l)" "ex_key z \<noteq> k"
  with free show "\<not> holds_workspace w z" by (auto simp: ky holds_workspace_iff)
qed

lemma acquire_lease_inv:
  assumes "acquire_workspace_lease now k want0 l = Inr (lease, l')" "exec_inv l" "own_app l"
  shows "exec_inv l'"
proof -
  define want where "want = want0\<lparr>ls_owner := mk_run k\<rparr>"
  let ?f = "\<lambda>x. x\<lparr>ex_checkpoint := WORKSPACE_LEASED, ex_updated := now\<rparr>"
  from assms(1) obtain x l1 where x: "lookup_by ex_key k (executions l) = Some x" and w: "ex_workspace x = ls_workspace want"
    and settle: "settle_lease k want l = Inr (lease, l1)"
    and l': "l' = (if ex_status x = EX_PLANNED \<and> ex_checkpoint x = CAPSULE_PLANNED then update_execution k ?f l1 else l1)"
    by (auto simp: acquire_workspace_lease_def body_iff want_def)
  have own: "ls_owner want = mk_run k" by (simp add: want_def)
  have kx: "ex_key x = k" "x \<in> set (executions l)" using lookup_by_in [OF x] by blast+
  note p = exec_inv_parts [OF assms(2)]
  have run: "mk_run k \<in> run_id ` set (runs l)"
  proof -
    from orphanD(2) [OF p(2) kx(2)] obtain m where "m \<in> set (milestones l)" "ms_key m = k" by (auto simp: kx(1))
    with p(2) show ?thesis by (auto simp: check_orphans_def)
  qed
  have d: "distinct (map ls_workspace (leases l))" using p(1) by (simp add: sql_keys_def)
  have "exec_inv l1 \<and> own_app l1 \<and> executions l1 = executions l \<and> leased l1 (ex_workspace x) (mk_run k)
    \<and> (\<forall>y\<in>set (executions l). ex_key y \<noteq> k \<longrightarrow> \<not> holds_workspace (ex_workspace x) y)"
    using settle
  proof (cases rule: settle_lease_cases)
    case 1
    have "exec_inv l1" by (rule lease_inv [OF assms(2) 1]) (simp add: own run)
    moreover have "\<forall>y\<in>set (executions l). \<not> holds_workspace (ex_workspace x) y"
      using holder_leased [OF assms(2)] 1(2) unfolding w by blast
    ultimately show ?thesis using assms(3) 1 by (simp add: own_app_def leased_def lookup_new w own)
  next
    case 2
    then show ?thesis using assms(2,3) by (simp add: leased_def w own)
  next
    case 3
    then have "lookup_by ls_workspace (ls_workspace want) (leases l) = Some want" using lookup_by_unique [OF d] by blast
    with 3 show ?thesis using assms(2,3) by (simp add: leased_def w own)
  qed
  then show ?thesis using lease_step_inv [of l1 k x now] x by (auto simp: l')
qed

section \<open>Cancellation\<close>

lemma update_where_Nil [simp]: "update_where P f [] = []"
  by (simp add: update_where_def)

text \<open>What the workflow half reads of a ledger; cancelling a queue row touches none of it.\<close>

definition same_workflow :: "ledger \<Rightarrow> ledger \<Rightarrow> bool" where
  "same_workflow l l' \<longleftrightarrow> runs l' = runs l \<and> milestones l' = milestones l \<and> dispatches l' = dispatches l
     \<and> events l' = events l \<and> executions l' = executions l \<and> integrity l' = integrity l \<and> leases l' = leases l
     \<and> sdk_events l' = sdk_events l \<and> app_native l' = app_native l"

lemma same_workflow_inv:
  assumes "same_workflow l l'" "exec_inv l"
  shows "exec_inv l'"
proof (rule exec_inv_frame [OF assms(2)])
  note p = exec_inv_parts [OF assms(2)]
  note same = assms(1) [unfolded same_workflow_def]
  show "frame (MKey [] []) l l'" using same by (simp add: frame_def state_of_def sdk_of_def)
  show "sql_keys l'" using p(1) same by (simp add: sql_keys_def)
  show "check_orphans l' = Inr ()" using p(2) same by (simp add: check_orphans_def split: option.splits)
  show "check_duplicates l' = Inr ()" using p(3) same by (simp add: check_duplicates_def)
  show "history_ok l'" using p(4) history_ok_cong [of l' l] same by simp
  show "apps_ok l'" using p(5) same by (simp add: apps_ok_def check_app_native_def)
  show "integrity_ok l'" using p(7) same by (simp add: integrity_ok_def)
  fix x assume x: "lookup_by ex_key (MKey [] []) (executions l') = Some x"
  then have x': "lookup_by ex_key (MKey [] []) (executions l) = Some x" using same by simp
  from exec_inv_row [OF assms(2)] lookup_by_in [OF x'] have "row_ok_in l x" by blast
  then show "row_ok_in l' x" using same by (simp add: row_ok_in_def state_of_def sdk_of_def leased_def)
  fix w y assume "holds_workspace w x" "y \<in> set (executions l)" "ex_key y \<noteq> MKey [] []"
  with exclusive_at [OF assms(2) x'] show "\<not> holds_workspace w y" .
qed

lemma cancel_queue_row_workflow:
  assumes "cancel_queue_row now epoch retain q l = Inr (q', l')"
  shows "same_workflow l l'"
  using assms
  by (auto simp: cancel_queue_row_def bind_res_Inr_iff Let_def same_workflow_def returning_def retire_checkpoints_def
      unresolve_commands_def split: if_splits option.splits)

lemma cancel_execution_inv:
  assumes "cancel_execution now k l = Inr (r, l')" "exec_inv l" "own_app l"
  shows "exec_inv l'"
proof -
  let ?f = "\<lambda>x. x\<lparr>ex_status := EX_CANCELLED, ex_checkpoint := RESULT_DURABLE, ex_updated := now\<rparr>"
  from assms(1) obtain x m where x: "lookup_by ex_key k (executions l) = Some x"
      "ex_status x \<in> {EX_PLANNED, EX_THREAD_STARTED, EX_UNCERTAIN_PRE_IDENTITY}"
    and m: "lookup_by ms_key k (milestones l) = Some m" by (auto simp: cancel_execution_def body_iff)
  show ?thesis
  proof (cases "ms_state m \<in> set TERMINAL_STATES")
    case True
    with assms x m show ?thesis by (auto simp: cancel_execution_def body_iff)
  next
    case False
    define Q where "Q = (case select_one (\<lambda>q. q_key q = k) (queue l) of None \<Rightarrow> Inr l
      | Some q \<Rightarrow> bind_res (cancel_queue_row now None False q l) (\<lambda>(_, l'). Inr l'))"
    have sel: "lookup_by ms_key k (milestones l) = Some m" by (rule m)
    from assms(1) x sel False obtain l1 e where l1: "Q = Inr l1"
      and mv: "move_milestone now k (ms_state m) CANCELLED State_Transition None None
        (update_execution k ?f l1\<lparr>app_native := update_where (\<lambda>a. an_key a = k) (\<lambda>a. a\<lparr>an_state := App_Cancelled\<rparr>)
          (app_native (update_execution k ?f l1))\<rparr>) = Inr (e, l')"
      by (auto simp: cancel_execution_def body_iff Let_def Q_def [symmetric] split: prod.splits)
    have same: "same_workflow l l1"
      using l1 cancel_queue_row_workflow unfolding Q_def
      by (auto simp: bind_res_Inr_iff same_workflow_def split: option.splits prod.splits)
    have inv: "exec_inv l1" by (rule same_workflow_inv [OF same assms(2)])
    have x1: "lookup_by ex_key k (executions l1) = Some x" "lookup_by ms_key k (milestones l1) = Some m" "own_app l1"
      using same x m assms(3) by (simp_all add: same_workflow_def own_app_def)
    have upd: "update_execution k ?f l1\<lparr>app_native := update_where (\<lambda>a. an_key a = k) (\<lambda>a. a\<lparr>an_state := App_Cancelled\<rparr>)
        (app_native (update_execution k ?f l1))\<rparr> = update_integrity k id (update_execution k ?f l1)"
      using x1(3) by (cases l1) (simp add: update_integrity_def update_execution_def own_app_def update_where_none)
    have allowed: "is_transition_allowed (ms_state m) CANCELLED"
      using False by (cases "ms_state m") (simp_all add: is_transition_allowed_def TERMINAL_STATES_def)
    show ?thesis
    proof (rule move_inv [OF inv x1(1,3) _ _ _ _ _ mv [unfolded upd] state_of_milestone [OF x1(2)] allowed])
      fix own integ sdk
      assume "row_ok own None integ (ms_state m) sdk x"
      then show "row_ok own None (map_option id integ) CANCELLED sdk (?f x)"
        by (auto simp: row_facts)
    qed (auto simp: live_row_def terminal_status_def)
  qed
qed

end
