(* ===== verification/Execution_Machine.thy ===== *)
theory Execution_Machine
  imports Execution_Growth Workflow_Laws
begin

text \<open>
  The workflow half of the ledger as one machine: the operations of Ledger_Execution as data, each
  run as its own transaction.  The laws: a guard that passes is enough, two executions never hold one
  workspace, and what was recorded stays recorded.
\<close>

section \<open>The machine\<close>

datatype exec_op =
    Create_Run pystr | Close_Run pystr | Create_Milestone pystr pystr
  | Claim_Dispatch pystr pystr pystr int
  | Transition mkey workflow_state workflow_state "reason_code option"
  | Plan_Execution mkey plan | Acquire_Lease mkey lease_row | Record_Profile mkey profile_facts
  | Rebind_Profile mkey pystr pystr native_authority | Record_Git mkey pystr
  | Thread_Start mkey | Thread_Uncertain mkey | Thread_Rejected mkey | Thread_Identity mkey pystr
  | Turn_Start mkey | Turn_Rejected mkey | Turn_Recorded mkey observation
  | Terminal_Result mkey outcome | Cancel_Execution mkey

definition forget :: "'a ledger_op \<Rightarrow> unit ledger_op" where
  "forget f l = bind_res (f l) (\<lambda>(_, l'). Inr ((), l'))"

fun exec_body :: "time \<Rightarrow> exec_op \<Rightarrow> unit ledger_op" where
  "exec_body now (Create_Run r) = forget (create_run now r)"
| "exec_body now (Close_Run r) = forget (close_run now r)"
| "exec_body now (Create_Milestone r m) = forget (create_milestone now r m)"
| "exec_body now (Claim_Dispatch r m role g) = forget (claim_dispatch now r m role g)"
| "exec_body now (Transition k t s why) = forget (transition now k t s why)"
| "exec_body now (Plan_Execution k p) = forget (plan_execution now k p)"
| "exec_body now (Acquire_Lease k w) = forget (acquire_workspace_lease now k w)"
| "exec_body now (Record_Profile k p) = forget (record_native_profile now k p)"
| "exec_body now (Rebind_Profile k p c a) = forget (rebind_native_profile_for_resume now k p c a)"
| "exec_body now (Record_Git k g) = forget (record_git_authority_before now k g)"
| "exec_body now (Thread_Start k) = forget (record_thread_starting now k)"
| "exec_body now (Thread_Uncertain k) = forget (record_pre_identity_uncertainty now k)"
| "exec_body now (Thread_Rejected k) = forget (reject_thread_start_authorization now k)"
| "exec_body now (Thread_Identity k t) = forget (record_thread_identity now k t)"
| "exec_body now (Turn_Start k) = forget (record_turn_starting now k)"
| "exec_body now (Turn_Rejected k) = forget (reject_turn_authorization now k)"
| "exec_body now (Turn_Recorded k ob) = forget (record_turn now k ob)"
| "exec_body now (Terminal_Result k oc) = forget (record_terminal_execution now k oc)"
| "exec_body now (Cancel_Execution k) = forget (cancel_execution now k)"

text \<open>
  A step of this machine closes with the checks of the workflow tables only.  The transaction of the code also runs
  those of the queue tables, which can refuse a cancellation (theory Request_Guards), so the runs of this
  machine are more than those of the code and what holds of all of them holds of the code; the requests of
  Ledger_Machine close with both.
\<close>

definition exec_step :: "ledger \<Rightarrow> time \<times> exec_op \<Rightarrow> ledger" where
  "exec_step l e = after_op (atomically validate_workflow (exec_body (fst e) (snd e))) l"

definition exec_run :: "(time \<times> exec_op) list \<Rightarrow> ledger \<Rightarrow> ledger" where
  "exec_run es l = fold (\<lambda>e l. exec_step l e) es l"

text \<open>
  What the guards of an operation do not see and the second validation refuses: a transition under an
  execution that pins the state, an uncertain start of a milestone that is not starting, and a new
  turn whose events do not count from 0.
\<close>

fun unguarded :: "ledger \<Rightarrow> exec_op \<Rightarrow> bool" where
  "unguarded l (Transition k t s why) \<longleftrightarrow> \<not> state_free l k t"
| "unguarded l (Thread_Uncertain k) \<longleftrightarrow> state_of l k \<noteq> Some STARTING"
| "unguarded l (Turn_Recorded k ob) \<longleftrightarrow>
     \<not> contiguous_events ob \<and> (\<exists>x\<in>set (executions l). ex_key x = k \<and> ex_turn x = None)"
| "unguarded l op \<longleftrightarrow> False"

lemma forget_Inr: "forget f l = Inr (u, l') \<longleftrightarrow> (\<exists>r. f l = Inr (r, l'))"
  by (auto simp: forget_def bind_res_Inr_iff)

lemmas exec_op_inv = create_run_inv close_run_inv create_milestone_inv claim_dispatch_inv transition_inv plan_execution_inv
  acquire_lease_inv record_native_profile_inv rebind_inv record_git_inv record_thread_starting_inv
  record_pre_identity_uncertainty_inv reject_thread_start_inv record_thread_identity_inv record_turn_starting_inv
  reject_turn_inv record_turn_inv record_terminal_inv cancel_execution_inv

lemma turn_body_inv:
  assumes "record_turn now k ob l = Inr (r, l')" "exec_inv l" "own_app l" "\<not> unguarded l (Turn_Recorded k ob)"
  shows "exec_inv l'"
proof (cases "contiguous_events ob")
  case True
  with record_turn_inv [OF assms(1-3)] show ?thesis by simp
next
  case False
  from assms(1) obtain x where x: "lookup_by ex_key k (executions l) = Some x" by (auto simp: record_turn_def body_iff)
  with False assms(4) lookup_by_in [OF x] obtain t where "ex_turn x = Some t" by (auto simp: not_None_eq)
  with assms(1) x have "l' = l" by (auto simp: record_turn_def body_iff)
  with assms(2) show ?thesis by simp
qed

lemma exec_body_inv:
  assumes "exec_body now op l = Inr (u, l')" "exec_inv l" "own_app l" "\<not> unguarded l op"
  shows "exec_inv l'"
proof (cases op)
  case (Turn_Recorded k ob)
  with assms turn_body_inv show ?thesis by (auto simp only: exec_body.simps forget_Inr)
qed (use assms in \<open>auto simp: forget_Inr intro: exec_op_inv\<close>)

text \<open>Whatever an operation does not see, the second validation does: a step keeps the invariant.\<close>

lemma guards_suffice_lemma:
  assumes "exec_inv l" "own_app l" "\<not> unguarded l op"
  shows "atomically validate_workflow (exec_body now op) l = exec_body now op l"
proof (rule atomically_kept)
  show "validate_workflow l = Inr ()" using assms(1) by (simp add: exec_inv_def)
  fix u l' assume "exec_body now op l = Inr (u, l')"
  from exec_body_inv [OF this assms] show "validate_workflow l' = Inr ()" by (simp add: exec_inv_def)
qed

lemma valid_row:
  assumes "validate_workflow l = Inr ()" "own_app l" "lookup_by ex_key k (executions l) = Some x"
  obtains st where "state_of l k = Some st" "check_status None st x = Inr ()" "turn_rows_ok x (sdk_of l k)"
proof -
  from lookup_by_in [OF assms(3)] have x: "x \<in> set (executions l)" "ex_key x = k" by blast+
  with assms(1) have "check_execution l x = Inr ()" by (simp add: validate_workflow_iff executions_ok_def)
  then show ?thesis
    using that own_app_lookup [OF assms(2)] by (auto simp: check_execution_iff check_turn_iff turn_rows_ok_def x)
qed

lemma transition_refused:
  assumes "transition now k tgt s why l = Inr (e, l')" "exec_inv l" "own_app l" "\<not> state_free l k tgt"
  shows "validate_workflow l' \<noteq> Inr ()"
proof
  assume valid: "validate_workflow l' = Inr ()"
  from assms(1) obtain why' where mv: "move_milestone now k s tgt State_Transition why' None l = Inr (e, l')"
    and st: "state_of l k = Some s" and ok: "is_transition_allowed s tgt" by (rule transition_move)
  note l' = move_milestone_fields(3) [OF mv]
  from assms(4) obtain x where x: "lookup_by ex_key k (executions l) = Some x" "ex_status x \<noteq> EX_PLANNED"
      "ex_status x = EX_COMPLETED \<longrightarrow> tgt \<in> {PLANNED, CANCELLED}"
    by (auto simp: state_free_def split: option.splits)
  have x': "lookup_by ex_key k (executions l') = Some x" "own_app l'" "state_of l' k = Some tgt"
    using x(1) assms(3) st by (auto simp: l' set_milestone_state_def own_app_def state_of_def lookup_update_key)
  have old: "check_status None s x = Inr ()"
    using valid_row [OF _ assms(3) x(1)] assms(2) st by (metis exec_inv_def option.inject)
  have new: "check_status None tgt x = Inr ()"
    using valid_row [OF valid x'(2,1)] x'(3) by (metis option.inject)
  show False
    using old new x(2,3) ok by (cases "ex_status x") (auto simp: check_status_plain is_transition_allowed_def)
qed

lemma uncertainty_refused:
  assumes "record_pre_identity_uncertainty now k l = Inr (r, l')" "own_app l" "state_of l k \<noteq> Some STARTING"
  shows "validate_workflow l' \<noteq> Inr ()"
proof
  assume valid: "validate_workflow l' = Inr ()"
  from assms(1) obtain x where x: "lookup_by ex_key k (executions l) = Some x"
    and l': "l' = update_execution k (\<lambda>x. x\<lparr>ex_status := EX_UNCERTAIN_PRE_IDENTITY, ex_updated := now\<rparr>) l"
    by (auto simp: record_pre_identity_uncertainty_def body_iff)
  have "lookup_by ex_key k (executions l') = Some (x\<lparr>ex_status := EX_UNCERTAIN_PRE_IDENTITY, ex_updated := now\<rparr>)"
    "own_app l'" "state_of l' k = state_of l k"
    using x assms(2) by (simp_all add: l' update_execution_def lookup_update_key own_app_def state_of_def)
  from valid_row [OF valid this(2,1)] this(3) assms(3) show False by (auto simp: check_status_plain)
qed

lemma turn_refused:
  assumes "record_turn now k ob l = Inr (r, l')" "exec_inv l" "own_app l" "\<not> contiguous_events ob"
  shows "validate_workflow l' \<noteq> Inr () \<or> l' = l"
proof (rule disjCI, rule notI)
  assume new: "l' \<noteq> l" and valid: "validate_workflow l' = Inr ()"
  let ?f = "\<lambda>x. x\<lparr>ex_checkpoint := TURN_DURABLE, ex_turn := Some (ob_turn ob), ex_output := Some (ob_output ob), ex_updated := now\<rparr>"
  from assms(1) obtain x i where x: "lookup_by ex_key k (executions l) = Some x"
    and i: "lookup_by in_key k (integrity l) = Some i" by (auto simp: record_turn_def body_iff)
  have l': "ex_turn x = None" "l' = update_execution k ?f (l\<lparr>sdk_events := sdk_events l @ sdk_rows k (ob_turn ob) (ob_events ob)\<rparr>)"
    using assms(1) x i new by (cases "ex_turn x"; auto simp: record_turn_def body_iff)+
  from exec_inv_row [OF assms(2)] lookup_by_in [OF x] have "row_ok_in l x" "ex_key x = k" by blast+
  then have "sdk_of l k = []" using l'(1) own_app_lookup [OF assms(3)] by (auto simp: row_ok_in_def row_ok_plain)
  then have "sdk_of l' k = sdk_rows k (ob_turn ob) (ob_events ob)"
    by (auto simp: l' update_execution_def sdk_of_def sdk_rows_def filter_empty_conv filter_id_conv)
  moreover have x': "lookup_by ex_key k (executions l') = Some (?f x)" "own_app l'"
    using x assms(3) by (simp_all add: l' update_execution_def lookup_update_key own_app_def)
  moreover have "turn_rows_ok (?f x) (sdk_of l' k)" by (rule valid_row [OF valid x'(2,1)])
  ultimately show False using assms(4) by (simp add: turn_rows_ok_new)
qed

lemma refused_lemma:
  assumes "exec_inv l" "own_app l" "unguarded l op"
  shows "\<exists>e. atomically validate_workflow (exec_body now op) l = Inl e"
proof (cases "exec_body now op l")
  case (Inl e)
  with assms(1) show ?thesis by (simp add: atomically_def exec_inv_def)
next
  case (Inr p)
  then obtain l' where l': "exec_body now op l = Inr ((), l')" by (cases p) auto
  have "validate_workflow l' \<noteq> Inr ()"
  proof (cases op)
    case (Transition k t s why)
    with l' assms transition_refused show ?thesis by (auto simp: forget_Inr)
  next
    case (Thread_Uncertain k)
    with l' assms uncertainty_refused show ?thesis by (auto simp: forget_Inr)
  next
    case (Turn_Recorded k ob)
    with l' obtain r where r: "record_turn now k ob l = Inr (r, l')" by (auto simp: forget_Inr)
    from assms(3) Turn_Recorded have u: "\<not> contiguous_events ob" "\<exists>x\<in>set (executions l). ex_key x = k \<and> ex_turn x = None"
      by simp_all
    from u(2) obtain y where y: "y \<in> set (executions l)" "ex_key y = k" "ex_turn y = None" by blast
    have "lookup_by ex_key k (executions l) = Some y"
      using lookup_by_unique [of ex_key "executions l" y] exec_inv_parts(1) [OF assms(1)] y by (simp add: sql_keys_def)
    with y(3) r have "\<exists>x'. lookup_by ex_key k (executions l') = Some x' \<and> ex_turn x' \<noteq> None"
      by (auto simp: record_turn_def body_iff update_execution_def lookup_update_key)
    with \<open>lookup_by ex_key k (executions l) = Some y\<close> y(3) have "l' \<noteq> l" by auto
    with turn_refused [OF r assms(1,2) u(1)] show ?thesis by blast
  qed (use assms(3) in simp_all)
  then obtain e where "validate_workflow l' = Inl e" by (cases "validate_workflow l'") auto
  with l' assms(1) show ?thesis by (simp add: atomically_def exec_inv_def)
qed

section \<open>What is recorded stays recorded\<close>

definition row_le :: "execution_row \<Rightarrow> execution_row \<Rightarrow> bool" where
  "row_le x y \<longleftrightarrow>
     ex_capsule_sha y = ex_capsule_sha x \<and> ex_workspace y = ex_workspace x \<and> ex_protected_before y = ex_protected_before x
     \<and> (ex_thread x \<noteq> None \<longrightarrow> ex_thread y = ex_thread x) \<and> (ex_turn x \<noteq> None \<longrightarrow> ex_turn y = ex_turn x)
     \<and> (terminal_status (ex_status x) \<longrightarrow> y = x)"

definition integrity_le :: "integrity_row \<Rightarrow> integrity_row \<Rightarrow> bool" where
  "integrity_le i j \<longleftrightarrow>
     in_compat j = in_compat i \<and> in_baseline_head j = in_baseline_head i \<and> in_baseline j = in_baseline i
     \<and> no_broader (in_permission j) (in_permission i) \<and> (in_git_before i \<noteq> None \<longrightarrow> in_git_before j = in_git_before i)"

definition rows_le :: "('r \<Rightarrow> 'k) \<Rightarrow> ('r \<Rightarrow> 'r \<Rightarrow> bool) \<Rightarrow> 'r list \<Rightarrow> 'r list \<Rightarrow> bool" where
  "rows_le key le xs ys \<longleftrightarrow> (\<forall>k x. lookup_by key k xs = Some x \<longrightarrow> (\<exists>y. lookup_by key k ys = Some y \<and> le x y))"

definition exec_le :: "ledger \<Rightarrow> ledger \<Rightarrow> bool" where
  "exec_le l l' \<longleftrightarrow> prefix (events l) (events l') \<and> prefix (dispatches l) (dispatches l')
     \<and> rows_le ex_key row_le (executions l) (executions l') \<and> rows_le in_key integrity_le (integrity l) (integrity l')
     \<and> rows_le ls_workspace (=) (leases l) (leases l') \<and> (own_app l \<longrightarrow> own_app l')"

lemma row_le_refl: "row_le x x"
  by (simp add: row_le_def)

lemma row_le_trans: "row_le x y \<Longrightarrow> row_le y z \<Longrightarrow> row_le x z"
  unfolding row_le_def by metis

lemma no_broader_refl: "no_broader a a"
  by (simp add: no_broader_def)

lemma no_broader_trans: "no_broader a b \<Longrightarrow> no_broader b c \<Longrightarrow> no_broader a c"
  unfolding no_broader_def by auto

lemma integrity_le_refl: "integrity_le i i"
  by (simp add: integrity_le_def no_broader_refl)

lemma integrity_le_trans:
  assumes "integrity_le i j" "integrity_le j k"
  shows "integrity_le i k"
proof -
  from assms have "no_broader (in_permission k) (in_permission i)"
    unfolding integrity_le_def using no_broader_trans [of "in_permission k" "in_permission j" "in_permission i"] by blast
  with assms show ?thesis by (simp add: integrity_le_def)
qed

lemma rows_le_refl: "(\<And>x. le x x) \<Longrightarrow> rows_le key le xs xs"
  by (simp add: rows_le_def)

lemma rows_le_trans:
  assumes "\<And>x y z. le x y \<Longrightarrow> le y z \<Longrightarrow> le x z" "rows_le key le xs ys" "rows_le key le ys zs"
  shows "rows_le key le xs zs"
  using assms unfolding rows_le_def by metis

lemma rows_le_append: "(\<And>x. le x x) \<Longrightarrow> rows_le key le xs (xs @ ys)"
  by (simp add: rows_le_def lookup_by_appends)

lemma rows_le_update:
  assumes "\<And>x. le x x" "\<And>x. lookup_by key k xs = Some x \<Longrightarrow> le x (f x)" "\<And>x. key (f x) = key x"
  shows "rows_le key le xs (update_where (\<lambda>x. key x = k) f xs)"
  using assms by (simp add: rows_le_def lookup_update_key)

lemma exec_le_refl: "exec_le l l"
  by (simp add: exec_le_def rows_le_refl row_le_refl integrity_le_refl)

lemma exec_le_trans:
  assumes "exec_le l l'" "exec_le l' l''"
  shows "exec_le l l''"
proof -
  note le = assms [unfolded exec_le_def]
  have "prefix (events l) (events l'')" "prefix (dispatches l) (dispatches l'')"
    using le prefix_order.trans by blast+
  moreover have "rows_le ex_key row_le (executions l) (executions l'')"
    by (rule rows_le_trans [OF row_le_trans, where ys = "executions l'"]) (use le in simp_all)
  moreover have "rows_le in_key integrity_le (integrity l) (integrity l'')"
    by (rule rows_le_trans [OF integrity_le_trans, where ys = "integrity l'"]) (use le in simp_all)
  moreover have "rows_le ls_workspace (=) (leases l) (leases l'')"
    by (rule rows_le_trans [OF trans, where ys = "leases l'"]) (use le in simp_all)
  ultimately show ?thesis using le by (simp add: exec_le_def)
qed

text \<open>An update of one execution and its integrity row that only adds to what they hold.\<close>

lemma change_le:
  assumes "executions l' = update_where (\<lambda>x. ex_key x = k) f (executions l)" "\<And>x. ex_key (f x) = ex_key x"
    and "integrity l' = update_where (\<lambda>i. in_key i = k) g (integrity l)" "\<And>i. in_key (g i) = in_key i"
    and "prefix (events l) (events l')" "prefix (dispatches l) (dispatches l')" "leases l' = leases l"
    and "own_app l \<longrightarrow> own_app l'"
    and "\<And>x. lookup_by ex_key k (executions l) = Some x \<Longrightarrow> row_le x (f x)"
    and "\<And>i. lookup_by in_key k (integrity l) = Some i \<Longrightarrow> integrity_le i (g i)"
  shows "exec_le l l'"
  using assms by (simp add: exec_le_def rows_le_update rows_le_refl row_le_refl integrity_le_refl)

lemma update_le:
  assumes "\<And>x. ex_key (f x) = ex_key x" "\<And>i. in_key (g i) = in_key i"
    and "\<And>x. lookup_by ex_key k (executions l) = Some x \<Longrightarrow> row_le x (f x)"
    and "\<And>i. lookup_by in_key k (integrity l) = Some i \<Longrightarrow> integrity_le i (g i)"
  shows "exec_le l (update_integrity k g (update_execution k f l))"
  by (rule change_le [where f = f and g = g])
    (use assms in \<open>simp_all add: update_integrity_def update_execution_def own_app_def\<close>)

lemma update_execution_le:
  assumes "\<And>x. ex_key (f x) = ex_key x" "\<And>x. lookup_by ex_key k (executions l) = Some x \<Longrightarrow> row_le x (f x)"
  shows "exec_le l (update_execution k f l)"
  using update_le [of f id k l] assms by (simp add: update_integrity_def integrity_le_refl)

lemma update_integrity_le:
  assumes "\<And>i. in_key (g i) = in_key i" "\<And>i. lookup_by in_key k (integrity l) = Some i \<Longrightarrow> integrity_le i (g i)"
  shows "exec_le l (update_integrity k g l)"
  using update_le [of id g k l] assms by (simp add: update_execution_def row_le_refl)

lemma move_le:
  assumes "move_milestone now k s t kind why d l = Inr (e, l')"
  shows "exec_le l l'"
  unfolding move_milestone_fields(3) [OF assms]
  by (rule change_le [where f = id and g = id and k = k])
    (simp_all add: set_milestone_state_def row_le_refl integrity_le_refl own_app_def)

lemma same_tables_le:
  "executions l' = executions l \<Longrightarrow> integrity l' = integrity l \<Longrightarrow> leases l' = leases l \<Longrightarrow>
   prefix (events l) (events l') \<Longrightarrow> prefix (dispatches l) (dispatches l') \<Longrightarrow> (own_app l \<Longrightarrow> own_app l') \<Longrightarrow>
   exec_le l l'"
  by (simp add: exec_le_def rows_le_refl row_le_refl integrity_le_refl)

lemma meet_no_broader: "meet a b = Inr c \<Longrightarrow> no_broader c a"
  by (auto simp: meet_def Let_def make_authority_Inr no_broader_def split: if_splits)

lemma records_le:
  "create_run now r l = Inr (x1, l') \<Longrightarrow> exec_le l l'"
  "close_run now r l = Inr (x1, l') \<Longrightarrow> exec_le l l'"
  "create_milestone now r m l = Inr (x2, l') \<Longrightarrow> exec_le l l'"
  by (rule same_tables_le; force simp: create_run_def close_run_def create_milestone_def bind_res_Inr_iff Let_def
      own_app_def split: option.splits)+

lemma claim_transition_le:
  assumes "claim_dispatch now r m role g l = Inr (x1, l') \<or> transition now k t s why l = Inr (x2, l')"
  shows "exec_le l l'"
proof -
  have "exec_le l (l\<lparr>dispatches := dispatches l @ [d]\<rparr>)" for d by (rule same_tables_le) (simp_all add: own_app_def)
  then have "exec_le l l'" if "move_milestone now k s t kind why i (l\<lparr>dispatches := dispatches l @ [d]\<rparr>) = Inr (e, l')"
    for k s t kind why i d e using move_le [OF that] exec_le_trans by blast
  then show ?thesis
    using assms move_le
    by (auto simp: claim_dispatch_def transition_def bind_res_Inr_iff Let_def exec_le_refl split: option.splits prod.splits)
qed

lemma plan_le: "plan_execution now k p l = Inr (x, l') \<Longrightarrow> exec_le l l'"
  by (auto simp: plan_execution_def bind_res_Inr_iff Let_def exec_le_def rows_le_append row_le_refl rows_le_refl integrity_le_refl
      own_app_def split: option.splits)

lemma lease_le:
  assumes "acquire_workspace_lease now k w l = Inr (x, l')"
  shows "exec_le l l'"
proof -
  let ?w = "w\<lparr>ls_owner := mk_run k\<rparr>" and ?f = "\<lambda>x. x\<lparr>ex_checkpoint := WORKSPACE_LEASED, ex_updated := now\<rparr>"
  from assms obtain y lease l1 where y: "lookup_by ex_key k (executions l) = Some y" "\<not> terminal_status (ex_status y)"
    and settle: "settle_lease k ?w l = Inr (lease, l1)" and l': "l' = l1 \<or> l' = update_execution k ?f l1"
    by (auto simp: acquire_workspace_lease_def body_iff terminal_status_def split: if_splits)
  have l1: "exec_le l l1 \<and> executions l1 = executions l"
    using settle
    by (cases rule: settle_lease_cases)
      (simp_all add: exec_le_refl exec_le_def rows_le_append rows_le_refl row_le_refl integrity_le_refl own_app_def)
  moreover have "exec_le l1 (update_execution k ?f l1)"
    by (rule update_execution_le) (use l1 y in \<open>auto simp: row_le_def\<close>)
  ultimately show ?thesis using l' exec_le_trans by blast
qed

lemma profile_le:
  assumes "record_native_profile now k p l = Inr (i, l')"
  shows "exec_le l l'"
proof (cases "lookup_by in_key k (integrity l)")
  case (Some row)
  with assms show ?thesis by (auto simp: record_native_profile_def bind_res_Inr_iff exec_le_refl)
next
  case None
  let ?l = "l\<lparr>integrity := integrity l @ [i]\<rparr>" and ?f = "\<lambda>x. x\<lparr>ex_checkpoint := WORKSPACE_BASELINE_DURABLE, ex_updated := now\<rparr>"
  from assms None obtain x where x: "lookup_by ex_key k (executions l) = Some x" "ex_status x = EX_PLANNED"
    and l': "l' = update_execution k ?f ?l"
    by (auto simp: record_native_profile_def body_iff Let_def)
  have "exec_le l ?l" by (simp add: exec_le_def rows_le_append rows_le_refl row_le_refl integrity_le_refl own_app_def)
  moreover have "exec_le ?l l'" unfolding l'
    by (rule update_execution_le) (use x in \<open>auto simp: row_le_def terminal_status_def\<close>)
  ultimately show ?thesis by (rule exec_le_trans)
qed

lemma rebind_le:
  assumes "rebind_native_profile_for_resume now k p c a l = Inr (r, l')"
  shows "exec_le l l'"
proof -
  from assms obtain x i where x: "lookup_by ex_key k (executions l) = Some x"
    and i: "lookup_by in_key k (integrity l) = Some i" by (auto simp: rebind_native_profile_for_resume_def body_iff)
  obtain eff where eff: "meet (in_permission i) a = Inr eff"
    and l': "l' = update_integrity k (\<lambda>i. i\<lparr>in_profile := p, in_permission := eff, in_updated := now\<rparr>) l"
    using assms x i by (cases "meet (in_permission i) a") (auto simp: rebind_native_profile_for_resume_def body_iff Let_def)
  show ?thesis unfolding l'
    by (rule update_integrity_le) (use i meet_no_broader [OF eff] in \<open>simp_all add: integrity_le_def\<close>)
qed

lemma git_le:
  assumes "record_git_authority_before now k g l = Inr (r, l')"
  shows "exec_le l l'"
proof -
  from assms obtain x i where x: "lookup_by ex_key k (executions l) = Some x"
    and i: "lookup_by in_key k (integrity l) = Some i" by (auto simp: record_git_authority_before_def body_iff)
  have c: "l' = l \<or> in_git_before i = None \<and> l' = update_integrity k (\<lambda>i. i\<lparr>in_git_before := Some g, in_updated := now\<rparr>) l"
    using assms x i by (cases "in_git_before i") (auto simp: record_git_authority_before_def body_iff Let_def)
  have "exec_le l (update_integrity k (\<lambda>i. i\<lparr>in_git_before := Some g, in_updated := now\<rparr>) l)" if "in_git_before i = None"
    by (rule update_integrity_le) (use i that in \<open>simp_all add: integrity_le_def no_broader_refl\<close>)
  with c exec_le_refl show ?thesis by blast
qed

text \<open>An update that leaves the identities alone, of a row that is not terminal.\<close>

lemma live_update_le:
  assumes "lookup_by ex_key k (executions l) = Some x" "\<not> terminal_status (ex_status x)"
    and "\<And>x. ex_key (f x) = ex_key x" "ex_capsule_sha (f x) = ex_capsule_sha x" "ex_workspace (f x) = ex_workspace x"
      "ex_protected_before (f x) = ex_protected_before x"
    and "ex_thread x = None \<or> ex_thread (f x) = ex_thread x" "ex_turn x = None \<or> ex_turn (f x) = ex_turn x"
  shows "exec_le l (update_execution k f l)"
  by (rule update_execution_le) (use assms in \<open>auto simp: row_le_def\<close>)

lemma plain_status: "\<not> terminal_status EX_PLANNED" "\<not> terminal_status EX_THREAD_STARTED" "\<not> terminal_status EX_UNCERTAIN_PRE_IDENTITY"
  by (simp_all add: terminal_status_def)

lemma thread_starting_le:
  assumes "record_thread_starting now k l = Inr (r, l')"
  shows "exec_le l l'"
proof -
  let ?f = "\<lambda>x. x\<lparr>ex_checkpoint := THREAD_STARTING, ex_updated := now\<rparr>"
  from assms obtain x where x: "lookup_by ex_key k (executions l) = Some x" "ex_status x = EX_PLANNED"
    and c: "l' = l \<or> l' = update_execution k ?f l"
    by (auto simp: record_thread_starting_def body_iff split: if_splits)
  have "exec_le l (update_execution k ?f l)" by (rule live_update_le [OF x(1)]) (simp_all add: x(2) plain_status)
  with c exec_le_refl show ?thesis by blast
qed

lemma boundary_le:
  assumes "record_pre_identity_uncertainty now k l = Inr (r, l') \<or> reject_thread_start_authorization now k l = Inr (r, l')"
  shows "exec_le l l'"
proof -
  let ?f = "\<lambda>x. x\<lparr>ex_status := EX_UNCERTAIN_PRE_IDENTITY, ex_updated := now\<rparr>"
  let ?g = "\<lambda>x. x\<lparr>ex_checkpoint := WORKSPACE_BASELINE_DURABLE, ex_updated := now\<rparr>"
  from assms obtain x where x: "lookup_by ex_key k (executions l) = Some x" "ex_status x = EX_PLANNED"
    and c: "l' = update_execution k ?f l \<or> l' = update_execution k ?g l"
    by (auto simp: record_pre_identity_uncertainty_def reject_thread_start_authorization_def body_iff at_thread_boundary_def)
  have "exec_le l (update_execution k ?f l)" by (rule live_update_le [OF x(1)]) (simp_all add: x(2) plain_status)
  moreover have "exec_le l (update_execution k ?g l)" by (rule live_update_le [OF x(1)]) (simp_all add: x(2) plain_status)
  ultimately show ?thesis using c by blast
qed

lemma identity_le:
  assumes "record_thread_identity now k t l = Inr (r, l')"
  shows "exec_le l l'"
proof -
  let ?f = "\<lambda>x. x\<lparr>ex_status := EX_THREAD_STARTED, ex_checkpoint := THREAD_IDENTITY_DURABLE, ex_thread := Some t, ex_updated := now\<rparr>"
  from assms obtain x where x: "lookup_by ex_key k (executions l) = Some x" by (auto simp: record_thread_identity_def body_iff)
  show ?thesis
  proof (cases "ex_thread x")
    case None
    with assms x obtain e where p: "ex_status x = EX_PLANNED"
      and mv: "move_milestone now k STARTING RUNNING State_Transition None None (update_execution k ?f l) = Inr (e, l')"
      by (auto simp: record_thread_identity_def body_iff split: prod.splits)
    have "exec_le l (update_execution k ?f l)" by (rule live_update_le [OF x]) (simp_all add: p plain_status None)
    then show ?thesis by (rule exec_le_trans) (rule move_le [OF mv])
  next
    case (Some y)
    with assms x have "l' = l" by (auto simp: record_thread_identity_def body_iff)
    then show ?thesis by (simp add: exec_le_refl)
  qed
qed

lemma turn_ops_le:
  assumes "record_turn_starting now k l = Inr (r, l') \<or> reject_turn_authorization now k l = Inr (r, l')"
  shows "exec_le l l'"
proof -
  let ?f1 = "\<lambda>x. x\<lparr>ex_output := Some turn_starting_marker, ex_updated := now\<rparr>"
  let ?g1 = "\<lambda>i. i\<lparr>in_turn_started := (case in_turn_started i of None \<Rightarrow> Some now | Some t \<Rightarrow> Some t), in_updated := now\<rparr>"
  let ?f2 = "\<lambda>x. x\<lparr>ex_output := None, ex_updated := now\<rparr>" and ?g2 = "\<lambda>i. i\<lparr>in_turn_started := None, in_updated := now\<rparr>"
  from assms obtain x where x: "lookup_by ex_key k (executions l) = Some x" "ex_status x = EX_THREAD_STARTED"
    and c: "l' = l \<or> l' = update_integrity k ?g1 (update_execution k ?f1 l) \<or> l' = update_integrity k ?g2 (update_execution k ?f2 l)"
    by (auto simp: record_turn_starting_def reject_turn_authorization_def body_iff split: if_splits)
  have e: "exec_le l (update_execution k ?f1 l)" "exec_le l (update_execution k ?f2 l)"
    by (rule live_update_le [OF x(1)], simp_all add: x(2) plain_status)+
  have "exec_le m (update_integrity k ?g1 m)" "exec_le m (update_integrity k ?g2 m)" for m
    by (rule update_integrity_le, simp_all add: integrity_le_def no_broader_refl)+
  with e c exec_le_trans exec_le_refl show ?thesis by blast
qed

lemma turn_le:
  assumes "record_turn now k ob l = Inr (r, l')"
  shows "exec_le l l'"
proof -
  let ?f = "\<lambda>x. x\<lparr>ex_checkpoint := TURN_DURABLE, ex_turn := Some (ob_turn ob), ex_output := Some (ob_output ob), ex_updated := now\<rparr>"
  let ?l = "l\<lparr>sdk_events := sdk_events l @ sdk_rows k (ob_turn ob) (ob_events ob)\<rparr>"
  from assms obtain x where x: "lookup_by ex_key k (executions l) = Some x" "ex_status x = EX_THREAD_STARTED"
    by (auto simp: record_turn_def body_iff)
  have c: "l' = l \<or> ex_turn x = None \<and> l' = update_execution k ?f ?l"
    using assms x by (cases "ex_turn x") (auto simp: record_turn_def body_iff)
  have le: "exec_le l ?l" by (rule same_tables_le) (simp_all add: own_app_def)
  from c show ?thesis
  proof (elim disjE conjE)
    assume none: "ex_turn x = None" and l': "l' = update_execution k ?f ?l"
    show ?thesis unfolding l'
      by (rule exec_le_trans [OF le live_update_le [where x = x]]) (simp_all add: x none plain_status)
  qed (simp add: exec_le_refl)
qed

lemma terminal_le:
  assumes "record_terminal_execution now k oc l = Inr (r, l')"
  shows "exec_le l l'"
proof -
  let ?f = "\<lambda>x. x\<lparr>ex_status := terminal_of oc, ex_checkpoint := RESULT_DURABLE, ex_result := Some (oc_result oc),
    ex_validation := Some (oc_validation oc), ex_protected_after := Some (oc_protected oc), ex_updated := now\<rparr>"
  let ?g = "\<lambda>i. i\<lparr>in_git_after := Some (oc_git oc),
    in_terminal := (if terminal_of oc = EX_COMPLETED then oc_terminal oc else None), in_updated := now\<rparr>"
  let ?l = "update_integrity k ?g (update_execution k ?f l)"
  from assms obtain x t why e where x: "lookup_by ex_key k (executions l) = Some x" "ex_status x = EX_THREAD_STARTED"
    and mv: "move_milestone now k RUNNING t State_Transition why None ?l = Inr (e, l')"
    unfolding record_terminal_execution_def Let_def by (auto simp: body_iff split: prod.splits)
  have "exec_le l (update_execution k ?f l)" by (rule live_update_le [OF x(1)]) (simp_all add: x(2) plain_status)
  moreover have "exec_le (update_execution k ?f l) ?l"
    by (rule update_integrity_le) (simp_all add: integrity_le_def no_broader_refl)
  ultimately show ?thesis using move_le [OF mv] exec_le_trans by blast
qed

lemma cancel_le:
  assumes "cancel_execution now k l = Inr (r, l')"
  shows "exec_le l l'"
proof -
  let ?f = "\<lambda>x. x\<lparr>ex_status := EX_CANCELLED, ex_checkpoint := RESULT_DURABLE, ex_updated := now\<rparr>"
  let ?a = "\<lambda>l. l\<lparr>app_native := update_where (\<lambda>a. an_key a = k) (\<lambda>a. a\<lparr>an_state := App_Cancelled\<rparr>) (app_native l)\<rparr>"
  define Q where "Q = (case select_one (\<lambda>q. q_key q = k) (queue l) of None \<Rightarrow> Inr l
    | Some q \<Rightarrow> bind_res (cancel_queue_row now None False q l) (\<lambda>(_, l'). Inr l'))"
  from assms obtain x where x: "lookup_by ex_key k (executions l) = Some x" "\<not> terminal_status (ex_status x)"
    by (auto simp: cancel_execution_def body_iff terminal_status_def)
  have c: "l' = l \<or> (\<exists>l1 s e. Q = Inr l1
      \<and> move_milestone now k s CANCELLED State_Transition None None (?a (update_execution k ?f l1)) = Inr (e, l'))"
    using assms by (auto simp: cancel_execution_def body_iff Let_def Q_def [symmetric] split: if_splits prod.splits)
  have same: "same_workflow l l1" if "Q = Inr l1" for l1
    using that cancel_queue_row_workflow unfolding Q_def
    by (auto simp: bind_res_Inr_iff same_workflow_def split: option.splits prod.splits)
  have "exec_le l l'" if l1: "Q = Inr l1" and mv: "move_milestone now k s CANCELLED State_Transition None None
      (?a (update_execution k ?f l1)) = Inr (e, l')" for l1 s e
  proof -
    have "exec_le l l1" by (rule same_tables_le) (use same [OF l1] in \<open>simp_all add: same_workflow_def own_app_def\<close>)
    moreover have "lookup_by ex_key k (executions l1) = Some x" using same [OF l1] x by (simp add: same_workflow_def)
    then have "exec_le l1 (update_execution k ?f l1)" by (rule live_update_le) (simp_all add: x(2))
    moreover have "exec_le m (?a m)" for m by (rule same_tables_le) (simp_all add: own_app_def)
    ultimately show ?thesis using move_le [OF mv] exec_le_trans by blast
  qed
  with c exec_le_refl show ?thesis by blast
qed

lemmas exec_op_le = records_le claim_transition_le [OF disjI1] claim_transition_le [OF disjI2] plan_le lease_le profile_le
  rebind_le git_le thread_starting_le boundary_le [OF disjI1] boundary_le [OF disjI2] identity_le turn_ops_le [OF disjI1]
  turn_ops_le [OF disjI2] turn_le terminal_le cancel_le

lemma exec_body_le: "exec_body now op l = Inr (u, l') \<Longrightarrow> exec_le l l'"
  by (cases op) (auto simp: forget_Inr intro: exec_op_le)

section \<open>Runs of the machine\<close>

definition machine_inv :: "ledger \<Rightarrow> bool" where
  "machine_inv l \<longleftrightarrow> exec_inv l \<and> own_app l"

lemma exec_body_app: "exec_body now op l = Inr (u, l') \<Longrightarrow> own_app l \<Longrightarrow> own_app l'"
  using exec_body_le by (auto simp: exec_le_def)

lemma exec_step_cases:
  assumes "machine_inv l"
  obtains "exec_step l e = l" | u where "exec_body (fst e) (snd e) l = Inr (u, exec_step l e)" "machine_inv (exec_step l e)"
proof (cases "atomically validate_workflow (exec_body (fst e) (snd e)) l")
  case (Inl err)
  then show ?thesis by (intro that(1)) (simp add: exec_step_def after_op_def)
next
  case (Inr p)
  obtain u l' where p: "p = (u, l')" by (cases p)
  from Inr p have l': "exec_step l e = l'" by (simp add: exec_step_def after_op_def)
  from Inr p have body: "exec_body (fst e) (snd e) l = Inr (u, l')" by (simp add: atomically_Inr)
  have "\<not> unguarded l (snd e)"
  proof
    assume "unguarded l (snd e)"
    with assms refused_lemma [of l "snd e" "fst e"] Inr show False by (simp add: machine_inv_def)
  qed
  with exec_body_inv [OF body] exec_body_app [OF body] assms have "machine_inv l'" by (simp add: machine_inv_def)
  with body l' show ?thesis by (intro that(2)) simp_all
qed

interpretation exec_machine: guarded_machine exec_step machine_inv exec_le
proof
  fix l e
  assume inv: "machine_inv l"
  then show "machine_inv (exec_step l e)" by (rule exec_step_cases [where e = e]) (use inv in simp_all)
  from inv show "exec_le l (exec_step l e)"
    by (rule exec_step_cases [where e = e]) (simp_all add: exec_le_refl exec_body_le)
qed (rule exec_le_refl, erule (1) exec_le_trans)

end
