(* ===== verification/Execution_Guarantees.thy ===== *)
theory Execution_Guarantees
  imports Execution_Machine
begin

text \<open>
  What holds of the workflow half of the ledger over any sequence of its transactions, and where its
  rules stop a run.
\<close>

definition empty_ledger :: ledger where
  "empty_ledger = \<lparr>runs = [], milestones = [], dispatches = [], events = [], executions = [], integrity = [], leases = [],
     sdk_events = [], app_native = [], queue = [], bindings = [], captures = [], capabilities = [], liveness = [], commands = [], retries = [],
     recoveries = [], controls = [], successor_outbox = [], notifications = [], successors = [], wakes = [], decisions = [],
     generations = [], refresh_pending = False, harness = None\<rparr>"

lemma empty_machine_inv: "machine_inv empty_ledger"
  by (simp add: machine_inv_def exec_inv_def own_app_def empty_ledger_def sql_keys_def validate_workflow_iff check_orphans_def
      check_duplicates_def history_ok_def apps_ok_def executions_ok_def integrity_ok_def exclusive_def)

lemma exec_run_facts:
  assumes "machine_inv l"
  shows "machine_inv (exec_run es l)" "exec_le l (exec_run es l)"
  using exec_machine.run_inv [OF assms] exec_machine.run_le [OF assms] unfolding exec_run_def by blast+

text \<open>
  A ledger for the examples: one run, a planned milestone \<open>a\<close> whose execution has its workspace, and a
  failed milestone \<open>b\<close> with its failed execution.
\<close>

abbreviation key_a :: mkey where "key_a \<equiv> MKey (lit ''r'') (lit ''a'')"
abbreviation key_b :: mkey where "key_b \<equiv> MKey (lit ''r'') (lit ''b'')"

definition sample_execution :: "mkey \<Rightarrow> pystr \<Rightarrow> execution_row" where
  "sample_execution k w = \<lparr>ex_key = k, ex_capsule_path = lit ''/c'', ex_capsule_sha = lit ''00'', ex_workspace = w,
     ex_model = lit ''m'', ex_effort = lit ''high'', ex_status = EX_PLANNED, ex_checkpoint = WORKSPACE_LEASED,
     ex_thread = None, ex_turn = None, ex_output = None, ex_result = None, ex_validation = None,
     ex_protected_before = lit ''00'', ex_protected_after = None, ex_created = 0, ex_updated = 0\<rparr>"

definition sample_failed :: execution_row where
  "sample_failed = (sample_execution key_b (lit ''/v''))\<lparr>ex_status := EX_FAILED, ex_checkpoint := RESULT_DURABLE,
     ex_thread := Some (lit ''t''), ex_result := Some JNull, ex_protected_after := Some (lit ''00'')\<rparr>"

definition sample_lease :: "pystr \<Rightarrow> lease_row" where
  "sample_lease w = \<lparr>ls_workspace = w, ls_root = w, ls_mode = CURRENT_CHECKOUT, ls_branch = w, ls_base = w, ls_lane = w,
     ls_owner = lit ''r''\<rparr>"

definition sample_integrity :: integrity_row where
  "sample_integrity = \<lparr>in_key = key_b, in_profile = [], in_compat = [],
     in_permission = \<lparr>na_mode = READ_ONLY, na_sandbox = lit ''read-only'', na_approval = lit ''never''\<rparr>,
     in_baseline_head = [], in_baseline = [], in_terminal = None, in_turn_started = None,
     in_git_before = Some (lit ''00''), in_git_after = None, in_updated = 0\<rparr>"

definition sample_event :: event_row where
  "sample_event = \<lparr>ev_id = lit ''r/b/1'', ev_key = key_b, ev_sequence = 1, ev_from = Some PLANNED, ev_to = FAILED,
     ev_type = State_Transition, ev_reason = Some TERMINAL_OUTCOME, ev_dispatch = None, ev_occurred = 0\<rparr>"

definition sample_ledger :: ledger where
  "sample_ledger = empty_ledger\<lparr>
     runs := [\<lparr>run_id = lit ''r'', run_created = 0, run_closed = None, run_program = None\<rparr>],
     milestones := [\<lparr>ms_key = key_a, ms_state = PLANNED, ms_created = 0, ms_updated = 0\<rparr>,
       \<lparr>ms_key = key_b, ms_state = FAILED, ms_created = 0, ms_updated = 0\<rparr>],
     events := [sample_event], executions := [sample_execution key_a (lit ''/w''), sample_failed],
     integrity := [sample_integrity], leases := [sample_lease (lit ''/w''), sample_lease (lit ''/v'')]\<rparr>"

lemmas sample_defs = sample_ledger_def sample_event_def sample_integrity_def sample_lease_def sample_failed_def
  sample_execution_def empty_ledger_def

lemma sample_event_id: "event_id_of key_b 1 = Inr (lit ''r/b/1'')"
proof -
  have "py_int_repr 1 = Inr (lit ''1'')"
    using int_repr_limit_large [of 1] by (simp add: py_int_repr_def int_str_def nat_digits.simps lit_def)
  then show ?thesis by (simp add: event_id_of_def event_id_def lit_def slash_def py_strip_def py_isspace_def)
qed

lemma sample_row_ok:
  "row_ok True None None PLANNED [] (sample_execution key_a (lit ''/w''))"
  "row_ok True None (Some sample_integrity) FAILED [] sample_failed"
  by (simp_all add: row_facts sample_defs)

lemma sample_machine_inv: "machine_inv sample_ledger"
proof -
  let ?l = sample_ledger
  have hist: "history ?l key_a = []" "history ?l key_b = [sample_event]"
    by (simp_all add: history_def sample_defs lit_def)
  have "row_ok_in ?l x" if "x \<in> set (executions ?l)" for x
    using that sample_row_ok
    by (auto simp: row_ok_in_def state_of_def leased_def sdk_of_def sample_ledger_def sample_lease_def empty_ledger_def
        lookup_by_def select_one_def sample_integrity_def [THEN arg_cong [where f = in_key]] sample_failed_def
        sample_execution_def lit_def)
  then have "executions_ok ?l" "\<forall>x\<in>set (executions ?l). extra ?l x"
    by (simp_all add: executions_ok_def row_ok_in_iff)
  moreover have "history_ok ?l"
    using hist sample_event_id
    by (simp add: history_ok_def sample_ledger_def empty_ledger_def check_event_def check_milestone_iff)
      (simp add: sample_event_def is_transition_allowed_def)
  moreover have "check_orphans ?l = Inr ()" "check_duplicates ?l = Inr ()" "apps_ok ?l" "integrity_ok ?l" "exclusive ?l"
    "sql_keys ?l" "own_app ?l"
    by (simp_all add: check_orphans_def check_duplicates_def apps_ok_def integrity_ok_def check_integrity_def exclusive_def
        sql_keys_def own_app_def sample_defs holds_workspace_def terminal_status_def lit_def)
  ultimately show ?thesis by (simp add: machine_inv_def exec_inv_def validate_workflow_iff)
qed

text \<open>A step on it: another run is created, and the rest stays.\<close>

lemma sample_step:
  "exec_run [(9, Create_Run (lit ''s''))] sample_ledger =
     sample_ledger\<lparr>runs := runs sample_ledger @ [\<lparr>run_id = lit ''s'', run_created = 9, run_closed = None, run_program = None\<rparr>]\<rparr>"
proof -
  have "atomically validate_workflow (exec_body 9 (Create_Run (lit ''s''))) sample_ledger =
      exec_body 9 (Create_Run (lit ''s'')) sample_ledger"
    by (rule guards_suffice_lemma) (use sample_machine_inv in \<open>simp_all add: machine_inv_def\<close>)
  moreover have "exec_body 9 (Create_Run (lit ''s'')) sample_ledger = Inr ((), sample_ledger\<lparr>runs := runs sample_ledger @
      [\<lparr>run_id = lit ''s'', run_created = 9, run_closed = None, run_program = None\<rparr>]\<rparr>)"
    by (simp add: forget_def create_run_def validated_identifier_def id_pattern_def lit_def ascii_alnum_def sample_ledger_def
        empty_ledger_def lookup_by_def select_one_def Let_def)
  ultimately show ?thesis by (simp add: exec_run_def exec_step_def after_op_def)
qed

section \<open>The guards of the operations\<close>

text \<open>
  On valid rows the checks of the workflow tables alone never refuse what the guards of the
  operation let through, except for three cases, which they always refuse: a transition under an
  execution whose status pins the milestone's state, an uncertain thread start of a milestone that is
  not starting, and a new turn whose events do not count from 0.  The theory Request_Guards extends this to the whole validation.
\<close>

theorem guards_are_exact:
  assumes "machine_inv l"
  shows "if unguarded l op then \<exists>e. atomically validate_workflow (exec_body now op) l = Inl e
    else atomically validate_workflow (exec_body now op) l = exec_body now op l"
  using assms guards_suffice_lemma refused_lemma by (simp add: machine_inv_def)

theorem guards_are_exact_witness:
  "atomically validate_workflow (exec_body 7 (Create_Run (lit ''r''))) empty_ledger
     = Inr ((), empty_ledger\<lparr>runs := [\<lparr>run_id = lit ''r'', run_created = 7, run_closed = None, run_program = None\<rparr>]\<rparr>)
   \<and> (\<exists>e. atomically validate_workflow (exec_body 8 (Thread_Uncertain (MKey (lit ''r'') (lit ''m'')))) empty_ledger = Inl e)"
proof -
  let ?k = "MKey (lit ''r'') (lit ''m'')"
  have "\<not> unguarded empty_ledger (Create_Run (lit ''r''))" "unguarded empty_ledger (Thread_Uncertain ?k)"
    by (simp_all add: state_of_def empty_ledger_def lookup_by_def select_one_def)
  with guards_are_exact [OF empty_machine_inv, of "Create_Run (lit ''r'')" 7]
    guards_are_exact [OF empty_machine_inv, of "Thread_Uncertain ?k" 8]
  show ?thesis
    by (simp add: forget_def create_run_def validated_identifier_def id_pattern_def lit_def ascii_alnum_def empty_ledger_def
        lookup_by_def select_one_def Let_def)
qed

section \<open>Workspaces\<close>

text \<open>
  C12. Whatever sequence of transactions runs, at most one execution holds a workspace (past its plan
  and not ended), and its run owns the lease of that workspace.
\<close>

theorem workspaces_stay_exclusive:
  assumes "machine_inv l" "x \<in> set (executions (exec_run es l))" "holds_workspace w x"
  shows "(\<forall>y\<in>set (executions (exec_run es l)). holds_workspace w y \<longrightarrow> y = x)
    \<and> (\<exists>lease. lookup_by ls_workspace w (leases (exec_run es l)) = Some lease \<and> ls_owner lease = mk_run (ex_key x))"
proof -
  have inv: "exec_inv (exec_run es l)" using exec_run_facts(1) [OF assms(1)] by (simp add: machine_inv_def)
  have "y = x" if "y \<in> set (executions (exec_run es l))" "holds_workspace w y" for y
    using same_key_same_row [of ex_key "executions (exec_run es l)" y x] exec_inv_parts(1,8) [OF inv] that assms(2,3)
    by (auto simp: exclusive_def sql_keys_def)
  moreover have "extra (exec_run es l) x" using inv assms(2) by (simp add: exec_inv_def)
  with assms(3) have "leased (exec_run es l) w (mk_run (ex_key x))" by (auto simp: extra_def holds_workspace_iff)
  ultimately show ?thesis by (auto simp: leased_def split: option.splits)
qed

theorem workspaces_stay_exclusive_witness:
  "\<exists>lease. lookup_by ls_workspace (lit ''/w'') (leases (exec_run [(9, Create_Run (lit ''s''))] sample_ledger)) = Some lease
     \<and> ls_owner lease = lit ''r''"
proof -
  have "sample_execution key_a (lit ''/w'') \<in> set (executions (exec_run [(9, Create_Run (lit ''s''))] sample_ledger))"
    "holds_workspace (lit ''/w'') (sample_execution key_a (lit ''/w''))"
    unfolding sample_step by (simp_all add: sample_ledger_def holds_workspace_def sample_execution_def terminal_status_def)
  from workspaces_stay_exclusive [OF sample_machine_inv this] show ?thesis by (simp add: sample_execution_def)
qed

section \<open>The event log\<close>

lemma history_nth:
  assumes "history_ok l" "m \<in> set (milestones l)" "ms_key m = k"
  shows "map ev_sequence (history l k) = map int [1..<Suc (length (history l k))]" "replay PLANNED (history l k) = Some (ms_state m)"
  using assms by (auto simp: history_ok_def check_milestone_iff)

lemma history_prefix:
  assumes "prefix (events l) (events l')"
    and seq: "map ev_sequence (history l k) = map int [1..<Suc (length (history l k))]"
      "map ev_sequence (history l' k) = map int [1..<Suc (length (history l' k))]"
  shows "prefix (history l k) (history l' k)"
proof -
  let ?h = "history l k" and ?h' = "history l' k"
  have sub: "set ?h \<subseteq> set ?h'" using set_mono_prefix [OF assms(1)] by (auto simp: set_history)
  have at: "ev_sequence (?h ! i) = int i + 1" if "i < length ?h" for i
    using arg_cong [OF seq(1), of "\<lambda>xs. xs ! i"] that by (simp del: upt_Suc)
  have at': "ev_sequence (?h' ! i) = int i + 1" if "i < length ?h'" for i
    using arg_cong [OF seq(2), of "\<lambda>xs. xs ! i"] that by (simp del: upt_Suc)
  have idx: "i < length ?h' \<and> ?h' ! i = ?h ! i" if i: "i < length ?h" for i
  proof -
    from sub i have "?h ! i \<in> set ?h'" by (meson nth_mem subsetD)
    then obtain j where j: "j < length ?h'" "?h' ! j = ?h ! i" by (auto simp: in_set_conv_nth)
    with at [OF i] at' [OF j(1)] have "j = i" by simp
    with j show ?thesis by blast
  qed
  have "length ?h \<le> length ?h'"
  proof (cases "length ?h")
    case (Suc n)
    with idx [of n] show ?thesis by simp
  qed simp
  moreover have "take (length ?h) ?h' = ?h"
    by (rule nth_equalityI) (use idx calculation in auto)
  ultimately show ?thesis by (metis take_is_prefix)
qed

text \<open>
  C13. The event log only grows: the history of a milestone is a prefix of its later history, it is
  numbered from 1 without gaps, and the state of the milestone is always what its history replays to.
\<close>

theorem milestone_is_its_history:
  assumes "machine_inv l" "m \<in> set (milestones (exec_run es l))"
  shows "replay PLANNED (history (exec_run es l) (ms_key m)) = Some (ms_state m)
    \<and> map ev_sequence (history (exec_run es l) (ms_key m)) = map int [1..<Suc (length (history (exec_run es l) (ms_key m)))]
    \<and> prefix (history l (ms_key m)) (history (exec_run es l) (ms_key m))"
proof -
  let ?l = "exec_run es l"
  have inv: "exec_inv l" "exec_inv ?l" using exec_run_facts(1) [OF assms(1)] assms(1) by (simp_all add: machine_inv_def)
  note now = history_nth [OF exec_inv_parts(4) [OF inv(2)] assms(2) refl]
  have "prefix (history l (ms_key m)) (history ?l (ms_key m))"
  proof (cases "ms_key m \<in> ms_key ` set (milestones l)")
    case True
    then obtain m0 where "m0 \<in> set (milestones l)" "ms_key m0 = ms_key m" by auto
    from history_nth(1) [OF exec_inv_parts(4) [OF inv(1)] this] now(1) exec_run_facts(2) [OF assms(1), of es]
    show ?thesis by (intro history_prefix) (simp_all add: exec_le_def)
  next
    case False
    then have "\<forall>e\<in>set (events l). ev_key e \<noteq> ms_key m" using orphanD(1) [OF exec_inv_parts(2) [OF inv(1)]] by metis
    then show ?thesis by (simp add: history_def)
  qed
  with now show ?thesis by blast
qed

theorem milestone_is_its_history_witness:
  "replay PLANNED (history (exec_run [(9, Create_Run (lit ''s''))] sample_ledger) key_b) = Some FAILED"
proof -
  have "\<lparr>ms_key = key_b, ms_state = FAILED, ms_created = 0, ms_updated = 0\<rparr>
      \<in> set (milestones (exec_run [(9, Create_Run (lit ''s''))] sample_ledger))"
    unfolding sample_step by (simp add: sample_ledger_def)
  from milestone_is_its_history [OF sample_machine_inv this] show ?thesis by simp
qed

section \<open>What stays recorded\<close>

lemma exec_le_row:
  "exec_le l l' \<Longrightarrow> lookup_by ex_key k (executions l) = Some x \<Longrightarrow> \<exists>y. lookup_by ex_key k (executions l') = Some y \<and> row_le x y"
  by (simp add: exec_le_def rows_le_def)

text \<open>
  C14. Over any sequence of transactions an execution keeps its capsule digest, its workspace and every
  identity it was given, a terminal execution never changes at all, its native compatibility and
  baseline stay, and the permission it runs under is never widened.
\<close>

theorem recorded_facts_persist:
  assumes "machine_inv l" "lookup_by ex_key k (executions l) = Some x"
  shows "(\<exists>y. lookup_by ex_key k (executions (exec_run es l)) = Some y
      \<and> ex_capsule_sha y = ex_capsule_sha x \<and> ex_workspace y = ex_workspace x
      \<and> (\<forall>t. ex_thread x = Some t \<longrightarrow> ex_thread y = Some t) \<and> (\<forall>t. ex_turn x = Some t \<longrightarrow> ex_turn y = Some t)
      \<and> (ex_status x \<in> {EX_COMPLETED, EX_FAILED, EX_CANCELLED} \<longrightarrow> y = x))
    \<and> (\<forall>i. lookup_by in_key k (integrity l) = Some i \<longrightarrow>
        (\<exists>j. lookup_by in_key k (integrity (exec_run es l)) = Some j \<and> in_compat j = in_compat i
          \<and> in_baseline j = in_baseline i \<and> no_broader (in_permission j) (in_permission i)))"
proof -
  note le = exec_run_facts(2) [OF assms(1), of es]
  from exec_le_row [OF le assms(2)] obtain y where "lookup_by ex_key k (executions (exec_run es l)) = Some y" "row_le x y" by blast
  moreover have "\<exists>j. lookup_by in_key k (integrity (exec_run es l)) = Some j \<and> in_compat j = in_compat i
      \<and> in_baseline j = in_baseline i \<and> no_broader (in_permission j) (in_permission i)"
    if "lookup_by in_key k (integrity l) = Some i" for i
    using le that by (force simp: exec_le_def rows_le_def integrity_le_def)
  ultimately show ?thesis by (auto simp: row_le_def terminal_status_def)
qed

theorem recorded_facts_persist_witness:
  "lookup_by ex_key key_b (executions (exec_run [(9, Create_Run (lit ''s''))] sample_ledger)) = Some sample_failed"
proof -
  have "lookup_by ex_key key_b (executions sample_ledger) = Some sample_failed" "ex_status sample_failed = EX_FAILED"
    by (simp_all add: sample_ledger_def lookup_by_def select_one_def sample_execution_def sample_failed_def lit_def)
  with recorded_facts_persist [OF sample_machine_inv this(1), of "[(9, Create_Run (lit ''s''))]"] show ?thesis by auto
qed

text \<open>
  C26. Once an execution has failed, its milestone is FAILED for good, and once it has completed, its
  milestone can never be cancelled, although the transition policy allows FAILED to REPAIR_REQUIRED
  and COMPLETED to CANCELLED.
\<close>

theorem ended_execution_pins_milestone:
  assumes "machine_inv l" "lookup_by ex_key k (executions l) = Some x"
  shows "(ex_status x = EX_FAILED \<longrightarrow> state_of (exec_run es l) k = Some FAILED \<and> is_transition_allowed FAILED REPAIR_REQUIRED)
    \<and> (ex_status x = EX_COMPLETED \<longrightarrow> state_of (exec_run es l) k \<noteq> Some CANCELLED \<and> is_transition_allowed COMPLETED CANCELLED)"
proof -
  let ?l = "exec_run es l"
  have inv: "validate_workflow ?l = Inr ()" "own_app ?l"
    using exec_run_facts(1) [OF assms(1)] by (simp_all add: machine_inv_def exec_inv_def)
  have "lookup_by ex_key k (executions ?l) = Some x" if "terminal_status (ex_status x)"
    using exec_le_row [OF exec_run_facts(2) [OF assms(1)] assms(2)] that by (auto simp: row_le_def)
  then have st: "\<exists>st. state_of ?l k = Some st \<and> check_status None st x = Inr ()" if "terminal_status (ex_status x)"
    using valid_row [OF inv] that by metis
  show ?thesis
    using st by (cases "ex_status x") (auto simp: check_status_plain terminal_status_def is_transition_allowed_def)
qed

theorem ended_execution_pins_milestone_witness:
  "state_of (exec_run [(9, Transition key_b REPAIR_REQUIRED FAILED None)] sample_ledger) key_b = Some FAILED"
proof -
  have "lookup_by ex_key key_b (executions sample_ledger) = Some sample_failed" "ex_status sample_failed = EX_FAILED"
    by (simp_all add: sample_ledger_def lookup_by_def select_one_def sample_execution_def sample_failed_def lit_def)
  with ended_execution_pins_milestone [OF sample_machine_inv this(1)] show ?thesis by blast
qed

lemma event_id_too_long:
  assumes "254 \<le> length r + length m"
  shows "\<exists>e. event_id_of (MKey r m) n = Inl e"
proof (cases "py_int_repr n")
  case (Inr t)
  then have "t \<noteq> []" by (auto simp: py_int_repr_def int_str_def nat_digits.simps [of "nat n"] split: if_splits)
  then have "1 \<le> length t" by (cases t) simp_all
  with assms have "256 < length (r @ slash # m @ slash # t)" unfolding length_append list.size by linarith
  with Inr show ?thesis by (simp add: event_id_of_def event_id_def)
qed (simp add: event_id_of_def)

text \<open>
  C32. A run and a milestone whose names are valid but together 254 characters or longer can be
  created, and then the milestone stays PLANNED whatever is done: no event of it can be recorded,
  because its event id would pass the 256 characters an event id may have.
\<close>

theorem long_names_freeze_milestone:
  assumes "machine_inv l" "lookup_by run_id r (runs l) = Some run" "id_pattern r" "id_pattern m" "254 \<le> length r + length m"
  shows "(\<exists>row l'. create_milestone now r m l = Inr (row, l'))
    \<and> (\<forall>es. state_of (exec_run es l) (MKey r m) \<in> {None, Some PLANNED})"
proof -
  have "\<exists>row l'. create_milestone now r m l = Inr (row, l')"
    using assms(2-4)
    by (cases "lookup_by ms_key (MKey r m) (milestones l)")
      (simp_all add: create_milestone_def validated_identifier_def get_run_def Let_def)
  moreover have "state_of (exec_run es l) (MKey r m) \<in> {None, Some PLANNED}" for es
  proof (cases "lookup_by ms_key (MKey r m) (milestones (exec_run es l))")
    case (Some row)
    let ?l = "exec_run es l"
    from exec_run_facts(1) [OF assms(1)] have ok: "history_ok ?l" by (simp add: machine_inv_def exec_inv_parts)
    have "ev_key e \<noteq> MKey r m" if "e \<in> set (events ?l)" for e
    proof
      assume k: "ev_key e = MKey r m"
      from ok that have "check_event ?l e = Inr ()" by (simp add: history_ok_def)
      with event_id_too_long [OF assms(5), of "ev_sequence e"] show False unfolding check_event_def k by (auto simp: bind_res_Inr_iff)
    qed
    then have "history ?l (MKey r m) = []" by (simp add: history_def)
    moreover have "row \<in> set (milestones ?l)" "ms_key row = MKey r m" using lookup_by_in [OF Some] by blast+
    ultimately have "ms_state row = PLANNED" using history_nth(2) [OF ok] by fastforce
    with Some show ?thesis by (simp add: state_of_def)
  qed (simp add: state_of_def)
  ultimately show ?thesis by blast
qed

theorem long_names_freeze_milestone_witness:
  "\<exists>l r m row l'. id_pattern r \<and> id_pattern m \<and> create_milestone 9 r m l = Inr (row, l')
     \<and> state_of (exec_run [(9, Claim_Dispatch r m (lit ''executor'') 1)] l) (MKey r m) \<in> {None, Some PLANNED}"
proof -
  define n :: pystr where "n = replicate 127 97"
  let ?row = "\<lparr>run_id = n, run_created = 0, run_closed = None, run_program = None\<rparr>"
  let ?l = "empty_ledger\<lparr>runs := [?row]\<rparr>"
  have len: "254 \<le> length n + length n" by (simp add: n_def)
  have "n = 97 # replicate 126 97" by (simp only: n_def replicate_Suc [symmetric] numeral_eq_Suc pred_numeral_simps BitM.simps)
  then have ids: "id_pattern n" by (simp add: id_pattern_def ascii_alnum_def list_all_iff)
  have inv: "machine_inv ?l"
    using empty_machine_inv runs_inv [of empty_ledger _ "[?row]"] by (simp add: machine_inv_def own_app_def empty_ledger_def)
  have "lookup_by run_id n (runs ?l) = Some ?row" by (simp add: lookup_by_def select_one_def)
  from long_names_freeze_milestone [OF inv this ids ids len, of 9] obtain row l' where
    "create_milestone 9 n n ?l = Inr (row, l')"
    "state_of (exec_run [(9, Claim_Dispatch n n (lit ''executor'') 1)] ?l) (MKey n n) \<in> {None, Some PLANNED}" by blast
  with ids show ?thesis by blast
qed

end
