(* ===== verification/Queue_Results.thy ===== *)
theory Queue_Results
  imports Ledger_Queue
begin

text \<open>
  How a result becomes terminal: the submission, the binding of a captured workspace, the two
  outboxes, the end of open checkpoints, the terminal decision and its wake, in one transaction.
  Times of the last update, and the texts of payloads and summaries, are only modelled where
  they are compared or bounded.
\<close>

section \<open>Statements with constraints\<close>

text \<open>The constraints of a row of \<open>wake_outbox\<close>.\<close>

definition wake_check :: "wake_row \<Rightarrow> bool" where
  "wake_check w \<longleftrightarrow> 1 \<le> length (w_delivery w) \<and> length (w_delivery w) \<le> 512 \<and> 1 \<le> w_cycle w \<and> w_cycle w \<le> 64
     \<and> pred_option (\<lambda>s. 1 \<le> length s \<and> length s \<le> 512) (w_source_thread w) \<and> 0 \<le> w_attempts w \<and> w_attempts w \<le> 2
     \<and> pred_option (\<lambda>s. 1 \<le> length s \<and> length s \<le> 512) (w_source_turn w)
     \<and> (w_source_thread w = None \<and> w_state w \<in> {Wake_Not_Applicable, Wake_Suppressed}
        \<or> w_source_thread w \<noteq> None \<and> w_state w \<noteq> Wake_Not_Applicable)
     \<and> (w_state w = Wake_Delivered \<longleftrightarrow> w_source_turn w \<noteq> None)"

definition insert_wake :: "wake_row \<Rightarrow> ledger \<Rightarrow> ledger res" where
  "insert_wake w l =
     bind_res (require (wake_check w \<and> w_delivery w \<notin> w_delivery ` set (wakes l)
         \<and> w_decision w \<notin> w_decision ` set (wakes l)
         \<and> (w_dispatch w, w_kind w, w_cycle w) \<notin> (\<lambda>w. (w_dispatch w, w_kind w, w_cycle w)) ` set (wakes l)
         \<and> w_dispatch w \<in> q_dispatch ` set (queue l) \<and> w_decision w \<in> d_id ` set (decisions l))
       (integrity_error ''wake_outbox'')) (\<lambda>_. Inr (l\<lparr>wakes := wakes l @ [w]\<rparr>))"

text \<open>\<open>INSERT INTO controller_decisions\<close>, with the text of the summary, whose length is bounded.\<close>

definition insert_decision :: "pystr \<Rightarrow> decision_row \<Rightarrow> ledger \<Rightarrow> ledger res" where
  "insert_decision summary d l =
     bind_res (require (10 \<le> length (d_id d) \<and> length (d_id d) \<le> 512 \<and> d_id d \<notin> d_id ` set (decisions l)
         \<and> (d_dispatch d, d_kind d, d_cycle d) \<notin> (\<lambda>d. (d_dispatch d, d_kind d, d_cycle d)) ` set (decisions l)
         \<and> 1 \<le> d_cycle d \<and> d_cycle d \<le> 64 \<and> 2 \<le> length summary \<and> length summary \<le> 16384
         \<and> d_dispatch d \<in> q_dispatch ` set (queue l))
       (integrity_error ''controller_decisions'')) (\<lambda>_. Inr (l\<lparr>decisions := decisions l @ [d]\<rparr>))"

definition insert_generation :: "generation_row \<Rightarrow> ledger \<Rightarrow> ledger res" where
  "insert_generation g l =
     bind_res (require (1 \<le> length (g_lineage g) \<and> length (g_lineage g) \<le> 256 \<and> 1 \<le> g_generation g \<and> g_generation g \<le> 2
         \<and> (g_decision g, g_generation g) \<notin> (\<lambda>g. (g_decision g, g_generation g)) ` set (generations l)
         \<and> g_decision g \<in> d_id ` set (decisions l))
       (integrity_error ''controller_decision_generations'')) (\<lambda>_. Inr (l\<lparr>generations := generations l @ [g]\<rparr>))"

definition insert_successor_out :: "successor_out_row \<Rightarrow> ledger \<Rightarrow> ledger res" where
  "insert_successor_out s l =
     bind_res (require (so_source s \<notin> so_source ` set (successor_outbox l) \<and> so_source s \<in> q_dispatch ` set (queue l)
         \<and> pred_option (\<lambda>i. i \<in> q_dispatch ` set (queue l)) (so_successor s))
       (integrity_error ''successor_outbox'')) (\<lambda>_. Inr (l\<lparr>successor_outbox := successor_outbox l @ [s]\<rparr>))"

definition insert_notification :: "notification_row \<Rightarrow> ledger \<Rightarrow> ledger res" where
  "insert_notification n l =
     bind_res (require (n_dispatch n \<notin> n_dispatch ` set (notifications l) \<and> n_dispatch n \<in> q_dispatch ` set (queue l))
       (integrity_error ''notification_outbox'')) (\<lambda>_. Inr (l\<lparr>notifications := notifications l @ [n]\<rparr>))"

section \<open>Decisions\<close>

fun queue_state_text :: "queue_state \<Rightarrow> string" where
  "queue_state_text Queued = ''queued''"
| "queue_state_text Claimed = ''claimed''"
| "queue_state_text Starting = ''starting''"
| "queue_state_text Running = ''running''"
| "queue_state_text Inspection_Pending = ''recovery_inspection_pending''"
| "queue_state_text Retry_Wait = ''recovery_retry_wait''"
| "queue_state_text Continuation_Pending = ''recovery_continuation_pending''"
| "queue_state_text Human_Attention = ''human_attention_required''"
| "queue_state_text Result_Submitted = ''result_submitted''"
| "queue_state_text Finalizing = ''finalizing''"
| "queue_state_text Queue_Completed = ''completed''"
| "queue_state_text Queue_Failed = ''failed''"
| "queue_state_text Queue_Cancelled = ''cancelled''"

definition text_or_null :: "pystr option \<Rightarrow> json" where
  "text_or_null t = (case t of None \<Rightarrow> JNull | Some s \<Rightarrow> JStr s)"

text \<open>\<open>_encode_json\<close> of values without floats.\<close>

definition encode_plain :: "json \<Rightarrow> pystr res" where
  "encode_plain v = dumps (\<lambda>_. []) False v"

definition decision_summary ::
    "ledger \<Rightarrow> pystr \<Rightarrow> cycle_kind \<Rightarrow> int \<Rightarrow> pystr option \<Rightarrow> pystr option \<Rightarrow> queue_state \<Rightarrow> json" where
  "decision_summary l i kind cycle source digest st =
     JObj [(lit ''dispatch_id'', JStr i), (lit ''kind'', JStr (kind_text kind)), (lit ''cycle_sequence'', JInt cycle),
       (lit ''state'', JStr (lit (queue_state_text st))),
       (lit ''summary'', JStr (kind_text kind @ lit '' controller decision'')),
       (lit ''source_thread_id'', text_or_null source), (lit ''result_sha256'', text_or_null digest),
       (lit ''expected_successor_dispatch_ids'',
        JArr (map JStr (sort (map as_successor (filter (\<lambda>a. as_source a = i \<and> as_released a \<noteq> None) (successors l))))))]"

text \<open>
  \<open>_ensure_controller_decision_in_transaction\<close> for a payload without a summary of its own; \<open>digest\<close> is
  the payload's \<open>result_sha256\<close>.
\<close>

definition ensure_controller_decision ::
    "pystr \<Rightarrow> cycle_kind \<Rightarrow> int \<Rightarrow> pystr option \<Rightarrow> pystr option \<Rightarrow> time \<Rightarrow> wake_state \<Rightarrow> queue_state \<Rightarrow> pystr ledger_op" where
  "ensure_controller_decision i kind cycle digest source deadline wake st l =
     bind_res (require (1 \<le> cycle \<and> cycle \<le> 64) (ValueError (lit ''controller decision cycle sequence is invalid''))) (\<lambda>_.
     bind_res (wake_delivery_id i kind cycle) (\<lambda>delivery.
     let d = decision_id_of delivery
     in if d \<in> d_id ` set (decisions l) then Inr (d, l)
        else bind_res (encode_plain (decision_summary l i kind cycle source digest st)) (\<lambda>summary.
          let state = (if wake = Wake_Pending then Pending_Delivery
                       else if st \<in> {Queue_Completed, Queue_Failed, Queue_Cancelled} \<and> source = None then Legacy_Closed
                       else Awaiting_Claim)
          in bind_res (insert_decision summary \<lparr>d_id = d, d_dispatch = i, d_kind = kind, d_cycle = cycle, d_state = state,
                 d_revision = 0, d_deadline = deadline, d_generation = 1, d_action = None, d_claimant = None,
                 d_claim_expires = None, d_attention = None, d_superseded = None\<rparr> l) (\<lambda>l1.
             bind_res (insert_generation \<lparr>g_decision = d, g_generation = 1, g_lineage = lit ''lineage/'' @ d,
                 g_state = Gen_Prepared, g_thread = None, g_turn = None\<rparr> l1) (\<lambda>l2. Inr (d, l2))))))"

section \<open>Finalization\<close>

definition DECISION_WINDOW :: int where "DECISION_WINDOW = 300000000"

definition unreleased_successors :: "ledger \<Rightarrow> pystr \<Rightarrow> pystr list" where
  "unreleased_successors l i = sort (map as_successor (filter (\<lambda>a. as_source a = i \<and> as_released a = None) (successors l)))"

definition release_successors :: "time \<Rightarrow> pystr \<Rightarrow> pystr list \<Rightarrow> ledger \<Rightarrow> ledger" where
  "release_successors now i ids l = l\<lparr>successors :=
     update_where (\<lambda>a. as_source a = i \<and> as_successor a \<in> set ids \<and> as_released a = None)
       (\<lambda>a. a\<lparr>as_released := Some now\<rparr>) (successors l)\<rparr>"

text \<open>A requested successor must be one of the authorized ones; an absent or null request is none.\<close>

definition successor_allowed :: "(pystr \<times> json) list \<Rightarrow> pystr list \<Rightarrow> bool" where
  "successor_allowed payload ids \<longleftrightarrow>
     (case get payload ''successor_dispatch_id'' of
        None \<Rightarrow> True | Some JNull \<Rightarrow> True | Some (JStr s) \<Rightarrow> s \<in> set ids | Some _ \<Rightarrow> False)"

definition close_checkpoints :: "time \<Rightarrow> pystr \<Rightarrow> ledger \<Rightarrow> ledger" where
  "close_checkpoints now i l =
     (let ds = update_where (\<lambda>d. d_dispatch d = i \<and> d_kind d = Checkpoint \<and> d_action d = None
                   \<and> d_state d \<notin> {Action_Committed, Acknowledged, Superseded, Legacy_Closed})
                 (\<lambda>d. d\<lparr>d_state := Superseded, d_superseded := Some now, d_claim_expires := None, d_attention := None\<rparr>)
                 (decisions l)
      in l\<lparr>decisions := ds,
           wakes := update_where (\<lambda>w. w_dispatch w = i \<and> w_kind w = Checkpoint \<and> w_state w \<noteq> Wake_Delivered
                       \<and> (\<exists>d\<in>set ds. d_id d = w_decision w \<and> d_action d = None))
                      (\<lambda>w. w\<lparr>w_state := Wake_Suppressed, w_source_turn := None\<rparr>) (wakes l)\<rparr>)"

definition terminal_notification :: "pystr \<Rightarrow> mkey \<Rightarrow> queue_state \<Rightarrow> pystr \<Rightarrow> json" where
  "terminal_notification i k st digest =
     JObj [(lit ''schema_version'', JInt 1), (lit ''kind'', JStr (lit ''TERMINAL'')), (lit ''dispatch_id'', JStr i),
       (lit ''run_id'', JStr (mk_run k)), (lit ''milestone_id'', JStr (mk_milestone k)),
       (lit ''state'', JStr (lit (queue_state_text st))), (lit ''result_sha256'', JStr digest)]"

definition source_thread_of :: "ledger \<Rightarrow> pystr \<Rightarrow> pystr option" where
  "source_thread_of l i = (case lookup_by b_dispatch i (bindings l) of None \<Rightarrow> None | Some b \<Rightarrow> b_source_thread b)"

definition new_wake :: "pystr \<Rightarrow> pystr \<Rightarrow> pystr \<Rightarrow> cycle_kind \<Rightarrow> int \<Rightarrow> pystr option \<Rightarrow> wake_row" where
  "new_wake delivery i d kind cycle source =
     \<lparr>w_delivery = delivery, w_dispatch = i, w_decision = d, w_kind = kind, w_cycle = cycle, w_source_thread = source,
      w_state = (if source = None then Wake_Not_Applicable else Wake_Pending), w_attempts = 0, w_source_turn = None\<rparr>"

definition terminal_state :: "queue_row \<Rightarrow> queue_state" where
  "terminal_state q = (if q_terminal q \<in> Some ` set failed_statuses then Queue_Failed else Queue_Completed)"

text \<open>The outboxes and the wake of a row that has just become terminal.\<close>

definition announce_terminal :: "ledger_env \<Rightarrow> time \<Rightarrow> queue_row \<Rightarrow> pystr list \<Rightarrow> pystr option \<Rightarrow> ledger \<Rightarrow> ledger res" where
  "announce_terminal E now q ids notify l =
     (let i = q_dispatch q; terminal = terminal_state q; source = source_thread_of l i;
          digest = (case q_raw q of None \<Rightarrow> lit ''None'' | Some (_, d) \<Rightarrow> d);
          successor = (case ids of [] \<Rightarrow> None | s # _ \<Rightarrow> Some s)
      in bind_res (insert_successor_out \<lparr>so_source = i, so_successor = successor,
             so_outcome = (if successor = None then Not_Required else Enqueued), so_completed = Some now\<rparr> l) (\<lambda>l1.
         bind_res (encode_plain (terminal_notification i (q_key q) terminal digest)) (\<lambda>text.
         bind_res (insert_notification \<lparr>n_dispatch = i, n_digest = sha256 E text,
             n_task = (if notify = None \<or> notify = Some [] then source else notify), n_outcome = Unavailable,
             n_attempted = None\<rparr> l1) (\<lambda>l2.
         bind_res (ensure_controller_decision i Terminal 1 (Some digest) source (now + DECISION_WINDOW)
             (if source = None then Wake_Not_Applicable else Wake_Pending) terminal (close_checkpoints now i l2)) (\<lambda>(d, l3).
         bind_res (wake_delivery_id i Terminal 1) (\<lambda>delivery.
         insert_wake (new_wake delivery i d Terminal 1 source) l3))))))"

definition finalize_in_transaction ::
    "ledger_env \<Rightarrow> time \<Rightarrow> pystr \<Rightarrow> (pystr \<times> json) list \<Rightarrow> pystr option \<Rightarrow> queue_row ledger_op" where
  "finalize_in_transaction E now i payload notify l =
     bind_res (queue_dispatch l i) (\<lambda>q.
     if q_state q \<in> {Queue_Completed, Queue_Failed, Queue_Cancelled} then Inr (q, l)
     else bind_res (require (q_state q = Result_Submitted) (stale ''queue result is not submitted'')) (\<lambda>_.
       let ids = unreleased_successors l i
       in bind_res (require (successor_allowed payload ids) (stale ''successor dispatch is not pre-authorized'')) (\<lambda>_.
          bind_res (announce_terminal E now q ids notify (release_successors now i ids
              (update_queue i (\<lambda>r. r\<lparr>q_state := terminal_state q, q_updated := now\<rparr>) l))) (\<lambda>l'.
          returning i l'))))"

text \<open>\<open>finalize_queue_result\<close>.\<close>

definition finalize_queue_result ::
    "ledger_env \<Rightarrow> time \<Rightarrow> pystr \<Rightarrow> (pystr \<times> json) list \<Rightarrow> pystr option \<Rightarrow> queue_row ledger_op" where
  "finalize_queue_result E now i payload notify =
     atomically (validate_rows E) (finalize_in_transaction E now i payload notify)"

section \<open>Results\<close>

definition bind_terminal_integrity :: "pystr \<Rightarrow> pystr \<Rightarrow> ledger \<Rightarrow> ledger res" where
  "bind_terminal_integrity i digest l =
     bind_res (dispatch_id i) (\<lambda>_.
     bind_res (require (is_hex 64 digest) (ValueError (lit ''dispatch result digest must be a lowercase SHA-256 digest''))) (\<lambda>_.
     case lookup_by q_dispatch i (queue l) of
       None \<Rightarrow> Inl (no_queue_row i)
     | Some q \<Rightarrow>
         if lookup_by run_id (mk_run (q_key q)) (runs l) = None then Inl (no_queue_row i)
         else if \<not> control_repair l q then
           bind_res (require (i \<notin> tc_dispatch ` set (captures l))
                      (stale ''dispatch terminal integrity is not authorized for this result'')) (\<lambda>_. Inr l)
         else case lookup_by tc_dispatch i (captures l) of
                None \<Rightarrow> Inl (stale ''completed control repair lacks pre-ingestion terminal integrity'')
              | Some t \<Rightarrow>
                  bind_res (require (map_option snd (q_raw q) = Some digest)
                             (stale ''dispatch terminal integrity result digest is stale'')) (\<lambda>_.
                  case tc_result t of
                    Some bound \<Rightarrow> bind_res (require (bound = digest)
                        (stale ''dispatch terminal integrity conflicts with its result authority'')) (\<lambda>_. Inr l)
                  | None \<Rightarrow> Inr (l\<lparr>captures := update_where (\<lambda>t. tc_dispatch t = i \<and> tc_result t = None)
                        (\<lambda>t. t\<lparr>tc_result := Some digest\<rparr>) (captures l)\<rparr>))))"

definition reset_retry :: "pystr \<Rightarrow> ledger \<Rightarrow> ledger" where
  "reset_retry i l = l\<lparr>retries := update_where (\<lambda>r. rp_dispatch r = i) clear_retry (retries l)\<rparr>"

definition bounded_result :: "ledger_env \<Rightarrow> ledger \<Rightarrow> pystr \<Rightarrow> pystr \<Rightarrow> pystr res" where
  "bounded_result E l i raw =
     bind_res (parse_queue_result E l i raw) (\<lambda>status.
     bind_res (utf8_len raw) (\<lambda>n.
     bind_res (require (n \<le> 65536) (ValueError (lit ''worker raw result exceeds bounded limit''))) (\<lambda>_. Inr status)))"

text \<open>\<open>commit_queue_result\<close>: submission, binding and finalization in one transaction.\<close>

definition commit_in_transaction ::
    "ledger_env \<Rightarrow> time \<Rightarrow> pystr \<Rightarrow> int \<Rightarrow> int \<Rightarrow> pystr \<Rightarrow> pystr \<Rightarrow> pystr \<Rightarrow> queue_row ledger_op" where
  "commit_in_transaction E now i generation attempt_no token raw status l =
     bind_res (submit_in_transaction E now i generation attempt_no token raw status l) (\<lambda>(_, l1).
     bind_res (bind_terminal_integrity i (sha256 E raw) l1) (\<lambda>l2.
     finalize_in_transaction E now i [] None (reset_retry i l2)))"

definition commit_queue_result ::
    "ledger_env \<Rightarrow> time \<Rightarrow> pystr \<Rightarrow> int \<Rightarrow> int \<Rightarrow> pystr \<Rightarrow> pystr \<Rightarrow> queue_row ledger_op" where
  "commit_queue_result E now i generation attempt_no token raw l =
     bind_res (bounded_result E l i raw) (\<lambda>status.
     atomically (validate_rows E) (commit_in_transaction E now i generation attempt_no token raw status) l)"

text \<open>\<open>commit_retained_queue_result\<close>: the same after a short renewal, for a result whose transport was lost.\<close>

definition retained_in_transaction ::
    "ledger_env \<Rightarrow> time \<Rightarrow> pystr \<Rightarrow> int \<Rightarrow> int \<Rightarrow> pystr \<Rightarrow> pystr \<Rightarrow> pystr \<Rightarrow> queue_row ledger_op" where
  "retained_in_transaction E now i generation attempt_no token raw status l =
     bind_res (require (late_result_allowed l i generation attempt_no)
                (stale ''retained result does not own an exact result-transport recovery'')) (\<lambda>_.
     case select_one (is_capability i generation attempt_no) (capabilities l) of
       None \<Rightarrow> Inl (stale ''retained result capability is unavailable'')
     | Some c \<Rightarrow>
         bind_res (require (c_consumed c = None) (stale ''retained result capability is unavailable'')) (\<lambda>_.
         commit_in_transaction E now i generation attempt_no token raw status
           (extend_capability i generation attempt_no (now + CAPABILITY_MIN) l)))"

definition commit_retained_queue_result ::
    "ledger_env \<Rightarrow> time \<Rightarrow> pystr \<Rightarrow> int \<Rightarrow> int \<Rightarrow> pystr \<Rightarrow> pystr \<Rightarrow> queue_row ledger_op" where
  "commit_retained_queue_result E now i generation attempt_no token raw l =
     bind_res (bounded_result E l i raw) (\<lambda>status.
     atomically (validate_rows E) (retained_in_transaction E now i generation attempt_no token raw status) l)"

text \<open>\<open>ingest_recovered_result\<close>: a result read back from the persisted thread, without a capability.\<close>

definition ingest_in_transaction :: "ledger_env \<Rightarrow> time \<Rightarrow> pystr \<Rightarrow> pystr \<Rightarrow> pystr \<Rightarrow> queue_row ledger_op" where
  "ingest_in_transaction E now i raw status l =
     bind_res (queue_dispatch l i) (\<lambda>q.
     if q_state q \<in> {Queue_Completed, Queue_Failed} then
       (if map_option snd (q_raw q) = Some (sha256 E raw)
        then bind_res (bind_terminal_integrity i (sha256 E raw) l) (\<lambda>l'. Inr (q, l'))
        else Inl (stale ''terminal queue result is immutable''))
     else bind_res (require (q_state q = Inspection_Pending)
                     (stale ''persisted-thread result requires a recovery inspection state'')) (\<lambda>_.
       let l1 = update_queue i (\<lambda>r. r\<lparr>q_state := Result_Submitted, q_raw := Some (raw, sha256 E raw),
                  q_terminal := Some status, q_updated := now\<rparr>) l;
           l2 = l1\<lparr>recoveries := update_where (\<lambda>r. rs_dispatch r = i)
                  (\<lambda>r. r\<lparr>rs_state := (if status \<in> set failed_statuses then Rec_Failed else Rec_Completed),
                         rs_next_eligible := None,
                         rs_inspected := (fst (rs_inspected r), fst (snd (rs_inspected r)), Some (lit ''terminal_result''))\<rparr>)
                  (recoveries l1)\<rparr>
       in bind_res (bind_terminal_integrity i (sha256 E raw) (reset_retry i l2)) (\<lambda>l3.
          finalize_in_transaction E now i [] None l3)))"

definition ingest_recovered_result :: "ledger_env \<Rightarrow> time \<Rightarrow> pystr \<Rightarrow> pystr \<Rightarrow> queue_row ledger_op" where
  "ingest_recovered_result E now i raw l =
     bind_res (bounded_result E l i raw) (\<lambda>status.
     atomically (validate_rows E) (ingest_in_transaction E now i raw status) l)"

section \<open>Notifications\<close>

definition record_notification_attempt ::
    "time \<Rightarrow> pystr \<Rightarrow> pystr option \<Rightarrow> pystr \<Rightarrow> notification_outcome \<Rightarrow> notification_row ledger_op" where
  "record_notification_attempt now i task digest result l =
     bind_res (require (is_hex 64 digest) (ValueError (lit ''notification payload digest is invalid''))) (\<lambda>_.
     bind_res (require (map_option q_state (lookup_by q_dispatch i (queue l)) \<in> {Some Queue_Completed, Some Queue_Failed})
                (stale ''terminal notification requires a terminal dispatch'')) (\<lambda>_.
     let attempted = (if result \<in> {Attempted_Ok, Attempted_Failed} then Some now else None)
     in case lookup_by n_dispatch i (notifications l) of
          Some n \<Rightarrow>
            bind_res (require (n_digest n = digest) (stale ''terminal notification payload is conflicting'')) (\<lambda>_.
            if n_outcome n = Unavailable \<and> attempted \<noteq> None \<and> n_attempted n = None then
              bind_res (require (n_task n = None \<or> n_task n = task)
                         (stale ''terminal notification source task is conflicting'')) (\<lambda>_.
              let n' = n\<lparr>n_task := task, n_outcome := result, n_attempted := attempted\<rparr>
              in Inr (n', l\<lparr>notifications := update_where (\<lambda>n. n_dispatch n = i)
                    (\<lambda>n. n\<lparr>n_task := task, n_outcome := result, n_attempted := attempted\<rparr>) (notifications l)\<rparr>))
            else bind_res (require ((case n_task n of None \<Rightarrow> [] | Some t \<Rightarrow> t) = (case task of None \<Rightarrow> [] | Some t \<Rightarrow> t)
                               \<and> n_outcome n = result)
                            (stale ''terminal notification is already recorded'')) (\<lambda>_. Inr (n, l)))
        | None \<Rightarrow>
            let n = \<lparr>n_dispatch = i, n_digest = digest, n_task = task, n_outcome = result, n_attempted = attempted\<rparr>
            in bind_res (insert_notification n l) (\<lambda>l'. Inr (n, l'))))"

end
