(* ===== verification/Queue_Wakes.thy ===== *)
theory Queue_Wakes
  imports Queue_Results
begin

text \<open>
  Wakes and checkpoints: a wake is claimed at most twice, a lost delivery becomes ambiguous, and the
  checkpoint of a running row is claimed when it is due and armed again after its decision.
\<close>

section \<open>Deliveries\<close>

definition update_wakes :: "(wake_row \<Rightarrow> bool) \<Rightarrow> (wake_row \<Rightarrow> wake_row) \<Rightarrow> ledger \<Rightarrow> ledger res" where
  "update_wakes P f l =
     bind_res (require (\<forall>w\<in>set (wakes l). P w \<longrightarrow> wake_check (f w)) (integrity_error ''wake_outbox'')) (\<lambda>_.
     Inr (l\<lparr>wakes := update_where P f (wakes l)\<rparr>))"

definition no_wake :: "pystr \<Rightarrow> py_error" where
  "no_wake i = RecordNotFound (lit ''wake delivery does not exist: '' @ i)"

definition returning_wake :: "pystr \<Rightarrow> ledger \<Rightarrow> (wake_row \<times> ledger) res" where
  "returning_wake i l = (case lookup_by w_delivery i (wakes l) of None \<Rightarrow> Inl (no_wake i) | Some w \<Rightarrow> Inr (w, l))"

definition claim_wake :: "pystr \<Rightarrow> wake_row ledger_op" where
  "claim_wake i l =
     (case lookup_by w_delivery i (wakes l) of
        None \<Rightarrow> Inl (no_wake i)
      | Some w \<Rightarrow>
          (case lookup_by d_id (w_decision w) (decisions l) of
             None \<Rightarrow> Inl (corrupt ''wake delivery has no controller decision'')
           | Some d \<Rightarrow>
               if w_state w = Wake_Suppressed \<or> d_state d \<noteq> Pending_Delivery then
                 (if w_state w \<in> {Wake_Not_Applicable, Wake_Delivered, Wake_Suppressed} then Inr (w, l)
                  else Inl (stale ''wake delivery is no longer pending controller delivery''))
               else if w_state w \<in> {Wake_Not_Applicable, Wake_Delivered} then Inr (w, l)
               else bind_res (require (w_state w \<noteq> Wake_Ambiguous) (stale ''ambiguous wake delivery requires reconciliation'')) (\<lambda>_.
                 bind_res (if 2 \<le> w_attempts w
                    then update_wakes (\<lambda>w. w_delivery w = i) (\<lambda>w. w\<lparr>w_state := Wake_Failed\<rparr>) l
                    else update_wakes (\<lambda>w. w_delivery w = i \<and> w_state w \<in> {Wake_Pending, Wake_Failed})
                           (\<lambda>w. w\<lparr>w_state := Wake_Starting, w_attempts := w_attempts w + 1\<rparr>) l) (\<lambda>l'.
                 returning_wake i l'))))"

definition reconcile_inflight_wakes :: "unit ledger_op" where
  "reconcile_inflight_wakes l =
     bind_res (update_wakes (\<lambda>w. w_state w = Wake_Starting) (\<lambda>w. w\<lparr>w_state := Wake_Ambiguous\<rparr>) l) (\<lambda>l'. Inr ((), l'))"

text \<open>\<open>UPDATE controller_decisions\<close> to \<open>awaiting_claim\<close>, and with a deadline that is not earlier than a given one.\<close>

definition await_claim :: "decision_row \<Rightarrow> decision_row" where
  "await_claim d = d\<lparr>d_state := Awaiting_Claim, d_revision := d_revision d + 1\<rparr>"

definition await_claim_until :: "time \<Rightarrow> decision_row \<Rightarrow> decision_row" where
  "await_claim_until deadline d = (await_claim d)\<lparr>d_deadline := max deadline (d_deadline d), d_attention := None\<rparr>"

definition exhausted_notification :: "ledger \<Rightarrow> decision_row \<Rightarrow> bool" where
  "exhausted_notification l d \<longleftrightarrow> d_state d = Decision_Attention \<and> d_action d = None \<and> d_claimant d = None
     \<and> d_attention d = Some (lit ''source wake delivery budget exhausted'')
     \<and> (\<exists>w\<in>set (wakes l). w_decision w = d_id d \<and> w_state w = Wake_Failed \<and> w_attempts w = 2)
     \<and> (\<exists>g\<in>set (generations l). g_decision g = d_id d \<and> g_generation g = d_generation d \<and> g_state g = Gen_Prepared
          \<and> g_thread g = None \<and> g_turn g = None)"

definition reconcile_exhausted_wake_notifications :: "time \<Rightarrow> unit ledger_op" where
  "reconcile_exhausted_wake_notifications now l =
     Inr ((), l\<lparr>decisions := update_where (exhausted_notification l) (await_claim_until (now + DECISION_WINDOW)) (decisions l)\<rparr>)"

definition turn_identity :: "pystr \<Rightarrow> bool" where
  "turn_identity s \<longleftrightarrow> s \<noteq> [] \<and> length s \<le> 512 \<and> \<not> list_ex py_isspace s"

definition pending_decision :: "pystr \<Rightarrow> decision_row \<Rightarrow> bool" where
  "pending_decision i d \<longleftrightarrow> d_id d = i \<and> d_state d = Pending_Delivery"

definition reconcile_wake_delivery :: "pystr \<Rightarrow> pystr \<Rightarrow> wake_row ledger_op" where
  "reconcile_wake_delivery i turn l =
     bind_res (require (turn_identity turn) (ValueError (lit ''source wake turn identity is invalid''))) (\<lambda>_.
     case lookup_by w_delivery i (wakes l) of
       None \<Rightarrow> Inl (no_wake i)
     | Some w \<Rightarrow>
         if w_state w = Wake_Delivered
         then bind_res (require (w_source_turn w = Some turn) (stale ''wake delivery identity is immutable'')) (\<lambda>_. Inr (w, l))
         else bind_res (require (w_state w = Wake_Ambiguous) (stale ''wake delivery is not awaiting reconciliation'')) (\<lambda>_.
           bind_res (update_wakes (\<lambda>w. w_delivery w = i \<and> w_state w = Wake_Ambiguous)
                       (\<lambda>w. w\<lparr>w_state := Wake_Delivered, w_source_turn := Some turn\<rparr>) l) (\<lambda>l1.
           returning_wake i (l1\<lparr>decisions := update_where (pending_decision (w_decision w)) await_claim (decisions l1)\<rparr>))))"

definition deliver_wake :: "pystr \<Rightarrow> wake_row \<Rightarrow> pystr option \<Rightarrow> ledger \<Rightarrow> ledger res" where
  "deliver_wake i w turn l =
     bind_res (require (pred_option turn_identity turn \<and> turn \<noteq> None \<and> w_source_thread w \<noteq> None)
                (stale ''wake delivery requires a source turn identity'')) (\<lambda>_.
     bind_res (update_wakes (\<lambda>w. w_delivery w = i \<and> w_state w = Wake_Starting)
                 (\<lambda>w. w\<lparr>w_state := Wake_Delivered, w_source_turn := turn\<rparr>) l) (\<lambda>l1.
     Inr (l1\<lparr>decisions := update_where (pending_decision (w_decision w)) await_claim (decisions l1)\<rparr>)))"

definition lose_wake :: "pystr \<Rightarrow> wake_row \<Rightarrow> pystr option \<Rightarrow> ledger \<Rightarrow> ledger res" where
  "lose_wake i w turn l =
     bind_res (require (turn = None) (stale ''ambiguous wake delivery cannot carry a source turn identity'')) (\<lambda>_.
     bind_res (update_wakes (\<lambda>w. w_delivery w = i \<and> w_state w = Wake_Starting) (\<lambda>w. w\<lparr>w_state := Wake_Ambiguous\<rparr>) l) (\<lambda>l1.
     Inr (l1\<lparr>decisions := update_where (pending_decision (w_decision w))
       (\<lambda>d. d\<lparr>d_state := Decision_Attention, d_attention := Some (lit ''source wake delivery is ambiguous''),
              d_claim_expires := None\<rparr>) (decisions l1)\<rparr>)))"

definition fail_wake :: "time \<Rightarrow> pystr \<Rightarrow> wake_row \<Rightarrow> pystr option \<Rightarrow> ledger \<Rightarrow> ledger res" where
  "fail_wake now i w turn l =
     bind_res (require (turn = None) (stale ''failed wake delivery cannot carry a source turn identity'')) (\<lambda>_.
     let next_state = (if 2 \<le> w_attempts w then Wake_Failed else Wake_Pending)
     in bind_res (update_wakes (\<lambda>w. w_delivery w = i \<and> w_state w = Wake_Starting) (\<lambda>w. w\<lparr>w_state := next_state\<rparr>) l) (\<lambda>l1.
        if next_state = Wake_Failed
        then Inr (l1\<lparr>decisions := update_where (pending_decision (w_decision w))
               (\<lambda>d. (await_claim_until (now + DECISION_WINDOW) d)\<lparr>d_claim_expires := None\<rparr>) (decisions l1)\<rparr>)
        else Inr l1))"

definition record_wake_delivery :: "time \<Rightarrow> pystr \<Rightarrow> wake_state \<Rightarrow> pystr option \<Rightarrow> wake_row ledger_op" where
  "record_wake_delivery now i result turn l =
     bind_res (require (result \<in> {Wake_Delivered, Wake_Failed, Wake_Ambiguous})
                (ValueError (lit ''wake delivery outcome is invalid''))) (\<lambda>_.
     case lookup_by w_delivery i (wakes l) of
       None \<Rightarrow> Inl (no_wake i)
     | Some w \<Rightarrow>
         if w_state w = Wake_Delivered
         then bind_res (require (result = Wake_Delivered \<and> turn = w_source_turn w)
                         (stale ''wake delivery identity is immutable'')) (\<lambda>_. Inr (w, l))
         else if w_state w = Wake_Ambiguous
         then bind_res (require (result = Wake_Ambiguous \<and> turn = None)
                         (stale ''ambiguous wake delivery requires reconciliation'')) (\<lambda>_. Inr (w, l))
         else bind_res (require (w_state w = Wake_Starting)
                         (stale ''wake delivery is not in its claimed SDK call state'')) (\<lambda>_.
           bind_res (if result = Wake_Delivered then deliver_wake i w turn l
                     else if result = Wake_Ambiguous then lose_wake i w turn l else fail_wake now i w turn l) (\<lambda>l'.
           returning_wake i l')))"

section \<open>Checkpoints\<close>

definition checkpoint_states :: "queue_state list" where
  "checkpoint_states = [Claimed, Starting, Running, Result_Submitted, Human_Attention]"

text \<open>The rows whose checkpoint is due, the earliest deadline first.\<close>

definition due_checkpoints :: "ledger \<Rightarrow> time \<Rightarrow> (queue_row \<times> binding_row) list" where
  "due_checkpoints l current =
     sort_key (\<lambda>(q, b). (case b_deadline b of None \<Rightarrow> 0 | Some t \<Rightarrow> t, q_sequence q))
       [(q, b). q \<leftarrow> queue l, b \<leftarrow> bindings l, b_dispatch b = q_dispatch q \<and> q_state q \<in> set checkpoint_states
          \<and> b_armed b \<and> (case b_deadline b of None \<Rightarrow> False | Some t \<Rightarrow> t \<le> current)]"

definition last_cycle :: "ledger \<Rightarrow> pystr \<Rightarrow> int" where
  "last_cycle l i = fold max (map w_cycle (filter (\<lambda>w. w_dispatch w = i \<and> w_kind w = Checkpoint) (wakes l))) 0"

definition disarm :: "pystr \<Rightarrow> ledger \<Rightarrow> ledger" where
  "disarm i l = l\<lparr>bindings := update_where (\<lambda>b. b_dispatch b = i \<and> b_armed b)
     (\<lambda>b. b\<lparr>b_deadline := None, b_armed := False\<rparr>) (bindings l)\<rparr>"

text \<open>
  \<open>claim_due_checkpoint\<close> at the time \<open>current\<close> the caller gives.  The update the source makes before it
  raises that the cycles are exhausted is rolled back with everything else.
\<close>

definition claim_due_checkpoint :: "time \<Rightarrow> int \<Rightarrow> time \<Rightarrow> wake_row option ledger_op" where
  "claim_due_checkpoint now epoch current l =
     bind_res (require_live_harness l epoch now) (\<lambda>_.
     case due_checkpoints l current of
       [] \<Rightarrow> Inr (None, l)
     | (q, b) # _ \<Rightarrow>
         let i = q_dispatch q; cycle = last_cycle l i + 1; source = b_source_thread b
         in bind_res (require (cycle \<le> 64) (stale ''checkpoint cycle budget exhausted'')) (\<lambda>_.
            bind_res (wake_delivery_id i Checkpoint cycle) (\<lambda>delivery.
            bind_res (ensure_controller_decision i Checkpoint cycle None source (current + DECISION_WINDOW)
                (if source = None then Wake_Not_Applicable else Wake_Pending) (q_state q) (disarm i l)) (\<lambda>(d, l1).
            let w = new_wake delivery i d Checkpoint cycle source
            in bind_res (insert_wake w l1) (\<lambda>l2. Inr (Some w, l2))))))"

definition latest_by :: "('r \<Rightarrow> int) \<Rightarrow> 'r list \<Rightarrow> 'r option" where
  "latest_by f rows = (case rev (sort_key f rows) of [] \<Rightarrow> None | r # _ \<Rightarrow> Some r)"

definition rearm_checkpoint :: "time \<Rightarrow> pystr \<Rightarrow> int \<Rightarrow> binding_row ledger_op" where
  "rearm_checkpoint now i seconds l =
     bind_res (expires_after now seconds) (\<lambda>deadline.
     bind_res (queue_dispatch l i) (\<lambda>q.
     bind_res (require (q_state q \<notin> {Queue_Completed, Queue_Failed, Queue_Cancelled})
                (stale ''terminal dispatch cannot re-arm a checkpoint'')) (\<lambda>_.
     bind_res (require (case latest_by w_cycle (filter (\<lambda>w. w_dispatch w = i \<and> w_kind w = Checkpoint) (wakes l)) of
                  None \<Rightarrow> True | Some w \<Rightarrow> w_state w \<notin> {Wake_Pending, Wake_Starting})
                (stale ''checkpoint wake is already active'')) (\<lambda>_.
     bind_res (require (case latest_by d_cycle (filter (\<lambda>d. d_dispatch d = i \<and> d_kind d = Checkpoint) (decisions l)) of
                  None \<Rightarrow> True
                | Some d \<Rightarrow> d_state d \<in> {Awaiting_Claim, Acknowledged, Superseded, Legacy_Closed, Decision_Attention})
                (stale ''checkpoint decision is still active'')) (\<lambda>_.
     case lookup_by b_dispatch i (bindings l) of
       None \<Rightarrow> Inl (corrupt ''controller checkpoint binding is missing'')
     | Some b \<Rightarrow>
         bind_res (require (\<not> b_armed b) (stale ''checkpoint is already armed'')) (\<lambda>_.
         let arm = (\<lambda>b. b\<lparr>b_deadline := Some deadline, b_armed := True\<rparr>)
         in Inr (arm b, l\<lparr>bindings := update_where (\<lambda>b. b_dispatch b = i) arm (bindings l)\<rparr>)))))))"

end
