(* ===== verification/Queue_Retries.thy ===== *)
theory Queue_Retries
  imports Queue_Wakes
begin

text \<open>
  How a row enters the queue, with its binding, recovery state and retry policy, and how the retry
  policy is consumed: each class of failure has a budget of its own, and a failure without budget
  asks for a human.
\<close>

section \<open>Enqueueing\<close>

text \<open>The arguments of \<open>enqueue_dispatch\<close>; durations are in microseconds, and the workspace is resolved.\<close>

record enqueue_args =
  eq_dispatch :: pystr
  eq_backend :: pystr
  eq_facts :: queue_facts
  eq_workspace :: pystr
  eq_contract :: pystr
  eq_available :: "time option"
  eq_deadline :: "time option"
  eq_plan_path :: pystr
  eq_plan :: "pystr option"
  eq_projection :: "pystr option"
  eq_source :: "pystr option"
  eq_mode :: permission_mode
  eq_profile :: "pystr option"
  eq_compat :: "pystr option"
  eq_permission :: "native_authority option"
  eq_checkpoint :: int
  eq_provider_key :: "pystr option"
  eq_provider_profile :: "pystr option"
  eq_inspection :: int
  eq_continuation :: int
  eq_fresh :: bool
  eq_fresh_budget :: int

definition env_key :: "pystr \<Rightarrow> bool" where
  "env_key s \<longleftrightarrow> (case s of [] \<Rightarrow> False | c # cs \<Rightarrow> (65 \<le> c \<and> c \<le> 90)
     \<and> list_all (\<lambda>c. (65 \<le> c \<and> c \<le> 90) \<or> (48 \<le> c \<and> c \<le> 57) \<or> c = 95) cs)"

definition recovery_budgets_ok :: "int \<Rightarrow> int \<Rightarrow> bool \<Rightarrow> int \<Rightarrow> bool" where
  "recovery_budgets_ok inspection continuation fresh fresh_budget \<longleftrightarrow>
     0 \<le> inspection \<and> inspection \<le> 16 \<and> 0 \<le> continuation \<and> continuation \<le> 8 \<and> 0 \<le> fresh_budget \<and> fresh_budget \<le> 4
     \<and> (\<not> fresh \<longrightarrow> fresh_budget = 0)"

definition check_enqueue :: "ledger_env \<Rightarrow> enqueue_args \<Rightarrow> unit res" where
  "check_enqueue E a =
     (let (capsule, action, route) = eq_facts a
      in bind_res (require (eq_backend a \<in> {lit ''sdk_headless'', lit ''app_native''})
                    (ValueError (lit ''queue backend is unsupported''))) (\<lambda>_.
         bind_res (require (capsule \<noteq> [] \<and> route \<noteq> [])
                    (ValueError (lit ''queue capsule and route facts must be non-empty''))) (\<lambda>_.
         bind_res (require (is_hex 64 (eq_contract a)) (ValueError (lit ''queue result contract digest is invalid''))) (\<lambda>_.
         bind_res (require (eq_contract a \<noteq> retired_contract E) (ValueError (lit ''queue result contract digest is retired''))) (\<lambda>_.
         bind_res (require (0 < eq_checkpoint a) (ValueError (lit ''controller checkpoint duration must be positive''))) (\<lambda>_.
         bind_res (require (pred_option (\<lambda>s. s \<noteq> [] \<and> length s \<le> 512 \<and> 0 \<notin> set s) (eq_source a))
                    (ValueError (lit ''source controller thread identity is invalid''))) (\<lambda>_.
         bind_res (utf8_strict capsule) (\<lambda>_.
         bind_res (require (pred_option (\<lambda>d. d = sha256 E capsule) (eq_projection a))
                    (DispatchConflict (lit ''queue projection digest does not match the generated capsule''))) (\<lambda>_.
         bind_res (require (pred_option (is_hex 64) (eq_plan a) \<and> (eq_plan a = None \<longrightarrow> is_hex 64 (sha256 E capsule)))
                    (ValueError (lit ''queue plan revision digest must be a lowercase SHA-256 digest''))) (\<lambda>_.
         bind_res (require (is_hex 64 (sha256 E capsule))
                    (ValueError (lit ''queue projection digest must be a lowercase SHA-256 digest''))) (\<lambda>_.
         bind_res (require (pred_option (is_hex 64) (eq_profile a) \<and> pred_option (is_hex 64) (eq_compat a))
                    (ValueError (lit ''queue native profile digest must be a lowercase SHA-256 digest''))) (\<lambda>_.
         bind_res (require (pred_option env_key (eq_provider_key a))
                    (ValueError (lit ''provider environment key name is invalid''))) (\<lambda>_.
         bind_res (require (pred_option (is_hex 64) (eq_provider_profile a))
                    (ValueError (lit ''provider profile digest must be a lowercase SHA-256 digest''))) (\<lambda>_.
         require (recovery_budgets_ok (eq_inspection a) (eq_continuation a) (eq_fresh a) (eq_fresh_budget a))
           (ValueError (lit ''recovery policy budgets are invalid''))))))))))))))))"

definition enqueue_binding :: "ledger_env \<Rightarrow> enqueue_args \<Rightarrow> binding_facts" where
  "enqueue_binding E a =
     (let projection = sha256 E (fst (eq_facts a))
      in \<lparr>bf_plan_path = eq_plan_path a, bf_plan = (case eq_plan a of None \<Rightarrow> projection | Some d \<Rightarrow> d),
          bf_projection = projection, bf_mode = eq_mode a, bf_profile = eq_profile a, bf_compat = eq_compat a,
          bf_permission = eq_permission a\<rparr>)"

definition enqueue_provider :: "enqueue_args \<Rightarrow> pystr option \<times> pystr option" where
  "enqueue_provider a = (eq_provider_key a, if eq_provider_profile a = None then eq_profile a else eq_provider_profile a)"

text \<open>A dispatch that is in the queue already: every immutable fact must be the same.\<close>

definition same_enqueue :: "ledger_env \<Rightarrow> enqueue_args \<Rightarrow> dispatch_row \<Rightarrow> queue_row \<Rightarrow> ledger \<Rightarrow> unit res" where
  "same_enqueue E a d q l =
     bind_res (require ((q_dispatch q, q_key q, q_role q, q_generation q, q_backend q, q_facts q, q_workspace q, q_contract q)
                   = (dp_id d, dp_key d, dp_role d, dp_generation d, eq_backend a, eq_facts a, eq_workspace a, eq_contract a))
                (DispatchConflict (lit ''queue dispatch already exists with different immutable facts''))) (\<lambda>_.
     case lookup_by b_dispatch (dp_id d) (bindings l) of
       None \<Rightarrow> Inl (corrupt ''queue dispatch is missing its v11 binding'')
     | Some b \<Rightarrow>
         bind_res (require (b_facts b = enqueue_binding E a \<and> b_source_thread b = eq_source a)
                    (DispatchConflict (lit ''queue dispatch already exists with different v11 binding facts''))) (\<lambda>_.
         case lookup_by rs_dispatch (dp_id d) (recoveries l) of
           None \<Rightarrow> Inl (corrupt ''queue dispatch is missing its v12 recovery state'')
         | Some r \<Rightarrow> require ((rs_provider r, snd (rs_inspection r), snd (rs_continuation r), rs_fresh_after_idle r, snd (rs_fresh_thread r))
                       = (enqueue_provider a, eq_inspection a, eq_continuation a, eq_fresh a, eq_fresh_budget a))
             (DispatchConflict (lit ''queue dispatch already exists with different v12 recovery facts''))))"

definition next_queue_sequence :: "ledger \<Rightarrow> int" where
  "next_queue_sequence l = (if queue l = [] then 0 else Max (set (map q_sequence (queue l)))) + 1"

definition new_queue_row :: "enqueue_args \<Rightarrow> dispatch_row \<Rightarrow> int \<Rightarrow> time \<Rightarrow> queue_row" where
  "new_queue_row a d n t =
     \<lparr>q_dispatch = dp_id d, q_key = dp_key d, q_role = dp_role d, q_generation = dp_generation d, q_backend = eq_backend a,
      q_facts = eq_facts a, q_workspace = eq_workspace a, q_contract = eq_contract a, q_state = Queued, q_sequence = n,
      q_available = t, q_claim = None, q_attempt = 1, q_thread = None, q_host = None, q_raw = None, q_terminal = None,
      q_updated = t\<rparr>"

definition new_recovery_row :: "enqueue_args \<Rightarrow> pystr \<Rightarrow> recovery_row" where
  "new_recovery_row a i =
     \<lparr>rs_dispatch = i, rs_provider = enqueue_provider a, rs_inspection = (0, eq_inspection a),
      rs_continuation = (0, eq_continuation a), rs_fresh_thread = (0, eq_fresh_budget a), rs_fresh_after_idle = eq_fresh a,
      rs_state = No_Recovery, rs_exit_class = None, rs_exit_code = None, rs_next_eligible = None,
      rs_inspected = (None, None, None), rs_attention = None, rs_exited = None\<rparr>"

definition new_retry_row :: "pystr \<Rightarrow> retry_row" where
  "new_retry_row i =
     \<lparr>rp_dispatch = i, rp_revision = 0, rp_pre_identity = (0, 5), rp_invalid_chain = (0, 1), rp_schema_envelope = (0, 2),
      rp_post_identity_loss = (0, 1), rp_provider_transient = (0, 3), rp_provider_grant = 0, rp_prior = (None, None),
      rp_strategy = No_Strategy, rp_next_eligible = None, rp_last_failure = None, rp_attention = None\<rparr>"

definition insert_queue :: "ledger_env \<Rightarrow> enqueue_args \<Rightarrow> dispatch_row \<Rightarrow> time \<Rightarrow> time \<Rightarrow> queue_row ledger_op" where
  "insert_queue E a d t deadline l =
     (let q = new_queue_row a d (next_queue_sequence l) t; i = dp_id d
      in bind_res (require (i \<notin> q_dispatch ` set (queue l) \<and> q_sequence q \<notin> q_sequence ` set (queue l) \<and> 0 < q_sequence q
             \<and> 0 < q_generation q \<and> 1 < length (q_workspace q) \<and> i \<in> dp_id ` set (dispatches l)) (integrity_error ''dispatch_queue'')) (\<lambda>_.
         bind_res (require (eq_plan_path a \<noteq> [] \<and> i \<notin> b_dispatch ` set (bindings l)) (integrity_error ''queue_bindings'')) (\<lambda>_.
         bind_res (require (i \<notin> rs_dispatch ` set (recoveries l) \<and> pred_option (\<lambda>k. length k \<le> 256) (eq_provider_key a))
                    (integrity_error ''recovery_state'')) (\<lambda>_.
         bind_res (require (i \<notin> rp_dispatch ` set (retries l)) (integrity_error ''retry_policies'')) (\<lambda>_.
         Inr (q, l\<lparr>queue := queue l @ [q],
           bindings := bindings l @ [\<lparr>b_dispatch = i, b_facts = enqueue_binding E a, b_source_thread = eq_source a,
             b_deadline = Some deadline, b_armed = True\<rparr>],
           recoveries := recoveries l @ [new_recovery_row a i], retries := retries l @ [new_retry_row i]\<rparr>))))))"

definition enqueue_in_transaction :: "ledger_env \<Rightarrow> time \<Rightarrow> enqueue_args \<Rightarrow> dispatch_row \<Rightarrow> queue_row ledger_op" where
  "enqueue_in_transaction E now a d l =
     (let t = (case eq_available a of None \<Rightarrow> now | Some t \<Rightarrow> t);
          deadline = (case eq_deadline a of None \<Rightarrow> t + eq_checkpoint a | Some u \<Rightarrow> u)
      in case lookup_by q_dispatch (dp_id d) (queue l) of
           Some q \<Rightarrow> bind_res (same_enqueue E a d q l) (\<lambda>_. Inr (q, l))
         | None \<Rightarrow>
             bind_res (require (\<not> harness_refresh_fenced l) (HarnessRefreshBlocked (lit ''harness refresh fence is active''))) (\<lambda>_.
             insert_queue E a d t deadline l))"

definition enqueue_dispatch :: "ledger_env \<Rightarrow> time \<Rightarrow> enqueue_args \<Rightarrow> queue_row ledger_op" where
  "enqueue_dispatch E now a l =
     bind_res (dispatch_id (eq_dispatch a)) (\<lambda>i.
     case lookup_by dp_id i (dispatches l) of
       None \<Rightarrow> Inl (RecordNotFound (lit ''dispatch '' @ i @ lit '' does not exist''))
     | Some d \<Rightarrow>
         bind_res (check_enqueue E a) (\<lambda>_.
         atomically (validate_rows E) (enqueue_in_transaction E now a d) l))"

section \<open>Failures and their budgets\<close>

datatype retry_failure =
    PRE_IDENTITY_TRANSPORT | INVALID_RESPONSE_CHAIN | SCHEMA_ENVELOPE | POST_IDENTITY_LOSS | PROVIDER_TRANSIENT
  | AUTHENTICATION | PERMISSION | CAPABILITY | PROFILE | INTEGRITY | MALFORMED_INPUT | RESULT_TRANSPORT_AFTER_IDENTITY
  | REPLAY | UNKNOWN

fun failure_text :: "retry_failure \<Rightarrow> string" where
  "failure_text PRE_IDENTITY_TRANSPORT = ''pre_identity_transport''"
| "failure_text INVALID_RESPONSE_CHAIN = ''invalid_response_chain''"
| "failure_text SCHEMA_ENVELOPE = ''schema_envelope''"
| "failure_text POST_IDENTITY_LOSS = ''post_identity_loss''"
| "failure_text PROVIDER_TRANSIENT = ''provider_transient''"
| "failure_text AUTHENTICATION = ''authentication''"
| "failure_text PERMISSION = ''permission''"
| "failure_text CAPABILITY = ''capability''"
| "failure_text PROFILE = ''profile''"
| "failure_text INTEGRITY = ''integrity''"
| "failure_text MALFORMED_INPUT = ''malformed_input''"
| "failure_text RESULT_TRANSPORT_AFTER_IDENTITY = ''result_transport_after_identity''"
| "failure_text REPLAY = ''replay''"
| "failure_text UNKNOWN = ''unknown''"

text \<open>The strategy of a class that may be retried, and its budget.\<close>

fun retry_strategy :: "retry_failure \<Rightarrow> strategy option" where
  "retry_strategy PRE_IDENTITY_TRANSPORT = Some Backoff"
| "retry_strategy INVALID_RESPONSE_CHAIN = Some Fresh_Thread"
| "retry_strategy SCHEMA_ENVELOPE = Some Schema_Correction"
| "retry_strategy POST_IDENTITY_LOSS = Some Same_Thread_Continuation"
| "retry_strategy PROVIDER_TRANSIENT = Some Same_Thread_Continuation"
| "retry_strategy _ = None"

fun budget_of :: "retry_failure \<Rightarrow> retry_row \<Rightarrow> int \<times> int" where
  "budget_of PRE_IDENTITY_TRANSPORT r = rp_pre_identity r"
| "budget_of INVALID_RESPONSE_CHAIN r = rp_invalid_chain r"
| "budget_of SCHEMA_ENVELOPE r = rp_schema_envelope r"
| "budget_of POST_IDENTITY_LOSS r = rp_post_identity_loss r"
| "budget_of PROVIDER_TRANSIENT r = rp_provider_transient r"
| "budget_of _ r = (0, 0)"

fun count_failure :: "retry_failure \<Rightarrow> retry_row \<Rightarrow> retry_row" where
  "count_failure PRE_IDENTITY_TRANSPORT r = r\<lparr>rp_pre_identity := (fst (rp_pre_identity r) + 1, snd (rp_pre_identity r))\<rparr>"
| "count_failure INVALID_RESPONSE_CHAIN r = r\<lparr>rp_invalid_chain := (fst (rp_invalid_chain r) + 1, snd (rp_invalid_chain r))\<rparr>"
| "count_failure SCHEMA_ENVELOPE r = r\<lparr>rp_schema_envelope := (fst (rp_schema_envelope r) + 1, snd (rp_schema_envelope r))\<rparr>"
| "count_failure POST_IDENTITY_LOSS r =
     r\<lparr>rp_post_identity_loss := (fst (rp_post_identity_loss r) + 1, snd (rp_post_identity_loss r))\<rparr>"
| "count_failure PROVIDER_TRANSIENT r =
     r\<lparr>rp_provider_transient := (fst (rp_provider_transient r) + 1, snd (rp_provider_transient r))\<rparr>"
| "count_failure _ r = r"

definition retry_allowed :: "retry_failure \<Rightarrow> retry_row \<Rightarrow> bool" where
  "retry_allowed f r \<longleftrightarrow> retry_strategy f \<noteq> None \<and> fst (budget_of f r) < snd (budget_of f r)"

text \<open>
  The delay before a retry: doubled each time, at most 300 seconds, with a jitter below one second
  that is read from a digest (down to the microsecond).
\<close>

definition hex_value :: "pystr \<Rightarrow> int" where
  "hex_value s = fold (\<lambda>c n. 16 * n + (if c \<le> 57 then int c - 48 else int c - 87)) s 0"

definition retry_delay :: "ledger_env \<Rightarrow> pystr \<Rightarrow> int \<Rightarrow> int res" where
  "retry_delay E i used =
     bind_res (py_int_repr used) (\<lambda>t.
     Inr (min 300000000 (2 ^ nat (used - 1) * 1000000
       + hex_value (take 4 (sha256 E (i @ lit '':'' @ t))) * 1000000 div 65535)))"

definition widen_budgets :: "retry_failure \<Rightarrow> pystr \<Rightarrow> retry_row \<Rightarrow> ledger \<Rightarrow> ledger" where
  "widen_budgets f i r l =
     (case f of
        INVALID_RESPONSE_CHAIN \<Rightarrow> l\<lparr>recoveries := update_where (\<lambda>x. rs_dispatch x = i \<and> fst (rs_fresh_thread x) = 0)
          (\<lambda>x. x\<lparr>rs_fresh_after_idle := True, rs_fresh_thread := (fst (rs_fresh_thread x), max (snd (rs_fresh_thread x)) 1)\<rparr>)
          (recoveries l)\<rparr>
      | PROVIDER_TRANSIENT \<Rightarrow> l\<lparr>recoveries := update_where (\<lambda>x. rs_dispatch x = i)
          (\<lambda>x. x\<lparr>rs_continuation := (fst (rs_continuation x), max (snd (rs_continuation x)) (snd (budget_of f r)))\<rparr>)
          (recoveries l)\<rparr>
      | _ \<Rightarrow> l)"

text \<open>Back to the queue as a new attempt: the capability and the worker lease of the old one are gone.\<close>

definition requeue :: "time \<Rightarrow> time \<Rightarrow> pystr \<Rightarrow> ledger \<Rightarrow> ledger" where
  "requeue now available i l =
     (let l1 = forget_attempt i l
      in update_queue i (\<lambda>q. q\<lparr>q_state := Queued, q_claim := None, q_attempt := q_attempt q + 1, q_thread := None,
             q_host := None, q_available := available, q_updated := now\<rparr>)
           (l1\<lparr>recoveries := update_where (\<lambda>r. rs_dispatch r = i) clear_recovery (recoveries l1)\<rparr>))"

definition update_retry :: "pystr \<Rightarrow> (retry_row \<Rightarrow> retry_row) \<Rightarrow> ledger \<Rightarrow> ledger" where
  "update_retry i f l = l\<lparr>retries := update_where (\<lambda>r. rp_dispatch r = i) f (retries l)\<rparr>"

definition update_recovery :: "pystr \<Rightarrow> (recovery_row \<Rightarrow> recovery_row) \<Rightarrow> ledger \<Rightarrow> ledger" where
  "update_recovery i f l = l\<lparr>recoveries := update_where (\<lambda>r. rs_dispatch r = i) f (recoveries l)\<rparr>"

definition return_retry :: "pystr \<Rightarrow> ledger \<Rightarrow> (retry_row \<times> ledger) res" where
  "return_retry i l = (case lookup_by rp_dispatch i (retries l) of
     None \<Rightarrow> Inl (RecordNotFound (lit ''retry policy does not exist: '' @ i)) | Some r \<Rightarrow> Inr (r, l))"

definition reason_ok :: "pystr \<Rightarrow> bool res" where
  "reason_ok s =
     (if py_strip s = [] \<or> 512 < length s then Inr False
      else bind_res (utf8_len s) (\<lambda>n. Inr (n \<le> 512 \<and> 0 \<notin> set s)))"

definition consume_retry ::
    "ledger_env \<Rightarrow> time \<Rightarrow> pystr \<Rightarrow> retry_failure \<Rightarrow> strategy \<Rightarrow> pystr option \<times> pystr option \<Rightarrow> time option \<Rightarrow> queue_row \<Rightarrow>
      retry_row \<Rightarrow> retry_row ledger_op" where
  "consume_retry E now i f strat prior requested q r l =
     bind_res (if requested = None \<and> strat \<in> {Backoff, Same_Thread_Continuation}
        then bind_res (retry_delay E i (fst (budget_of f r) + 1)) (\<lambda>d. Inr (Some (now + d))) else Inr requested) (\<lambda>eligible.
     let available = (case eligible of None \<Rightarrow> now | Some t \<Rightarrow> t);
         l1 = widen_budgets f i r (update_retry i (\<lambda>x. (count_failure f x)\<lparr>rp_revision := rp_revision x + 1,
                rp_last_failure := Some (lit (failure_text f)), rp_strategy := strat, rp_next_eligible := eligible,
                rp_prior := prior\<rparr>) l);
         exited = (case lookup_by l_dispatch i (liveness l1) of None \<Rightarrow> True | Some w \<Rightarrow> l_exited w \<noteq> None);
         l2 = (if f = PRE_IDENTITY_TRANSPORT
               then (if q_state q \<noteq> Queued \<and> exited then requeue now available i l1 else l1)
               else if q_state q = Queued \<and> strat = Backoff
               then update_queue i (\<lambda>x. x\<lparr>q_available := available, q_updated := now\<rparr>) l1 else l1)
     in return_retry i l2)"

definition demand_attention ::
    "time \<Rightarrow> pystr \<Rightarrow> retry_failure \<Rightarrow> pystr option \<times> pystr option \<Rightarrow> pystr \<Rightarrow> ledger \<Rightarrow> ledger" where
  "demand_attention now i f prior reason l =
     update_recovery i (\<lambda>x. x\<lparr>rs_state := Rec_Attention, rs_next_eligible := None, rs_attention := Some reason\<rparr>)
       (update_queue i (\<lambda>x. x\<lparr>q_state := Human_Attention, q_updated := now\<rparr>)
         (update_retry i (\<lambda>x. x\<lparr>rp_revision := rp_revision x + 1, rp_last_failure := Some (lit (failure_text f)),
            rp_strategy := Attention_Strategy, rp_next_eligible := None, rp_prior := prior, rp_attention := Some reason\<rparr>) l))"

definition check_prior :: "pystr option \<times> pystr option \<Rightarrow> unit res" where
  "check_prior prior =
     bind_res (case fst prior of None \<Rightarrow> Inr ()
        | Some t \<Rightarrow> bind_res (utf8_len t) (\<lambda>n. require (t \<noteq> [] \<and> 0 \<notin> set t \<and> \<not> list_ex py_isspace t \<and> n \<le> 512)
            (ValueError (lit ''thread identity must be a bounded non-empty, whitespace-free string'')))) (\<lambda>_.
     require (pred_option turn_identity (snd prior)) (ValueError (lit ''prior turn identity is invalid'')))"

definition record_retry_failure ::
    "ledger_env \<Rightarrow> time \<Rightarrow> pystr \<Rightarrow> retry_failure \<Rightarrow> pystr option \<times> pystr option \<Rightarrow> time option \<Rightarrow> pystr option \<Rightarrow> retry_row ledger_op" where
  "record_retry_failure E now i f prior requested attention l =
     bind_res (check_prior prior) (\<lambda>_.
     case (lookup_by rp_dispatch i (retries l), lookup_by q_dispatch i (queue l)) of
        (Some r, Some q) \<Rightarrow>
          bind_res (require (q_state q \<notin> {Queue_Completed, Queue_Failed, Queue_Cancelled, Result_Submitted, Finalizing})
                     (stale ''terminal queue dispatch rejects retry failure'')) (\<lambda>_.
          if rp_strategy r = Attention_Strategy then Inr (r, l)
          else if retry_allowed f r
          then (case retry_strategy f of
                  Some strat \<Rightarrow> consume_retry E now i f strat prior requested q r l | None \<Rightarrow> Inr (r, l))
          else let reason = (case attention of None \<Rightarrow> [] | Some s \<Rightarrow> s);
                   text = (if reason = [] then lit ''retry budget exhausted for '' @ lit (failure_text f) else reason)
               in bind_res (reason_ok text) (\<lambda>b.
                  bind_res (require b (ValueError (lit ''retry attention reason is invalid''))) (\<lambda>_.
                  return_retry i (demand_attention now i f prior (redact E text) l))))
      | _ \<Rightarrow> Inl (RecordNotFound (lit ''retry policy does not exist: '' @ i)))"

text \<open>
  \<open>retry_dispatch\<close>: the caller names the queue state and the strategy it expects.  The reason is checked
  and redacted before the transaction, and is not stored.
\<close>

definition retry_dispatch :: "time \<Rightarrow> pystr \<Rightarrow> strategy \<Rightarrow> queue_state \<Rightarrow> queue_row ledger_op" where
  "retry_dispatch now i strat expected l =
     (case (lookup_by q_dispatch i (queue l), lookup_by rp_dispatch i (retries l)) of
        (Some q, Some r) \<Rightarrow>
          bind_res (require (q_state q = expected \<and> rp_strategy r = strat)
                     (stale ''retry decision compare-and-swap precondition failed'')) (\<lambda>_.
          returning i (requeue now now i (unresolve_commands now i (update_retry i (\<lambda>x. x\<lparr>rp_revision := rp_revision x + 1,
            rp_strategy := No_Strategy, rp_attention := None, rp_next_eligible := Some now\<rparr>) l))))
      | _ \<Rightarrow> Inl (RecordNotFound (lit ''retry dispatch does not exist: '' @ i)))"

end
