(* ===== verification/Queue_Recovery.thy ===== *)
theory Queue_Recovery
  imports Queue_Retries
begin

text \<open>
  What happens after a worker has gone: its exit is recorded and classified, the persisted thread is
  inspected, and the row waits, is continued by a new attempt, or asks for a human, each within a
  budget that was fixed when the row was enqueued.
\<close>

section \<open>The exit of a worker\<close>

definition exit_classes :: "(string \<times> retry_failure) list" where
  "exit_classes =
     [(''transport-before-identity'', PRE_IDENTITY_TRANSPORT), (''response-chain-invalid'', INVALID_RESPONSE_CHAIN),
      (''schema-output-invalid'', SCHEMA_ENVELOPE), (''transient-after-identity'', PROVIDER_TRANSIENT),
      (''authentication-failure'', AUTHENTICATION), (''permission-failure'', PERMISSION), (''capability-failure'', CAPABILITY),
      (''profile-failure'', PROFILE), (''integrity-failure'', INTEGRITY), (''malformed-input'', MALFORMED_INPUT),
      (''result-transport-after-identity'', RESULT_TRANSPORT_AFTER_IDENTITY), (''unknown-sdk-failure'', UNKNOWN)]"

definition exit_codes :: "(int \<times> retry_failure) list" where
  "exit_codes =
     [(74, PRE_IDENTITY_TRANSPORT), (75, INVALID_RESPONSE_CHAIN), (77, SCHEMA_ENVELOPE), (79, PROVIDER_TRANSIENT),
      (80, AUTHENTICATION), (81, PERMISSION), (82, CAPABILITY), (83, PROFILE), (84, INTEGRITY), (85, MALFORMED_INPUT),
      (88, RESULT_TRANSPORT_AFTER_IDENTITY), (86, UNKNOWN), (87, UNKNOWN)]"

definition exit_failure :: "pystr option \<Rightarrow> int option \<Rightarrow> retry_failure option" where
  "exit_failure classification code =
     (case Option.bind classification (map_of (map (\<lambda>(s, f). (lit s, f)) exit_classes)) of
        Some f \<Rightarrow> Some f | None \<Rightarrow> Option.bind code (map_of exit_codes))"

definition exit_reason :: "retry_failure \<Rightarrow> pystr" where
  "exit_reason f =
     (if f = PROFILE then lit ''native compatibility profile changed before SDK identity''
      else if f = RESULT_TRANSPORT_AFTER_IDENTITY
      then lit ''result submission transport recovery exhausted after worker identity''
      else lit ''automatic retry is not authorized for '' @ lit (failure_text f))"

definition ambiguous_states :: "queue_state list" where
  "ambiguous_states = [Claimed, Starting, Running, Inspection_Pending, Retry_Wait, Continuation_Pending]"

text \<open>
  \<open>_apply_exit_retry_policy_in_transaction\<close>; \<open>st\<close> is the state the row had before the exit.  A class with
  budget left is counted; otherwise an unclear exit waits for its inspection, and any other one
  asks for a human.
\<close>

definition exit_retry ::
    "time \<Rightarrow> pystr \<Rightarrow> queue_state \<Rightarrow> retry_failure \<Rightarrow> strategy \<Rightarrow> pystr option \<Rightarrow> retry_row \<Rightarrow> time option \<Rightarrow> ledger \<Rightarrow> ledger" where
  "exit_retry now i st f strat thread r due l =
     (let available = (case due of None \<Rightarrow> now | Some t \<Rightarrow> t);
          l1 = widen_budgets f i r (update_retry i (\<lambda>x. (count_failure f x)\<lparr>rp_revision := rp_revision x + 1,
                 rp_last_failure := Some (lit (failure_text f)), rp_strategy := strat, rp_next_eligible := due,
                 rp_prior := (thread, snd (rp_prior x)), rp_attention := None\<rparr>) l)
      in if f = PRE_IDENTITY_TRANSPORT then requeue now available i l1
         else if st = Queued \<and> strat = Backoff
         then update_queue i (\<lambda>x. x\<lparr>q_available := available, q_updated := now\<rparr>) l1 else l1)"

definition exit_attention :: "time \<Rightarrow> pystr \<Rightarrow> retry_failure \<Rightarrow> pystr option \<Rightarrow> ledger \<Rightarrow> ledger" where
  "exit_attention now i f thread l =
     (let reason = exit_reason f; l1 = update_retry i (\<lambda>x. x\<lparr>rp_revision := rp_revision x + 1,
            rp_last_failure := Some (lit (failure_text f)), rp_strategy := Attention_Strategy, rp_next_eligible := None,
            rp_prior := (thread, None), rp_attention := Some reason\<rparr>) l;
          l2 = update_recovery i (\<lambda>x. x\<lparr>rs_state := Rec_Attention, rs_next_eligible := None, rs_attention := Some reason\<rparr>) l1
      in l2\<lparr>queue := update_where (\<lambda>x. q_dispatch x = i
             \<and> q_state x \<notin> {Queue_Completed, Queue_Failed, Queue_Cancelled, Result_Submitted, Finalizing})
           (\<lambda>x. x\<lparr>q_state := Human_Attention, q_updated := now\<rparr>) (queue l2)\<rparr>)"

definition apply_exit_retry_policy ::
    "ledger_env \<Rightarrow> time \<Rightarrow> pystr \<Rightarrow> queue_state \<Rightarrow> retry_failure \<Rightarrow> pystr option \<Rightarrow> bool \<Rightarrow> ledger \<Rightarrow> ledger res" where
  "apply_exit_retry_policy E now i st f thread ambiguous l =
     (case lookup_by rp_dispatch i (retries l) of
        None \<Rightarrow> Inl (corrupt ''worker exit lacks retry-policy authority'')
      | Some r \<Rightarrow>
          if retry_allowed f r then
            (case retry_strategy f of
               None \<Rightarrow> Inr l
             | Some strat \<Rightarrow>
                 bind_res (if strat \<in> {Backoff, Same_Thread_Continuation}
                    then bind_res (retry_delay E i (fst (budget_of f r) + 1)) (\<lambda>d. Inr (Some (now + d))) else Inr None) (\<lambda>due.
                 Inr (exit_retry now i st f strat thread r due l)))
          else if ambiguous \<and> f = UNKNOWN \<and> st \<in> set ambiguous_states then
            Inr (update_retry i (\<lambda>x. x\<lparr>rp_revision := rp_revision x + 1, rp_last_failure := Some (lit (failure_text f)),
              rp_strategy := No_Strategy, rp_next_eligible := None, rp_attention := None\<rparr>) l)
          else Inr (exit_attention now i f thread l))"

definition record_exit :: "time \<Rightarrow> pystr \<Rightarrow> ledger \<Rightarrow> ledger" where
  "record_exit now i l = l\<lparr>liveness := update_where (\<lambda>w. l_dispatch w = i \<and> l_exited w = None)
     (\<lambda>w. w\<lparr>l_exited := Some now, l_seen := now\<rparr>) (liveness l)\<rparr>"

definition exit_label :: "pystr option \<Rightarrow> int option \<Rightarrow> pystr res" where
  "exit_label classification code =
     (case classification of
        Some s \<Rightarrow> Inr s
      | None \<Rightarrow> (case code of None \<Rightarrow> Inr (lit ''worker-exit'') | Some n \<Rightarrow> bind_res (py_int_repr n) (\<lambda>t. Inr (lit ''exit-'' @ t))))"

text \<open>The inspection a worker's exit arms, or the human it asks for when no inspection is left.\<close>

definition arm_inspection :: "time \<Rightarrow> pystr \<Rightarrow> pystr \<Rightarrow> int option \<Rightarrow> bool \<Rightarrow> recovery_row \<Rightarrow> ledger \<Rightarrow> ledger" where
  "arm_inspection now i label code transient r l =
     (let inspect = fst (rs_inspection r) < snd (rs_inspection r);
          reason = (if inspect then None else Some (lit ''inspection budget exhausted at worker exit''));
          used = fst (rs_inspection r) + (if transient then 0 else if inspect then 1 else 0);
          l1 = update_recovery i (\<lambda>x. x\<lparr>rs_exit_class := Some label, rs_exit_code := code,
                 rs_state := (if inspect then Rec_Inspection else Rec_Attention), rs_inspection := (used, snd (rs_inspection x)),
                 rs_next_eligible := None, rs_attention := reason, rs_exited := Some now\<rparr>) l;
          l2 = l1\<lparr>queue := update_where (\<lambda>q. q_dispatch q = i \<and> q_state q \<in> {Claimed, Starting, Running})
                 (\<lambda>q. q\<lparr>q_state := (if inspect then Inspection_Pending else Human_Attention), q_updated := now\<rparr>) (queue l1)\<rparr>
      in if inspect then l2
         else update_retry i (\<lambda>x. x\<lparr>rp_revision := rp_revision x + 1, rp_strategy := Attention_Strategy,
                rp_next_eligible := None, rp_attention := reason\<rparr>) l2)"

definition mark_worker_exit ::
    "ledger_env \<Rightarrow> time \<Rightarrow> pystr \<Rightarrow> int \<Rightarrow> pystr \<Rightarrow> int option \<Rightarrow> pystr option \<Rightarrow> unit ledger_op" where
  "mark_worker_exit E now i pid birth code classification l =
     bind_res (require (pred_option (\<lambda>s. s \<noteq> [] \<and> length s \<le> 128) classification)
                (ValueError (lit ''worker-exit classification is invalid''))) (\<lambda>_.
     case (lookup_by l_dispatch i (liveness l), lookup_by q_dispatch i (queue l)) of
       (Some w, Some q) \<Rightarrow>
         bind_res (require (l_pid w = pid \<and> l_birth w = birth) (stale ''worker exit identity is conflicting'')) (\<lambda>_.
         if l_exited w \<noteq> None then Inr ((), l)
         else if q_state q \<in> {Result_Submitted, Queue_Completed, Queue_Failed, Queue_Cancelled}
         then Inr ((), unresolve_commands now i (record_exit now i l))
         else (case lookup_by rs_dispatch i (recoveries l) of
                 None \<Rightarrow> Inl (corrupt ''worker exit lacks v12 recovery authority'')
               | Some r \<Rightarrow>
                   bind_res (exit_label classification code) (\<lambda>label.
                   let transient = classification = Some (lit ''transient-after-identity'') \<or> code = Some 79;
                       typed = exit_failure classification code;
                       thread = (case q_thread q of None \<Rightarrow> None | Some t \<Rightarrow> if t = [] then None else Some t);
                       unclear = typed = None
                         \<and> classification \<in> {None, Some (lit ''worker-exit''), Some (lit ''restart-observed-worker-dead'')}
                   in bind_res (apply_exit_retry_policy E now i (q_state q) (case typed of None \<Rightarrow> UNKNOWN | Some f \<Rightarrow> f)
                        thread unclear (arm_inspection now i label code transient r (record_exit now i l))) (\<lambda>l'. Inr ((), l')))))
     | _ \<Rightarrow> Inl (RecordNotFound (lit ''worker liveness does not exist: '' @ i)))"

section \<open>Recovery\<close>

definition no_recovery_row :: "pystr \<Rightarrow> py_error" where
  "no_recovery_row i = RecordNotFound (lit ''recovery state does not exist: '' @ i)"

definition return_recovery :: "pystr \<Rightarrow> ledger \<Rightarrow> (recovery_row \<times> ledger) res" where
  "return_recovery i l = (case lookup_by rs_dispatch i (recoveries l) of None \<Rightarrow> Inl (no_recovery_row i) | Some r \<Rightarrow> Inr (r, l))"

definition configure_recovery ::
    "pystr \<Rightarrow> pystr \<Rightarrow> pystr \<Rightarrow> int \<Rightarrow> int \<Rightarrow> bool \<Rightarrow> int \<Rightarrow> recovery_row ledger_op" where
  "configure_recovery i env profile inspection continuation fresh fresh_budget l =
     bind_res (require (env_key env) (ValueError (lit ''provider environment key name is invalid''))) (\<lambda>_.
     bind_res (require (is_hex 64 profile) (ValueError (lit ''provider profile digest must be a lowercase SHA-256 digest''))) (\<lambda>_.
     bind_res (require (recovery_budgets_ok inspection continuation fresh fresh_budget)
                (ValueError (lit ''recovery policy budgets are invalid''))) (\<lambda>_.
     case lookup_by rs_dispatch i (recoveries l) of
       None \<Rightarrow> Inl (no_recovery_row i)
     | Some r \<Rightarrow>
         bind_res (require (fst (rs_provider r) = None \<or> rs_provider r = (Some env, Some profile))
                    (stale ''recovery profile identity is immutable'')) (\<lambda>_.
         bind_res (require (fst (rs_inspection r) \<le> inspection \<and> fst (rs_continuation r) \<le> continuation)
                    (stale ''recovery policy would reset consumed budget'')) (\<lambda>_.
         bind_res (require (fst (rs_fresh_thread r) \<le> fresh_budget)
                    (stale ''recovery policy would reset fresh-thread budget'')) (\<lambda>_.
         bind_res (require (length env \<le> 256) (integrity_error ''recovery_state'')) (\<lambda>_.
         return_recovery i (update_recovery i (\<lambda>x. x\<lparr>rs_provider := (Some env, Some profile),
           rs_inspection := (fst (rs_inspection x), inspection), rs_continuation := (fst (rs_continuation x), continuation),
           rs_fresh_after_idle := fresh, rs_fresh_thread := (fst (rs_fresh_thread x), fresh_budget)\<rparr>) l))))))))"

datatype inspection_kind =
    Active_Writer | Idle_No_Result | Transient_Failed_Turn | Invalid_Chain_Empty | Invalid_Chain_Failed | Ambiguous | Malformed
  | Terminal_Result

fun inspection_text :: "inspection_kind \<Rightarrow> string" where
  "inspection_text Active_Writer = ''active_writer''"
| "inspection_text Idle_No_Result = ''idle_no_result''"
| "inspection_text Transient_Failed_Turn = ''transient_failed_turn''"
| "inspection_text Invalid_Chain_Empty = ''invalid_chain_empty_history''"
| "inspection_text Invalid_Chain_Failed = ''invalid_chain_failed_turn''"
| "inspection_text Ambiguous = ''ambiguous''"
| "inspection_text Malformed = ''malformed''"
| "inspection_text Terminal_Result = ''terminal_result''"

fun inspection_decision :: "inspection_kind \<Rightarrow> recovery_phase" where
  "inspection_decision Active_Writer = Rec_Retry_Wait"
| "inspection_decision Ambiguous = Rec_Attention"
| "inspection_decision Malformed = Rec_Attention"
| "inspection_decision _ = Rec_Continuation"

text \<open>The queue state of a decision; every decision has one.\<close>

definition decision_state_of :: "recovery_phase \<Rightarrow> queue_state" where
  "decision_state_of p = (case recovery_queue_state p of None \<Rightarrow> Human_Attention | Some st \<Rightarrow> st)"

text \<open>What an inspection commits once its decision is made.\<close>

definition settle_inspection ::
    "time \<Rightarrow> pystr \<Rightarrow> inspection_kind \<Rightarrow> pystr option \<times> pystr option \<Rightarrow> recovery_phase \<Rightarrow> time option \<Rightarrow> pystr option \<Rightarrow>
      recovery_row \<Rightarrow> ledger \<Rightarrow> ledger" where
  "settle_inspection now i kind inspected phase due reason r l =
     (let l1 = update_recovery i (\<lambda>x. x\<lparr>rs_state := phase,
            rs_inspection := (min (fst (rs_inspection r) + 1) (snd (rs_inspection r)), snd (rs_inspection x)),
            rs_next_eligible := due, rs_inspected := (fst inspected, snd inspected, Some (lit (inspection_text kind))),
            rs_attention := reason\<rparr>) l;
          l2 = update_retry i (\<lambda>x. x\<lparr>rp_revision := rp_revision x + 1\<rparr>) l1;
          l3 = l2\<lparr>queue := update_where (\<lambda>q. q_dispatch q = i \<and> q_state q \<in> {Inspection_Pending, Retry_Wait, Continuation_Pending})
                 (\<lambda>q. q\<lparr>q_state := decision_state_of phase, q_updated := now\<rparr>) (queue l2)\<rparr>
      in if phase = Rec_Attention
         then disarm i (update_retry i (\<lambda>x. x\<lparr>rp_strategy := Attention_Strategy, rp_next_eligible := None,
                rp_attention := reason\<rparr>) l3)
         else l3)"

definition record_recovery_inspection ::
    "ledger_env \<Rightarrow> time \<Rightarrow> pystr \<Rightarrow> inspection_kind \<Rightarrow> pystr option \<times> pystr option \<Rightarrow> recovery_phase option \<Rightarrow> time option \<Rightarrow>
      pystr option \<Rightarrow> recovery_row ledger_op" where
  "record_recovery_inspection E now i kind inspected requested due attention l =
     bind_res (require (kind \<noteq> Terminal_Result)
                (ValueError (lit ''terminal result inspection requires ingest_recovered_result''))) (\<lambda>_.
     let decided = (case requested of None \<Rightarrow> inspection_decision kind | Some p \<Rightarrow> p)
     in bind_res (require (decided \<in> {Rec_Retry_Wait, Rec_Continuation, Rec_Attention})
                   (ValueError (lit ''recovery decision state is unsupported''))) (\<lambda>_.
        bind_res (require (decided \<in> {Rec_Retry_Wait, Rec_Continuation} \<longrightarrow> due \<noteq> None)
                   (ValueError (lit ''bounded recovery state requires eligibility''))) (\<lambda>_.
        bind_res (require (pred_option (\<lambda>s. py_strip s \<noteq> [] \<and> length s \<le> 512 \<and> 0 \<notin> set s) attention)
                   (ValueError (lit ''human-attention reason is invalid''))) (\<lambda>_.
        case lookup_by rs_dispatch i (recoveries l) of
          None \<Rightarrow> Inl (no_recovery_row i)
        | Some r \<Rightarrow>
            if rs_state r \<in> {Rec_Attention, Rec_Completed, Rec_Failed} then Inr (r, l)
            else bind_res (require (rs_state r \<in> {Rec_Inspection, Rec_Retry_Wait, Rec_Continuation})
                            (stale ''recovery inspection is not pending'')) (\<lambda>_.
              bind_res (require (\<forall>t\<in>{fst inspected, snd inspected}. pred_option (\<lambda>s. 1 \<le> length s \<and> length s \<le> 512) t)
                         (integrity_error ''recovery_state'')) (\<lambda>_.
              let spent = snd (rs_inspection r) \<le> fst (rs_inspection r);
                  phase = (if spent then Rec_Attention else decided);
                  text = (case attention of None \<Rightarrow> [] | Some s \<Rightarrow> redact E s);
                  reason = (if phase \<noteq> Rec_Attention then None
                    else Some (if text = [] then lit ''recovery inspection: '' @ lit (inspection_text kind) else text))
              in return_recovery i (settle_inspection now i kind inspected phase (if spent then None else due) reason r l)))))))"

text \<open>
  \<open>mark_human_attention_required\<close>: a row that is not in recovery yet is closed here, any other is
  decided by an ambiguous inspection, in a transaction of its own.
\<close>

definition attention_now :: "time \<Rightarrow> pystr \<Rightarrow> pystr \<Rightarrow> retry_failure option \<Rightarrow> ledger \<Rightarrow> ledger" where
  "attention_now now i reason failure l =
     (let l1 = update_recovery i (\<lambda>x. x\<lparr>rs_state := Rec_Attention, rs_attention := Some reason, rs_next_eligible := None,
                 rs_inspected := (None, None, None)\<rparr>) l;
          l2 = update_retry i (\<lambda>x. x\<lparr>rp_revision := rp_revision x + 1,
                 rp_last_failure := map_option (\<lambda>f. lit (failure_text f)) failure, rp_strategy := Attention_Strategy,
                 rp_next_eligible := None, rp_prior := (None, None), rp_attention := Some reason\<rparr>) l1
      in disarm i (l2\<lparr>queue := update_where (\<lambda>q. q_dispatch q = i \<and> q_state q \<in> {Queued, Claimed, Starting, Running})
           (\<lambda>q. q\<lparr>q_state := Human_Attention, q_updated := now\<rparr>) (queue l2)\<rparr>))"

text \<open>The first transaction; its result tells whether the second one is still to come.\<close>

definition begin_attention :: "time \<Rightarrow> pystr \<Rightarrow> pystr \<Rightarrow> retry_failure option \<Rightarrow> bool ledger_op" where
  "begin_attention now i reason failure l =
     (case (lookup_by rs_dispatch i (recoveries l), lookup_by q_dispatch i (queue l)) of
        (Some r, Some q) \<Rightarrow>
          if rs_state r \<in> {Rec_Attention, Rec_Completed, Rec_Failed} then Inr (False, l)
          else if rs_state r = No_Recovery
          then bind_res (require (q_state q \<in> {Queued, Claimed, Starting, Running})
                          (stale ''human-attention recovery is not pending'')) (\<lambda>_.
               Inr (False, attention_now now i reason failure l))
          else Inr (True, l)
      | _ \<Rightarrow> Inl (no_recovery_row i))"

definition mark_human_attention_required ::
    "ledger_env \<Rightarrow> time \<Rightarrow> pystr \<Rightarrow> pystr \<Rightarrow> retry_failure option \<Rightarrow> unit ledger_op" where
  "mark_human_attention_required E now i reason failure l =
     bind_res (reason_ok reason) (\<lambda>b.
     bind_res (require b (ValueError (lit ''human-attention reason is invalid''))) (\<lambda>_.
     bind_res (atomically (validate_rows E) (begin_attention now i (redact E reason) failure) l) (\<lambda>(more, l1).
     if more
     then bind_res (atomically (validate_rows E) (record_recovery_inspection E now i Ambiguous (None, None) (Some Rec_Attention)
                      None (Some (redact E reason))) l1) (\<lambda>(_, l2). Inr ((), l2))
     else Inr ((), l1))))"

definition exhausted :: "time \<Rightarrow> pystr \<Rightarrow> string \<Rightarrow> ledger \<Rightarrow> ledger" where
  "exhausted now i what l =
     update_queue i (\<lambda>q. q\<lparr>q_state := Human_Attention, q_updated := now\<rparr>)
       (update_retry i (\<lambda>x. x\<lparr>rp_revision := rp_revision x + 1, rp_strategy := Attention_Strategy, rp_next_eligible := None,
            rp_attention := Some (lit what)\<rparr>)
         (update_recovery i (\<lambda>x. x\<lparr>rs_state := Rec_Attention, rs_attention := Some (lit what), rs_next_eligible := None\<rparr>) l))"

text \<open>The continuation itself: a new attempt of the row, already claimed, that uses up its budgets.\<close>

definition continue_row :: "time \<Rightarrow> pystr \<Rightarrow> int \<times> pystr \<Rightarrow> bool \<Rightarrow> ledger \<Rightarrow> ledger" where
  "continue_row now i claim fresh l =
     (let l1 = forget_attempt i l;
          l2 = update_recovery i (\<lambda>x. (clear_recovery x)\<lparr>rs_continuation := (fst (rs_continuation x) + 1, snd (rs_continuation x)),
                 rs_fresh_thread := (fst (rs_fresh_thread x) + (if fresh then 1 else 0), snd (rs_fresh_thread x))\<rparr>) l1;
          l3 = update_retry i (\<lambda>x. x\<lparr>rp_revision := rp_revision x + 1, rp_last_failure := None, rp_strategy := No_Strategy,
                 rp_next_eligible := None, rp_prior := (None, None), rp_attention := None\<rparr>) l2
      in l3\<lparr>queue := update_where (\<lambda>q. q_dispatch q = i \<and> q_state q = Continuation_Pending)
           (\<lambda>q. q\<lparr>q_state := Claimed, q_claim := Some claim, q_attempt := q_attempt q + 1,
                  q_thread := (if fresh then None else q_thread q), q_updated := now\<rparr>) (queue l3)\<rparr>)"

definition worker_gone :: "ledger \<Rightarrow> pystr \<Rightarrow> bool" where
  "worker_gone l i \<longleftrightarrow> (case lookup_by l_dispatch i (liveness l) of None \<Rightarrow> True | Some w \<Rightarrow> l_exited w \<noteq> None)"

definition begin_recovery_continuation :: "time \<Rightarrow> pystr \<Rightarrow> int \<Rightarrow> pystr \<Rightarrow> time \<Rightarrow> queue_row ledger_op" where
  "begin_recovery_continuation now i epoch nonce current l =
     bind_res (require (is_hex 64 nonce) (ValueError (lit ''recovery continuation claim nonce is invalid''))) (\<lambda>_.
     bind_res (require_live_harness l epoch now) (\<lambda>_.
     case (lookup_by rs_dispatch i (recoveries l), lookup_by q_dispatch i (queue l)) of
       (Some r, Some q) \<Rightarrow>
         bind_res (require_queue_program_capability l q) (\<lambda>_.
         bind_res (require (rs_state r = Rec_Continuation) (stale ''recovery continuation is not pending'')) (\<lambda>_.
         bind_res (require (q_state q = Continuation_Pending) (stale ''queue state is not pending recovery continuation'')) (\<lambda>_.
         bind_res (require (worker_gone l i) (stale ''recovery continuation requires an exited worker'')) (\<lambda>_.
         bind_res (require (pred_option (\<lambda>t. t \<le> current) (rs_next_eligible r))
                    (stale ''recovery continuation is not yet eligible'')) (\<lambda>_.
         returning i
           (if snd (rs_continuation r) \<le> fst (rs_continuation r) then exhausted current i ''continuation budget exhausted'' l
            else if rs_fresh_after_idle r \<and> snd (rs_fresh_thread r) \<le> fst (rs_fresh_thread r)
            then exhausted current i ''fresh-thread budget exhausted'' l
            else continue_row current i (epoch, nonce) (rs_fresh_after_idle r) l))))))
     | _ \<Rightarrow> Inl (no_recovery_row i)))"

definition begin_recovery_inspection :: "time \<Rightarrow> pystr \<Rightarrow> int \<Rightarrow> time \<Rightarrow> queue_row ledger_op" where
  "begin_recovery_inspection now i epoch current l =
     bind_res (require_live_harness l epoch now) (\<lambda>_.
     case lookup_by rs_dispatch i (recoveries l) of
       None \<Rightarrow> Inl (no_recovery_row i)
     | Some r \<Rightarrow>
         bind_res (require (rs_state r = Rec_Retry_Wait) (stale ''recovery inspection is not pending'')) (\<lambda>_.
         bind_res (queue_dispatch l i) (\<lambda>q.
         bind_res (require (q_state q = Retry_Wait) (stale ''queue state is not pending recovery inspection'')) (\<lambda>_.
         bind_res (require (worker_gone l i) (stale ''recovery inspection requires an exited worker'')) (\<lambda>_.
         bind_res (require (pred_option (\<lambda>t. t \<le> current) (rs_next_eligible r))
                    (stale ''recovery inspection is not yet eligible'')) (\<lambda>_.
         let l1 = update_recovery i (\<lambda>x. x\<lparr>rs_state := Rec_Inspection, rs_next_eligible := None\<rparr>) l;
             l2 = update_retry i (\<lambda>x. x\<lparr>rp_revision := rp_revision x + 1\<rparr>) l1
         in returning i (l2\<lparr>queue := update_where (\<lambda>q. q_dispatch q = i \<and> q_state q = Retry_Wait)
              (\<lambda>q. q\<lparr>q_state := Inspection_Pending, q_updated := current\<rparr>) (queue l2)\<rparr>)))))))"

end
