(* ===== verification/Queue_Laws.thy ===== *)
theory Queue_Laws
  imports Execution_Machine Queue_Recovery
begin

text \<open>
  What the transactions of the dispatch queue keep: the epoch of the harness only grows, the identity
  of a queue row never changes, an accepted result stays, and a terminal row is final.
\<close>

section \<open>Valid rows of the queue\<close>

lemma validate_rows_iff: "validate_rows E l = Inr () \<longleftrightarrow> validate_queue E l = Inr () \<and> validate_workflow l = Inr ()"
  by (simp add: validate_rows_def bind_res_Inr_iff)

lemma validate_queueD:
  assumes "validate_queue E l = Inr ()"
  shows "distinct (map (\<lambda>c. (c_dispatch c, c_generation c, c_attempt c)) (capabilities l))"
    "\<And>q. q \<in> set (queue l) \<Longrightarrow> check_queue_row l q = Inr ()"
    "\<And>c. c \<in> set (capabilities l) \<Longrightarrow> check_capability l c = Inr ()"
    "\<And>w. w \<in> set (liveness l) \<Longrightarrow> check_liveness l w = Inr ()"
    "\<And>q. q \<in> set (queue l) \<Longrightarrow> check_wakes_of l q = Inr ()"
    "\<And>r. r \<in> set (recoveries l) \<Longrightarrow> check_recovery l r = Inr ()"
    "\<And>q. q \<in> set (queue l) \<Longrightarrow> check_queue_identity E l q = Inr ()"
  using assms by (auto simp: validate_queue_def bind_res_Inr_iff each_res_Inr)

lemma check_queue_rowD:
  assumes "check_queue_row l q = Inr ()"
  shows "q_state q = Result_Submitted \<Longrightarrow> q_raw q \<noteq> None"
    "q_state q \<in> {Queue_Completed, Queue_Failed} \<Longrightarrow> q_raw q \<noteq> None"
    "q_state q \<in> set active_states \<Longrightarrow> q_raw q = None \<and> q_terminal q = None"
    "q_state q = Queue_Cancelled \<Longrightarrow> q_raw q = None \<and> q_terminal q = None \<and> q_claim q = None"
    "q_state q \<in> {Queue_Completed, Queue_Failed} \<Longrightarrow>
       lookup_by so_source (q_dispatch q) (successor_outbox l) \<noteq> None \<and> lookup_by n_dispatch (q_dispatch q) (notifications l) \<noteq> None"
  using assms by (auto simp: check_queue_row_def Let_def bind_res_Inr_iff)

lemma check_capabilityD:
  assumes "check_capability l c = Inr ()"
  obtains q where "lookup_by q_dispatch (c_dispatch c) (queue l) = Some q" "c_generation c = q_generation q"
    "c_attempt c = q_attempt q" "q_state q \<noteq> Queue_Cancelled"
    "c_consumed c \<noteq> None \<Longrightarrow> q_state q \<in> {Result_Submitted, Finalizing, Queue_Completed, Queue_Failed} \<and> q_raw q \<noteq> None"
proof (cases "lookup_by q_dispatch (c_dispatch c) (queue l)")
  case (Some q)
  from assms have facts: "(c_generation c, c_attempt c, c_backend c, c_workspace c, c_schema c)
        = (q_generation q, q_attempt q, q_backend q, q_workspace q, q_contract q)"
      "(c_consumed c \<noteq> None) = (c_accepted c \<noteq> None)" "q_state q \<noteq> Queue_Cancelled"
      "c_consumed c \<noteq> None \<longrightarrow> q_state q \<in> {Result_Submitted, Finalizing, Queue_Completed, Queue_Failed}"
      "c_consumed c \<noteq> None \<longrightarrow> map_option snd (q_raw q) = c_accepted c"
    unfolding check_capability_def Some option.case bind_res_Inr_iff require_simps by blast+
  then have "c_consumed c \<noteq> None \<Longrightarrow> q_raw q \<noteq> None" by auto
  with facts Some show ?thesis by (intro that [of q]) auto
qed (use assms in \<open>simp add: check_capability_def\<close>)

section \<open>The invariant and the order\<close>

text \<open>
  A result that is not terminal yet was submitted under a capability of its attempt, now consumed.
  (A terminal one may also have been read back from the persisted thread.)
\<close>

definition backed :: "ledger \<Rightarrow> queue_row \<Rightarrow> bool" where
  "backed l q \<longleftrightarrow> (\<exists>c\<in>set (capabilities l). is_capability (q_dispatch q) (q_generation q) (q_attempt q) c \<and> c_consumed c \<noteq> None)"

definition raw_backed :: "ledger \<Rightarrow> bool" where
  "raw_backed l \<longleftrightarrow> (\<forall>q\<in>set (queue l). q_raw q \<noteq> None \<and> q_state q \<notin> {Queue_Completed, Queue_Failed} \<longrightarrow> backed l q)"

definition queue_inv :: "ledger_env \<Rightarrow> ledger \<Rightarrow> bool" where
  "queue_inv E l \<longleftrightarrow> validate_rows E l = Inr () \<and> distinct (map q_dispatch (queue l)) \<and> raw_backed l"

text \<open>The part of it the step lemmas need, which also holds between the statements of a transaction.\<close>

definition queue_base :: "ledger \<Rightarrow> bool" where
  "queue_base l \<longleftrightarrow> distinct (map q_dispatch (queue l)) \<and> raw_backed l \<and> (\<forall>c\<in>set (capabilities l). check_capability l c = Inr ())"

lemma queue_inv_base: "queue_inv E l \<Longrightarrow> queue_base l"
  using validate_queueD(3) by (auto simp: queue_inv_def queue_base_def validate_rows_iff)

definition closed_states :: "queue_state set" where
  "closed_states = {Queue_Completed, Queue_Failed, Queue_Cancelled}"

definition queue_identity :: "queue_row \<Rightarrow> pystr \<times> mkey \<times> pystr \<times> int \<times> pystr \<times> pystr \<times> pystr \<times> int" where
  "queue_identity q = (q_dispatch q, q_key q, q_role q, q_generation q, q_backend q, q_workspace q, q_contract q, q_sequence q)"

text \<open>A row without the time of its last update.\<close>

definition timeless :: "queue_row \<Rightarrow> queue_row" where
  "timeless q = q\<lparr>q_updated := 0\<rparr>"

definition queue_row_le :: "queue_row \<Rightarrow> queue_row \<Rightarrow> bool" where
  "queue_row_le x y \<longleftrightarrow> queue_identity y = queue_identity x \<and> q_attempt x \<le> q_attempt y
     \<and> (q_raw x \<noteq> None \<longrightarrow> q_raw y = q_raw x \<and> q_terminal y = q_terminal x \<and> q_attempt y = q_attempt x)
     \<and> (q_state x \<in> closed_states \<longrightarrow> timeless y = timeless x)"

definition harness_le :: "harness_row option \<Rightarrow> harness_row option \<Rightarrow> bool" where
  "harness_le h h' \<longleftrightarrow> (\<forall>x. h = Some x \<longrightarrow> (\<exists>y. h' = Some y \<and> h_epoch x \<le> h_epoch y
     \<and> (h_epoch y = h_epoch x \<longrightarrow> h_nonce y = h_nonce x \<and> (h_shutdown x \<longrightarrow> h_shutdown y))))"

definition consumed_kept :: "ledger \<Rightarrow> ledger \<Rightarrow> bool" where
  "consumed_kept l l' \<longleftrightarrow> (\<forall>c\<in>set (capabilities l). c_consumed c \<noteq> None \<longrightarrow> c \<in> set (capabilities l'))"

definition queue_le :: "ledger \<Rightarrow> ledger \<Rightarrow> bool" where
  "queue_le l l' \<longleftrightarrow> rows_le q_dispatch queue_row_le (queue l) (queue l') \<and> harness_le (harness l) (harness l')
     \<and> consumed_kept l l'"

lemma queue_row_le_refl: "queue_row_le x x"
  by (simp add: queue_row_le_def)

lemma timeless_state: "timeless y = timeless x \<Longrightarrow> q_state y = q_state x"
  unfolding timeless_def by (cases x, cases y) simp

lemma queue_row_le_trans:
  assumes "queue_row_le x y" "queue_row_le y z"
  shows "queue_row_le x z"
proof -
  note le = assms [unfolded queue_row_le_def]
  have "queue_identity z = queue_identity x" using le by simp
  moreover have "q_attempt x \<le> q_attempt z" using le by linarith
  moreover have "q_raw z = q_raw x \<and> q_terminal z = q_terminal x \<and> q_attempt z = q_attempt x" if "q_raw x \<noteq> None"
    using le that by metis
  moreover have "timeless z = timeless x" if "q_state x \<in> closed_states"
    using le that timeless_state [of y x] by simp
  ultimately show ?thesis unfolding queue_row_le_def by blast
qed

lemma harness_le_refl: "harness_le h h"
  by (simp add: harness_le_def)

lemma harness_le_trans:
  assumes "harness_le a b" "harness_le b c"
  shows "harness_le a c"
  unfolding harness_le_def
proof (intro allI impI)
  fix x assume "a = Some x"
  with assms(1) obtain y where y: "b = Some y" "h_epoch x \<le> h_epoch y"
      "h_epoch y = h_epoch x \<longrightarrow> h_nonce y = h_nonce x \<and> (h_shutdown x \<longrightarrow> h_shutdown y)" by (auto simp: harness_le_def)
  with assms(2) obtain z where z: "c = Some z" "h_epoch y \<le> h_epoch z"
      "h_epoch z = h_epoch y \<longrightarrow> h_nonce z = h_nonce y \<and> (h_shutdown y \<longrightarrow> h_shutdown z)" by (auto simp: harness_le_def)
  from y z show "\<exists>z. c = Some z \<and> h_epoch x \<le> h_epoch z \<and> (h_epoch z = h_epoch x \<longrightarrow> h_nonce z = h_nonce x \<and> (h_shutdown x \<longrightarrow> h_shutdown z))"
    by (intro exI [of _ z]) auto
qed

lemma queue_le_refl: "queue_le l l"
  by (simp add: queue_le_def rows_le_refl queue_row_le_refl harness_le_refl consumed_kept_def)

lemma queue_le_trans:
  assumes "queue_le l l'" "queue_le l' l''"
  shows "queue_le l l''"
proof -
  note le = assms [unfolded queue_le_def]
  have "rows_le q_dispatch queue_row_le (queue l) (queue l'')"
    by (rule rows_le_trans [OF queue_row_le_trans, where ys = "queue l'"]) (use le in simp_all)
  moreover have "harness_le (harness l) (harness l'')" using le harness_le_trans by blast
  moreover have "consumed_kept l l''" using le by (simp add: consumed_kept_def)
  ultimately show ?thesis by (simp add: queue_le_def)
qed

section \<open>Updates of the queue table\<close>

lemma lookup_update_if:
  assumes "\<And>r. key (f r) = key r"
  shows "lookup_by key j (update_where P f rows) = map_option (\<lambda>r. if P r then f r else r) (lookup_by key j rows)"
  using assms unfolding lookup_by_def select_one_def update_where_def by (induction rows) auto

lemma rows_le_update_if:
  assumes "\<And>x. le x x" "\<And>x k. lookup_by key k xs = Some x \<Longrightarrow> P x \<Longrightarrow> le x (f x)" "\<And>x. key (f x) = key x"
  shows "rows_le key le xs (update_where P f xs)"
  using assms by (simp add: rows_le_def lookup_update_if)

lemma map_key_update: "(\<And>r. key (f r) = key r) \<Longrightarrow> map key (update_where P f rows) = map key rows"
  by (simp add: map_update_where)

lemma queue_dispatch_iff: "queue_dispatch l i = Inr q \<longleftrightarrow> lookup_by q_dispatch i (queue l) = Some q"
  by (simp add: queue_dispatch_def split: option.splits)

lemma returning_Inr: "returning i l = Inr (q, l') \<longleftrightarrow> l' = l \<and> lookup_by q_dispatch i (queue l) = Some q"
  by (auto simp: returning_def bind_res_Inr_iff queue_dispatch_iff)

text \<open>
  What a step must show: \<open>tidy\<close> is the part of the invariant that holds between the statements of a
  transaction, \<open>holds\<close> is a step that stays tidy and moves up, and \<open>keeps\<close> one that also leaves every
  result as it is.
\<close>

definition tidy :: "ledger \<Rightarrow> bool" where
  "tidy l \<longleftrightarrow> distinct (map q_dispatch (queue l)) \<and> raw_backed l"

definition raw_same :: "ledger \<Rightarrow> ledger \<Rightarrow> bool" where
  "raw_same l l' \<longleftrightarrow> rows_le q_dispatch (\<lambda>x y. q_raw y = q_raw x) (queue l) (queue l')"

definition holds :: "ledger \<Rightarrow> ledger \<Rightarrow> bool" where
  "holds l l' \<longleftrightarrow> tidy l' \<and> queue_le l l'"

definition keeps :: "ledger \<Rightarrow> ledger \<Rightarrow> bool" where
  "keeps l l' \<longleftrightarrow> holds l l' \<and> raw_same l l'"

lemma queue_base_tidy: "queue_base l \<Longrightarrow> tidy l"
  by (simp add: queue_base_def tidy_def)

lemma backed_kept: "consumed_kept l l' \<Longrightarrow> backed l q \<Longrightarrow>
    (q_dispatch q', q_generation q', q_attempt q') = (q_dispatch q, q_generation q, q_attempt q) \<Longrightarrow> backed l' q'"
  unfolding backed_def consumed_kept_def by auto

lemma holds_update:
  assumes inv: "tidy l" and q: "queue l' = update_where P f (queue l)"
    and key: "\<And>r. q_dispatch (f r) = q_dispatch r"
    and le: "\<And>r. r \<in> set (queue l) \<Longrightarrow> P r \<Longrightarrow> queue_row_le r (f r)"
    and new: "\<And>r. r \<in> set (queue l) \<Longrightarrow> P r \<Longrightarrow> q_raw (f r) \<noteq> None \<Longrightarrow> q_state (f r) \<notin> {Queue_Completed, Queue_Failed} \<Longrightarrow> backed l' (f r)"
    and h: "harness_le (harness l) (harness l')" and c: "consumed_kept l l'"
  shows "holds l l'"
proof -
  from inv have raw: "raw_backed l" and dist: "distinct (map q_dispatch (queue l))" by (simp_all add: tidy_def)
  have "backed l' r" if r: "r \<in> set (queue l')" "q_raw r \<noteq> None" "q_state r \<notin> {Queue_Completed, Queue_Failed}" for r
  proof -
    from r(1) q consider x where "x \<in> set (queue l)" "P x" "r = f x" | "r \<in> set (queue l)" by (auto simp: set_update_where)
    then show ?thesis
    proof cases
      case 2
      with raw r(2,3) have "backed l r" by (simp add: raw_backed_def)
      from backed_kept [OF c this] show ?thesis by simp
    qed (use new r(2,3) in blast)
  qed
  then have "raw_backed l'" by (simp add: raw_backed_def)
  moreover have "rows_le q_dispatch queue_row_le (queue l) (queue l')"
    unfolding q
  proof (rule rows_le_update_if)
    fix r k assume "lookup_by q_dispatch k (queue l) = Some r" "P r"
    with lookup_by_in [OF this(1)] show "queue_row_le r (f r)" by (intro le) simp_all
  qed (simp_all add: key queue_row_le_refl)
  ultimately show ?thesis using h c dist key by (simp add: holds_def tidy_def queue_le_def q map_key_update)
qed

text \<open>An update of queue rows that leaves raw results alone.\<close>

lemma keeps_update_tidy:
  assumes inv: "tidy l" and q: "queue l' = update_where P f (queue l)"
    and key: "\<And>r. q_dispatch (f r) = q_dispatch r"
    and raw: "\<And>r. r \<in> set (queue l) \<Longrightarrow> P r \<Longrightarrow> q_raw (f r) = q_raw r"
    and le: "\<And>r. r \<in> set (queue l) \<Longrightarrow> P r \<Longrightarrow> queue_row_le r (f r)"
    and h: "harness_le (harness l) (harness l')" and c: "consumed_kept l l'"
  shows "keeps l l'"
proof -
  have "holds l l'"
  proof (rule holds_update [OF inv q key le _ h c])
    fix r assume r: "r \<in> set (queue l)" "P r" "q_raw (f r) \<noteq> None" "q_state (f r) \<notin> {Queue_Completed, Queue_Failed}"
    note le' = le [OF r(1,2), unfolded queue_row_le_def] and raw' = raw [OF r(1,2)]
    have "q_state r \<notin> {Queue_Completed, Queue_Failed}"
      using le' r(4) timeless_state [of "f r" r] by (auto simp: closed_states_def)
    with inv r(1,3) raw' have "backed l r" by (simp add: tidy_def raw_backed_def)
    from backed_kept [OF c this] show "backed l' (f r)" using le' r(3) raw' by (simp add: queue_identity_def)
  qed
  moreover have "raw_same l l'"
    unfolding raw_same_def q
  proof (rule rows_le_update_if)
    fix r k assume "lookup_by q_dispatch k (queue l) = Some r" "P r"
    with lookup_by_in [OF this(1)] show "q_raw (f r) = q_raw r" by (intro raw) simp_all
  qed (simp_all add: key)
  ultimately show ?thesis by (simp add: keeps_def)
qed

lemmas keeps_update = keeps_update_tidy [OF queue_base_tidy]

lemma keeps_same_tidy:
  assumes inv: "tidy l" and q: "queue l' = queue l" and h: "harness_le (harness l) (harness l')" and c: "consumed_kept l l'"
  shows "keeps l l'"
  by (rule keeps_update_tidy [OF inv, where P = "\<lambda>_. False" and f = id])
    (use q h c in \<open>simp_all add: update_where_none\<close>)

lemmas keeps_same = keeps_same_tidy [OF queue_base_tidy]

lemma holds_trans: "holds l l' \<Longrightarrow> holds l' l'' \<Longrightarrow> holds l l''"
  using queue_le_trans by (auto simp: holds_def)

lemma keeps_trans: "keeps l l' \<Longrightarrow> keeps l' l'' \<Longrightarrow> keeps l l''"
  unfolding keeps_def raw_same_def
  by (elim conjE, intro conjI, erule (1) holds_trans, rule rows_le_trans [where ys = "queue l'"]) simp_all

lemma consumed_update:
  assumes "capabilities l' = update_where P f (capabilities l)" "\<And>c. P c \<Longrightarrow> c_consumed c = None"
  shows "consumed_kept l l'"
  using assms by (auto simp: consumed_kept_def update_where_def)

lemma consumed_update_in:
  assumes "capabilities l' = update_where P f (capabilities l)"
    and "\<And>c. c \<in> set (capabilities l) \<Longrightarrow> P c \<Longrightarrow> c_consumed c = None"
  shows "consumed_kept l l'"
  using assms by (auto simp: consumed_kept_def update_where_def)

lemma consumed_same: "set (capabilities l) \<subseteq> set (capabilities l') \<Longrightarrow> consumed_kept l l'"
  by (auto simp: consumed_kept_def)

text \<open>Deleting the capabilities of a row without a result deletes no consumed one.\<close>

lemma consumed_delete:
  assumes "queue_base l" "lookup_by q_dispatch i (queue l) = Some q" "q_raw q = None"
    and "capabilities l' = delete_where (\<lambda>c. c_dispatch c = i) (capabilities l)"
  shows "consumed_kept l l'"
proof -
  have "c_dispatch c \<noteq> i" if c: "c \<in> set (capabilities l)" "c_consumed c \<noteq> None" for c
  proof
    assume "c_dispatch c = i"
    moreover from assms(1) c(1) have "check_capability l c = Inr ()" by (simp add: queue_base_def)
    ultimately show False using assms(2,3) c(2) by (auto elim: check_capabilityD)
  qed
  with assms(4) show ?thesis by (auto simp: consumed_kept_def set_delete_where)
qed

section \<open>One lemma per operation\<close>

lemma harness_only:
  assumes "queue_base l" "l' = l\<lparr>harness := h'\<rparr>" "harness_le (harness l) h'"
  shows "keeps l l'"
  by (rule keeps_same [OF assms(1)]) (use assms(2,3) in \<open>simp_all add: consumed_kept_def\<close>)

lemma acquire_harness_keeps:
  assumes "acquire_harness now pid birth digest version nonce lease l = Inr (h, l')" "queue_base l"
  shows "keeps l l'"
proof -
  from assms(1) have l': "l' = l\<lparr>harness := Some h\<rparr>"
    and e: "\<And>x. harness l = Some x \<Longrightarrow> h_epoch h = h_epoch x + 1"
    by (auto simp: acquire_harness_def bind_res_Inr_iff Let_def split: option.splits)
  show ?thesis by (rule harness_only [OF assms(2) l']) (use e in \<open>auto simp: harness_le_def\<close>)
qed

lemma owned_harness_iff: "owned_harness l epoch nonce = Inr h \<longleftrightarrow> harness l = Some h \<and> h_epoch h = epoch \<and> h_nonce h = nonce"
  by (auto simp: owned_harness_def bind_res_Inr_iff split: option.splits)

lemma renew_harness_keeps:
  assumes "renew_harness now epoch nonce lease l = Inr (h', l')" "queue_base l"
  shows "keeps l l'"
proof -
  from assms(1) obtain h where h: "harness l = Some h" and h': "h' = h\<lparr>h_renewed := now, h_expires := now + lease\<rparr>"
    and l': "l' = l\<lparr>harness := Some h'\<rparr>"
    by (auto simp: renew_harness_def bind_res_Inr_iff owned_harness_iff Let_def)
  show ?thesis by (rule harness_only [OF assms(2) l']) (simp add: harness_le_def h h')
qed

lemma shutdown_keeps:
  assumes "request_harness_shutdown epoch nonce l = Inr (h', l')" "queue_base l"
  shows "keeps l l'"
proof -
  from assms(1) obtain h where h: "harness l = Some h" and h': "h' = h\<lparr>h_shutdown := True\<rparr>" and l': "l' = l\<lparr>harness := Some h'\<rparr>"
    by (auto simp: request_harness_shutdown_def bind_res_Inr_iff owned_harness_iff Let_def)
  show ?thesis by (rule harness_only [OF assms(2) l']) (simp add: harness_le_def h h')
qed

lemma arm_fence_keeps:
  assumes "arm_harness_refresh_fence now l = Inr (h', l')" "queue_base l"
  shows "keeps l l'"
proof -
  from assms(1) have h': "h' = map_option (\<lambda>h. h\<lparr>h_shutdown := True\<rparr>) (harness l)" and l': "l' = l\<lparr>harness := h'\<rparr>"
    by (auto simp: arm_harness_refresh_fence_def bind_res_Inr_iff Let_def)
  show ?thesis by (rule harness_only [OF assms(2) l']) (auto simp: harness_le_def h')
qed

text \<open>A cancelled row had no result, and its capabilities go with it.\<close>

lemma cancel_row_keeps:
  assumes "cancel_queue_row now epoch retain q l = Inr (q', l')" "queue_base l" "lookup_by q_dispatch (q_dispatch q) (queue l) = Some q"
  shows "keeps l l' \<and> harness l' = harness l"
proof (cases "q_state q = Queue_Cancelled")
  case True
  with assms(1) keeps_same [OF assms(2)] show ?thesis by (simp add: cancel_queue_row_def harness_le_refl consumed_kept_def)
next
  case False
  let ?i = "q_dispatch q" and ?P = "\<lambda>r. q_dispatch r = q_dispatch q \<and> q_state r \<in> set active_states"
  let ?f = "\<lambda>r. r\<lparr>q_state := Queue_Cancelled, q_claim := None, q_raw := None, q_terminal := None, q_updated := now\<rparr>"
  from assms(1) False have raw: "q_raw q = None" "q_terminal q = None"
    and l': "queue l' = update_where ?P ?f (queue l)" "capabilities l' = delete_where (\<lambda>c. c_dispatch c = ?i) (capabilities l)"
      "harness l' = harness l"
    by (auto simp: cancel_queue_row_def check_cancellable_def bind_res_Inr_iff Let_def returning_Inr retire_checkpoints_def
        unresolve_commands_def split: if_splits option.splits)
  have only: "r = q" if "r \<in> set (queue l)" "q_dispatch r = ?i" for r
    using same_key_same_row [of q_dispatch "queue l" r q] that assms(2) lookup_by_in [OF assms(3)] by (auto simp: queue_base_def)
  have caps: "consumed_kept l l'"
    by (rule consumed_delete [OF assms(2,3) raw(1) l'(2)])
  have "keeps l l'"
  proof (rule keeps_update [OF assms(2) l'(1)])
    fix r assume r: "r \<in> set (queue l)" "?P r"
    with only have "r = q" by blast
    with raw r(2) show "q_raw (?f r) = q_raw r" "queue_row_le r (?f r)"
      by (auto simp: queue_row_le_def queue_identity_def closed_states_def active_states_def)
  qed (use caps l'(3) in \<open>simp_all add: harness_le_refl\<close>)
  with l'(3) show ?thesis by simp
qed

lemma cancel_dispatch_keeps:
  assumes "cancel_queue_dispatch now i epoch l = Inr (q', l')" "queue_base l"
  shows "keeps l l' \<and> harness l' = harness l"
proof -
  from assms(1) obtain q where q: "lookup_by q_dispatch i (queue l) = Some q" and c: "cancel_queue_row now epoch False q l = Inr (q', l')"
    by (auto simp: cancel_queue_dispatch_def bind_res_Inr_iff queue_dispatch_iff)
  from cancel_row_keeps [OF c assms(2)] q lookup_by_in [OF q] show ?thesis by simp
qed

lemma acknowledge_keeps:
  assumes "acknowledge_worker_cancellation_exit now i action pid birth code l = Inr (q', l')" "queue_base l"
  shows "keeps l l' \<and> harness l' = harness l"
proof -
  from assms(1) obtain q where q: "lookup_by q_dispatch i (queue l) = Some q"
    and c: "l' = l \<or> (\<exists>l1. queue l1 = queue l \<and> capabilities l1 = capabilities l \<and> harness l1 = harness l
      \<and> cancel_queue_row now None True q l1 = Inr (q', l'))"
    by (auto simp: acknowledge_worker_cancellation_exit_def bind_res_Inr_iff Let_def split: option.splits if_splits; fastforce)
  from c show ?thesis
  proof (elim disjE exE conjE)
    assume "l' = l"
    then show ?thesis using keeps_same [OF assms(2), of l] by (simp add: harness_le_refl consumed_kept_def)
  next
    fix l1 assume same: "queue l1 = queue l" "capabilities l1 = capabilities l" "harness l1 = harness l"
      and cancel: "cancel_queue_row now None True q l1 = Inr (q', l')"
    from assms(2) have base: "queue_base l1" by (simp add: queue_base_def raw_backed_def backed_def check_capability_def same)
    have "lookup_by q_dispatch (q_dispatch q) (queue l1) = Some q" using q lookup_by_in [OF q] by (simp add: same)
    from cancel_row_keeps [OF cancel base this] show ?thesis
      by (simp add: keeps_def holds_def raw_same_def queue_le_def consumed_kept_def same harness_le_refl)
  qed
qed

lemma first_eligibleD:
  assumes "first_eligible l now = Some q"
  shows "q \<in> set (queue l)" "eligible l now q"
proof -
  from assms obtain qs where "filter (eligible l now) (sort_key q_sequence (queue l)) = q # qs"
    by (auto simp: first_eligible_def split: list.splits)
  then have "q \<in> set (filter (eligible l now) (sort_key q_sequence (queue l)))" by simp
  then show "q \<in> set (queue l)" "eligible l now q" by simp_all
qed

lemma claim_keeps:
  assumes "claim_queue_dispatch now epoch nonce l = Inr (r, l')" "queue_base l"
  shows "keeps l l' \<and> harness l' = harness l"
proof (cases "first_eligible l now")
  case None
  with assms(1) have "l' = l" by (auto simp: claim_queue_dispatch_def bind_res_Inr_iff)
  then show ?thesis using keeps_same [OF assms(2), of l] by (simp add: harness_le_refl consumed_kept_def)
next
  case (Some q)
  have q: "lookup_by q_dispatch (q_dispatch q) (queue l) = Some q"
    using assms(2) first_eligibleD(1) [OF Some] by (intro lookup_by_unique) (simp_all add: queue_base_def)
  let ?P = "\<lambda>r. q_dispatch r = q_dispatch q \<and> q_state r = Queued"
  let ?f = "\<lambda>r. r\<lparr>q_state := Claimed, q_claim := Some (epoch, nonce), q_updated := now\<rparr>"
  from assms(1) Some have c: "(\<exists>q'. cancel_queue_row now None False q l = Inr (q', l'))
      \<or> l' = l\<lparr>queue := update_where ?P ?f (queue l)\<rparr>"
    by (auto simp: claim_queue_dispatch_def bind_res_Inr_iff Let_def split: if_splits)
  have "keeps l (l\<lparr>queue := update_where ?P ?f (queue l)\<rparr>)"
    by (rule keeps_update [OF assms(2), where P = ?P and f = ?f])
      (auto simp: harness_le_refl consumed_kept_def queue_row_le_def queue_identity_def closed_states_def)
  with c cancel_row_keeps [OF _ assms(2) q] show ?thesis by auto
qed

lemma terminal_target:
  assumes "st \<in> set (queue_targets s)" "s \<in> {Queue_Completed, Queue_Failed, Queue_Cancelled}"
  shows "st = s"
  using assms by auto

lemma set_state_keeps:
  assumes "set_queue_state now i st epoch l = Inr (r, l')" "queue_base l"
  shows "keeps l l' \<and> harness l' = harness l"
proof (cases "st = Queue_Cancelled")
  case True
  with assms cancel_dispatch_keeps show ?thesis by (simp add: set_queue_state_def)
next
  case False
  let ?f = "\<lambda>q. q\<lparr>q_state := st, q_updated := now\<rparr>"
  from assms(1) False obtain q where q: "lookup_by q_dispatch i (queue l) = Some q" and st: "st \<in> set (queue_targets (q_state q))"
    and l': "l' = update_queue i ?f l"
    by (auto simp: set_queue_state_def bind_res_Inr_iff queue_dispatch_iff returning_Inr)
  have same: "queue_row_le q (?f q)"
    using terminal_target [OF st] by (cases q) (auto simp: queue_row_le_def queue_identity_def timeless_def closed_states_def)
  have only: "r = q" if "r \<in> set (queue l)" "q_dispatch r = i" for r
    using same_key_same_row [of q_dispatch "queue l" r q] that assms(2) lookup_by_in [OF q] by (auto simp: queue_base_def)
  have "keeps l l'"
    by (rule keeps_update [OF assms(2), where P = "\<lambda>q. q_dispatch q = i" and f = ?f])
      (use only same in \<open>auto simp: l' update_queue_def harness_le_refl consumed_kept_def\<close>)
  then show ?thesis by (simp add: l' update_queue_def)
qed

text \<open>A recovery is only committed for a row without a result: its row would be queued with one.\<close>

lemma recover_keeps:
  assumes "recover_queue_dispatch now i epoch keep l = Inr (r, l')" "queue_base l" "validate_queue E l' = Inr ()"
  shows "keeps l l' \<and> harness l' = harness l"
proof -
  from assms(1) obtain q where q: "lookup_by q_dispatch i (queue l) = Some q"
    by (auto simp: recover_queue_dispatch_def bind_res_Inr_iff queue_dispatch_iff)
  let ?f = "\<lambda>r. r\<lparr>q_state := Queued, q_claim := None, q_attempt := q_attempt r + 1,
    q_thread := (if keep then q_thread q else None), q_host := None, q_updated := now\<rparr>"
  have c: "l' = l \<or> q_state q \<notin> closed_states \<and> queue l' = update_where (\<lambda>r. q_dispatch r = i) ?f (queue l)
      \<and> capabilities l' = delete_where (\<lambda>c. c_dispatch c = i) (capabilities l) \<and> harness l' = harness l"
    using assms(1) q
    by (auto simp: recover_queue_dispatch_def bind_res_Inr_iff queue_dispatch_iff Let_def returning_Inr forget_attempt_def
        update_queue_def closed_states_def split: if_splits)
  from c show ?thesis
  proof (elim disjE conjE)
    assume "l' = l"
    then show ?thesis using keeps_same [OF assms(2), of l] by (simp add: harness_le_refl consumed_kept_def)
  next
    assume live: "q_state q \<notin> closed_states" and l': "queue l' = update_where (\<lambda>r. q_dispatch r = i) ?f (queue l)"
      "capabilities l' = delete_where (\<lambda>c. c_dispatch c = i) (capabilities l)" "harness l' = harness l"
    have qi: "q_dispatch q = i" "q \<in> set (queue l)" using lookup_by_in [OF q] by simp_all
    have "lookup_by q_dispatch i (queue l') = Some (?f q)" using q qi by (simp add: l' lookup_update_if)
    from lookup_by_in [OF this] have q': "?f q \<in> set (queue l')" by (rule conjunct1)
    have raw: "q_raw q = None"
      using check_queue_rowD(3) [OF validate_queueD(2) [OF assms(3) q']] by (simp add: active_states_def)
    have only: "r = q" if "r \<in> set (queue l)" "q_dispatch r = i" for r
      using same_key_same_row [of q_dispatch "queue l" r q] that qi assms(2) by (simp add: queue_base_def)
    have caps: "consumed_kept l l'" by (rule consumed_delete [OF assms(2) q raw l'(2)])
    have "keeps l l'"
    proof (rule keeps_update [OF assms(2) l'(1)])
      fix r assume "r \<in> set (queue l)" "q_dispatch r = i"
      with only have "r = q" by blast
      then show "queue_row_le r (?f r)" using raw live by (simp add: queue_row_le_def queue_identity_def)
    qed (use caps l'(3) in \<open>simp_all add: harness_le_refl\<close>)
    with l'(3) show ?thesis by simp
  qed
qed

lemma extend_kept: "consumed_kept l (extend_capability i g a t l)"
  by (rule consumed_update [where P = "\<lambda>c. is_capability i g a c \<and> c_consumed c = None"]) (simp_all add: extend_capability_def)

lemma extend_fields [simp]: "queue (extend_capability i g a t l) = queue l" "harness (extend_capability i g a t l) = harness l"
  by (simp_all add: extend_capability_def)

lemma issue_keeps:
  assumes "issue_attempt_capability now i g a schema ws backend token req lease l = Inr (c, l')" "queue_base l"
  shows "keeps l l' \<and> harness l' = harness l"
proof -
  from assms(1) have "l' = l \<or> (\<exists>t. l' = extend_capability i g a t l) \<or> l' = l\<lparr>capabilities := capabilities l @ [c]\<rparr>"
    by (auto simp: issue_attempt_capability_def bind_res_Inr_iff Let_def split: option.splits if_splits)
  then have "queue l' = queue l \<and> harness l' = harness l \<and> consumed_kept l l'"
    using extend_kept by (auto simp: consumed_kept_def)
  then show ?thesis using keeps_same [OF assms(2), of l'] by (simp add: harness_le_refl)
qed

lemma bind_liveness_keeps:
  assumes "bind_worker_liveness now i epoch g a pid birth token lease l = Inr (w, l')" "queue_base l"
  shows "keeps l l' \<and> harness l' = harness l"
proof -
  let ?P = "\<lambda>q. q_dispatch q = i \<and> q_state q = Claimed" and ?f = "\<lambda>q. q\<lparr>q_state := Starting, q_updated := now\<rparr>"
  let ?l = "extend_capability i g a (now + bounded_lifetime lease) l"
  from assms(1) have l': "queue l' = update_where ?P ?f (queue l)" "capabilities l' = capabilities ?l" "harness l' = harness l"
    by (auto simp: bind_worker_liveness_def bind_res_Inr_iff Let_def extend_capability_def split: option.splits)
  have "consumed_kept l l'" using extend_kept by (simp add: consumed_kept_def l'(2))
  then have "keeps l l'"
    by (intro keeps_update [OF assms(2) l'(1)])
      (auto simp: l' harness_le_refl queue_row_le_def queue_identity_def closed_states_def)
  then show ?thesis by (simp add: l')
qed

lemma bind_thread_keeps:
  assumes "bind_worker_thread E now i epoch g a token thread l = Inr (r, l')" "queue_base l"
  shows "keeps l l' \<and> harness l' = harness l"
proof -
  let ?P = "\<lambda>q. q_dispatch q = i \<and> q_state q \<in> {Claimed, Starting, Running}"
  let ?f = "\<lambda>q. q\<lparr>q_state := Running, q_thread := Some thread, q_updated := now\<rparr>"
  from assms(1) have l': "l' = l\<lparr>queue := update_where ?P ?f (queue l)\<rparr>"
    by (auto simp: bind_worker_thread_def bind_res_Inr_iff returning_Inr)
  have "keeps l l'"
    by (rule keeps_update [OF assms(2), where P = ?P and f = ?f])
      (auto simp: l' harness_le_refl consumed_kept_def queue_row_le_def queue_identity_def closed_states_def)
  then show ?thesis by (simp add: l')
qed

lemma adopt_keeps:
  assumes "adopt_live_worker now i epoch pid birth nonce l = Inr (r, l')" "queue_base l"
  shows "keeps l l' \<and> harness l' = harness l"
proof -
  let ?P = "\<lambda>q. q_dispatch q = i \<and> q_state q \<in> {Claimed, Starting, Running}"
  let ?f = "\<lambda>q. q\<lparr>q_claim := Some (epoch, nonce), q_updated := now\<rparr>"
  from assms(1) have l': "l' = l\<lparr>queue := update_where ?P ?f (queue l)\<rparr>"
    by (auto simp: adopt_live_worker_def bind_res_Inr_iff returning_Inr split: option.splits)
  have "keeps l l'"
    by (rule keeps_update [OF assms(2), where P = ?P and f = ?f])
      (auto simp: l' harness_le_refl consumed_kept_def queue_row_le_def queue_identity_def closed_states_def)
  then show ?thesis by (simp add: l')
qed

lemma renew_liveness_keeps:
  assumes "renew_worker_liveness E now i g a token lease epoch l = Inr (w, l')" "queue_base l"
  shows "keeps l l' \<and> harness l' = harness l"
proof -
  from assms(1) have l': "queue l' = queue l" "harness l' = harness l"
      "capabilities l' = capabilities (extend_capability i g a (now + bounded_lifetime lease) l)"
    by (auto simp: renew_worker_liveness_def bind_res_Inr_iff Let_def extend_capability_def split: option.splits)
  have "consumed_kept l l'" using extend_kept by (simp add: consumed_kept_def l'(3))
  then show ?thesis using keeps_same [OF assms(2) l'(1)] by (simp add: l'(2) harness_le_refl)
qed

lemma authorize_keeps:
  assumes "authorize_successor now s t l = Inr (a, l')" "queue_base l"
  shows "keeps l l' \<and> harness l' = harness l"
proof -
  from assms(1) have "queue l' = queue l \<and> harness l' = harness l \<and> capabilities l' = capabilities l"
    by (auto simp: authorize_successor_def bind_res_Inr_iff Let_def split: option.splits)
  then show ?thesis using keeps_same [OF assms(2), of l'] by (simp add: harness_le_refl consumed_kept_def)
qed

text \<open>
  A result is submitted to a row that has none: the capability it is submitted under is the only one of
  the attempt, and it is unconsumed.
\<close>

lemma unconsumed_no_result:
  assumes "distinct (map (\<lambda>c. (c_dispatch c, c_generation c, c_attempt c)) (capabilities l))" "raw_backed l"
    and "q \<in> set (queue l)" "select_one (is_capability (q_dispatch q) (q_generation q) (q_attempt q)) (capabilities l) = Some c"
    and "c_consumed c = None"
  and "q_state q \<notin> {Queue_Completed, Queue_Failed}"
  shows "q_raw q = None"
proof (rule ccontr)
  assume "q_raw q \<noteq> None"
  with assms(2,3,6) obtain d where d: "d \<in> set (capabilities l)" "is_capability (q_dispatch q) (q_generation q) (q_attempt q) d"
      "c_consumed d \<noteq> None" by (auto simp: raw_backed_def backed_def)
  moreover from select_one_Some [OF assms(4)]
  have c: "c \<in> set (capabilities l)" "is_capability (q_dispatch q) (q_generation q) (q_attempt q) c" by blast+
  ultimately have "d = c"
    by (intro same_key_same_row [OF assms(1)]) (simp_all add: is_capability_def)
  with d(3) assms(5) show False by simp
qed

lemma submit_cases:
  assumes "submit_in_transaction E now i g a token raw status l = Inr (r, l')"
  obtains q c where "lookup_by q_dispatch i (queue l) = Some q" "select_one (is_capability i g a) (capabilities l) = Some c"
    "c_generation c = q_generation q" "c_attempt c = q_attempt q"
    "l' = l \<or> c_consumed c = None \<and> q_state q \<notin> closed_states \<and> (\<exists>recs. l' = l\<lparr>
        capabilities := update_where (is_capability i g a) (\<lambda>c. c\<lparr>c_consumed := Some now, c_accepted := Some (sha256 E raw)\<rparr>)
          (capabilities l),
        queue := update_where (\<lambda>q. q_dispatch q = i) (\<lambda>q. q\<lparr>q_state := Result_Submitted, q_raw := Some (raw, sha256 E raw),
          q_terminal := Some status, q_updated := now\<rparr>) (queue l), recoveries := recs\<rparr>)"
proof -
  note body = assms(1) [unfolded submit_in_transaction_def bind_res_Inr_iff queue_dispatch_iff]
  from body obtain q where q: "lookup_by q_dispatch i (queue l) = Some q" by blast
  from body q obtain c where c: "select_one (is_capability i g a) (capabilities l) = Some c" by (auto split: option.splits)
  from body q c have b: "c_generation c = q_generation q" "c_attempt c = q_attempt q" by (auto simp: bind_res_Inr_iff)
  show thesis
  proof (cases "q_state q \<in> {Queue_Completed, Queue_Failed} \<or> c_consumed c \<noteq> None")
    case True
    with body q c have "l' = l" by (simp add: bind_res_Inr_iff split: if_splits)
    with q c b show thesis by (intro that) simp_all
  next
    case False
    with body q c have "c_consumed c = None" "q_state q \<notin> closed_states" by (auto simp: closed_states_def bind_res_Inr_iff)
    moreover from False body q c have "\<exists>recs. l' = l\<lparr>
        capabilities := update_where (is_capability i g a) (\<lambda>c. c\<lparr>c_consumed := Some now, c_accepted := Some (sha256 E raw)\<rparr>)
          (capabilities l),
        queue := update_where (\<lambda>q. q_dispatch q = i) (\<lambda>q. q\<lparr>q_state := Result_Submitted, q_raw := Some (raw, sha256 E raw),
          q_terminal := Some status, q_updated := now\<rparr>) (queue l), recoveries := recs\<rparr>"
      by (simp add: bind_res_Inr_iff Let_def returning_Inr update_queue_def) blast
    ultimately show thesis by (intro that [OF q c b] disjI2 conjI)
  qed
qed

lemma submit_holds:
  assumes "submit_in_transaction E now i g a token raw status l = Inr (r, l')" "tidy l"
    and dist: "distinct (map (\<lambda>c. (c_dispatch c, c_generation c, c_attempt c)) (capabilities l))"
  shows "holds l l' \<and> harness l' = harness l"
proof -
  let ?C = "is_capability i g a" and ?f = "\<lambda>q. q\<lparr>q_state := Result_Submitted, q_raw := Some (raw, sha256 E raw),
    q_terminal := Some status, q_updated := now\<rparr>"
  let ?g = "\<lambda>c. c\<lparr>c_consumed := Some now, c_accepted := Some (sha256 E raw)\<rparr>"
  from assms(1) obtain q c where q: "lookup_by q_dispatch i (queue l) = Some q"
    and c: "select_one ?C (capabilities l) = Some c" "c_generation c = q_generation q" "c_attempt c = q_attempt q"
    and alt: "l' = l \<or> c_consumed c = None \<and> q_state q \<notin> closed_states
      \<and> (\<exists>recs. l' = l\<lparr>capabilities := update_where ?C ?g (capabilities l),
          queue := update_where (\<lambda>q. q_dispatch q = i) ?f (queue l), recoveries := recs\<rparr>)" by (rule submit_cases)
  then have alt: "l' = l \<or> c_consumed c = None \<and> q_state q \<notin> closed_states \<and> queue l' = update_where (\<lambda>q. q_dispatch q = i) ?f (queue l)
      \<and> capabilities l' = update_where ?C ?g (capabilities l) \<and> harness l' = harness l" by (elim disjE conjE exE) simp_all
  from alt show ?thesis
  proof (elim disjE conjE)
    assume "l' = l"
    then show ?thesis using assms(2) by (simp add: holds_def queue_le_refl)
  next
    assume new: "c_consumed c = None" and live: "q_state q \<notin> closed_states"
      and l': "queue l' = update_where (\<lambda>q. q_dispatch q = i) ?f (queue l)"
        "capabilities l' = update_where ?C ?g (capabilities l)" "harness l' = harness l"
    have qi: "q \<in> set (queue l)" "q_dispatch q = i" using lookup_by_in [OF q] by simp_all
    have ci: "c \<in> set (capabilities l)" "?C c" using select_one_Some [OF c(1)] by simp_all
    then have ga: "g = q_generation q" "a = q_attempt q" using c by (simp_all add: is_capability_def)
    from assms(2) have dq: "distinct (map q_dispatch (queue l))" and rb: "raw_backed l" by (simp_all add: tidy_def)
    have raw: "q_raw q = None"
      by (rule unconsumed_no_result [OF dist rb qi(1) _ new]) (use c(1) qi(2) ga live in \<open>simp_all add: closed_states_def\<close>)
    have only: "r = q" if "r \<in> set (queue l)" "q_dispatch r = i" for r
      using same_key_same_row [OF dq that(1) qi(1)] that(2) qi(2) by simp
    have onlyc: "d = c" if "d \<in> set (capabilities l)" "?C d" for d
      using same_key_same_row [OF dist that(1) ci(1)] that(2) ci(2) by (simp add: is_capability_def)
    have caps: "consumed_kept l l'"
      by (rule consumed_update_in [OF l'(2)]) (use onlyc new in blast)
    have "?g c \<in> set (capabilities l')" "?C (?g c)" using ci by (auto simp: l' set_update_where is_capability_def)
    then have row_backed: "backed l' (?f q)" using ga qi(2) unfolding backed_def by (intro bexI [of _ "?g c"]) simp_all
    have "holds l l'"
    proof (rule holds_update [OF assms(2) l'(1)])
      fix r assume "r \<in> set (queue l)" "q_dispatch r = i"
      with only have r: "r = q" by blast
      show "queue_row_le r (?f r)" unfolding r using raw live by (simp add: queue_row_le_def queue_identity_def)
      show "backed l' (?f r)" unfolding r by (rule row_backed)
    qed (use caps l'(3) in \<open>simp_all add: harness_le_refl\<close>)
    with l'(3) show ?thesis by simp
  qed
qed

end
