(* ===== verification/Delivery_Laws.thy ===== *)
theory Delivery_Laws
  imports Queue_Laws
begin

text \<open>
  What the transactions of results, wakes, retries and recovery keep: the same laws as in
  Queue_Laws, for the operations that make a row terminal, wake its controller, or bring it back.
\<close>

section \<open>The workflow tables\<close>

text \<open>What the workflow half of the ledger reads: the queue leaves all of it alone.\<close>

definition workflow_part where
  "workflow_part l = (runs l, milestones l, dispatches l, events l, executions l, integrity l, leases l, sdk_events l, app_native l)"

lemma workflow_part_update [simp]:
  "workflow_part (l\<lparr>queue := v1\<rparr>) = workflow_part l" "workflow_part (l\<lparr>capabilities := v2\<rparr>) = workflow_part l"
  "workflow_part (l\<lparr>liveness := v3\<rparr>) = workflow_part l" "workflow_part (l\<lparr>commands := v4\<rparr>) = workflow_part l"
  "workflow_part (l\<lparr>retries := v5\<rparr>) = workflow_part l" "workflow_part (l\<lparr>recoveries := v6\<rparr>) = workflow_part l"
  "workflow_part (l\<lparr>successors := v7\<rparr>) = workflow_part l" "workflow_part (l\<lparr>wakes := v8\<rparr>) = workflow_part l"
  "workflow_part (l\<lparr>decisions := v9\<rparr>) = workflow_part l" "workflow_part (l\<lparr>harness := w\<rparr>) = workflow_part l"
  by (simp_all add: workflow_part_def)

lemma workflow_part_helpers [simp]:
  "workflow_part (update_queue i f l) = workflow_part l" "workflow_part (forget_attempt i l) = workflow_part l"
  "workflow_part (unresolve_commands now i l) = workflow_part l" "workflow_part (retire_checkpoints now i l) = workflow_part l"
  "workflow_part (extend_capability i g a t l) = workflow_part l"
  by (simp_all add: update_queue_def forget_attempt_def unresolve_commands_def retire_checkpoints_def extend_capability_def)

text \<open>What the laws of the queue read of a ledger.\<close>

definition law_part where
  "law_part l = (queue l, capabilities l, harness l, workflow_part l)"

lemma law_part_iff: "law_part l' = law_part l \<longleftrightarrow> queue l' = queue l \<and> capabilities l' = capabilities l \<and> harness l' = harness l
    \<and> workflow_part l' = workflow_part l"
  by (auto simp: law_part_def)

lemma law_part_update [simp]:
  "law_part (l\<lparr>bindings := v1\<rparr>) = law_part l" "law_part (l\<lparr>captures := v2\<rparr>) = law_part l"
  "law_part (l\<lparr>liveness := v3\<rparr>) = law_part l" "law_part (l\<lparr>commands := v4\<rparr>) = law_part l"
  "law_part (l\<lparr>retries := v5\<rparr>) = law_part l" "law_part (l\<lparr>recoveries := v6\<rparr>) = law_part l"
  "law_part (l\<lparr>successors := v7\<rparr>) = law_part l" "law_part (l\<lparr>wakes := v8\<rparr>) = law_part l"
  "law_part (l\<lparr>decisions := v9\<rparr>) = law_part l" "law_part (l\<lparr>generations := v10\<rparr>) = law_part l"
  "law_part (l\<lparr>successor_outbox := v11\<rparr>) = law_part l" "law_part (l\<lparr>notifications := v12\<rparr>) = law_part l"
  by (simp_all add: law_part_def workflow_part_def)

lemma law_part_helpers [simp]:
  "law_part (unresolve_commands now i l) = law_part l" "law_part (retire_checkpoints now i l) = law_part l"
  "law_part (release_successors now i ids l) = law_part l" "law_part (close_checkpoints now i l) = law_part l"
  "law_part (reset_retry i l) = law_part l" "law_part (disarm i l) = law_part l" "law_part (update_retry i g l) = law_part l"
  "law_part (update_recovery i h l) = law_part l" "law_part (record_exit now i l) = law_part l"
  "law_part (widen_budgets fc i r l) = law_part l"
  by (simp_all add: unresolve_commands_def retire_checkpoints_def release_successors_def close_checkpoints_def reset_retry_def
      disarm_def update_retry_def update_recovery_def record_exit_def widen_budgets_def Let_def split: retry_failure.split)

lemma keeps_law_part:
  assumes "tidy l" "law_part l' = law_part l"
  shows "keeps l l'"
  by (rule keeps_same_tidy [OF assms(1)]) (use assms(2) in \<open>simp_all add: law_part_iff harness_le_refl consumed_kept_def\<close>)

lemma tidy_law_part: "law_part l' = law_part l \<Longrightarrow> tidy l' = tidy l"
  by (simp add: law_part_iff tidy_def raw_backed_def backed_def)

section \<open>Results\<close>

lemma insert_parts:
  "insert_wake w l = Inr l' \<Longrightarrow> law_part l' = law_part l" "insert_decision s d l = Inr l' \<Longrightarrow> law_part l' = law_part l"
  "insert_generation g l = Inr l' \<Longrightarrow> law_part l' = law_part l" "insert_successor_out so l = Inr l' \<Longrightarrow> law_part l' = law_part l"
  "insert_notification n l = Inr l' \<Longrightarrow> law_part l' = law_part l"
  by (auto simp: insert_wake_def insert_decision_def insert_generation_def insert_successor_out_def insert_notification_def
      bind_res_Inr_iff)

lemma ensure_part: "ensure_controller_decision i k n dg src t ws st l = Inr (d, l') \<Longrightarrow> law_part l' = law_part l"
  unfolding ensure_controller_decision_def bind_res_Inr_iff Let_def
  by (auto simp: bind_res_Inr_iff split: if_splits dest!: insert_parts)

lemma announce_part:
  assumes "announce_terminal E now q ids n l = Inr l'"
  shows "law_part l' = law_part l"
proof -
  from assms obtain l1 l2 d l3 w so nt k ny dg src t ws st where
    "insert_successor_out so l = Inr l1" "insert_notification nt l1 = Inr l2"
    "ensure_controller_decision (q_dispatch q) k ny dg src t ws st (close_checkpoints now (q_dispatch q) l2) = Inr (d, l3)"
    "insert_wake w l3 = Inr l'"
    unfolding announce_terminal_def Let_def bind_res_Inr_iff by (auto simp: bind_res_Inr_iff split: prod.splits)
  then show ?thesis by (simp add: insert_parts ensure_part)
qed

lemma finalize_cases:
  assumes "finalize_in_transaction E now i payload notify l = Inr (r, l')"
  obtains (same) q where "lookup_by q_dispatch i (queue l) = Some q" "q_state q \<in> closed_states" "l' = l"
  | (new) q where "lookup_by q_dispatch i (queue l) = Some q" "q_state q = Result_Submitted"
      "law_part l' = law_part (update_queue i (\<lambda>r. r\<lparr>q_state := terminal_state q, q_updated := now\<rparr>) l)"
proof -
  note body = assms [unfolded finalize_in_transaction_def bind_res_Inr_iff queue_dispatch_iff]
  from body obtain q where q: "lookup_by q_dispatch i (queue l) = Some q" by blast
  show thesis
  proof (cases "q_state q \<in> closed_states")
    case True
    with body q have "l' = l" by (simp add: closed_states_def)
    with True q show thesis by (intro same)
  next
    case False
    with body q obtain ids where "q_state q = Result_Submitted" "announce_terminal E now q ids notify (release_successors now i ids
        (update_queue i (\<lambda>r. r\<lparr>q_state := terminal_state q, q_updated := now\<rparr>) l)) = Inr l'"
      by (auto simp: closed_states_def Let_def bind_res_Inr_iff returning_Inr)
    with announce_part [OF this(2)] show thesis by (intro new [OF q]) simp_all
  qed
qed

lemma terminal_state_closed: "terminal_state q \<in> {Queue_Completed, Queue_Failed}"
  by (simp add: terminal_state_def)

lemma finalize_keeps:
  assumes "finalize_in_transaction E now i payload notify l = Inr (r, l')" "tidy l"
  shows "keeps l l' \<and> harness l' = harness l"
  using assms(1)
proof (cases rule: finalize_cases)
  case (same q)
  then show ?thesis using keeps_law_part [OF assms(2)] by simp
next
  case (new q)
  let ?f = "\<lambda>r. r\<lparr>q_state := terminal_state q, q_updated := now\<rparr>"
  from new have l': "queue l' = update_where (\<lambda>r. q_dispatch r = i) ?f (queue l)" "capabilities l' = capabilities l"
    "harness l' = harness l" by (simp_all add: law_part_iff update_queue_def)
  have only: "r = q" if "r \<in> set (queue l)" "q_dispatch r = i" for r
    using same_key_same_row [of q_dispatch "queue l" r q] that assms(2) lookup_by_in [OF new(1)] by (auto simp: tidy_def)
  have "keeps l l'"
  proof (rule keeps_update_tidy [OF assms(2) l'(1)])
    fix r assume "r \<in> set (queue l)" "q_dispatch r = i"
    with only new(2) show "queue_row_le r (?f r)" by (auto simp: queue_row_le_def queue_identity_def closed_states_def)
  qed (simp_all add: l' harness_le_refl consumed_kept_def)
  with l'(3) show ?thesis by simp
qed

lemma bind_integrity_part: "bind_terminal_integrity i d l = Inr l' \<Longrightarrow> law_part l' = law_part l"
  unfolding bind_terminal_integrity_def
  by (auto simp: bind_res_Inr_iff split: option.splits if_splits)

lemma keeps_holds: "keeps l l' \<Longrightarrow> holds l l'"
  by (simp add: keeps_def)

lemma holds_tidy: "holds l l' \<Longrightarrow> tidy l'"
  by (simp add: holds_def)

lemma commit_holds:
  assumes "commit_in_transaction E now i g a token raw status l = Inr (r, l')" "tidy l"
    and dist: "distinct (map (\<lambda>c. (c_dispatch c, c_generation c, c_attempt c)) (capabilities l))"
  shows "holds l l' \<and> harness l' = harness l"
proof -
  from assms(1) obtain r1 l1 l2 where s: "submit_in_transaction E now i g a token raw status l = Inr (r1, l1)"
    and b: "bind_terminal_integrity i (sha256 E raw) l1 = Inr l2"
    and f: "finalize_in_transaction E now i [] None (reset_retry i l2) = Inr (r, l')"
    by (auto simp: commit_in_transaction_def bind_res_Inr_iff)
  from submit_holds [OF s assms(2) dist] have h1: "holds l l1" "harness l1 = harness l" by blast+
  have part: "law_part (reset_retry i l2) = law_part l1" using bind_integrity_part [OF b] by simp
  from keeps_holds [OF keeps_law_part [OF holds_tidy [OF h1(1)] part]] have h2: "holds l1 (reset_retry i l2)" .
  from finalize_keeps [OF f holds_tidy [OF h2]] have h3: "holds (reset_retry i l2) l'" "harness l' = harness (reset_retry i l2)"
    by (simp_all add: keeps_holds)
  have "harness (reset_retry i l2) = harness l1" using part unfolding law_part_iff by blast
  with holds_trans [OF h1(1) holds_trans [OF h2 h3(1)]] h1(2) h3(2) show ?thesis by simp
qed

lemma tidy_extend: "tidy l \<Longrightarrow> tidy (extend_capability i g a t l)"
  using backed_kept [OF extend_kept] by (auto simp: tidy_def raw_backed_def)

lemma extend_holds: "tidy l \<Longrightarrow> holds l (extend_capability i g a t l)"
  by (simp add: holds_def tidy_extend queue_le_def rows_le_refl queue_row_le_refl harness_le_refl extend_kept)

lemma extend_keys: "map (\<lambda>c. (c_dispatch c, c_generation c, c_attempt c)) (capabilities (extend_capability i g a t l))
    = map (\<lambda>c. (c_dispatch c, c_generation c, c_attempt c)) (capabilities l)"
  by (simp add: extend_capability_def map_update_where)

lemma retained_commits:
  assumes "retained_in_transaction E now i g a token raw status l = Inr (r, l')"
  obtains c where "select_one (is_capability i g a) (capabilities l) = Some c" "c_consumed c = None" "late_result_allowed l i g a"
    "commit_in_transaction E now i g a token raw status (extend_capability i g a (now + CAPABILITY_MIN) l) = Inr (r, l')"
  using assms by (auto simp: retained_in_transaction_def bind_res_Inr_iff split: option.splits)

lemma retained_holds:
  assumes "retained_in_transaction E now i g a token raw status l = Inr (r, l')" "tidy l"
    and dist: "distinct (map (\<lambda>c. (c_dispatch c, c_generation c, c_attempt c)) (capabilities l))"
  shows "holds l l' \<and> harness l' = harness l"
proof -
  from assms(1) have "commit_in_transaction E now i g a token raw status (extend_capability i g a (now + CAPABILITY_MIN) l) = Inr (r, l')"
    by (rule retained_commits)
  from commit_holds [OF this tidy_extend [OF assms(2)]] dist
  have "holds (extend_capability i g a (now + CAPABILITY_MIN) l) l'" "harness l' = harness l" by (simp_all add: extend_keys)
  with holds_trans [OF extend_holds [OF assms(2)]] show ?thesis by blast
qed

lemma update_where_twice:
  assumes "\<And>r. P (g r) = P r"
  shows "update_where P f (update_where P g rows) = update_where P (\<lambda>r. f (g r)) rows"
  using assms by (simp add: update_where_def)

lemma ingest_holds:
  assumes "ingest_in_transaction E now i raw status l = Inr (r, l')" "queue_inv E l"
  shows "holds l l' \<and> harness l' = harness l"
proof -
  note base = queue_inv_base [OF assms(2)] and tidy = queue_base_tidy [OF queue_inv_base [OF assms(2)]]
  note body = assms(1) [unfolded ingest_in_transaction_def bind_res_Inr_iff queue_dispatch_iff]
  from body obtain q where q: "lookup_by q_dispatch i (queue l) = Some q" by blast
  show ?thesis
  proof (cases "q_state q \<in> {Queue_Completed, Queue_Failed}")
    case True
    with body q have "law_part l' = law_part l" by (auto simp: bind_res_Inr_iff dest: bind_integrity_part split: if_splits)
    with keeps_holds [OF keeps_law_part [OF tidy this]] show ?thesis by (simp add: law_part_iff)
  next
    case False
    let ?f = "\<lambda>r. r\<lparr>q_state := Result_Submitted, q_raw := Some (raw, sha256 E raw), q_terminal := Some status, q_updated := now\<rparr>"
    from body q False obtain recs l3 where st: "q_state q = Inspection_Pending"
      and b: "bind_terminal_integrity i (sha256 E raw) (reset_retry i ((update_queue i ?f l)\<lparr>recoveries := recs\<rparr>)) = Inr l3"
      and f: "finalize_in_transaction E now i [] None l3 = Inr (r, l')"
      by (auto simp: bind_res_Inr_iff Let_def)
    from bind_integrity_part [OF b] have l3: "law_part l3 = law_part (update_queue i ?f l)" by simp
    have qi: "q \<in> set (queue l)" "q_dispatch q = i" using lookup_by_in [OF q] by simp_all
    have look: "lookup_by q_dispatch i (queue l3) = Some (?f q)"
      using l3 q qi(2) by (simp add: law_part_iff update_queue_def lookup_update_if)
    have raw: "q_raw q = None"
      using assms(2) validate_queueD(2) [of E l q] qi(1) check_queue_rowD(3) [of l q] st
      by (simp add: queue_inv_def validate_rows_iff active_states_def)
    from f have parts: "queue l' = update_where (\<lambda>r. q_dispatch r = i) (\<lambda>r. (?f r)\<lparr>q_state := terminal_state (?f q), q_updated := now\<rparr>) (queue l)
        \<and> capabilities l' = capabilities l \<and> harness l' = harness l"
    proof (cases rule: finalize_cases)
      case (same q')
      with look show ?thesis by (simp add: closed_states_def)
    next
      case (new q')
      with look l3 show ?thesis by (simp add: law_part_iff update_queue_def update_where_twice)
    qed
    have only: "r = q" if "r \<in> set (queue l)" "q_dispatch r = i" for r
      using same_key_same_row [of q_dispatch "queue l" r q] that tidy qi by (auto simp: tidy_def)
    have "holds l l'"
    proof (rule holds_update [OF tidy conjunct1 [OF parts]])
      fix r assume "r \<in> set (queue l)" "q_dispatch r = i"
      with only have r: "r = q" by blast
      show "queue_row_le r ((?f r)\<lparr>q_state := terminal_state (?f q), q_updated := now\<rparr>)"
        unfolding r using raw st by (simp add: queue_row_le_def queue_identity_def closed_states_def)
    next
      fix r :: queue_row
      assume "q_state ((?f r)\<lparr>q_state := terminal_state (?f q), q_updated := now\<rparr>) \<notin> {Queue_Completed, Queue_Failed}"
      with terminal_state_closed [of "?f q"] show "backed l' ((?f r)\<lparr>q_state := terminal_state (?f q), q_updated := now\<rparr>)" by simp
    qed (use parts in \<open>simp_all add: harness_le_refl consumed_kept_def\<close>)
    with parts show ?thesis by simp
  qed
qed

lemma notification_part: "record_notification_attempt now i task d st l = Inr (n, l') \<Longrightarrow> law_part l' = law_part l"
  unfolding record_notification_attempt_def
  by (auto simp: bind_res_Inr_iff Let_def dest!: insert_parts(5) split: option.splits if_splits)

end
