(* ===== verification/Recovery_Laws.thy ===== *)
theory Recovery_Laws
  imports Delivery_Laws
begin

text \<open>
  Wakes, checkpoints, enqueueing, retries and recovery are quiet: they keep the laws of the queue and
  accept no result, and leave the harness, the workflow tables and the remaining capabilities alone.
\<close>

definition quiet :: "ledger \<Rightarrow> ledger \<Rightarrow> bool" where
  "quiet l l' \<longleftrightarrow> keeps l l' \<and> harness l' = harness l \<and> workflow_part l' = workflow_part l
     \<and> set (capabilities l') \<subseteq> set (capabilities l)"

lemma quiet_trans: "quiet l l' \<Longrightarrow> quiet l' l'' \<Longrightarrow> quiet l l''"
  using keeps_trans by (auto simp: quiet_def)

lemma quiet_part: "tidy l \<Longrightarrow> law_part l' = law_part l \<Longrightarrow> quiet l l'"
  using keeps_law_part by (simp add: quiet_def law_part_iff)

lemma quiet_tidy: "quiet l l' \<Longrightarrow> tidy l'"
  by (simp add: quiet_def keeps_def holds_def)

definition row_facts where
  "row_facts q = (queue_identity q, q_attempt q, q_raw q, q_terminal q)"

lemma row_facts_update [simp]:
  "row_facts (q\<lparr>q_state := st\<rparr>) = row_facts q" "row_facts (q\<lparr>q_updated := t\<rparr>) = row_facts q"
  "row_facts (q\<lparr>q_available := t\<rparr>) = row_facts q"
  by (simp_all add: row_facts_def queue_identity_def)

lemma quiet_state:
  assumes "tidy l" "queue l' = update_where P f (queue l)"
    and "\<And>r. row_facts (f r) = row_facts r"
    and "\<And>r. r \<in> set (queue l) \<Longrightarrow> P r \<Longrightarrow> q_state r \<notin> closed_states"
    and "capabilities l' = capabilities l" "harness l' = harness l" "workflow_part l' = workflow_part l"
  shows "quiet l l'"
proof -
  have f: "q_dispatch (f r) = q_dispatch r" "q_raw (f r) = q_raw r" "queue_identity (f r) = queue_identity r"
    "q_attempt (f r) = q_attempt r" "q_terminal (f r) = q_terminal r" for r
    using assms(3) [of r] by (simp_all add: row_facts_def queue_identity_def)
  have "keeps l l'"
    by (rule keeps_update_tidy [OF assms(1,2)])
      (use f assms(4-6) in \<open>auto simp: queue_row_le_def harness_le_refl consumed_kept_def\<close>)
  with assms(5-7) show ?thesis by (simp add: quiet_def)
qed

section \<open>Wakes and checkpoints\<close>

lemma update_wakes_part: "update_wakes P f l = Inr l' \<Longrightarrow> law_part l' = law_part l"
  by (auto simp: update_wakes_def bind_res_Inr_iff)

lemma returning_wake_Inr: "returning_wake i l = Inr (w, l') \<longleftrightarrow> l' = l \<and> lookup_by w_delivery i (wakes l) = Some w"
  by (auto simp: returning_wake_def split: option.splits)

lemma claim_wake_part: "claim_wake i l = Inr (w, l') \<Longrightarrow> law_part l' = law_part l"
  unfolding claim_wake_def
  by (auto simp: bind_res_Inr_iff returning_wake_Inr split: option.splits if_splits dest!: update_wakes_part)

lemma reconcile_parts:
  "reconcile_inflight_wakes l = Inr (u, l') \<Longrightarrow> law_part l' = law_part l"
  "reconcile_exhausted_wake_notifications now l = Inr (u, l') \<Longrightarrow> law_part l' = law_part l"
  "reconcile_wake_delivery i turn l = Inr (w, l') \<Longrightarrow> law_part l' = law_part l"
  unfolding reconcile_inflight_wakes_def reconcile_exhausted_wake_notifications_def reconcile_wake_delivery_def
  by (auto simp: bind_res_Inr_iff returning_wake_Inr split: option.splits if_splits dest!: update_wakes_part)

lemma delivery_parts:
  "deliver_wake i w turn l = Inr l' \<Longrightarrow> law_part l' = law_part l" "lose_wake i w turn l = Inr l' \<Longrightarrow> law_part l' = law_part l"
  "fail_wake now i w turn l = Inr l' \<Longrightarrow> law_part l' = law_part l"
  unfolding deliver_wake_def lose_wake_def fail_wake_def
  by (auto simp: bind_res_Inr_iff Let_def split: if_splits dest!: update_wakes_part)

lemma record_delivery_part: "record_wake_delivery now i st turn l = Inr (w, l') \<Longrightarrow> law_part l' = law_part l"
  unfolding record_wake_delivery_def
  by (auto simp: bind_res_Inr_iff returning_wake_Inr split: option.splits if_splits dest!: delivery_parts)

lemma checkpoint_parts:
  "claim_due_checkpoint now epoch current l = Inr (wo, l') \<Longrightarrow> law_part l' = law_part l"
  "rearm_checkpoint now i seconds l = Inr (b, l') \<Longrightarrow> law_part l' = law_part l"
  unfolding claim_due_checkpoint_def rearm_checkpoint_def
  by (auto simp: bind_res_Inr_iff Let_def split: list.splits option.splits dest!: insert_parts(1) ensure_part)

section \<open>Enqueueing\<close>

lemma enqueue_cases:
  assumes "enqueue_in_transaction E now a d l = Inr (q, l')"
  obtains "l' = l" "lookup_by q_dispatch (dp_id d) (queue l) = Some q" "same_enqueue E a d q l = Inr ()"
  | "queue l' = queue l @ [q]" "q_dispatch q \<notin> q_dispatch ` set (queue l)" "q_raw q = None"
      "capabilities l' = capabilities l" "harness l' = harness l" "workflow_part l' = workflow_part l"
proof (cases "lookup_by q_dispatch (dp_id d) (queue l)")
  case (Some q0)
  with assms that(1) show thesis by (auto simp: enqueue_in_transaction_def Let_def bind_res_Inr_iff)
next
  case None
  then have "dp_id d \<notin> q_dispatch ` set (queue l)" by (simp add: lookup_by_None)
  moreover from None assms obtain t deadline where "insert_queue E a d t deadline l = Inr (q, l')"
    by (auto simp: enqueue_in_transaction_def Let_def bind_res_Inr_iff)
  ultimately show thesis
    by (intro that(2)) (auto simp: insert_queue_def Let_def bind_res_Inr_iff new_queue_row_def workflow_part_def)
qed

lemma enqueue_quiet:
  assumes "enqueue_in_transaction E now a d l = Inr (q, l')" "tidy l"
  shows "quiet l l'"
proof -
  from assms(1) consider "l' = l" | "queue l' = queue l @ [q]" "q_dispatch q \<notin> q_dispatch ` set (queue l)" "q_raw q = None"
      "capabilities l' = capabilities l" "harness l' = harness l" "workflow_part l' = workflow_part l"
    by (rule enqueue_cases) blast+
  then show ?thesis
  proof cases
    case 1
    then show ?thesis using quiet_part [OF assms(2)] by simp
  next
    case 2
    have le: "rows_le q_dispatch le (queue l) (queue l')" if "\<And>x. le x x" for le
      using that by (auto simp: rows_le_def 2(1) lookup_by_append)
    have "tidy l'" using assms(2) 2 by (auto simp: tidy_def raw_backed_def backed_def)
    with 2 le [of queue_row_le] le [of "\<lambda>x y. q_raw y = q_raw x"] show ?thesis
      by (simp add: quiet_def keeps_def holds_def raw_same_def queue_le_def queue_row_le_refl harness_le_refl consumed_kept_def)
  qed
qed

section \<open>Back to the queue\<close>

text \<open>A row that is queued again has no result in the end, and its capabilities go with the attempt.\<close>

lemma requeue_quiet:
  assumes "tidy l" "lookup_by q_dispatch i (queue l) = Some q" "q_state q \<notin> closed_states"
    and cap: "\<And>c. c \<in> set (capabilities l) \<Longrightarrow> c_dispatch c = i \<Longrightarrow> check_capability l0 c = Inr ()"
    and "lookup_by q_dispatch i (queue l0) = Some q0" "q_raw q0 = q_raw q"
    and l': "law_part l' = law_part (requeue now available i l)" and ok: "validate_queue E l' = Inr ()"
  shows "quiet l l'"
proof -
  let ?f = "\<lambda>q. q\<lparr>q_state := Queued, q_claim := None, q_attempt := q_attempt q + 1, q_thread := None, q_host := None,
    q_available := available, q_updated := now\<rparr>"
  from l' have parts: "queue l' = update_where (\<lambda>r. q_dispatch r = i) ?f (queue l)"
    "capabilities l' = delete_where (\<lambda>c. c_dispatch c = i) (capabilities l)" "harness l' = harness l"
    "workflow_part l' = workflow_part l"
    by (simp_all add: law_part_iff requeue_def Let_def update_queue_def forget_attempt_def)
  have qi: "q \<in> set (queue l)" "q_dispatch q = i" using lookup_by_in [OF assms(2)] by simp_all
  have "lookup_by q_dispatch i (queue l') = Some (?f q)" using assms(2) qi by (simp add: parts lookup_update_if)
  from lookup_by_in [OF this] have "?f q \<in> set (queue l')" by (rule conjunct1)
  from check_queue_rowD(3) [OF validate_queueD(2) [OF ok this]] have raw: "q_raw q = None" by (simp add: active_states_def)
  have only: "r = q" if "r \<in> set (queue l)" "q_dispatch r = i" for r
    using same_key_same_row [of q_dispatch "queue l" r q] that qi assms(1) by (simp add: tidy_def)
  have "c_consumed c = None" if c: "c \<in> set (capabilities l)" "c_dispatch c = i" for c
  proof (rule ccontr)
    assume "c_consumed c \<noteq> None"
    with cap [OF c] c(2) assms(5,6) raw show False by (auto elim: check_capabilityD)
  qed
  then have caps: "consumed_kept l l'" by (auto simp: consumed_kept_def parts(2) set_delete_where)
  have "keeps l l'"
  proof (rule keeps_update_tidy [OF assms(1) parts(1)])
    fix r assume "r \<in> set (queue l)" "q_dispatch r = i"
    with only have "r = q" by blast
    then show "queue_row_le r (?f r)" using raw assms(3) by (simp add: queue_row_le_def queue_identity_def)
  qed (use caps parts(3) in \<open>simp_all add: harness_le_refl\<close>)
  with parts show ?thesis by (auto simp: quiet_def set_delete_where)
qed

text \<open>The same from a ledger that satisfies the invariant, after steps that do not touch its rows.\<close>

lemma requeue_quiet_inv:
  assumes inv: "queue_base l" and "law_part l1 = law_part l" "lookup_by q_dispatch i (queue l) = Some q" "q_state q \<notin> closed_states"
    and "law_part l' = law_part (requeue now available i l1)" "validate_queue E l' = Inr ()"
  shows "quiet l l'"
proof -
  from assms(2) have same: "queue l1 = queue l" "capabilities l1 = capabilities l" by (simp_all add: law_part_iff)
  from inv assms(2) have t: "tidy l" "tidy l1" by (simp_all add: queue_base_tidy tidy_law_part)
  from assms(3) have q1: "lookup_by q_dispatch i (queue l1) = Some q" by (simp add: same)
  have "quiet l1 l'"
    by (rule requeue_quiet [OF t(2) q1 assms(4) _ assms(3) refl assms(5,6)])
      (use inv same in \<open>simp add: queue_base_def\<close>)
  from quiet_trans [OF quiet_part [OF t(1) assms(2)] this] show ?thesis .
qed

section \<open>Retries\<close>

lemma return_retry_Inr: "return_retry i l = Inr (r, l') \<longleftrightarrow> l' = l \<and> lookup_by rp_dispatch i (retries l) = Some r"
  by (auto simp: return_retry_def split: option.splits)

lemma law_part_queue: "law_part l' = law_part (update_queue i f l) \<Longrightarrow>
    queue l' = update_where (\<lambda>q. q_dispatch q = i) f (queue l) \<and> capabilities l' = capabilities l \<and> harness l' = harness l
    \<and> workflow_part l' = workflow_part l"
  by (simp add: law_part_iff update_queue_def)

lemma quiet_update_queue:
  assumes "tidy l" "lookup_by q_dispatch i (queue l) = Some q" "q_state q \<notin> closed_states"
    and "law_part l' = law_part (update_queue i f l)"
    and "\<And>r. row_facts (f r) = row_facts r"
  shows "quiet l l'"
proof -
  have only: "r = q" if "r \<in> set (queue l)" "q_dispatch r = i" for r
    using same_key_same_row [of q_dispatch "queue l" r q] that assms(1) lookup_by_in [OF assms(2)] by (simp add: tidy_def)
  note parts = law_part_queue [OF assms(4)]
  show ?thesis
    by (rule quiet_state [OF assms(1) conjunct1 [OF parts] assms(5)]) (use parts only assms(3) in auto)
qed

lemma update_queue_law_part: "law_part l1 = law_part l \<Longrightarrow> law_part (update_queue i f l1) = law_part (update_queue i f l)"
  by (simp add: law_part_iff update_queue_def)

lemma consume_cases:
  assumes "consume_retry E now i fc strat prior req q r l = Inr (x, l')"
  obtains l1 available where "law_part l1 = law_part l"
    "l' = requeue now available i l1 \<or> l' = l1 \<or> l' = update_queue i (\<lambda>x. x\<lparr>q_available := available, q_updated := now\<rparr>) l1"
proof -
  from assms obtain due where due: "(let available = (case due of None \<Rightarrow> now | Some t \<Rightarrow> t);
         l1 = widen_budgets fc i r (update_retry i (\<lambda>x. (count_failure fc x)\<lparr>rp_revision := rp_revision x + 1,
                rp_last_failure := Some (lit (failure_text fc)), rp_strategy := strat, rp_next_eligible := due,
                rp_prior := prior\<rparr>) l);
         exited = (case lookup_by l_dispatch i (liveness l1) of None \<Rightarrow> True | Some w \<Rightarrow> l_exited w \<noteq> None);
         l2 = (if fc = PRE_IDENTITY_TRANSPORT
               then (if q_state q \<noteq> Queued \<and> exited then requeue now available i l1 else l1)
               else if q_state q = Queued \<and> strat = Backoff
               then update_queue i (\<lambda>x. x\<lparr>q_available := available, q_updated := now\<rparr>) l1 else l1)
     in return_retry i l2) = Inr (x, l')"
    unfolding consume_retry_def bind_res_Inr_iff by blast
  define l1 where "l1 = widen_budgets fc i r (update_retry i (\<lambda>x. (count_failure fc x)\<lparr>rp_revision := rp_revision x + 1,
                rp_last_failure := Some (lit (failure_text fc)), rp_strategy := strat, rp_next_eligible := due,
                rp_prior := prior\<rparr>) l)"
  show thesis
  proof (rule that [of l1])
    show "law_part l1 = law_part l" by (simp add: l1_def)
    show "l' = requeue now (case due of None \<Rightarrow> now | Some t \<Rightarrow> t) i l1 \<or> l' = l1
        \<or> l' = update_queue i (\<lambda>x. x\<lparr>q_available := (case due of None \<Rightarrow> now | Some t \<Rightarrow> t), q_updated := now\<rparr>) l1"
      using due [folded l1_def] unfolding Let_def return_retry_Inr by (simp split: if_splits)
  qed
qed

lemma consume_quiet:
  assumes "consume_retry E now i fc strat prior req q r l = Inr (x, l')" "queue_base l"
    and q: "lookup_by q_dispatch i (queue l) = Some q" "q_state q \<notin> closed_states" and ok: "validate_queue E l' = Inr ()"
  shows "quiet l l'"
proof -
  from assms(1) obtain l1 available where l1: "law_part l1 = law_part l"
    and l': "l' = requeue now available i l1 \<or> l' = l1 \<or> l' = update_queue i (\<lambda>x. x\<lparr>q_available := available, q_updated := now\<rparr>) l1"
    by (rule consume_cases)
  from l' show ?thesis
  proof (elim disjE)
    assume "l' = requeue now available i l1"
    with requeue_quiet_inv [OF assms(2) l1 q _ ok] show ?thesis by simp
  next
    assume "l' = l1"
    with quiet_part [OF queue_base_tidy [OF assms(2)]] l1 show ?thesis by simp
  next
    assume "l' = update_queue i (\<lambda>x. x\<lparr>q_available := available, q_updated := now\<rparr>) l1"
    with update_queue_law_part [OF l1] show ?thesis
      by (intro quiet_update_queue [OF queue_base_tidy [OF assms(2)] q, where f = "\<lambda>x. x\<lparr>q_available := available, q_updated := now\<rparr>"])
        simp_all
  qed
qed

lemma demand_part: "law_part (demand_attention now i fc prior reason l) = law_part (update_queue i (\<lambda>x. x\<lparr>q_state := Human_Attention, q_updated := now\<rparr>) l)"
  unfolding demand_attention_def law_part_helpers by (rule update_queue_law_part) simp

lemma retry_failure_cases:
  assumes "record_retry_failure E now i fc prior req att l = Inr (x, l')"
  obtains r q where "lookup_by rp_dispatch i (retries l) = Some r" "lookup_by q_dispatch i (queue l) = Some q"
    "q_state q \<notin> closed_states"
    "l' = l \<or> (\<exists>strat. consume_retry E now i fc strat prior req q r l = Inr (x, l'))
      \<or> (\<exists>reason. l' = demand_attention now i fc prior reason l)"
proof -
  note body = assms [unfolded record_retry_failure_def bind_res_Inr_iff]
  from body obtain r q where rq: "lookup_by rp_dispatch i (retries l) = Some r" "lookup_by q_dispatch i (queue l) = Some q"
    by (auto split: option.splits)
  from body rq have st: "q_state q \<notin> {Queue_Completed, Queue_Failed, Queue_Cancelled, Result_Submitted, Finalizing}"
    by (simp add: bind_res_Inr_iff)
  show thesis
  proof (cases "rp_strategy r = Attention_Strategy")
    case True
    with body rq st have "l' = l" by (simp add: bind_res_Inr_iff)
    with that [OF rq] st show thesis by (simp add: closed_states_def)
  next
    case False
    with body rq st have "(\<exists>strat. consume_retry E now i fc strat prior req q r l = Inr (x, l')) \<or> l' = l
        \<or> (\<exists>reason. l' = demand_attention now i fc prior reason l)"
      by (cases "retry_allowed fc r"; cases "retry_strategy fc") (auto simp: bind_res_Inr_iff Let_def return_retry_Inr)
    with that [OF rq] st show thesis by (auto simp: closed_states_def)
  qed
qed

lemma retry_failure_quiet:
  assumes "record_retry_failure E now i fc prior req att l = Inr (x, l')" "queue_base l" "validate_queue E l' = Inr ()"
  shows "quiet l l'"
proof -
  from assms(1) obtain r q where r: "lookup_by rp_dispatch i (retries l) = Some r" and q: "lookup_by q_dispatch i (queue l) = Some q"
    and st: "q_state q \<notin> closed_states"
    and c: "l' = l \<or> (\<exists>strat. consume_retry E now i fc strat prior req q r l = Inr (x, l'))
      \<or> (\<exists>reason. l' = demand_attention now i fc prior reason l)" by (rule retry_failure_cases)
  from c show ?thesis
  proof (elim disjE exE)
    assume "l' = l"
    then show ?thesis using quiet_part [OF queue_base_tidy [OF assms(2)]] by simp
  next
    fix strat assume "consume_retry E now i fc strat prior req q r l = Inr (x, l')"
    from consume_quiet [OF this assms(2) q st assms(3)] show ?thesis .
  next
    fix reason assume "l' = demand_attention now i fc prior reason l"
    then show ?thesis
      by (intro quiet_update_queue [OF queue_base_tidy [OF assms(2)] q st, where f = "\<lambda>x. x\<lparr>q_state := Human_Attention, q_updated := now\<rparr>"])
        (simp_all add: demand_part)
  qed
qed

section \<open>The exit of a worker\<close>

lemma law_part_queue_set: "law_part l1 = law_part l \<Longrightarrow> law_part (l1\<lparr>queue := qs\<rparr>) = law_part (l\<lparr>queue := qs\<rparr>)"
  by (simp add: law_part_def workflow_part_def)

definition attention_rows :: "time \<Rightarrow> pystr \<Rightarrow> queue_row list \<Rightarrow> queue_row list" where
  "attention_rows now i = update_where (\<lambda>x. q_dispatch x = i
       \<and> q_state x \<notin> {Queue_Completed, Queue_Failed, Queue_Cancelled, Result_Submitted, Finalizing})
     (\<lambda>x. x\<lparr>q_state := Human_Attention, q_updated := now\<rparr>)"

lemma exit_retry_cases:
  obtains l1 available where "law_part l1 = law_part l" "exit_retry now i st fc strat thread r due l = requeue now available i l1
     \<or> exit_retry now i st fc strat thread r due l = l1
     \<or> exit_retry now i st fc strat thread r due l = update_queue i (\<lambda>x. x\<lparr>q_available := available, q_updated := now\<rparr>) l1"
proof (rule that [of "widen_budgets fc i r (update_retry i (\<lambda>x. (count_failure fc x)\<lparr>rp_revision := rp_revision x + 1,
    rp_last_failure := Some (lit (failure_text fc)), rp_strategy := strat, rp_next_eligible := due,
    rp_prior := (thread, snd (rp_prior x)), rp_attention := None\<rparr>) l)" "case due of None \<Rightarrow> now | Some t \<Rightarrow> t"])
qed (simp_all add: exit_retry_def Let_def)

lemma exit_attention_cases:
  obtains l1 where "law_part l1 = law_part l" "exit_attention now i fc thread l = l1\<lparr>queue := attention_rows now i (queue l1)\<rparr>"
proof (rule that [of "update_recovery i (\<lambda>x. x\<lparr>rs_state := Rec_Attention, rs_next_eligible := None,
    rs_attention := Some (exit_reason fc)\<rparr>) (update_retry i (\<lambda>x. x\<lparr>rp_revision := rp_revision x + 1,
      rp_last_failure := Some (lit (failure_text fc)), rp_strategy := Attention_Strategy, rp_next_eligible := None,
      rp_prior := (thread, None), rp_attention := Some (exit_reason fc)\<rparr>) l)"])
qed (simp_all add: exit_attention_def Let_def attention_rows_def)

lemma apply_exit_cases:
  assumes "apply_exit_retry_policy E now i st fc thread amb l = Inr l'"
  obtains l1 available where "law_part l1 = law_part l"
    "l' = requeue now available i l1 \<or> l' = l1 \<or> l' = update_queue i (\<lambda>x. x\<lparr>q_available := available, q_updated := now\<rparr>) l1
       \<or> l' = l1\<lparr>queue := attention_rows now i (queue l1)\<rparr>"
proof -
  from assms consider strat r due where "l' = exit_retry now i st fc strat thread r due l" | "law_part l' = law_part l"
      | "l' = exit_attention now i fc thread l"
    by (auto simp: apply_exit_retry_policy_def bind_res_Inr_iff split: option.splits if_splits)
  then show thesis
  proof cases
    case (1 strat r due)
    show thesis by (rule exit_retry_cases [of l now i st fc strat thread r due]) (use that 1 in blast)
  next
    case 3
    show thesis by (rule exit_attention_cases [of l now i fc thread]) (use that 3 in blast)
  qed (use that in blast)
qed

lemma arm_inspection_part:
  obtains st where "law_part (arm_inspection now i label code transient r l) = law_part (l\<lparr>queue :=
    update_where (\<lambda>q. q_dispatch q = i \<and> q_state q \<in> {Claimed, Starting, Running}) (\<lambda>q. q\<lparr>q_state := st, q_updated := now\<rparr>) (queue l)\<rparr>)"
    "st \<in> {Inspection_Pending, Human_Attention}"
proof (rule that [of "if fst (rs_inspection r) < snd (rs_inspection r) then Inspection_Pending else Human_Attention"])
  show "law_part (arm_inspection now i label code transient r l) = law_part (l\<lparr>queue :=
    update_where (\<lambda>q. q_dispatch q = i \<and> q_state q \<in> {Claimed, Starting, Running})
      (\<lambda>q. q\<lparr>q_state := (if fst (rs_inspection r) < snd (rs_inspection r) then Inspection_Pending else Human_Attention),
            q_updated := now\<rparr>) (queue l)\<rparr>)"
    unfolding arm_inspection_def Let_def by (simp add: update_recovery_def law_part_def workflow_part_def update_retry_def)
qed simp

lemma mark_exit_cases:
  assumes "mark_worker_exit E now i pid birth code cl l = Inr (u, l')"
  obtains (quick) "law_part l' = law_part l"
  | (policy) w q r label tr fc thread amb where "lookup_by l_dispatch i (liveness l) = Some w" "l_exited w = None"
      "lookup_by q_dispatch i (queue l) = Some q" "q_state q \<notin> {Result_Submitted, Queue_Completed, Queue_Failed, Queue_Cancelled}"
      "lookup_by rs_dispatch i (recoveries l) = Some r" "exit_label cl code = Inr label"
      "tr = (cl = Some (lit ''transient-after-identity'') \<or> code = Some 79)"
      "fc = (case exit_failure cl code of None \<Rightarrow> UNKNOWN | Some f \<Rightarrow> f)"
      "apply_exit_retry_policy E now i (q_state q) fc thread amb (arm_inspection now i label code tr r (record_exit now i l)) = Inr l'"
proof -
  note body = assms [unfolded mark_worker_exit_def bind_res_Inr_iff]
  from body obtain w q where wq: "lookup_by l_dispatch i (liveness l) = Some w" "lookup_by q_dispatch i (queue l) = Some q"
    by (auto split: option.splits)
  show thesis
  proof (cases "l_exited w \<noteq> None \<or> q_state q \<in> {Result_Submitted, Queue_Completed, Queue_Failed, Queue_Cancelled}")
    case True
    with body wq have "law_part l' = law_part l" by (auto simp: bind_res_Inr_iff split: if_splits)
    then show thesis by (rule quick)
  next
    case False
    with body wq obtain r label thread amb where "lookup_by rs_dispatch i (recoveries l) = Some r" "exit_label cl code = Inr label"
      "apply_exit_retry_policy E now i (q_state q) (case exit_failure cl code of None \<Rightarrow> UNKNOWN | Some f \<Rightarrow> f) thread amb
         (arm_inspection now i label code (cl = Some (lit ''transient-after-identity'') \<or> code = Some 79) r (record_exit now i l)) = Inr l'"
      by (auto simp: bind_res_Inr_iff Let_def split: option.splits)
    with False wq show thesis by (intro policy [OF wq(1) _ wq(2) _ _ _ refl refl]) simp_all
  qed
qed

lemma mark_exit_quiet:
  assumes "mark_worker_exit E now i pid birth code cl l = Inr (u, l')" "queue_base l" and ok: "validate_queue E l' = Inr ()"
  shows "quiet l l'"
proof -
  note tidy = queue_base_tidy [OF assms(2)]
  from assms(1) show ?thesis
  proof (cases rule: mark_exit_cases)
    case quick
    with quiet_part [OF tidy] show ?thesis by blast
  next
    case (policy w q r label tr fc thread amb)
    let ?l = "arm_inspection now i label code tr r (record_exit now i l)"
    obtain st where part: "law_part ?l = law_part ((record_exit now i l)\<lparr>queue := update_where
        (\<lambda>q. q_dispatch q = i \<and> q_state q \<in> {Claimed, Starting, Running}) (\<lambda>q. q\<lparr>q_state := st, q_updated := now\<rparr>)
        (queue (record_exit now i l))\<rparr>)" and st: "st \<in> {Inspection_Pending, Human_Attention}" by (rule arm_inspection_part)
    then have parts: "queue ?l = update_where (\<lambda>q. q_dispatch q = i \<and> q_state q \<in> {Claimed, Starting, Running})
        (\<lambda>q. q\<lparr>q_state := st, q_updated := now\<rparr>) (queue l)" "capabilities ?l = capabilities l" "harness ?l = harness l"
      "workflow_part ?l = workflow_part l"
      by (simp_all add: law_part_iff record_exit_def workflow_part_def)
    have arm: "quiet l ?l"
      by (rule quiet_state [OF tidy parts(1)]) (use parts in \<open>auto simp: closed_states_def\<close>)
    let ?q = "if q_state q \<in> {Claimed, Starting, Running} then q\<lparr>q_state := st, q_updated := now\<rparr> else q"
    have qi: "q_dispatch q = i" using lookup_by_in [OF policy(3)] by simp
    have q1: "lookup_by q_dispatch i (queue ?l) = Some ?q" "q_state ?q \<notin> closed_states" "q_raw ?q = q_raw q"
      using policy(3,4) qi st by (auto simp: parts(1) lookup_update_if closed_states_def)
    from policy(9) obtain l1 available where l1: "law_part l1 = law_part ?l"
      and l': "l' = requeue now available i l1 \<or> l' = l1 \<or> l' = update_queue i (\<lambda>x. x\<lparr>q_available := available, q_updated := now\<rparr>) l1
       \<or> l' = l1\<lparr>queue := attention_rows now i (queue l1)\<rparr>" by (rule apply_exit_cases)
    from quiet_trans [OF arm quiet_part [OF quiet_tidy [OF arm] l1]] have l_l1: "quiet l l1" .
    note tidy1 = quiet_tidy [OF l_l1]
    from l1 parts have same: "queue l1 = queue ?l" "capabilities l1 = capabilities l" by (simp_all add: law_part_iff)
    with q1(1) have q2: "lookup_by q_dispatch i (queue l1) = Some ?q" by simp
    from l' have "quiet l1 l'"
    proof (elim disjE)
      assume "l' = requeue now available i l1"
      then show ?thesis
        by (intro requeue_quiet [OF tidy1 q2 q1(2) _ policy(3) q1(3) [symmetric] _ ok])
          (use assms(2) same in \<open>simp_all add: queue_base_def\<close>)
    next
      assume "l' = l1"
      with quiet_part [OF tidy1] show ?thesis by simp
    next
      assume "l' = update_queue i (\<lambda>x. x\<lparr>q_available := available, q_updated := now\<rparr>) l1"
      then show ?thesis
        by (intro quiet_update_queue [OF tidy1 q2 q1(2), where f = "\<lambda>x. x\<lparr>q_available := available, q_updated := now\<rparr>"]) simp_all
    next
      assume "l' = l1\<lparr>queue := attention_rows now i (queue l1)\<rparr>"
      then show ?thesis
        by (intro quiet_state [OF tidy1, of l' "\<lambda>x. q_dispatch x = i
             \<and> q_state x \<notin> {Queue_Completed, Queue_Failed, Queue_Cancelled, Result_Submitted, Finalizing}"
             "\<lambda>x. x\<lparr>q_state := Human_Attention, q_updated := now\<rparr>"]) (auto simp: attention_rows_def closed_states_def)
    qed
    from quiet_trans [OF l_l1 this] show ?thesis .
  qed
qed

section \<open>Recovery\<close>

lemma return_recovery_Inr: "return_recovery i l = Inr (r, l') \<longleftrightarrow> l' = l \<and> lookup_by rs_dispatch i (recoveries l) = Some r"
  by (auto simp: return_recovery_def split: option.splits)

lemma configure_part: "configure_recovery i env prof a b c d l = Inr (r, l') \<Longrightarrow> law_part l' = law_part l"
  unfolding configure_recovery_def by (auto simp: bind_res_Inr_iff return_recovery_Inr split: option.splits)

text \<open>A decision of the recovery moves rows of the given states to another open one.\<close>

lemma quiet_move:
  assumes "tidy l" "law_part l' = law_part (l\<lparr>queue := update_where (\<lambda>q. q_dispatch q = i \<and> q_state q \<in> S)
      (\<lambda>q. q\<lparr>q_state := st, q_updated := t\<rparr>) (queue l)\<rparr>)" "S \<inter> closed_states = {}"
  shows "quiet l l'"
proof -
  from assms(2) have parts: "queue l' = update_where (\<lambda>q. q_dispatch q = i \<and> q_state q \<in> S)
      (\<lambda>q. q\<lparr>q_state := st, q_updated := t\<rparr>) (queue l)" "capabilities l' = capabilities l" "harness l' = harness l"
      "workflow_part l' = workflow_part l" by (simp_all add: law_part_iff workflow_part_def)
  show ?thesis by (rule quiet_state [OF assms(1) parts(1)]) (use parts assms(3) in auto)
qed

lemma settle_part:
  "\<exists>st. law_part (settle_inspection now i kind insp phase due reason r l) = law_part (l\<lparr>queue := update_where (\<lambda>q. q_dispatch q = i
      \<and> q_state q \<in> {Inspection_Pending, Retry_Wait, Continuation_Pending}) (\<lambda>q. q\<lparr>q_state := st, q_updated := now\<rparr>) (queue l)\<rparr>)"
proof (rule exI)
  let ?l2 = "update_retry i (\<lambda>x. x\<lparr>rp_revision := rp_revision x + 1\<rparr>) (update_recovery i (\<lambda>x. x\<lparr>rs_state := phase,
            rs_inspection := (min (fst (rs_inspection r) + 1) (snd (rs_inspection r)), snd (rs_inspection x)),
            rs_next_eligible := due, rs_inspected := (fst insp, snd insp, Some (lit (inspection_text kind))),
            rs_attention := reason\<rparr>) l)"
  have same: "law_part ?l2 = law_part l" by simp
  then have q: "queue ?l2 = queue l" unfolding law_part_iff by blast
  show "law_part (settle_inspection now i kind insp phase due reason r l) = law_part (l\<lparr>queue := update_where (\<lambda>q. q_dispatch q = i
      \<and> q_state q \<in> {Inspection_Pending, Retry_Wait, Continuation_Pending})
        (\<lambda>q. q\<lparr>q_state := decision_state_of phase, q_updated := now\<rparr>) (queue l)\<rparr>)"
    unfolding settle_inspection_def Let_def q
    by (simp only: if_distrib [where f = law_part] law_part_helpers if_cancel law_part_queue_set [OF same])
qed

lemma inspection_cases:
  assumes "record_recovery_inspection E now i kind insp req due att l = Inr (r, l')"
  obtains x where "lookup_by rs_dispatch i (recoveries l) = Some x"
    "l' = l \<or> rs_state x \<in> {Rec_Inspection, Rec_Retry_Wait, Rec_Continuation} \<and> (\<exists>phase due' reason.
       l' = settle_inspection now i kind insp phase due' reason x l
       \<and> (phase \<in> {Rec_Retry_Wait, Rec_Continuation} \<longrightarrow> fst (rs_inspection x) < snd (rs_inspection x)))"
proof -
  note body = assms [unfolded record_recovery_inspection_def bind_res_Inr_iff Let_def]
  from body obtain x where x: "lookup_by rs_dispatch i (recoveries l) = Some x" by (auto simp: bind_res_Inr_iff split: option.splits)
  show thesis
  proof (cases "rs_state x \<in> {Rec_Attention, Rec_Completed, Rec_Failed}")
    case True
    with body x have "l' = l" by (simp add: bind_res_Inr_iff)
    with that [OF x] show thesis by blast
  next
    case False
    with body x show thesis
      by (intro that [OF x]) (auto simp: bind_res_Inr_iff return_recovery_Inr split: if_splits)
  qed
qed

lemma inspection_quiet:
  assumes "record_recovery_inspection E now i kind insp req due att l = Inr (r, l')" "tidy l"
  shows "quiet l l'"
proof -
  from assms(1) obtain x where "l' = l \<or> (\<exists>phase due' reason. l' = settle_inspection now i kind insp phase due' reason x l)"
    by (rule inspection_cases) blast
  then show ?thesis
  proof (elim disjE exE)
    fix phase due' reason assume l': "l' = settle_inspection now i kind insp phase due' reason x l"
    obtain st where "law_part l' = law_part (l\<lparr>queue := update_where (\<lambda>q. q_dispatch q = i
      \<and> q_state q \<in> {Inspection_Pending, Retry_Wait, Continuation_Pending}) (\<lambda>q. q\<lparr>q_state := st, q_updated := now\<rparr>) (queue l)\<rparr>)"
      unfolding l' using settle_part by blast
    from quiet_move [OF assms(2) this] show ?thesis by (simp add: closed_states_def)
  qed (use quiet_part [OF assms(2)] in simp)
qed

lemma attention_quiet:
  assumes "begin_attention now i reason failure l = Inr (b, l')" "tidy l"
  shows "quiet l l'"
proof -
  from assms(1) have "l' = l \<or> l' = attention_now now i reason failure l"
    by (auto simp: begin_attention_def bind_res_Inr_iff split: option.splits if_splits)
  moreover have "quiet l (attention_now now i reason failure l)"
  proof (rule quiet_move [OF assms(2)])
    show "law_part (attention_now now i reason failure l) = law_part (l\<lparr>queue := update_where (\<lambda>q. q_dispatch q = i
        \<and> q_state q \<in> {Queued, Claimed, Starting, Running}) (\<lambda>q. q\<lparr>q_state := Human_Attention, q_updated := now\<rparr>) (queue l)\<rparr>)"
      unfolding attention_now_def Let_def law_part_helpers
      by (simp add: law_part_def workflow_part_def update_retry_def update_recovery_def)
  qed (simp add: closed_states_def)
  ultimately show ?thesis using quiet_part [OF assms(2)] by auto
qed

lemma begin_inspection_quiet:
  assumes "begin_recovery_inspection now i epoch current l = Inr (r, l')" "tidy l"
  shows "quiet l l'"
proof -
  from assms(1) have "l' = (update_retry i (\<lambda>x. x\<lparr>rp_revision := rp_revision x + 1\<rparr>)
      (update_recovery i (\<lambda>x. x\<lparr>rs_state := Rec_Inspection, rs_next_eligible := None\<rparr>) l))\<lparr>queue :=
        update_where (\<lambda>q. q_dispatch q = i \<and> q_state q = Retry_Wait) (\<lambda>q. q\<lparr>q_state := Inspection_Pending, q_updated := current\<rparr>)
          (queue (update_retry i (\<lambda>x. x\<lparr>rp_revision := rp_revision x + 1\<rparr>)
      (update_recovery i (\<lambda>x. x\<lparr>rs_state := Rec_Inspection, rs_next_eligible := None\<rparr>) l)))\<rparr>"
    unfolding begin_recovery_inspection_def bind_res_Inr_iff Let_def
    by (auto simp: bind_res_Inr_iff returning_Inr split: option.splits)
  then show ?thesis
    by (intro quiet_move [OF assms(2), where i = i and S = "{Retry_Wait}" and st = Inspection_Pending and t = current])
      (simp_all add: law_part_def workflow_part_def update_retry_def update_recovery_def closed_states_def)
qed

lemma continuation_cases:
  assumes "begin_recovery_continuation now i epoch nonce current l = Inr (r, l')"
  obtains x q where "lookup_by rs_dispatch i (recoveries l) = Some x" "lookup_by q_dispatch i (queue l) = Some q"
    "q_state q = Continuation_Pending" "live_harness l epoch now"
    "(\<exists>what. l' = exhausted current i what l) \<or> fst (rs_continuation x) < snd (rs_continuation x)
       \<and> (rs_fresh_after_idle x \<longrightarrow> fst (rs_fresh_thread x) < snd (rs_fresh_thread x))
       \<and> l' = continue_row current i (epoch, nonce) (rs_fresh_after_idle x) l"
proof -
  note body = assms [unfolded begin_recovery_continuation_def bind_res_Inr_iff]
  from body obtain x q where xq: "lookup_by rs_dispatch i (recoveries l) = Some x" "lookup_by q_dispatch i (queue l) = Some q"
    by (auto split: option.splits)
  from body xq have "q_state q = Continuation_Pending" "live_harness l epoch now"
    and l': "l' = (if snd (rs_continuation x) \<le> fst (rs_continuation x) then exhausted current i ''continuation budget exhausted'' l
            else if rs_fresh_after_idle x \<and> snd (rs_fresh_thread x) \<le> fst (rs_fresh_thread x)
            then exhausted current i ''fresh-thread budget exhausted'' l
            else continue_row current i (epoch, nonce) (rs_fresh_after_idle x) l)"
    by (auto simp: bind_res_Inr_iff returning_Inr require_live_harness_def)
  with that [OF xq] show thesis by (auto split: if_splits)
qed

lemma exhausted_part: "law_part (exhausted now i what l) = law_part (update_queue i (\<lambda>q. q\<lparr>q_state := Human_Attention, q_updated := now\<rparr>) l)"
  unfolding exhausted_def by (rule update_queue_law_part) simp

lemma continuation_quiet:
  assumes "begin_recovery_continuation now i epoch nonce current l = Inr (r, l')" "queue_inv E l"
  shows "quiet l l'"
proof -
  note base = queue_inv_base [OF assms(2)] note tidy = queue_base_tidy [OF base]
  from assms(1) obtain x q where x: "lookup_by rs_dispatch i (recoveries l) = Some x"
    and q: "lookup_by q_dispatch i (queue l) = Some q" and st: "q_state q = Continuation_Pending" and "live_harness l epoch now"
    and c: "(\<exists>what. l' = exhausted current i what l) \<or> fst (rs_continuation x) < snd (rs_continuation x)
       \<and> (rs_fresh_after_idle x \<longrightarrow> fst (rs_fresh_thread x) < snd (rs_fresh_thread x))
       \<and> l' = continue_row current i (epoch, nonce) (rs_fresh_after_idle x) l" by (rule continuation_cases)
  from c show ?thesis
  proof (elim disjE exE conjE)
    fix what assume "l' = exhausted current i what l"
    then show ?thesis
      by (intro quiet_update_queue [OF tidy q, where f = "\<lambda>q. q\<lparr>q_state := Human_Attention, q_updated := current\<rparr>"])
        (use st in \<open>simp_all add: exhausted_part closed_states_def\<close>)
  next
    assume l': "l' = continue_row current i (epoch, nonce) (rs_fresh_after_idle x) l"
    let ?f = "\<lambda>q. q\<lparr>q_state := Claimed, q_claim := Some (epoch, nonce), q_attempt := q_attempt q + 1,
                  q_thread := (if rs_fresh_after_idle x then None else q_thread q), q_updated := current\<rparr>"
    have parts: "queue l' = update_where (\<lambda>q. q_dispatch q = i \<and> q_state q = Continuation_Pending) ?f (queue l)"
      "capabilities l' = delete_where (\<lambda>c. c_dispatch c = i) (capabilities l)" "harness l' = harness l" "workflow_part l' = workflow_part l"
      by (simp_all add: l' continue_row_def Let_def forget_attempt_def update_recovery_def update_retry_def workflow_part_def)
    have qi: "q \<in> set (queue l)" "q_dispatch q = i" using lookup_by_in [OF q] by simp_all
    have raw: "q_raw q = None"
      using assms(2) validate_queueD(2) [of E l q] qi(1) check_queue_rowD(3) [of l q] st
      by (simp add: queue_inv_def validate_rows_iff active_states_def)
    have caps: "consumed_kept l l'" by (rule consumed_delete [OF base q raw parts(2)])
    have only: "r = q" if "r \<in> set (queue l)" "q_dispatch r = i" for r
      using same_key_same_row [of q_dispatch "queue l" r q] that qi tidy by (simp add: tidy_def)
    have "keeps l l'"
    proof (rule keeps_update_tidy [OF tidy parts(1)])
      fix r assume "r \<in> set (queue l)" "q_dispatch r = i \<and> q_state r = Continuation_Pending"
      with only have "r = q" by blast
      then show "queue_row_le r (?f r)" using raw st by (simp add: queue_row_le_def queue_identity_def closed_states_def)
    qed (use caps parts(3) in \<open>simp_all add: harness_le_refl\<close>)
    with parts show ?thesis by (auto simp: quiet_def set_delete_where)
  qed
qed

end
