(* ===== verification/Queue_Machine.thy ===== *)
theory Queue_Machine
  imports Recovery_Laws
begin

text \<open>
  The dispatch queue as a machine: its operations as data, each run as its own transaction, and the
  invariant and the order every transaction keeps.  No operation of the queue touches the workflow
  tables, so the laws of the workflow half go through as well.
\<close>

section \<open>The machine\<close>

text \<open>
  \<open>retry_dispatch\<close> is not an operation of the machine: nothing calls it, and it would queue a cancelled
  row again when its caller says that it expects one.
\<close>

text \<open>The harness and the attempts of a row; the operations that may accept a result; everything else.\<close>

datatype attempt_op =
    Acquire_Harness int pystr pystr pystr pystr int
  | Renew_Harness int pystr int
  | Shutdown_Harness int pystr
  | Refresh_Fence
  | Cancel_Queue pystr "int option"
  | Acknowledge_Exit pystr pystr int pystr "int option"
  | Claim_Queue int pystr
  | Set_Queue pystr queue_state "int option"
  | Recover_Queue pystr int bool
  | Issue_Capability pystr int int pystr pystr pystr pystr "time option" int
  | Bind_Liveness pystr int int int int pystr pystr int
  | Bind_Thread pystr int int int pystr pystr
  | Renew_Liveness pystr int int pystr int "int option"
  | Adopt_Worker pystr int int pystr pystr
  | Authorize_Successor pystr pystr

datatype result_op =
    Submit_Result pystr int int pystr pystr
  | Commit_Result pystr int int pystr pystr
  | Retained_Result pystr int int pystr pystr
  | Ingest_Result pystr pystr

datatype recovery_op =
    Enqueue_Dispatch enqueue_args
  | Retry_Failure pystr retry_failure "pystr option \<times> pystr option" "time option" "pystr option"
  | Worker_Exit pystr int pystr "int option" "pystr option"
  | Configure_Recovery pystr pystr pystr int int bool int
  | Record_Inspection pystr inspection_kind "pystr option \<times> pystr option" "recovery_phase option" "time option" "pystr option"
  | Require_Attention pystr pystr "retry_failure option"
  | Begin_Continuation pystr int pystr time
  | Begin_Inspection pystr int time
  | Finalize_Result pystr "(pystr \<times> json) list" "pystr option"
  | Notification pystr "pystr option" pystr notification_outcome
  | Claim_Wake pystr
  | Reconcile_Inflight
  | Reconcile_Exhausted
  | Reconcile_Wake pystr pystr
  | Record_Wake pystr wake_state "pystr option"
  | Claim_Checkpoint int time
  | Rearm_Checkpoint pystr int

datatype queue_op = Attempt attempt_op | Result result_op | Recovery recovery_op

definition committing :: "ledger_env \<Rightarrow> 'a ledger_op \<Rightarrow> unit ledger_op" where
  "committing E body = forget (atomically (validate_rows E) body)"

fun attempt_transaction :: "ledger_env \<Rightarrow> time \<Rightarrow> attempt_op \<Rightarrow> unit ledger_op" where
  "attempt_transaction E now (Acquire_Harness pid birth digest version nonce lease) =
     committing E (acquire_harness now pid birth digest version nonce lease)"
| "attempt_transaction E now (Renew_Harness epoch nonce lease) = committing E (renew_harness now epoch nonce lease)"
| "attempt_transaction E now (Shutdown_Harness epoch nonce) = committing E (request_harness_shutdown epoch nonce)"
| "attempt_transaction E now Refresh_Fence = committing E (arm_harness_refresh_fence now)"
| "attempt_transaction E now (Cancel_Queue i epoch) = committing E (cancel_queue_dispatch now i epoch)"
| "attempt_transaction E now (Acknowledge_Exit i action pid birth code) =
     committing E (acknowledge_worker_cancellation_exit now i action pid birth code)"
| "attempt_transaction E now (Claim_Queue epoch nonce) = committing E (claim_queue_dispatch now epoch nonce)"
| "attempt_transaction E now (Set_Queue i st epoch) = committing E (set_queue_state now i st epoch)"
| "attempt_transaction E now (Recover_Queue i epoch keep_thread) = committing E (recover_queue_dispatch now i epoch keep_thread)"
| "attempt_transaction E now (Issue_Capability i g a schema workspace backend token requested lease) =
     committing E (issue_attempt_capability now i g a schema workspace backend token requested lease)"
| "attempt_transaction E now (Bind_Liveness i epoch g a pid birth token lease) =
     committing E (bind_worker_liveness now i epoch g a pid birth token lease)"
| "attempt_transaction E now (Bind_Thread i epoch g a token thread) = committing E (bind_worker_thread E now i epoch g a token thread)"
| "attempt_transaction E now (Renew_Liveness i g a token lease epoch) =
     committing E (renew_worker_liveness E now i g a token lease epoch)"
| "attempt_transaction E now (Adopt_Worker i epoch pid birth nonce) = committing E (adopt_live_worker now i epoch pid birth nonce)"
| "attempt_transaction E now (Authorize_Successor source successor) = committing E (authorize_successor now source successor)"

fun result_transaction :: "ledger_env \<Rightarrow> time \<Rightarrow> result_op \<Rightarrow> unit ledger_op" where
  "result_transaction E now (Submit_Result i g a token raw) = forget (submit_queue_result E now i g a token raw)"
| "result_transaction E now (Commit_Result i g a token raw) = forget (commit_queue_result E now i g a token raw)"
| "result_transaction E now (Retained_Result i g a token raw) = forget (commit_retained_queue_result E now i g a token raw)"
| "result_transaction E now (Ingest_Result i raw) = forget (ingest_recovered_result E now i raw)"

fun recovery_transaction :: "ledger_env \<Rightarrow> time \<Rightarrow> recovery_op \<Rightarrow> unit ledger_op" where
  "recovery_transaction E now (Enqueue_Dispatch a) = forget (enqueue_dispatch E now a)"
| "recovery_transaction E now (Retry_Failure i f prior requested attention) =
     committing E (record_retry_failure E now i f prior requested attention)"
| "recovery_transaction E now (Worker_Exit i pid birth code cls) = committing E (mark_worker_exit E now i pid birth code cls)"
| "recovery_transaction E now (Configure_Recovery i env profile inspection continuation fresh fresh_budget) =
     committing E (configure_recovery i env profile inspection continuation fresh fresh_budget)"
| "recovery_transaction E now (Record_Inspection i kind inspected requested due attention) =
     committing E (record_recovery_inspection E now i kind inspected requested due attention)"
| "recovery_transaction E now (Require_Attention i reason failure) = mark_human_attention_required E now i reason failure"
| "recovery_transaction E now (Begin_Continuation i epoch nonce current) =
     committing E (begin_recovery_continuation now i epoch nonce current)"
| "recovery_transaction E now (Begin_Inspection i epoch current) = committing E (begin_recovery_inspection now i epoch current)"
| "recovery_transaction E now (Finalize_Result i payload task) = forget (finalize_queue_result E now i payload task)"
| "recovery_transaction E now (Notification i task digest outcome) =
     committing E (record_notification_attempt now i task digest outcome)"
| "recovery_transaction E now (Claim_Wake i) = committing E (claim_wake i)"
| "recovery_transaction E now Reconcile_Inflight = committing E reconcile_inflight_wakes"
| "recovery_transaction E now Reconcile_Exhausted = committing E (reconcile_exhausted_wake_notifications now)"
| "recovery_transaction E now (Reconcile_Wake i turn) = committing E (reconcile_wake_delivery i turn)"
| "recovery_transaction E now (Record_Wake i st turn) = committing E (record_wake_delivery now i st turn)"
| "recovery_transaction E now (Claim_Checkpoint epoch current) = committing E (claim_due_checkpoint now epoch current)"
| "recovery_transaction E now (Rearm_Checkpoint i seconds) = committing E (rearm_checkpoint now i seconds)"

fun queue_transaction :: "ledger_env \<Rightarrow> time \<Rightarrow> queue_op \<Rightarrow> unit ledger_op" where
  "queue_transaction E now (Attempt r) = attempt_transaction E now r"
| "queue_transaction E now (Result r) = result_transaction E now r"
| "queue_transaction E now (Recovery r) = recovery_transaction E now r"

lemma committing_Inr: "committing E body l = Inr (u, l') \<longleftrightarrow>
    (\<exists>r. body l = Inr (r, l') \<and> validate_rows E l = Inr () \<and> validate_rows E l' = Inr ())"
  by (auto simp: committing_def forget_Inr atomically_Inr)

lemma submit_queue_result_Inr:
  "submit_queue_result E now i g a token raw l = Inr (r, l') \<longleftrightarrow>
     (\<exists>status. parse_queue_result E l i raw = Inr status
        \<and> atomically (validate_rows E) (submit_in_transaction E now i g a token raw status) l = Inr (r, l'))"
  by (simp add: submit_queue_result_def bind_res_Inr_iff)

lemma result_op_Inr:
  "commit_queue_result E now i g a token raw l = Inr (r, l') \<longleftrightarrow> (\<exists>status. bounded_result E l i raw = Inr status
     \<and> atomically (validate_rows E) (commit_in_transaction E now i g a token raw status) l = Inr (r, l'))"
  "commit_retained_queue_result E now i g a token raw l = Inr (r, l') \<longleftrightarrow> (\<exists>status. bounded_result E l i raw = Inr status
     \<and> atomically (validate_rows E) (retained_in_transaction E now i g a token raw status) l = Inr (r, l'))"
  "ingest_recovered_result E now i raw l = Inr (r, l') \<longleftrightarrow> (\<exists>status. bounded_result E l i raw = Inr status
     \<and> atomically (validate_rows E) (ingest_in_transaction E now i raw status) l = Inr (r, l'))"
  by (simp_all add: commit_queue_result_def commit_retained_queue_result_def ingest_recovered_result_def bind_res_Inr_iff)

lemma enqueue_dispatch_Inr:
  "enqueue_dispatch E now a l = Inr (q, l') \<longleftrightarrow> (\<exists>i d. dispatch_id (eq_dispatch a) = Inr i \<and> lookup_by dp_id i (dispatches l) = Some d
     \<and> check_enqueue E a = Inr () \<and> atomically (validate_rows E) (enqueue_in_transaction E now a d) l = Inr (q, l'))"
  by (auto simp: enqueue_dispatch_def bind_res_Inr_iff split: option.splits)

lemma attention_Inr:
  assumes "mark_human_attention_required E now i reason failure l = Inr (u, l')"
  obtains l1 more where "begin_attention now i (redact E reason) failure l = Inr (more, l1)"
    "validate_rows E l = Inr ()" "validate_rows E l1 = Inr ()" "validate_rows E l' = Inr ()"
    "l' = l1 \<or> (\<exists>r. record_recovery_inspection E now i Ambiguous (None, None) (Some Rec_Attention) None (Some (redact E reason)) l1
       = Inr (r, l'))"
proof -
  from assms obtain more l1 where "atomically (validate_rows E) (begin_attention now i (redact E reason) failure) l = Inr (more, l1)"
    and "if more then \<exists>r. atomically (validate_rows E) (record_recovery_inspection E now i Ambiguous (None, None) (Some Rec_Attention)
        None (Some (redact E reason))) l1 = Inr (r, l') else l' = l1"
    by (auto simp: mark_human_attention_required_def bind_res_Inr_iff split: if_splits)
  then show thesis by (intro that [of more l1]) (auto simp: atomically_Inr split: if_splits)
qed

lemmas transaction_Inr = forget_Inr committing_Inr atomically_Inr submit_queue_result_Inr result_op_Inr enqueue_dispatch_Inr
  finalize_queue_result_def

text \<open>A transaction that commits starts and ends with valid rows.\<close>

lemma recovery_valid:
  "recovery_transaction E now r l = Inr (u, l') \<Longrightarrow> validate_rows E l = Inr () \<and> validate_rows E l' = Inr ()"
proof (cases r)
  case (Require_Attention i reason failure)
  assume "recovery_transaction E now r l = Inr (u, l')"
  with Require_Attention have "mark_human_attention_required E now i reason failure l = Inr (u, l')" by simp
  then show ?thesis by (rule attention_Inr) blast
qed (auto simp: transaction_Inr)

lemma attempt_valid:
  "attempt_transaction E now r l = Inr (u, l') \<Longrightarrow> validate_rows E l = Inr () \<and> validate_rows E l' = Inr ()"
  by (cases r) (auto simp: transaction_Inr)

lemma result_valid:
  "result_transaction E now r l = Inr (u, l') \<Longrightarrow> validate_rows E l = Inr () \<and> validate_rows E l' = Inr ()"
  by (cases r) (auto simp: transaction_Inr)

lemma transaction_valid:
  "queue_transaction E now op l = Inr (u, l') \<Longrightarrow> validate_rows E l = Inr () \<and> validate_rows E l' = Inr ()"
  using attempt_valid result_valid recovery_valid by (cases op) simp_all

section \<open>What each kind of transaction keeps\<close>

lemma claim_wake_quiet: "claim_wake i l = Inr (w, l') \<Longrightarrow> tidy l \<Longrightarrow> quiet l l'"
  using quiet_part claim_wake_part by blast

lemma part_quiets:
  "reconcile_inflight_wakes l = Inr (u1, l') \<Longrightarrow> tidy l \<Longrightarrow> quiet l l'"
  "reconcile_exhausted_wake_notifications now l = Inr (u1, l') \<Longrightarrow> tidy l \<Longrightarrow> quiet l l'"
  "reconcile_wake_delivery i turn l = Inr (w, l') \<Longrightarrow> tidy l \<Longrightarrow> quiet l l'"
  "record_wake_delivery now i st turn' l = Inr (w, l') \<Longrightarrow> tidy l \<Longrightarrow> quiet l l'"
  "claim_due_checkpoint now epoch current l = Inr (wo, l') \<Longrightarrow> tidy l \<Longrightarrow> quiet l l'"
  "rearm_checkpoint now i seconds l = Inr (b, l') \<Longrightarrow> tidy l \<Longrightarrow> quiet l l'"
  "configure_recovery i env prof k1 k2 k3 k4 l = Inr (r, l') \<Longrightarrow> tidy l \<Longrightarrow> quiet l l'"
  "record_notification_attempt now i task dg oc l = Inr (nt, l') \<Longrightarrow> tidy l \<Longrightarrow> quiet l l'"
  by (rule quiet_part, assumption, erule reconcile_parts record_delivery_part checkpoint_parts configure_part notification_part)+

lemma finalize_quiet:
  assumes "finalize_in_transaction E now i payload notify l = Inr (r, l')" "tidy l"
  shows "quiet l l'"
  using assms(1)
proof (cases rule: finalize_cases)
  case (same q)
  with quiet_part [OF assms(2)] show ?thesis by simp
next
  case (new q)
  with finalize_keeps [OF assms] show ?thesis by (simp add: quiet_def law_part_iff update_queue_def)
qed

lemma attention_transaction_quiet:
  assumes "mark_human_attention_required E now i reason failure l = Inr (u, l')" "tidy l"
  shows "quiet l l'"
  using assms(1)
proof (rule attention_Inr)
  fix l1 more assume first: "begin_attention now i (redact E reason) failure l = Inr (more, l1)"
    and rest: "l' = l1 \<or> (\<exists>r. record_recovery_inspection E now i Ambiguous (None, None) (Some Rec_Attention) None
        (Some (redact E reason)) l1 = Inr (r, l'))"
  from attention_quiet [OF first assms(2)] have q: "quiet l l1" .
  from rest show ?thesis
    by (elim disjE exE) (use q in simp, rule quiet_trans [OF q], erule inspection_quiet [OF _ quiet_tidy [OF q]])
qed

lemma recovery_quiet:
  assumes "recovery_transaction E now r l = Inr (u, l')" "queue_inv E l"
  shows "quiet l l'"
proof -
  note base = queue_inv_base [OF assms(2)] and tidy = queue_base_tidy [OF queue_inv_base [OF assms(2)]]
  from recovery_valid [OF assms(1)] have ok: "validate_queue E l' = Inr ()" by (simp add: validate_rows_iff)
  show ?thesis
  proof (cases r)
    case (Require_Attention i reason failure)
    with assms(1) attention_transaction_quiet [OF _ tidy] show ?thesis by simp
  next
    case (Begin_Continuation i epoch nonce current)
    with assms(1) continuation_quiet [OF _ assms(2)] show ?thesis by (auto simp: transaction_Inr)
  next
    case (Retry_Failure i f prior requested attention)
    with assms(1) obtain x where "record_retry_failure E now i f prior requested attention l = Inr (x, l')"
      by (auto simp: transaction_Inr)
    from retry_failure_quiet [OF this base ok] show ?thesis .
  next
    case (Worker_Exit i pid birth code cls)
    with assms(1) mark_exit_quiet [OF _ base ok] show ?thesis by (auto simp: transaction_Inr)
  next
    case (Enqueue_Dispatch a)
    with assms(1) enqueue_quiet [OF _ tidy] show ?thesis by (auto simp: transaction_Inr)
  next
    case (Record_Inspection i kind inspected requested due attention)
    with assms(1) obtain x where "record_recovery_inspection E now i kind inspected requested due attention l = Inr (x, l')"
      by (auto simp: transaction_Inr)
    from inspection_quiet [OF this tidy] show ?thesis .
  next
    case (Begin_Inspection i epoch current)
    with assms(1) begin_inspection_quiet [OF _ tidy] show ?thesis by (auto simp: transaction_Inr)
  next
    case (Finalize_Result i payload task)
    with assms(1) finalize_quiet [OF _ tidy] show ?thesis by (auto simp: transaction_Inr)
  qed (use assms(1) tidy in \<open>auto simp: transaction_Inr dest: part_quiets claim_wake_quiet\<close>)
qed

lemmas queue_op_keeps = acquire_harness_keeps renew_harness_keeps shutdown_keeps arm_fence_keeps cancel_dispatch_keeps acknowledge_keeps
  claim_keeps set_state_keeps issue_keeps bind_liveness_keeps bind_thread_keeps renew_liveness_keeps adopt_keeps authorize_keeps

lemma attempt_keeps:
  assumes "attempt_transaction E now r l = Inr (u, l')" "queue_inv E l"
  shows "keeps l l'"
proof -
  note base = queue_inv_base [OF assms(2)]
  from attempt_valid [OF assms(1)] have ok: "validate_queue E l' = Inr ()" by (simp add: validate_rows_iff)
  show ?thesis
    using assms base recover_keeps [OF _ base ok]
    by (cases r) (auto simp: transaction_Inr dest: queue_op_keeps)
qed

text \<open>Only the operations that accept a result change the result of a row.\<close>

lemma transaction_keeps:
  assumes "queue_transaction E now op l = Inr (u, l')" "queue_inv E l" "\<forall>r. op \<noteq> Result r"
  shows "keeps l l'"
  using attempt_keeps [OF _ assms(2)] recovery_quiet [OF _ assms(2)] assms(1,3) by (cases op) (auto simp: quiet_def)

lemma queue_inv_keys:
  "queue_inv E l \<Longrightarrow> distinct (map (\<lambda>c. (c_dispatch c, c_generation c, c_attempt c)) (capabilities l))"
  using validate_queueD(1) by (auto simp: queue_inv_def validate_rows_iff)

lemma result_holds:
  assumes "result_transaction E now r l = Inr (u, l')" "queue_inv E l"
  shows "holds l l' \<and> harness l' = harness l"
proof -
  note tidy = queue_base_tidy [OF queue_inv_base [OF assms(2)]] and dist = queue_inv_keys [OF assms(2)]
  show ?thesis
    using assms(1) submit_holds [OF _ tidy dist] commit_holds [OF _ tidy dist] retained_holds [OF _ tidy dist]
      ingest_holds [OF _ assms(2)]
    by (cases r) (auto simp: transaction_Inr; blast)+
qed

lemma transaction_holds:
  assumes "queue_transaction E now op l = Inr (u, l')" "queue_inv E l"
  shows "holds l l'"
  using transaction_keeps [OF assms] result_holds [OF _ assms(2)] assms(1) by (cases op) (auto simp: keeps_def)

lemma queue_inv_holds: "holds l l' \<Longrightarrow> validate_rows E l' = Inr () \<Longrightarrow> queue_inv E l'"
  by (simp add: queue_inv_def holds_def tidy_def)

lemma transaction_inv:
  assumes "queue_transaction E now op l = Inr (u, l')" "queue_inv E l"
  shows "queue_inv E l'"
  using queue_inv_holds [OF transaction_holds [OF assms]] transaction_valid [OF assms(1)] by simp

section \<open>The workflow tables\<close>

lemma cancel_row_frame: "cancel_queue_row now epoch retain q l = Inr (r, l') \<Longrightarrow> workflow_part l' = workflow_part l"
  by (auto simp: cancel_queue_row_def bind_res_Inr_iff Let_def returning_Inr split: if_splits option.splits)

lemma harness_frame:
  "acquire_harness now pid birth digest version nonce lease l = Inr (h, l') \<Longrightarrow> workflow_part l' = workflow_part l"
  "renew_harness now epoch nonce lease l = Inr (h, l') \<Longrightarrow> workflow_part l' = workflow_part l"
  "request_harness_shutdown epoch nonce l = Inr (h, l') \<Longrightarrow> workflow_part l' = workflow_part l"
  "arm_harness_refresh_fence now l = Inr (ho, l') \<Longrightarrow> workflow_part l' = workflow_part l"
  by (auto simp: acquire_harness_def renew_harness_def request_harness_shutdown_def arm_harness_refresh_fence_def
      bind_res_Inr_iff Let_def)

lemma cancel_frame:
  "cancel_queue_dispatch now i epoch l = Inr (r, l') \<Longrightarrow> workflow_part l' = workflow_part l"
  by (auto simp: cancel_queue_dispatch_def bind_res_Inr_iff dest: cancel_row_frame)

lemma acknowledge_frame:
  "acknowledge_worker_cancellation_exit now i action pid birth code l = Inr (r, l') \<Longrightarrow> workflow_part l' = workflow_part l"
  by (auto simp: acknowledge_worker_cancellation_exit_def bind_res_Inr_iff Let_def split: option.splits if_splits
      dest: cancel_row_frame)

lemma claim_frame: "claim_queue_dispatch now epoch nonce l = Inr (r, l') \<Longrightarrow> workflow_part l' = workflow_part l"
  by (auto simp: claim_queue_dispatch_def bind_res_Inr_iff Let_def split: option.splits if_splits dest: cancel_row_frame)

lemma set_state_frame: "set_queue_state now i st epoch l = Inr (r, l') \<Longrightarrow> workflow_part l' = workflow_part l"
  by (auto simp: set_queue_state_def bind_res_Inr_iff returning_Inr split: if_splits dest: cancel_frame)

lemma recover_frame: "recover_queue_dispatch now i epoch keep l = Inr (r, l') \<Longrightarrow> workflow_part l' = workflow_part l"
  by (auto simp: recover_queue_dispatch_def bind_res_Inr_iff Let_def returning_Inr split: if_splits)

lemma issue_frame:
  "issue_attempt_capability now i g a schema ws backend token req lease l = Inr (c, l') \<Longrightarrow> workflow_part l' = workflow_part l"
  by (auto simp: issue_attempt_capability_def bind_res_Inr_iff Let_def split: option.splits if_splits)

lemma liveness_frame:
  "bind_worker_liveness now i epoch g a pid birth token lease l = Inr (w, l') \<Longrightarrow> workflow_part l' = workflow_part l"
  "renew_worker_liveness E now i g a token lease eo l = Inr (w, l') \<Longrightarrow> workflow_part l' = workflow_part l"
  by (auto simp: bind_worker_liveness_def renew_worker_liveness_def bind_res_Inr_iff Let_def split: option.splits)

lemma thread_frame:
  "bind_worker_thread E now i epoch g a token thread l = Inr (r, l') \<Longrightarrow> workflow_part l' = workflow_part l"
  "adopt_live_worker now i epoch pid birth nonce l = Inr (r, l') \<Longrightarrow> workflow_part l' = workflow_part l"
  by (auto simp: bind_worker_thread_def adopt_live_worker_def bind_res_Inr_iff returning_Inr split: option.splits)

lemma authorize_frame: "authorize_successor now s t l = Inr (a, l') \<Longrightarrow> workflow_part l' = workflow_part l"
  by (auto simp: authorize_successor_def bind_res_Inr_iff Let_def split: option.splits)

lemma submit_frame:
  assumes "submit_in_transaction E now i g a token raw status l = Inr (r, l')"
  shows "workflow_part l' = workflow_part l"
  using assms by (rule submit_cases) (elim disjE conjE exE; simp)

lemma finalize_frame: "finalize_in_transaction E now i payload notify l = Inr (r, l') \<Longrightarrow> workflow_part l' = workflow_part l"
  by (erule finalize_cases) (simp_all add: law_part_iff)

lemma bind_integrity_frame: "bind_terminal_integrity i d l = Inr l' \<Longrightarrow> workflow_part l' = workflow_part l"
  using bind_integrity_part law_part_iff by blast

lemma reset_retry_frame: "workflow_part (reset_retry i l) = workflow_part l"
  using law_part_helpers(5) law_part_iff by blast

lemma commit_frame:
  "commit_in_transaction E now i g a token raw status l = Inr (r, l') \<Longrightarrow> workflow_part l' = workflow_part l"
  by (auto simp: commit_in_transaction_def bind_res_Inr_iff reset_retry_frame
      dest!: submit_frame bind_integrity_frame finalize_frame)

lemma retained_frame:
  "retained_in_transaction E now i g a token raw status l = Inr (r, l') \<Longrightarrow> workflow_part l' = workflow_part l"
  by (erule retained_commits) (simp add: commit_frame)

lemma ingest_frame: "ingest_in_transaction E now i raw status l = Inr (r, l') \<Longrightarrow> workflow_part l' = workflow_part l"
  by (auto simp: ingest_in_transaction_def bind_res_Inr_iff Let_def reset_retry_frame split: if_splits
      dest!: bind_integrity_frame finalize_frame)

lemmas queue_op_frame = harness_frame cancel_frame acknowledge_frame claim_frame set_state_frame recover_frame issue_frame
  liveness_frame thread_frame authorize_frame submit_frame commit_frame retained_frame ingest_frame

lemma attempt_frame: "attempt_transaction E now r l = Inr (u, l') \<Longrightarrow> workflow_part l' = workflow_part l"
  by (cases r) (auto simp: transaction_Inr dest: queue_op_frame)

lemma result_frame: "result_transaction E now r l = Inr (u, l') \<Longrightarrow> workflow_part l' = workflow_part l"
  by (cases r) (auto simp: transaction_Inr dest: queue_op_frame)

lemma transaction_frame:
  assumes "queue_transaction E now op l = Inr (u, l')" "queue_inv E l"
  shows "workflow_part l' = workflow_part l"
  using assms(1) attempt_frame result_frame recovery_quiet [OF _ assms(2)] by (cases op) (auto simp: quiet_def)

text \<open>The workflow invariant and order read only these tables.\<close>

lemma workflow_part_inv:
  assumes "workflow_part l' = workflow_part l" "machine_inv l" "validate_workflow l' = Inr ()"
  shows "machine_inv l'"
proof -
  from assms(1) have "extra l' = extra l" "sql_keys l' = sql_keys l" "exclusive l' = exclusive l" "own_app l' = own_app l"
    "executions l' = executions l"
    by (simp_all add: workflow_part_def fun_eq_iff own_app_def sql_keys_def extra_def leased_def sdk_of_def exclusive_def)
  with assms(2,3) show ?thesis by (simp add: machine_inv_def exec_inv_def)
qed

lemma workflow_part_le: "workflow_part l' = workflow_part l \<Longrightarrow> exec_le l l'"
  by (simp add: workflow_part_def exec_le_def own_app_def rows_le_refl row_le_refl integrity_le_refl)

end
