(* ===== verification/Ledger_Machine.thy ===== *)
theory Ledger_Machine
  imports Queue_Machine
begin

text \<open>
  The two halves of the ledger run together: a run interleaves transactions of the workflow and of the
  dispatch queue in any order.  Each half leaves the tables of the other alone, so the invariants and
  the orders of both hold along every run.
\<close>

section \<open>The queue tables\<close>

definition queue_part where
  "queue_part l = (queue l, capabilities l, liveness l, commands l, retries l, recoveries l, controls l, successor_outbox l,
     notifications l, successors l, wakes l, decisions l, generations l, bindings l, captures l, refresh_pending l, harness l)"

lemma queue_part_update [simp]:
  "queue_part (l\<lparr>runs := v1\<rparr>) = queue_part l" "queue_part (l\<lparr>milestones := v2\<rparr>) = queue_part l"
  "queue_part (l\<lparr>dispatches := v3\<rparr>) = queue_part l" "queue_part (l\<lparr>events := v4\<rparr>) = queue_part l"
  "queue_part (l\<lparr>executions := v5\<rparr>) = queue_part l" "queue_part (l\<lparr>integrity := v6\<rparr>) = queue_part l"
  "queue_part (l\<lparr>leases := v7\<rparr>) = queue_part l" "queue_part (l\<lparr>sdk_events := v8\<rparr>) = queue_part l"
  by (simp_all add: queue_part_def)

lemma queue_part_helpers [simp]:
  "queue_part (update_execution k f l) = queue_part l" "queue_part (update_integrity k g l) = queue_part l"
  "queue_part (set_milestone_state now k st l) = queue_part l" "queue_part (l\<lparr>app_native := v\<rparr>) = queue_part l"
  by (simp_all add: update_execution_def update_integrity_def set_milestone_state_def) (simp add: queue_part_def)

lemma move_milestone_frame: "move_milestone now k s t kind why d l = Inr (e, l') \<Longrightarrow> queue_part l' = queue_part l"
  by (auto simp: move_milestone_def append_event_def bind_res_Inr_iff Let_def)

lemma records_frame:
  "create_run now r l = Inr (x1, l') \<Longrightarrow> queue_part l' = queue_part l"
  "close_run now r l = Inr (x1, l') \<Longrightarrow> queue_part l' = queue_part l"
  "create_milestone now r m l = Inr (x2, l') \<Longrightarrow> queue_part l' = queue_part l"
  by (auto simp: create_run_def close_run_def create_milestone_def bind_res_Inr_iff Let_def split: option.splits if_splits)

lemma claim_dispatch_frame: "claim_dispatch now r m role g l = Inr (x, l') \<Longrightarrow> queue_part l' = queue_part l"
  by (auto simp: claim_dispatch_def bind_res_Inr_iff Let_def split: option.splits prod.splits dest!: move_milestone_frame)

lemma transition_frame: "transition now k t s why l = Inr (x, l') \<Longrightarrow> queue_part l' = queue_part l"
  unfolding transition_def bind_res_Inr_iff by (elim exE conjE) (rule move_milestone_frame)

lemma plan_frame: "plan_execution now k p l = Inr (x, l') \<Longrightarrow> queue_part l' = queue_part l"
  by (auto simp: plan_execution_def bind_res_Inr_iff Let_def split: option.splits)

lemma lease_frame: "acquire_workspace_lease now k w l = Inr (x, l') \<Longrightarrow> queue_part l' = queue_part l"
  by (auto simp: acquire_workspace_lease_def settle_lease_def bind_res_Inr_iff Let_def split: option.splits if_splits)

lemma profile_frame:
  "record_native_profile now k p l = Inr (x, l') \<Longrightarrow> queue_part l' = queue_part l"
  "record_git_authority_before now k g l = Inr (x, l') \<Longrightarrow> queue_part l' = queue_part l"
  by (auto simp: record_native_profile_def record_git_authority_before_def body_iff Let_def
      split: option.splits)

lemma rebind_frame:
  assumes "rebind_native_profile_for_resume now k pr c a l = Inr (x, l')"
  shows "queue_part l' = queue_part l"
proof -
  from assms obtain i where "lookup_by in_key k (integrity l) = Some i"
    by (auto simp: rebind_native_profile_for_resume_def body_iff)
  with assms show ?thesis
    by (cases "meet (in_permission i) a") (auto simp: rebind_native_profile_for_resume_def body_iff Let_def)
qed

lemma thread_ops_frame:
  "record_thread_starting now k l = Inr (x, l') \<Longrightarrow> queue_part l' = queue_part l"
  "record_pre_identity_uncertainty now k l = Inr (x, l') \<Longrightarrow> queue_part l' = queue_part l"
  "reject_thread_start_authorization now k l = Inr (x, l') \<Longrightarrow> queue_part l' = queue_part l"
  by (auto simp: record_thread_starting_def record_pre_identity_uncertainty_def reject_thread_start_authorization_def body_iff
      split: if_splits)

lemma thread_identity_frame: "record_thread_identity now k t l = Inr (x, l') \<Longrightarrow> queue_part l' = queue_part l"
  by (auto simp: record_thread_identity_def body_iff split: option.splits prod.splits dest!: move_milestone_frame)

lemma turn_ops_frame:
  "record_turn_starting now k l = Inr (x, l') \<Longrightarrow> queue_part l' = queue_part l"
  "reject_turn_authorization now k l = Inr (x, l') \<Longrightarrow> queue_part l' = queue_part l"
  "record_turn now k ob l = Inr (x, l') \<Longrightarrow> queue_part l' = queue_part l"
  by (auto simp: record_turn_starting_def reject_turn_authorization_def record_turn_def body_iff split: option.splits if_splits)

lemma terminal_frame: "record_terminal_execution now k oc l = Inr (x, l') \<Longrightarrow> queue_part l' = queue_part l"
  by (auto simp: record_terminal_execution_def body_iff Let_def split: prod.splits dest!: move_milestone_frame)

lemmas exec_op_frame = records_frame claim_dispatch_frame transition_frame plan_frame lease_frame profile_frame rebind_frame thread_ops_frame
  thread_identity_frame turn_ops_frame terminal_frame

lemma exec_body_frame:
  assumes "exec_body now op l = Inr (u, l')" "\<forall>k. op \<noteq> Cancel_Execution k"
  shows "queue_part l' = queue_part l"
  using assms by (cases op) (auto simp: forget_Inr dest: exec_op_frame)

section \<open>The two invariants\<close>

lemma queue_part_keeps:
  assumes "queue_part l' = queue_part l" "tidy l"
  shows "keeps l l'"
  by (rule keeps_same_tidy [OF assms(2)]) (use assms(1) in \<open>simp_all add: queue_part_def harness_le_refl consumed_kept_def\<close>)

text \<open>Cancelling an execution cancels its queue row as well.\<close>

lemma cancel_execution_parts:
  assumes "cancel_execution now k l = Inr (x, l')"
  obtains "queue_part l' = queue_part l"
  | q q' l1 where "q \<in> set (queue l)" "cancel_queue_row now None False q l = Inr (q', l1)" "queue_part l' = queue_part l1"
proof (cases "select_one (\<lambda>q. q_key q = k) (queue l)")
  case None
  with assms(1) show thesis
    by (intro that(1)) (auto simp: cancel_execution_def body_iff Let_def split: prod.splits if_splits dest!: move_milestone_frame)
next
  case (Some q)
  from assms(1) Some have "l' = l \<or> (\<exists>q' l1. cancel_queue_row now None False q l = Inr (q', l1) \<and> queue_part l' = queue_part l1)"
    by (auto simp: cancel_execution_def body_iff Let_def split: prod.splits if_splits dest!: move_milestone_frame; fastforce)
  with select_one_Some [OF Some] that show thesis by blast
qed

lemma cancel_execution_keeps:
  assumes "cancel_execution now k l = Inr (x, l')" "queue_base l"
  shows "keeps l l'"
  using assms(1)
proof (rule cancel_execution_parts)
  assume "queue_part l' = queue_part l"
  from queue_part_keeps [OF this queue_base_tidy [OF assms(2)]] show ?thesis .
next
  fix q q' l1 assume q: "q \<in> set (queue l)" and c: "cancel_queue_row now None False q l = Inr (q', l1)"
    and p: "queue_part l' = queue_part l1"
  have "lookup_by q_dispatch (q_dispatch q) (queue l) = Some q"
    using q assms(2) by (intro lookup_by_unique) (simp_all add: queue_base_def)
  from cancel_row_keeps [OF c assms(2) this] have k: "keeps l l1" ..
  then have "tidy l1" by (simp add: keeps_def holds_def)
  from keeps_trans [OF k queue_part_keeps [OF p this]] show ?thesis .
qed

lemma exec_body_keeps:
  assumes "exec_body now op l = Inr (u, l')" "queue_base l"
  shows "keeps l l'"
proof (cases "\<exists>k. op = Cancel_Execution k")
  case True
  with assms cancel_execution_keeps show ?thesis by (auto simp: forget_Inr)
next
  case False
  with exec_body_frame [OF assms(1)] have "queue_part l' = queue_part l" by blast
  from queue_part_keeps [OF this queue_base_tidy [OF assms(2)]] show ?thesis .
qed

section \<open>Runs of both halves\<close>

type_synonym ledger_request = "time \<times> (exec_op + queue_op)"

definition request :: "ledger_env \<Rightarrow> ledger_request \<Rightarrow> unit ledger_op" where
  "request E r = (case snd r of
     Inl op \<Rightarrow> atomically (validate_rows E) (exec_body (fst r) op) | Inr op \<Rightarrow> queue_transaction E (fst r) op)"

definition ledger_step :: "ledger_env \<Rightarrow> ledger \<Rightarrow> ledger_request \<Rightarrow> ledger" where
  "ledger_step E l r = after_op (request E r) l"

definition ledger_run :: "ledger_env \<Rightarrow> ledger_request list \<Rightarrow> ledger \<Rightarrow> ledger" where
  "ledger_run E rs l = fold (\<lambda>r l. ledger_step E l r) rs l"

definition ledger_inv :: "ledger_env \<Rightarrow> ledger \<Rightarrow> bool" where
  "ledger_inv E l \<longleftrightarrow> machine_inv l \<and> queue_inv E l"

definition ledger_le :: "ledger \<Rightarrow> ledger \<Rightarrow> bool" where
  "ledger_le l l' \<longleftrightarrow> exec_le l l' \<and> queue_le l l'"

lemma request_step:
  assumes "request E (now, op) l = Inr (u, l')" "ledger_inv E l"
  shows "ledger_inv E l' \<and> ledger_le l l'"
proof (cases op)
  case (Inl e)
  with assms(1) have body: "exec_body now e l = Inr (u, l')" and ok: "validate_rows E l' = Inr ()"
    by (simp_all add: request_def atomically_Inr)
  from assms(2) have inv: "machine_inv l" "queue_inv E l" by (simp_all add: ledger_inv_def)
  from body inv(1) ok have "atomically validate_workflow (exec_body now e) l = Inr (u, l')"
    by (simp add: atomically_Inr machine_inv_def exec_inv_def validate_rows_iff)
  then have "exec_step l (now, e) = l'" by (simp add: exec_step_def after_op_def)
  with exec_machine.step_inv [OF inv(1)] exec_machine.step_le [OF inv(1)] have "machine_inv l'" "exec_le l l'" by metis+
  moreover have h: "holds l l'" by (rule keeps_holds [OF exec_body_keeps [OF body queue_inv_base [OF inv(2)]]])
  moreover from queue_inv_holds [OF h ok] have "queue_inv E l'" .
  ultimately show ?thesis by (simp add: ledger_inv_def ledger_le_def holds_def)
next
  case (Inr q)
  with assms(1) have tr: "queue_transaction E now q l = Inr (u, l')" by (simp add: request_def)
  from assms(2) have inv: "machine_inv l" "queue_inv E l" by (simp_all add: ledger_inv_def)
  note frame = transaction_frame [OF tr inv(2)]
  have "machine_inv l'" by (rule workflow_part_inv [OF frame inv(1)])
    (use transaction_valid [OF tr] in \<open>simp add: validate_rows_iff\<close>)
  with workflow_part_le [OF frame] transaction_inv [OF tr inv(2)] transaction_holds [OF tr inv(2)]
  show ?thesis by (simp add: ledger_inv_def ledger_le_def holds_def)
qed

lemma ledger_step_cases:
  obtains "ledger_step E l r = l" | u where "request E r l = Inr (u, ledger_step E l r)"
  by (cases "request E r l") (auto simp: ledger_step_def after_op_def split: prod.splits)

lemma ledger_step_law:
  assumes "ledger_inv E l"
  shows "ledger_inv E (ledger_step E l r) \<and> ledger_le l (ledger_step E l r)"
proof (rule ledger_step_cases [of E l r])
  assume "ledger_step E l r = l"
  with assms show ?thesis by (simp add: ledger_le_def exec_le_refl queue_le_refl)
next
  fix u assume "request E r l = Inr (u, ledger_step E l r)"
  then have "request E (fst r, snd r) l = Inr (u, ledger_step E l r)" by simp
  from request_step [OF this assms] show ?thesis .
qed

interpretation ledger_machine: guarded_machine "ledger_step E" "ledger_inv E" ledger_le
proof
  fix l r
  assume inv: "ledger_inv E l"
  show "ledger_inv E (ledger_step E l r)" "ledger_le l (ledger_step E l r)" using ledger_step_law [OF inv] by blast+
next
  fix l l' l''
  show "ledger_le l l" by (simp add: ledger_le_def exec_le_refl queue_le_refl)
  assume "ledger_le l l'" "ledger_le l' l''"
  then show "ledger_le l l''" using exec_le_trans [of l l' l''] queue_le_trans [of l l' l''] by (simp add: ledger_le_def)
qed

lemma ledger_run_facts:
  assumes "ledger_inv E l"
  shows "ledger_inv E (ledger_run E rs l)" "exec_le l (ledger_run E rs l)" "queue_le l (ledger_run E rs l)"
  using ledger_machine.run_inv [OF assms] ledger_machine.run_le [OF assms] unfolding ledger_run_def ledger_le_def by blast+

lemma ledger_run_append: "ledger_run E (rs @ rs') l = ledger_run E rs' (ledger_run E rs l)"
  by (simp add: ledger_run_def)

end
