(* ===== verification/Queue_Capabilities.thy ===== *)
theory Queue_Capabilities
  imports Ledger_Machine
begin

text \<open>
  Where the capabilities and the results of the queue come from: a capability is new, extended or
  consumed, its lifetime is bounded, and only a submission under it gives a row a result.
\<close>

section \<open>How the capability table changes\<close>

definition bounded_capability :: "time \<Rightarrow> capability_row \<Rightarrow> bool" where
  "bounded_capability now c \<longleftrightarrow> c_consumed c = None
     \<and> now + CAPABILITY_MIN \<le> c_expires c \<and> c_expires c \<le> now + CAPABILITY_MAX"

lemma bounded_lifetime_range: "CAPABILITY_MIN \<le> bounded_lifetime s" "bounded_lifetime s \<le> CAPABILITY_MAX"
  by (simp_all add: bounded_lifetime_def CAPABILITY_MIN_def CAPABILITY_MAX_def)

lemma capability_expiry_range:
  "now + CAPABILITY_MIN \<le> capability_expiry now s req" "capability_expiry now s req \<le> now + CAPABILITY_MAX"
  using bounded_lifetime_range [of s]
  by (auto simp: capability_expiry_def Let_def CAPABILITY_MIN_def CAPABILITY_MAX_def split: option.splits)

lemma extend_bounded:
  assumes "c \<in> set (capabilities (extend_capability i g a t l))" "now + CAPABILITY_MIN \<le> t" "t \<le> now + CAPABILITY_MAX"
  shows "c \<in> set (capabilities l) \<or> bounded_capability now c"
  using assms by (auto simp: extend_capability_def set_update_where bounded_capability_def)

lemma cancel_row_caps: "cancel_queue_row now epoch retain q l = Inr (r, l') \<Longrightarrow> set (capabilities l') \<subseteq> set (capabilities l)"
  by (auto simp: cancel_queue_row_def bind_res_Inr_iff Let_def returning_Inr unresolve_commands_def retire_checkpoints_def
      set_delete_where split: if_splits option.splits)

lemma harness_caps:
  "acquire_harness now pid birth digest version nonce lease l = Inr (h, l') \<Longrightarrow> set (capabilities l') \<subseteq> set (capabilities l)"
  "renew_harness now epoch nonce lease l = Inr (h, l') \<Longrightarrow> set (capabilities l') \<subseteq> set (capabilities l)"
  "request_harness_shutdown epoch nonce l = Inr (h, l') \<Longrightarrow> set (capabilities l') \<subseteq> set (capabilities l)"
  "arm_harness_refresh_fence now l = Inr (ho, l') \<Longrightarrow> set (capabilities l') \<subseteq> set (capabilities l)"
  by (auto simp: acquire_harness_def renew_harness_def request_harness_shutdown_def arm_harness_refresh_fence_def
      bind_res_Inr_iff Let_def)

lemma cancel_caps: "cancel_queue_dispatch now i epoch l = Inr (r, l') \<Longrightarrow> set (capabilities l') \<subseteq> set (capabilities l)"
  unfolding cancel_queue_dispatch_def bind_res_Inr_iff by (elim exE conjE) (rule cancel_row_caps)

lemma acknowledge_caps:
  "acknowledge_worker_cancellation_exit now i action pid birth code l = Inr (r, l')
     \<Longrightarrow> set (capabilities l') \<subseteq> set (capabilities l)"
  by (auto simp: acknowledge_worker_cancellation_exit_def bind_res_Inr_iff Let_def split: option.splits if_splits
      dest!: cancel_row_caps)

lemma claim_caps: "claim_queue_dispatch now epoch nonce l = Inr (r, l') \<Longrightarrow> set (capabilities l') \<subseteq> set (capabilities l)"
  by (auto simp: claim_queue_dispatch_def bind_res_Inr_iff Let_def split: option.splits if_splits dest!: cancel_row_caps)

lemma set_state_caps: "set_queue_state now i st epoch l = Inr (r, l') \<Longrightarrow> set (capabilities l') \<subseteq> set (capabilities l)"
  by (auto simp: set_queue_state_def bind_res_Inr_iff returning_Inr update_queue_def split: if_splits dest!: cancel_caps)

lemma recover_caps: "recover_queue_dispatch now i epoch keep l = Inr (r, l') \<Longrightarrow> set (capabilities l') \<subseteq> set (capabilities l)"
  by (auto simp: recover_queue_dispatch_def bind_res_Inr_iff Let_def returning_Inr update_queue_def forget_attempt_def
      set_delete_where split: if_splits)

lemma thread_caps:
  "bind_worker_thread E now i epoch g a token thread l = Inr (r, l') \<Longrightarrow> set (capabilities l') \<subseteq> set (capabilities l)"
  "adopt_live_worker now i epoch pid birth nonce l = Inr (r, l') \<Longrightarrow> set (capabilities l') \<subseteq> set (capabilities l)"
  by (auto simp: bind_worker_thread_def adopt_live_worker_def bind_res_Inr_iff returning_Inr split: option.splits)

lemma authorize_caps: "authorize_successor now s t l = Inr (x, l') \<Longrightarrow> set (capabilities l') \<subseteq> set (capabilities l)"
  by (auto simp: authorize_successor_def bind_res_Inr_iff Let_def split: option.splits)

lemmas caps_subset = harness_caps cancel_caps acknowledge_caps claim_caps set_state_caps recover_caps thread_caps authorize_caps

lemma issue_caps:
  assumes "issue_attempt_capability now i g a schema ws backend token req lease l = Inr (x, l')" "c \<in> set (capabilities l')"
  shows "c \<in> set (capabilities l) \<or> bounded_capability now c"
proof -
  from assms(1) have "l' = l \<or> l' = extend_capability i g a (capability_expiry now lease req) l
      \<or> l' = l\<lparr>capabilities := capabilities l @ [x]\<rparr> \<and> c_consumed x = None \<and> c_expires x = capability_expiry now lease req"
    by (auto simp: issue_attempt_capability_def bind_res_Inr_iff Let_def split: option.splits if_splits)
  then show ?thesis
  proof (elim disjE conjE)
    assume "l' = extend_capability i g a (capability_expiry now lease req) l"
    with assms(2) show ?thesis by (intro extend_bounded [OF _ capability_expiry_range]) simp
  next
    assume "l' = l\<lparr>capabilities := capabilities l @ [x]\<rparr>" "c_consumed x = None" "c_expires x = capability_expiry now lease req"
    with assms(2) show ?thesis using capability_expiry_range [of now lease req] by (auto simp: bounded_capability_def)
  qed (use assms(2) in simp)
qed

lemma liveness_caps:
  "bind_worker_liveness now i epoch g a pid birth token lease l = Inr (w, l') \<Longrightarrow>
     capabilities l' = capabilities (extend_capability i g a (now + bounded_lifetime lease) l)"
  "renew_worker_liveness E now i g a tok lease eo l = Inr (w, l') \<Longrightarrow>
     capabilities l' = capabilities (extend_capability i g a (now + bounded_lifetime lease) l)"
  by (auto simp: bind_worker_liveness_def renew_worker_liveness_def bind_res_Inr_iff Let_def extend_capability_def
      split: option.splits)

lemma lifetime_caps:
  "c \<in> set (capabilities (extend_capability i g a (now + bounded_lifetime lease) l)) \<Longrightarrow>
     c \<in> set (capabilities l) \<or> bounded_capability now c"
  by (erule extend_bounded) (rule add_left_mono, rule bounded_lifetime_range)+

section \<open>Submissions\<close>

text \<open>
  What a submission that changes the ledger was presented with: an unconsumed capability and its token.
  It has not expired, unless its result is one whose transport was lost; then it is renewed for a moment.
\<close>

definition submitted :: "ledger_env \<Rightarrow> time \<Rightarrow> pystr \<Rightarrow> ledger \<Rightarrow> capability_row \<Rightarrow> bool" where
  "submitted E now token l c \<longleftrightarrow> c \<in> set (capabilities l) \<and> c_consumed c = None \<and> now < c_expires c \<and> c_token c = sha256 E token"

definition consume :: "ledger_env \<Rightarrow> time \<Rightarrow> pystr \<Rightarrow> capability_row \<Rightarrow> capability_row" where
  "consume E now raw c = c\<lparr>c_consumed := Some now, c_accepted := Some (sha256 E raw)\<rparr>"

definition renewed :: "time \<Rightarrow> capability_row \<Rightarrow> capability_row" where
  "renewed now c = c\<lparr>c_expires := now + CAPABILITY_MIN\<rparr>"

lemma submit_presented:
  assumes "submit_in_transaction E now i g a token raw status l = Inr (r, l')"
  shows "l' = l \<or> (\<exists>c. select_one (is_capability i g a) (capabilities l) = Some c \<and> submitted E now token l c)"
proof -
  note body = assms(1) [unfolded submit_in_transaction_def bind_res_Inr_iff queue_dispatch_iff]
  from body obtain q where q: "lookup_by q_dispatch i (queue l) = Some q" by blast
  from body q obtain c where c: "select_one (is_capability i g a) (capabilities l) = Some c" by (auto split: option.splits)
  show ?thesis
  proof (cases "q_state q \<in> {Queue_Completed, Queue_Failed} \<or> c_consumed c \<noteq> None")
    case True
    with body q c have "l' = l" by (simp add: bind_res_Inr_iff split: if_splits)
    then show ?thesis ..
  next
    case False
    with body q c have "now < c_expires c" "token_digest E token ''result capability token is invalid'' = Inr (c_token c)"
      by (simp_all add: bind_res_Inr_iff)
    with False c select_one_Some [OF c] show ?thesis by (auto simp: submitted_def token_digest_def split: if_splits)
  qed
qed

lemma submit_caps:
  assumes "submit_in_transaction E now i g a token raw status l = Inr (r, l')"
    and dist: "distinct (map (\<lambda>c. (c_dispatch c, c_generation c, c_attempt c)) (capabilities l))"
    and "c \<in> set (capabilities l')"
  shows "c \<in> set (capabilities l) \<or> (\<exists>c0. is_capability i g a c0 \<and> submitted E now token l c0 \<and> c = consume E now raw c0)"
proof (cases "l' = l")
  case False
  with submit_presented [OF assms(1)] obtain c0
    where c0: "select_one (is_capability i g a) (capabilities l) = Some c0" "submitted E now token l c0" by blast
  from assms(1) have caps: "l' = l \<or> capabilities l' = update_where (is_capability i g a) (consume E now raw) (capabilities l)"
    by (rule submit_cases) (auto simp: consume_def [abs_def])
  from False caps have caps: "capabilities l' = update_where (is_capability i g a) (consume E now raw) (capabilities l)" by blast
  have only: "e = c0" if "e \<in> set (capabilities l)" "is_capability i g a e" for e
    using same_key_same_row [OF dist that(1)] select_one_Some [OF c0(1)] that(2) by (simp add: is_capability_def)
  from assms(3) show ?thesis
    using only c0(2) by (auto simp: caps set_update_where)
qed (use assms(3) in simp)

text \<open>The result a submission stores is the text it was given, in the row it names.\<close>

definition new_result :: "ledger \<Rightarrow> ledger \<Rightarrow> pystr \<Rightarrow> pystr \<times> pystr \<Rightarrow> bool" where
  "new_result l l' j p \<longleftrightarrow> (\<exists>q q'. lookup_by q_dispatch j (queue l) = Some q \<and> q_raw q = None
     \<and> lookup_by q_dispatch j (queue l') = Some q' \<and> q_raw q' = Some p)"

lemma submit_result:
  assumes "submit_in_transaction E now i g a token raw status l = Inr (r, l')" "new_result l l' j p"
  shows "j = i \<and> p = (raw, sha256 E raw) \<and> (\<exists>c. is_capability i g a c \<and> submitted E now token l c)"
proof -
  from assms(2) have "l' \<noteq> l" by (auto simp: new_result_def)
  with submit_presented [OF assms(1)] have c: "\<exists>c. is_capability i g a c \<and> submitted E now token l c"
    by (auto dest: select_one_Some)
  let ?f = "\<lambda>q. q\<lparr>q_state := Result_Submitted, q_raw := Some (raw, sha256 E raw), q_terminal := Some status, q_updated := now\<rparr>"
  from assms(1) have "l' = l \<or> queue l' = update_where (\<lambda>q. q_dispatch q = i) ?f (queue l)" by (rule submit_cases) auto
  with \<open>l' \<noteq> l\<close> have "queue l' = update_where (\<lambda>q. q_dispatch q = i) ?f (queue l)" by blast
  with assms(2) have "j = i \<and> p = (raw, sha256 E raw)"
    by (auto simp: new_result_def lookup_update_if split: if_splits dest: lookup_by_in)
  with c show ?thesis by blast
qed

text \<open>What follows a submission in its transaction leaves capabilities and results alone.\<close>

lemma finalize_caps: "finalize_in_transaction E now i payload notify l = Inr (r, l') \<Longrightarrow> capabilities l' = capabilities l"
  by (erule finalize_cases) (simp_all add: law_part_iff update_queue_def)

lemma commit_parts:
  assumes "commit_in_transaction E now i g a token raw status l = Inr (r, l')" "tidy l"
    and dist: "distinct (map (\<lambda>c. (c_dispatch c, c_generation c, c_attempt c)) (capabilities l))"
  obtains r1 l1 where "submit_in_transaction E now i g a token raw status l = Inr (r1, l1)" "capabilities l' = capabilities l1"
    "raw_same l1 l'" "queue_le l l1"
proof -
  from assms(1) obtain r1 l1 l2 where s: "submit_in_transaction E now i g a token raw status l = Inr (r1, l1)"
    and b: "bind_terminal_integrity i (sha256 E raw) l1 = Inr l2"
    and f: "finalize_in_transaction E now i [] None (reset_retry i l2) = Inr (r, l')"
    by (auto simp: commit_in_transaction_def bind_res_Inr_iff)
  from submit_holds [OF s assms(2) dist] have h1: "holds l l1" ..
  have part: "law_part (reset_retry i l2) = law_part l1" using bind_integrity_part [OF b] by simp
  from part have caps: "capabilities l' = capabilities l1" using finalize_caps [OF f] unfolding law_part_iff by simp
  from keeps_law_part [OF holds_tidy [OF h1] part] have k: "keeps l1 (reset_retry i l2)" .
  from finalize_keeps [OF f holds_tidy [OF keeps_holds [OF k]]] have "keeps (reset_retry i l2) l'" ..
  from keeps_trans [OF k this] have "raw_same l1 l'" by (simp add: keeps_def)
  moreover from h1 have "queue_le l l1" unfolding holds_def ..
  ultimately show thesis using s caps by (intro that)
qed

lemma new_result_same:
  assumes "raw_same l1 l'" "queue_le l l1" "new_result l l' j p"
  shows "new_result l l1 j p"
proof -
  from assms(3) obtain q q' where q: "lookup_by q_dispatch j (queue l) = Some q" "q_raw q = None"
      "lookup_by q_dispatch j (queue l') = Some q'" "q_raw q' = Some p" by (auto simp: new_result_def)
  from assms(2) q(1) obtain q1 where q1: "lookup_by q_dispatch j (queue l1) = Some q1" by (auto simp: queue_le_def rows_le_def)
  with assms(1) obtain y where "lookup_by q_dispatch j (queue l') = Some y" "q_raw y = q_raw q1"
    unfolding raw_same_def rows_le_def by blast
  with q(3) have "q_raw q' = q_raw q1" by simp
  with q q1 show ?thesis by (auto simp: new_result_def)
qed

lemma commit_caps:
  assumes "commit_in_transaction E now i g a token raw status l = Inr (r, l')" "tidy l"
    and dist: "distinct (map (\<lambda>c. (c_dispatch c, c_generation c, c_attempt c)) (capabilities l))"
    and "c \<in> set (capabilities l')"
  shows "c \<in> set (capabilities l) \<or> (\<exists>c0. is_capability i g a c0 \<and> submitted E now token l c0 \<and> c = consume E now raw c0)"
  using assms(1-3)
proof (rule commit_parts)
  fix r1 l1 assume s: "submit_in_transaction E now i g a token raw status l = Inr (r1, l1)" and "capabilities l' = capabilities l1"
  with assms(4) have "c \<in> set (capabilities l1)" by simp
  from submit_caps [OF s dist this] show ?thesis .
qed

lemma commit_result:
  assumes "commit_in_transaction E now i g a token raw status l = Inr (r, l')" "tidy l"
    and dist: "distinct (map (\<lambda>c. (c_dispatch c, c_generation c, c_attempt c)) (capabilities l))"
    and "new_result l l' j p"
  shows "j = i \<and> p = (raw, sha256 E raw) \<and> (\<exists>c. is_capability i g a c \<and> submitted E now token l c)"
  using assms(1-3)
proof (rule commit_parts)
  fix r1 l1 assume s: "submit_in_transaction E now i g a token raw status l = Inr (r1, l1)" and "raw_same l1 l'" "queue_le l l1"
  from submit_result [OF s new_result_same [OF this(2,3) assms(4)]] show ?thesis .
qed

text \<open>The capability of a retained result, before it was renewed.\<close>

lemma renewed_submitted:
  assumes "is_capability i g a c0" "submitted E now token (extend_capability i g a (now + CAPABILITY_MIN) l) c0"
  obtains c1 where "is_capability i g a c1" "c1 \<in> set (capabilities l)" "c_consumed c1 = None" "c_token c1 = sha256 E token"
    "c0 = renewed now c1"
proof -
  from assms(2) have c0: "c0 \<in> set (capabilities (extend_capability i g a (now + CAPABILITY_MIN) l))" "c_consumed c0 = None"
    "c_token c0 = sha256 E token" by (simp_all add: submitted_def)
  then consider c1 where "c1 \<in> set (capabilities l)" "is_capability i g a c1" "c_consumed c1 = None" "c0 = renewed now c1"
    | "c0 \<in> set (capabilities l)" "\<not> (is_capability i g a c0 \<and> c_consumed c0 = None)"
    unfolding extend_capability_def renewed_def by (auto simp: set_update_where)
  then show thesis
  proof cases
    case (1 c1)
    with c0(3) show thesis by (intro that [of c1]) (simp_all add: renewed_def)
  qed (use assms(1) c0(2) in simp)
qed

lemma retained_facts:
  assumes "retained_in_transaction E now i g a token raw status l = Inr (r, l')" "tidy l"
    and dist: "distinct (map (\<lambda>c. (c_dispatch c, c_generation c, c_attempt c)) (capabilities l))"
  shows "c \<in> set (capabilities l') \<Longrightarrow> c \<in> set (capabilities l) \<or> bounded_capability now c
      \<or> (\<exists>c0. is_capability i g a c0 \<and> c0 \<in> set (capabilities l) \<and> c_consumed c0 = None \<and> c_token c0 = sha256 E token
           \<and> late_result_allowed l i g a \<and> c = consume E now raw (renewed now c0))"
    and "new_result l l' j p \<Longrightarrow> j = i \<and> p = (raw, sha256 E raw) \<and> late_result_allowed l i g a
      \<and> (\<exists>c0. is_capability i g a c0 \<and> c0 \<in> set (capabilities l) \<and> c_consumed c0 = None \<and> c_token c0 = sha256 E token)"
proof -
  let ?l = "extend_capability i g a (now + CAPABILITY_MIN) l"
  from assms(1) have late: "late_result_allowed l i g a"
    by (rule retained_commits)
  from assms(1) have c: "commit_in_transaction E now i g a token raw status ?l = Inr (r, l')"
    by (rule retained_commits)
  note tidy = tidy_extend [OF assms(2)]
  have dist': "distinct (map (\<lambda>c. (c_dispatch c, c_generation c, c_attempt c)) (capabilities ?l))" using dist by (simp add: extend_keys)
  show "c \<in> set (capabilities l) \<or> bounded_capability now c
      \<or> (\<exists>c0. is_capability i g a c0 \<and> c0 \<in> set (capabilities l) \<and> c_consumed c0 = None \<and> c_token c0 = sha256 E token
           \<and> late_result_allowed l i g a \<and> c = consume E now raw (renewed now c0))" if new: "c \<in> set (capabilities l')"
    using commit_caps [OF c tidy dist' new]
  proof (elim disjE exE conjE)
    assume "c \<in> set (capabilities ?l)"
    then have "c \<in> set (capabilities l) \<or> bounded_capability now c"
      by (rule extend_bounded) (simp_all add: CAPABILITY_MIN_def CAPABILITY_MAX_def)
    then show ?thesis by blast
  next
    fix c0 assume c0: "is_capability i g a c0" "submitted E now token ?l c0" and c': "c = consume E now raw c0"
    from renewed_submitted [OF c0] obtain c1 where "is_capability i g a c1" "c1 \<in> set (capabilities l)" "c_consumed c1 = None"
      "c_token c1 = sha256 E token" "c0 = renewed now c1" .
    with late c' show ?thesis by blast
  qed
  show "j = i \<and> p = (raw, sha256 E raw) \<and> late_result_allowed l i g a
      \<and> (\<exists>c0. is_capability i g a c0 \<and> c0 \<in> set (capabilities l) \<and> c_consumed c0 = None \<and> c_token c0 = sha256 E token)"
    if new: "new_result l l' j p"
  proof -
    from new have "new_result ?l l' j p" by (simp add: new_result_def)
    from commit_result [OF c tidy dist' this] obtain c0 where jp: "j = i" "p = (raw, sha256 E raw)"
      and c0: "is_capability i g a c0" "submitted E now token ?l c0" by blast
    from renewed_submitted [OF c0] obtain c1 where "is_capability i g a c1" "c1 \<in> set (capabilities l)" "c_consumed c1 = None"
      "c_token c1 = sha256 E token" .
    with jp late show ?thesis by blast
  qed
qed

text \<open>A result read back from the persisted thread needs no capability, but a row that waits for its inspection.\<close>

lemma ingest_facts:
  assumes "ingest_in_transaction E now i raw status l = Inr (r, l')" "tidy l"
  shows "capabilities l' = capabilities l"
    and "new_result l l' j p \<Longrightarrow> j = i \<and> p = (raw, sha256 E raw)
      \<and> map_option q_state (lookup_by q_dispatch i (queue l)) = Some Inspection_Pending"
proof -
  note body = assms(1) [unfolded ingest_in_transaction_def bind_res_Inr_iff queue_dispatch_iff]
  from body obtain q where q: "lookup_by q_dispatch i (queue l) = Some q" by blast
  have "capabilities l' = capabilities l \<and> (new_result l l' j p \<longrightarrow> j = i \<and> p = (raw, sha256 E raw)
      \<and> map_option q_state (lookup_by q_dispatch i (queue l)) = Some Inspection_Pending)"
  proof (cases "q_state q \<in> {Queue_Completed, Queue_Failed}")
    case True
    with body q have "law_part l' = law_part l" by (auto simp: bind_res_Inr_iff dest: bind_integrity_part split: if_splits)
    then show ?thesis by (auto simp: law_part_iff new_result_def)
  next
    case False
    let ?f = "\<lambda>r. r\<lparr>q_state := Result_Submitted, q_raw := Some (raw, sha256 E raw), q_terminal := Some status, q_updated := now\<rparr>"
    from body q False obtain recs l3 where st: "q_state q = Inspection_Pending"
      and b: "bind_terminal_integrity i (sha256 E raw) (reset_retry i ((update_queue i ?f l)\<lparr>recoveries := recs\<rparr>)) = Inr l3"
      and f: "finalize_in_transaction E now i [] None l3 = Inr (r, l')"
      by (auto simp: bind_res_Inr_iff Let_def)
    from bind_integrity_part [OF b] have l3: "queue l3 = update_where (\<lambda>r. q_dispatch r = i) ?f (queue l)"
      "capabilities l3 = capabilities l" by (simp_all add: law_part_iff update_queue_def)
    from f have "queue l' = queue l3 \<or> (\<exists>st t. queue l' = update_where (\<lambda>r. q_dispatch r = i) (\<lambda>r. r\<lparr>q_state := st, q_updated := t\<rparr>) (queue l3))"
      by (rule finalize_cases) (auto simp: law_part_iff update_queue_def)
    with l3(1) have "new_result l l' j p \<longrightarrow> j = i \<and> p = (raw, sha256 E raw)"
      by (auto simp: new_result_def lookup_update_if split: if_splits dest: lookup_by_in)
    moreover have "map_option q_state (lookup_by q_dispatch i (queue l)) = Some Inspection_Pending" using q st by simp
    moreover have "capabilities l' = capabilities l" using l3(2) finalize_caps [OF f] by simp
    ultimately show ?thesis by blast
  qed
  then show "capabilities l' = capabilities l"
    "new_result l l' j p \<Longrightarrow> j = i \<and> p = (raw, sha256 E raw)
      \<and> map_option q_state (lookup_by q_dispatch i (queue l)) = Some Inspection_Pending" by blast+
qed

section \<open>Every transaction\<close>

text \<open>The operations that present a result under a capability; the last component tells a retained one.\<close>

fun presents :: "result_op \<Rightarrow> (pystr \<times> int \<times> int \<times> pystr \<times> pystr \<times> bool) option" where
  "presents (Submit_Result i g a token raw) = Some (i, g, a, token, raw, False)"
| "presents (Commit_Result i g a token raw) = Some (i, g, a, token, raw, False)"
| "presents (Retained_Result i g a token raw) = Some (i, g, a, token, raw, True)"
| "presents (Ingest_Result i raw) = None"

text \<open>The capability such an operation was accepted under.\<close>

definition accepted_under :: "ledger_env \<Rightarrow> time \<Rightarrow> result_op \<Rightarrow> ledger \<Rightarrow> pystr \<Rightarrow> pystr \<Rightarrow> bool \<Rightarrow> capability_row \<Rightarrow> bool" where
  "accepted_under E now op l i raw late c \<longleftrightarrow> (\<exists>g a token. presents op = Some (i, g, a, token, raw, late) \<and> is_capability i g a c
     \<and> c \<in> set (capabilities l) \<and> c_consumed c = None \<and> c_token c = sha256 E token
     \<and> (if late then late_result_allowed l i g a else now < c_expires c))"

text \<open>The one way a capability that was not there before, or looked different, comes about.\<close>

definition capability_step :: "ledger_env \<Rightarrow> time \<Rightarrow> queue_op \<Rightarrow> ledger \<Rightarrow> capability_row \<Rightarrow> bool" where
  "capability_step E now op l c \<longleftrightarrow> bounded_capability now c
     \<or> (\<exists>r i raw late c0. op = Result r \<and> accepted_under E now r l i raw late c0
          \<and> c = consume E now raw (if late then renewed now c0 else c0))"

lemma accepted_submitted:
  "presents op = Some (i, g, a, token, raw, False) \<Longrightarrow> is_capability i g a c \<Longrightarrow> submitted E now token l c \<Longrightarrow>
     accepted_under E now op l i raw False c"
  by (auto simp: accepted_under_def submitted_def)

lemma accepted_late:
  "presents op = Some (i, g, a, token, raw, True) \<Longrightarrow> is_capability i g a c \<Longrightarrow> c \<in> set (capabilities l) \<Longrightarrow> c_consumed c = None
     \<Longrightarrow> c_token c = sha256 E token \<Longrightarrow> late_result_allowed l i g a \<Longrightarrow> accepted_under E now op l i raw True c"
  by (auto simp: accepted_under_def)

lemma attempt_caps:
  assumes "attempt_transaction E now r l = Inr (u, l')" "c \<in> set (capabilities l')"
  shows "c \<in> set (capabilities l) \<or> bounded_capability now c"
proof (cases r)
  case (Issue_Capability i g a schema ws backend token req lease)
  with assms(1) obtain x where "issue_attempt_capability now i g a schema ws backend token req lease l = Inr (x, l')"
    by (auto simp: transaction_Inr)
  from issue_caps [OF this assms(2)] show ?thesis .
next
  case (Bind_Liveness i epoch g a pid birth token lease)
  with assms(1) have "capabilities l' = capabilities (extend_capability i g a (now + bounded_lifetime lease) l)"
    by (auto simp: transaction_Inr dest: liveness_caps)
  with assms(2) lifetime_caps [of c i g a now lease l] show ?thesis by simp
next
  case (Renew_Liveness i g a token lease epoch)
  with assms(1) have "capabilities l' = capabilities (extend_capability i g a (now + bounded_lifetime lease) l)"
    by (auto simp: transaction_Inr dest: liveness_caps)
  with assms(2) lifetime_caps [of c i g a now lease l] show ?thesis by simp
qed (use assms in \<open>auto simp: transaction_Inr dest!: caps_subset\<close>)

lemma result_caps:
  assumes "result_transaction E now op l = Inr (u, l')" "queue_inv E l" "c \<in> set (capabilities l')"
  shows "c \<in> set (capabilities l) \<or> capability_step E now (Result op) l c"
proof (cases op)
  case (Submit_Result i g a token raw)
  with assms(1) obtain r status where "submit_in_transaction E now i g a token raw status l = Inr (r, l')"
    by (auto simp: transaction_Inr)
  from submit_caps [OF this queue_inv_keys [OF assms(2)] assms(3)] Submit_Result show ?thesis
    unfolding capability_step_def using accepted_submitted [of op i g a token raw _ E now l] by fastforce
next
  case (Commit_Result i g a token raw)
  with assms(1) obtain r status where "commit_in_transaction E now i g a token raw status l = Inr (r, l')"
    by (auto simp: transaction_Inr)
  from commit_caps [OF this queue_base_tidy [OF queue_inv_base [OF assms(2)]] queue_inv_keys [OF assms(2)] assms(3)] Commit_Result
  show ?thesis
    unfolding capability_step_def using accepted_submitted [of op i g a token raw _ E now l] by fastforce
next
  case (Retained_Result i g a token raw)
  with assms(1) obtain r status where "retained_in_transaction E now i g a token raw status l = Inr (r, l')"
    by (auto simp: transaction_Inr)
  from retained_facts(1) [OF this queue_base_tidy [OF queue_inv_base [OF assms(2)]] queue_inv_keys [OF assms(2)] assms(3)]
    Retained_Result
  show ?thesis
    unfolding capability_step_def using accepted_late [of op i g a token raw _ l E now] by fastforce
next
  case (Ingest_Result i raw)
  with assms(1) obtain r status where "ingest_in_transaction E now i raw status l = Inr (r, l')"
    by (auto simp: transaction_Inr)
  from ingest_facts(1) [OF this queue_base_tidy [OF queue_inv_base [OF assms(2)]]] assms(3) show ?thesis by simp
qed

lemma transaction_caps:
  assumes "queue_transaction E now op l = Inr (u, l')" "queue_inv E l" "c \<in> set (capabilities l')"
  shows "c \<in> set (capabilities l) \<or> capability_step E now op l c"
proof (cases op)
  case (Recovery r)
  with assms(1) have "quiet l l'" using recovery_quiet [OF _ assms(2)] by simp
  with assms(3) show ?thesis by (auto simp: quiet_def)
qed (use result_caps [OF _ assms(2,3)] attempt_caps [OF _ assms(3)] assms(1) in \<open>auto simp: capability_step_def\<close>)

lemma exec_caps:
  assumes "exec_body now op l = Inr (u, l')"
  shows "set (capabilities l') \<subseteq> set (capabilities l)"
proof (cases "\<exists>k. op = Cancel_Execution k")
  case False
  with exec_body_frame [OF assms(1)] show ?thesis by (simp add: queue_part_def)
next
  case True
  then obtain k x where "cancel_execution now k l = Inr (x, l')" using assms by (auto simp: forget_Inr)
  then have "queue_part l' = queue_part l
      \<or> (\<exists>q q' l1. cancel_queue_row now None False q l = Inr (q', l1) \<and> queue_part l' = queue_part l1)"
    by (rule cancel_execution_parts) blast+
  then show ?thesis using cancel_row_caps by (auto simp: queue_part_def; blast)
qed

lemma request_caps:
  assumes "request E (now, op) l = Inr (u, l')" "ledger_inv E l" "c \<in> set (capabilities l')" "c \<notin> set (capabilities l)"
  obtains qop where "op = Inr qop" "capability_step E now qop l c"
proof (cases op)
  case (Inl e)
  with assms(1) have "exec_body now e l = Inr (u, l')" by (simp add: request_def atomically_Inr)
  from exec_caps [OF this] assms(3,4) show thesis by blast
next
  case (Inr qop)
  with assms(1) have "queue_transaction E now qop l = Inr (u, l')" by (simp add: request_def)
  from transaction_caps [OF this _ assms(3)] assms(2,4) Inr that show thesis by (auto simp: ledger_inv_def)
qed

section \<open>Where a result comes from\<close>

text \<open>
  A request that gives a row its result: a submission under a capability of the row, or a result read
  back while the row waits for the inspection of its persisted thread.
\<close>

definition result_submission :: "ledger_env \<Rightarrow> ledger \<Rightarrow> ledger_request \<Rightarrow> pystr \<Rightarrow> pystr \<Rightarrow> bool" where
  "result_submission E l r i raw \<longleftrightarrow> (\<exists>op. snd r = Inr (Result op) \<and> ((\<exists>late c. accepted_under E (fst r) op l i raw late c)
     \<or> op = Ingest_Result i raw \<and> map_option q_state (lookup_by q_dispatch i (queue l)) = Some Inspection_Pending))"

lemma raw_same_no_result: "raw_same l l' \<Longrightarrow> \<not> new_result l l' j p"
  unfolding raw_same_def rows_le_def new_result_def by (metis option.inject option.distinct(1))

lemma result_origin_op:
  assumes "result_transaction E now op l = Inr (u, l')" "queue_inv E l" "new_result l l' j p"
  shows "snd p = sha256 E (fst p) \<and> result_submission E l (now, Inr (Result op)) j (fst p)"
proof -
  note tidy = queue_base_tidy [OF queue_inv_base [OF assms(2)]] and dist = queue_inv_keys [OF assms(2)]
  show ?thesis
  proof (cases op)
    case (Submit_Result i g a token raw)
    with assms(1) obtain r status where "submit_in_transaction E now i g a token raw status l = Inr (r, l')"
      by (auto simp: transaction_Inr)
    from submit_result [OF this assms(3)] Submit_Result show ?thesis
      unfolding result_submission_def using accepted_submitted [of op i g a token raw _ E now l] by fastforce
  next
    case (Commit_Result i g a token raw)
    with assms(1) obtain r status where "commit_in_transaction E now i g a token raw status l = Inr (r, l')"
      by (auto simp: transaction_Inr)
    from commit_result [OF this tidy dist assms(3)] Commit_Result show ?thesis
      unfolding result_submission_def using accepted_submitted [of op i g a token raw _ E now l] by fastforce
  next
    case (Retained_Result i g a token raw)
    with assms(1) obtain r status where "retained_in_transaction E now i g a token raw status l = Inr (r, l')"
      by (auto simp: transaction_Inr)
    from retained_facts(2) [OF this tidy dist assms(3)] Retained_Result show ?thesis
      unfolding result_submission_def using accepted_late [of op i g a token raw _ l E now] by fastforce
  next
    case (Ingest_Result i raw)
    with assms(1) obtain r status where "ingest_in_transaction E now i raw status l = Inr (r, l')"
      by (auto simp: transaction_Inr)
    from ingest_facts(2) [OF this tidy assms(3)] Ingest_Result show ?thesis by (auto simp: result_submission_def)
  qed
qed

lemma result_origin_step:
  assumes inv: "ledger_inv E l" and q: "lookup_by q_dispatch i (queue l) = Some q" "q_raw q = None"
    and q': "lookup_by q_dispatch i (queue (ledger_step E l r)) = Some q'" "q_raw q' = Some (raw, digest)"
  shows "digest = sha256 E raw \<and> result_submission E l r i raw"
proof (rule ledger_step_cases [of E l r])
  assume "ledger_step E l r = l"
  with q q' show ?thesis by simp
next
  fix u assume step: "request E r l = Inr (u, ledger_step E l r)"
  obtain now op where r: "r = (now, op)" by (cases r)
  from q q' have new: "new_result l (ledger_step E l r) i (raw, digest)" by (auto simp: new_result_def)
  from inv have qi: "queue_inv E l" by (simp add: ledger_inv_def)
  show ?thesis
  proof (cases op)
    case (Inl e)
    with step r have "exec_body now e l = Inr (u, ledger_step E l r)" by (simp add: request_def atomically_Inr)
    from exec_body_keeps [OF this queue_inv_base [OF qi]] have "raw_same l (ledger_step E l r)" by (simp add: keeps_def)
    from raw_same_no_result [OF this] new show ?thesis by blast
  next
    case (Inr qop)
    with step r have tr: "queue_transaction E now qop l = Inr (u, ledger_step E l r)" by (simp add: request_def)
    show ?thesis
    proof (cases "\<exists>op. qop = Result op")
      case True
      then obtain op where op: "qop = Result op" ..
      with tr have "result_transaction E now op l = Inr (u, ledger_step E l r)" by simp
      from result_origin_op [OF this qi new] show ?thesis by (simp add: r Inr op)
    next
      case False
      with transaction_keeps [OF tr qi] have "raw_same l (ledger_step E l r)" by (simp add: keeps_def)
      from raw_same_no_result [OF this] new show ?thesis by blast
    qed
  qed
qed

lemma queue_row_kept:
  assumes "queue_le l l'" "lookup_by q_dispatch i (queue l) = Some q"
  obtains q' where "lookup_by q_dispatch i (queue l') = Some q'" "queue_row_le q q'"
  using assms by (auto simp: queue_le_def rows_le_def)

lemma result_origin:
  assumes "ledger_inv E l" "lookup_by q_dispatch i (queue l) = Some q" "q_raw q = None"
    and "lookup_by q_dispatch i (queue (ledger_run E rs l)) = Some q'" "q_raw q' = Some (raw, digest)"
  shows "digest = sha256 E raw \<and> (\<exists>before r after. rs = before @ r # after \<and> result_submission E (ledger_run E before l) r i raw)"
  using assms
proof (induction rs arbitrary: l q)
  case Nil
  then show ?case by (simp add: ledger_run_def)
next
  case (Cons r rs)
  let ?l = "ledger_step E l r"
  have law: "ledger_inv E ?l" "ledger_le l ?l" using ledger_step_law [OF Cons.prems(1)] by blast+
  from law(2) have qle: "queue_le l ?l" by (simp add: ledger_le_def)
  from queue_row_kept [OF qle Cons.prems(2)] obtain q1 where q1: "lookup_by q_dispatch i (queue ?l) = Some q1" by blast
  have run: "ledger_run E (r # rs) l = ledger_run E rs ?l" by (simp add: ledger_run_def)
  show ?case
  proof (cases "q_raw q1")
    case None
    from Cons.IH [OF law(1) q1 None] Cons.prems(4,5) run obtain before r' after where "digest = sha256 E raw"
      and rs: "rs = before @ r' # after" "result_submission E (ledger_run E before ?l) r' i raw" by auto
    then show ?thesis
      by (intro conjI exI [of _ "r # before"] exI [of _ r'] exI [of _ after]) (simp_all add: ledger_run_def)
  next
    case (Some p)
    from queue_row_kept [OF ledger_run_facts(3) [OF law(1)] q1] obtain q2
      where "lookup_by q_dispatch i (queue (ledger_run E rs ?l)) = Some q2" "queue_row_le q1 q2" by blast
    with Cons.prems(4,5) run Some have "p = (raw, digest)" by (auto simp: queue_row_le_def)
    with Some have "q_raw q1 = Some (raw, digest)" by simp
    from result_origin_step [OF Cons.prems(1-3) q1 this] show ?thesis
      by (intro conjI exI [of _ "[]"] exI [of _ r] exI [of _ rs]) (simp_all add: ledger_run_def)
  qed
qed

end
