(* ===== verification/Result_Texts.thy ===== *)
theory Result_Texts
  imports Queue_Results
begin

text \<open>
  The texts written when a row becomes terminal: they can always be written, and the summary of the
  decision is as long as its parts, so its bound is a bound on the number of successors.
\<close>

section \<open>Lengths of JSON texts\<close>

lemma length_escape: "length (escape_char False c) \<le> 6"
  by (simp add: escape_char_def u_escape_def)

lemma length_dump_str: "length (dump_str False s) \<le> 2 + 6 * length s"
proof -
  have "length (concat (map (escape_char False) s)) \<le> 6 * length s"
    by (induction s) (use length_escape in \<open>auto intro: add_le_mono\<close>)
  then show ?thesis by (simp add: dump_str_def)
qed

lemma length_sep_by: "length (sep_by [c] xs) \<le> sum_list (map length xs) + length xs"
  by (induction "[c]" xs rule: sep_by.induct) simp_all

definition entry_text :: "pystr \<times> pystr \<Rightarrow> pystr" where
  "entry_text e = dump_str False (fst e) @ lit '':'' @ snd e"

definition entry_bound :: "pystr \<times> pystr \<Rightarrow> nat" where
  "entry_bound e = 4 + 6 * length (fst e) + length (snd e)"

definition object_text :: "(pystr \<times> pystr) list \<Rightarrow> pystr" where
  "object_text es = [123] @ sep_by (lit '','') (map entry_text (sort_key fst es)) @ [125]"

lemma length_entry: "Suc (length (entry_text e)) \<le> entry_bound e"
  using length_dump_str [of "fst e"] by (simp add: entry_text_def entry_bound_def lit_def)

lemma length_entries: "sum_list (map length (map entry_text es)) + length es \<le> sum_list (map entry_bound es)"
proof (induction es)
  case (Cons e es)
  with length_entry [of e] show ?case by simp
qed simp

lemma sum_insort: "sum_list (map (f :: 'a \<Rightarrow> nat) (insort_key k x xs)) = f x + sum_list (map f xs)"
  by (induction xs) simp_all

lemma sum_sort: "sum_list (map (f :: 'a \<Rightarrow> nat) (sort_key k xs)) = sum_list (map f xs)"
  by (induction xs) (simp_all add: sum_insort)

lemma length_object: "2 \<le> length (object_text es) \<and> length (object_text es) \<le> 2 + sum_list (map entry_bound es)"
proof -
  let ?es = "sort_key fst es"
  have "sum_list (map entry_bound ?es) = sum_list (map entry_bound es)" by (rule sum_sort)
  moreover have "length (sep_by [44] (map entry_text ?es)) \<le> sum_list (map entry_bound ?es)"
    using length_sep_by [of 44 "map entry_text ?es"] length_entries [of ?es] unfolding length_map by (rule order.trans)
  ultimately show ?thesis by (simp add: object_text_def lit_def)
qed

lemma dumps_object:
  "dumps_entries fr False d = Inr es \<Longrightarrow> dumps fr False (JObj d) = Inr (object_text es)"
  by (simp add: object_text_def entry_text_def [abs_def] case_prod_unfold)

lemma dumps_texts: "dumps_items fr False (map JStr ss) = Inr (map (dump_str False) ss)"
  by (induction ss) simp_all

section \<open>The summary of a decision and the notification\<close>

definition null_text :: "pystr option \<Rightarrow> pystr" where
  "null_text t = (case t of None \<Rightarrow> lit ''null'' | Some s \<Rightarrow> dump_str False s)"

lemma dumps_text_or_null [simp]: "dumps fr False (text_or_null t) = Inr (null_text t)"
  by (simp add: text_or_null_def null_text_def split: option.splits)

definition released_ids :: "ledger \<Rightarrow> pystr \<Rightarrow> pystr list" where
  "released_ids l i = sort (map as_successor (filter (\<lambda>a. as_source a = i \<and> as_released a \<noteq> None) (successors l)))"

definition array_text :: "pystr list \<Rightarrow> pystr" where
  "array_text ss = lit ''['' @ sep_by (lit '','') (map (dump_str False) ss) @ lit '']''"

definition summary_entries ::
    "ledger \<Rightarrow> pystr \<Rightarrow> cycle_kind \<Rightarrow> pystr \<Rightarrow> pystr option \<Rightarrow> pystr option \<Rightarrow> queue_state \<Rightarrow> (pystr \<times> pystr) list" where
  "summary_entries l i kind cycle source digest st =
     [(lit ''dispatch_id'', dump_str False i), (lit ''kind'', dump_str False (kind_text kind)), (lit ''cycle_sequence'', cycle),
      (lit ''state'', dump_str False (lit (queue_state_text st))),
      (lit ''summary'', dump_str False (kind_text kind @ lit '' controller decision'')),
      (lit ''source_thread_id'', null_text source), (lit ''result_sha256'', null_text digest),
      (lit ''expected_successor_dispatch_ids'', array_text (released_ids l i))]"

lemma summary_text:
  assumes "py_int_repr cycle = Inr t"
  shows "encode_plain (decision_summary l i kind cycle source digest st) = Inr (object_text (summary_entries l i kind t source digest st))"
proof -
  have "dumps fr False (JArr (map JStr (released_ids l i))) = Inr (array_text (released_ids l i))" for fr
    by (simp add: dumps_texts array_text_def)
  then show ?thesis unfolding encode_plain_def decision_summary_def released_ids_def [symmetric]
    by (intro dumps_object) (simp add: assms summary_entries_def)
qed

lemma length_array: "length (array_text ss) \<le> 2 + sum_list (map (\<lambda>s. 3 + 6 * length s) ss)"
proof -
  have "sum_list (map length (map (dump_str False) ss)) + length ss \<le> sum_list (map (\<lambda>s. 3 + 6 * length s) ss)"
  proof (induction ss)
    case (Cons s ss)
    with length_dump_str [of s] show ?case by simp
  qed simp
  with length_sep_by [of 44 "map (dump_str False) ss"] show ?thesis by (simp add: array_text_def lit_def)
qed

lemma length_null: "length (null_text t) \<le> 4 + 6 * (case t of None \<Rightarrow> 0 | Some s \<Rightarrow> length s)"
  using length_dump_str by (auto simp: null_text_def lit_def split: option.splits intro: order.trans [OF length_dump_str])

lemma length_state: "length (queue_state_text st) \<le> 32" "length (kind_text kind) \<le> 10"
  by (cases st; simp) (cases kind; simp add: lit_def)

lemma length_summary:
  "length (object_text (summary_entries l i kind t source digest st)) \<le> 1200 + 6 * length i + length t
     + 6 * (case source of None \<Rightarrow> 0 | Some s \<Rightarrow> length s) + 6 * (case digest of None \<Rightarrow> 0 | Some s \<Rightarrow> length s)
     + sum_list (map (\<lambda>s. 3 + 6 * length s) (released_ids l i))"
proof -
  note bounds = length_object [of "summary_entries l i kind t source digest st"] length_dump_str [of i]
    length_dump_str [of "kind_text kind"] length_dump_str [of "lit (queue_state_text st)"]
    length_dump_str [of "kind_text kind @ lit '' controller decision''"] length_null [of source] length_null [of digest]
    length_array [of "released_ids l i"] length_state(1) [of st] length_state(2) [of kind]
  then show ?thesis by (simp add: summary_entries_def entry_bound_def lit_def)
qed

lemma notification_text:
  "encode_plain (terminal_notification i k st digest) = Inr (object_text
     [(lit ''schema_version'', lit ''1''), (lit ''kind'', dump_str False (lit ''TERMINAL'')), (lit ''dispatch_id'', dump_str False i),
      (lit ''run_id'', dump_str False (mk_run k)), (lit ''milestone_id'', dump_str False (mk_milestone k)),
      (lit ''state'', dump_str False (lit (queue_state_text st))), (lit ''result_sha256'', dump_str False digest)])"
proof -
  have "py_int_repr 1 = Inr (lit ''1'')"
    using int_repr_limit_large [of 1] by (simp add: py_int_repr_def int_str_def nat_digits.simps lit_def)
  then show ?thesis unfolding encode_plain_def terminal_notification_def by (intro dumps_object) simp
qed

end
