(* ===== verification/Queue_Sample.thy ===== *)
theory Queue_Sample
  imports Execution_Guarantees Queue_Capabilities Result_Texts
begin

text \<open>
  A ledger for the examples of the queue: one milestone with three dispatches, one running under an open
  capability, one queued, one whose result is submitted, and a harness that holds the lease of epoch 3.
\<close>

definition sample_digest :: pystr where
  "sample_digest = replicate 64 48"

definition sample_env :: ledger_env where
  "sample_env = \<lparr>sha256 = \<lambda>_. sample_digest, result_status = \<lambda>_ _. Some (lit ''completed''), retired_contract = [], redact = id\<rparr>"

definition sample_id :: "string \<Rightarrow> pystr" where
  "sample_id role = lit ''r/a/'' @ lit role @ lit ''/1''"

definition sample_dispatch :: "string \<Rightarrow> dispatch_row" where
  "sample_dispatch role = \<lparr>dp_id = lit ''r/a/'' @ lit role @ lit ''/1'', dp_key = key_a, dp_role = lit role, dp_generation = 1,
     dp_claimed = 0\<rparr>"

definition sample_queue_row :: "string \<Rightarrow> queue_state \<Rightarrow> int \<Rightarrow> queue_row" where
  "sample_queue_row role st n = \<lparr>q_dispatch = lit ''r/a/'' @ lit role @ lit ''/1'', q_key = key_a, q_role = lit role,
     q_generation = 1, q_backend = lit ''sdk_headless'', q_facts = (lit ''c'', None, lit ''d''), q_workspace = lit ''/w'', q_contract = sample_digest, q_state = st,
     q_sequence = n, q_available = 0, q_claim = (if st = Queued then None else Some (3, sample_digest)), q_attempt = 1,
     q_thread = None, q_host = None,
     q_raw = (if st = Result_Submitted then Some (lit ''ok'', sample_digest) else None),
     q_terminal = (if st = Result_Submitted then Some (lit ''completed'') else None), q_updated = 0\<rparr>"

definition sample_capability :: "string \<Rightarrow> time option \<Rightarrow> capability_row" where
  "sample_capability role used = \<lparr>c_dispatch = lit ''r/a/'' @ lit role @ lit ''/1'', c_generation = 1, c_attempt = 1,
     c_schema = sample_digest, c_workspace = lit ''/w'', c_backend = lit ''sdk_headless'', c_issued = 0, c_expires = 500,
     c_consumed = used, c_token = sample_digest, c_accepted = map_option (\<lambda>_. sample_digest) used\<rparr>"

definition sample_binding :: "string \<Rightarrow> binding_row" where
  "sample_binding role = \<lparr>b_dispatch = lit ''r/a/'' @ lit role @ lit ''/1'',
     b_facts = \<lparr>bf_plan_path = lit ''p'', bf_plan = sample_digest, bf_projection = sample_digest, bf_mode = INHERIT_NATIVE,
       bf_profile = None, bf_compat = None, bf_permission = None\<rparr>,
     b_source_thread = Some (lit ''t''), b_deadline = Some 900, b_armed = True\<rparr>"

definition sample_recovery :: "string \<Rightarrow> recovery_row" where
  "sample_recovery role = \<lparr>rs_dispatch = lit ''r/a/'' @ lit role @ lit ''/1'', rs_provider = (None, None), rs_inspection = (0, 8),
     rs_continuation = (0, 2), rs_fresh_thread = (0, 1), rs_fresh_after_idle = True, rs_state = No_Recovery,
     rs_exit_class = None, rs_exit_code = None, rs_next_eligible = None, rs_inspected = (None, None, None),
     rs_attention = None, rs_exited = None\<rparr>"

definition sample_harness :: harness_row where
  "sample_harness = \<lparr>h_epoch = 3, h_nonce = sample_digest, h_pid = 7, h_birth = lit ''b'', h_acquired = 0, h_renewed = 0,
     h_expires = 1000, h_digest = sample_digest, h_version = lit ''v'', h_shutdown = False\<rparr>"

definition sample_queue :: ledger where
  "sample_queue = empty_ledger\<lparr>
     runs := [\<lparr>run_id = lit ''r'', run_created = 0, run_closed = None, run_program = None\<rparr>],
     milestones := [\<lparr>ms_key = key_a, ms_state = PLANNED, ms_created = 0, ms_updated = 0\<rparr>],
     dispatches := map sample_dispatch [''v'', ''w'', ''x''],
     queue := [sample_queue_row ''v'' Running 1, sample_queue_row ''w'' Queued 2, sample_queue_row ''x'' Result_Submitted 3],
     bindings := map sample_binding [''v'', ''w'', ''x''],
     capabilities := [sample_capability ''v'' None, sample_capability ''x'' (Some 5)],
     retries := map (\<lambda>role. new_retry_row (lit ''r/a/'' @ lit role @ lit ''/1'')) [''v'', ''w'', ''x''],
     recoveries := map sample_recovery [''v'', ''w'', ''x''],
     harness := Some sample_harness\<rparr>"

lemmas sample_queue_defs = sample_queue_def sample_dispatch_def sample_queue_row_def sample_capability_def sample_harness_def
  sample_binding_def sample_recovery_def new_retry_row_def empty_ledger_def

lemmas sample_check_defs = validate_queue_def bind_res_Inr_iff each_res_Inr check_queue_identity_def check_capability_def
  check_queue_row_def Let_def check_liveness_def check_wakes_of_def lookup_by_def select_one_def active_states_def
  check_binding_def check_recovery_def within_budget_def check_retry_def used_within_budget_def

lemma sample_digest_hex: "is_hex 64 sample_digest"
  by (simp add: is_hex_def sample_digest_def list_all_iff)

lemma sample_one: "py_int_repr 1 = Inr (lit ''1'')" "generation_of_text [49] = Inr 1"
proof -
  show one: "py_int_repr 1 = Inr (lit ''1'')"
    using int_repr_limit_large [of 1] by (simp add: py_int_repr_def int_str_def nat_digits.simps lit_def)
  then show "generation_of_text [49] = Inr 1"
    by (simp add: generation_of_text_def digits_value_def generation_of_int_def lit_def)
qed

lemma sample_dispatch_ok:
  assumes "role \<in> {''v'', ''w'', ''x''}"
  shows "dispatch_id_from_parts (lit ''r'', lit ''a'', lit role, 1) = Inr (dp_id (sample_dispatch role))"
  using assms by (elim insertE; simp add: dispatch_id_from_parts_def sample_one generation_of_int_def validated_identifier_def
      id_pattern_def ascii_alnum_def dispatch_id_def dispatch_parts_of_def sample_dispatch_def lit_def slash_def)

lemma sample_workflow: "machine_inv sample_queue"
proof -
  let ?l = sample_queue
  have disp: "set (dispatches ?l) = {sample_dispatch ''v'', sample_dispatch ''w'', sample_dispatch ''x''}"
    by (simp add: sample_queue_def)
  have dispatch: "check_dispatch ?l (sample_dispatch role) = Inr ()" if "role \<in> {''v'', ''w'', ''x''}" for role
    using sample_dispatch_ok [OF that]
    by (simp add: check_dispatch_def bind_res_Inr_iff sample_dispatch_def) (simp add: sample_queue_def empty_ledger_def)
  have "check_dispatch ?l d = Inr ()" if "d \<in> set (dispatches ?l)" for d
    using that dispatch [of "''v''"] dispatch [of "''w''"] dispatch [of "''x''"] unfolding disp by auto
  moreover have "check_claim_count ?l d = Inr ()" if "d \<in> set (dispatches ?l)" for d
    using that unfolding disp check_claim_count_def claim_count_def
    by (auto simp: sample_queue_defs executor_role_def lit_def)
  ultimately have "validate_workflow ?l = Inr ()"
    by (simp add: validate_workflow_def bind_res_Inr_iff each_res_Inr)
      (simp add: check_orphans_def check_duplicates_def check_milestone_def history_def sample_queue_defs lit_def)
  then show ?thesis
    by (simp add: machine_inv_def exec_inv_def own_app_def sql_keys_def exclusive_def) (simp add: sample_queue_defs lit_def)
qed

lemma sample_rows: "validate_queue sample_env sample_queue = Inr ()"
  by (simp add: sample_check_defs sample_queue_defs lit_def)

lemma sample_ledger_inv: "ledger_inv sample_env sample_queue"
proof -
  have "distinct (map q_dispatch (queue sample_queue))" by (simp add: sample_queue_defs lit_def)
  moreover have "raw_backed sample_queue" by (simp add: raw_backed_def backed_def sample_queue_defs is_capability_def lit_def)
  ultimately show ?thesis
    using sample_workflow sample_rows
    by (simp add: ledger_inv_def queue_inv_def validate_rows_iff machine_inv_def exec_inv_def)
qed

section \<open>Requests on the sample\<close>

lemma workflow_part_valid:
  assumes "workflow_part l' = workflow_part l"
  shows "validate_workflow l' = validate_workflow l"
proof -
  from assms have eqs: "runs l' = runs l" "milestones l' = milestones l" "dispatches l' = dispatches l" "events l' = events l"
    "executions l' = executions l" "integrity l' = integrity l" "leases l' = leases l" "sdk_events l' = sdk_events l"
    "app_native l' = app_native l" by (simp_all add: workflow_part_def)
  have "check_orphans l' = check_orphans l" "check_duplicates l' = check_duplicates l"
    unfolding check_orphans_def check_duplicates_def eqs by (rule refl)+
  moreover have "check_dispatch l' = check_dispatch l" "check_event l' = check_event l" "check_claim_count l' = check_claim_count l"
    "check_milestone l' = check_milestone l"
    by (rule ext; unfold check_dispatch_def check_event_def check_claim_def check_claim_count_def claim_count_def
        check_milestone_def history_def eqs; rule refl)+
  moreover have "check_app_native l' = check_app_native l" "check_execution l' = check_execution l"
    by (rule ext; unfold check_app_native_def check_execution_def check_owner_def check_turn_def eqs; rule refl)+
  ultimately show ?thesis by (simp add: validate_workflow_def eqs)
qed

lemma sample_valid:
  assumes "workflow_part l = workflow_part sample_queue" "validate_queue sample_env l = Inr ()"
  shows "validate_rows sample_env l = Inr ()"
  using sample_workflow workflow_part_valid [OF assms(1)] assms(2) by (simp add: validate_rows_iff machine_inv_def exec_inv_def)

lemma sample_request:
  assumes "queue_transaction sample_env now op sample_queue = committing sample_env f sample_queue"
    and "f sample_queue = Inr (x, l')"
    and "workflow_part l' = workflow_part sample_queue" "validate_queue sample_env l' = Inr ()"
  shows "request sample_env (now, Inr op) sample_queue = Inr ((), l')" "ledger_run sample_env [(now, Inr op)] sample_queue = l'"
proof -
  have "validate_rows sample_env sample_queue = Inr ()" "validate_rows sample_env l' = Inr ()"
    using sample_valid assms(3,4) sample_rows by blast+
  with assms(1,2) show "request sample_env (now, Inr op) sample_queue = Inr ((), l')"
    by (simp add: request_def committing_Inr)
  then show "ledger_run sample_env [(now, Inr op)] sample_queue = l'"
    by (simp add: ledger_run_def ledger_step_def after_op_def)
qed

definition next_harness :: harness_row where
  "next_harness = \<lparr>h_epoch = 4, h_nonce = sample_digest, h_pid = 8, h_birth = lit ''b'', h_acquired = 2000, h_renewed = 2000,
     h_expires = 2100, h_digest = sample_digest, h_version = lit ''v'', h_shutdown = False\<rparr>"

definition sample_acquire :: ledger_request where
  "sample_acquire = (2000, Inr (Attempt (Acquire_Harness 8 (lit ''b'') sample_digest (lit ''v'') sample_digest 100)))"

lemma sample_acquired: "ledger_run sample_env [sample_acquire] sample_queue = sample_queue\<lparr>harness := Some next_harness\<rparr>"
  unfolding sample_acquire_def
proof (rule sample_request(2) )
  show "acquire_harness 2000 8 (lit ''b'') sample_digest (lit ''v'') sample_digest 100 sample_queue
      = Inr (next_harness, sample_queue\<lparr>harness := Some next_harness\<rparr>)"
    using sample_digest_hex
    by (simp add: acquire_harness_def bind_res_Inr_iff next_harness_def sample_queue_def sample_harness_def lit_def Let_def)
  show "validate_queue sample_env (sample_queue\<lparr>harness := Some next_harness\<rparr>) = Inr ()"
    by (simp add: sample_check_defs sample_queue_defs lit_def)
qed simp_all

lemma sample_claimed:
  defines "q \<equiv> (sample_queue_row ''w'' Queued 2)\<lparr>q_state := Claimed, q_claim := Some (3, sample_digest), q_updated := 10\<rparr>"
  shows "atomically (validate_rows sample_env) (claim_queue_dispatch 10 3 sample_digest) sample_queue
     = Inr (Some q, sample_queue\<lparr>queue := [sample_queue_row ''v'' Running 1, q, sample_queue_row ''x'' Result_Submitted 3]\<rparr>)"
proof -
  let ?l = "sample_queue\<lparr>queue := [sample_queue_row ''v'' Running 1, q, sample_queue_row ''x'' Result_Submitted 3]\<rparr>"
  have "first_eligible sample_queue 10 = Some (sample_queue_row ''w'' Queued 2)"
    by (simp add: first_eligible_def eligible_def sample_queue_defs)
  then have "claim_queue_dispatch 10 3 sample_digest sample_queue = Inr (Some q, ?l)"
    using sample_digest_hex
    by (simp add: claim_queue_dispatch_def bind_res_Inr_iff live_harness_def harness_refresh_fenced_def
        require_queue_program_capability_def Let_def lookup_by_def select_one_def q_def)
      (simp add: sample_queue_defs update_where_def lit_def)
  moreover have "validate_queue sample_env ?l = Inr ()"
    by (simp add: sample_check_defs sample_queue_defs lit_def q_def)
  ultimately show ?thesis using sample_rows by (simp add: atomically_Inr sample_valid)
qed

section \<open>A committed result\<close>

definition sample_commit :: ledger_request where
  "sample_commit = (10, Inr (Result (Commit_Result (sample_id ''v'') 1 1 (lit ''token'') (lit ''done''))))"

definition sample_completed_row :: queue_row where
  "sample_completed_row = (sample_queue_row ''v'' Running 1)\<lparr>q_state := Queue_Completed,
     q_raw := Some (lit ''done'', sample_digest), q_terminal := Some (lit ''completed''), q_updated := 10\<rparr>"

definition sample_wake_id :: pystr where
  "sample_wake_id = lit ''wake/'' @ sample_id ''v'' @ lit ''/terminal''"

definition sample_wake :: wake_row where
  "sample_wake = \<lparr>w_delivery = sample_wake_id, w_dispatch = sample_id ''v'', w_decision = decision_id_of sample_wake_id,
     w_kind = Terminal, w_cycle = 1, w_source_thread = Some (lit ''t''), w_state = Wake_Pending, w_attempts = 0, w_source_turn = None\<rparr>"

definition sample_decision :: decision_row where
  "sample_decision = \<lparr>d_id = decision_id_of sample_wake_id, d_dispatch = sample_id ''v'', d_kind = Terminal, d_cycle = 1,
     d_state = Pending_Delivery, d_revision = 0, d_deadline = 300000010, d_generation = 1, d_action = None, d_claimant = None,
     d_claim_expires = None, d_attention = None, d_superseded = None\<rparr>"

definition sample_generation :: generation_row where
  "sample_generation = \<lparr>g_decision = decision_id_of sample_wake_id, g_generation = 1,
     g_lineage = lit ''lineage/'' @ decision_id_of sample_wake_id, g_state = Gen_Prepared, g_thread = None, g_turn = None\<rparr>"

definition sample_submitted :: ledger where
  "sample_submitted = sample_queue\<lparr>
     queue := [sample_completed_row\<lparr>q_state := Result_Submitted\<rparr>, sample_queue_row ''w'' Queued 2,
       sample_queue_row ''x'' Result_Submitted 3],
     capabilities := [sample_capability ''v'' (Some 10), sample_capability ''x'' (Some 5)],
     recoveries := [(sample_recovery ''v'')\<lparr>rs_state := Rec_Completed\<rparr>, sample_recovery ''w'', sample_recovery ''x'']\<rparr>"

definition sample_retries :: "retry_row list" where
  "sample_retries = [(new_retry_row (sample_id ''v''))\<lparr>rp_revision := 1\<rparr>, new_retry_row (sample_id ''w''), new_retry_row (sample_id ''x'')]"

definition sample_committed :: ledger where
  "sample_committed = sample_submitted\<lparr>
     queue := [sample_completed_row, sample_queue_row ''w'' Queued 2, sample_queue_row ''x'' Result_Submitted 3],
     successor_outbox := [\<lparr>so_source = sample_id ''v'', so_successor = None, so_outcome = Not_Required, so_completed = Some 10\<rparr>],
     notifications := [\<lparr>n_dispatch = sample_id ''v'', n_digest = sample_digest, n_task = Some (lit ''t''), n_outcome = Unavailable,
       n_attempted = None\<rparr>],
     retries := sample_retries,
     decisions := [sample_decision], generations := [sample_generation], wakes := [sample_wake]\<rparr>"

lemma sample_submission:
  "submit_in_transaction sample_env 10 (sample_id ''v'') 1 1 (lit ''token'') (lit ''done'') (lit ''completed'') sample_queue
     = Inr (sample_completed_row\<lparr>q_state := Result_Submitted\<rparr>, sample_submitted)"
  by (simp add: submit_in_transaction_def worker_process_ok_def bind_res_Inr_iff queue_dispatch_def lookup_by_def select_one_def
      is_capability_def token_digest_def Let_def returning_def update_queue_def update_where_def sample_queue_defs
      sample_env_def sample_id_def sample_completed_row_def sample_submitted_def failed_statuses_def lit_def)

lemma sample_env_digest: "sha256 sample_env x = sample_digest"
  by (simp add: sample_env_def)

lemma sample_bound: "bind_terminal_integrity (sample_id ''v'') sample_digest sample_submitted = Inr sample_submitted"
proof -
  have "dispatch_id (sample_id ''v'') = Inr (sample_id ''v'')"
    using sample_one
    by (simp add: dispatch_id_def dispatch_parts_of_def validated_identifier_def id_pattern_def ascii_alnum_def
        generation_of_int_def sample_id_def lit_def slash_def)
  moreover have "lookup_by q_dispatch (sample_id ''v'') (queue sample_submitted) = Some (sample_completed_row\<lparr>q_state := Result_Submitted\<rparr>)"
    by (simp add: lookup_by_def select_one_def sample_submitted_def sample_completed_row_def sample_queue_row_def sample_id_def lit_def)
  moreover have "lookup_by run_id (mk_run (q_key (sample_completed_row\<lparr>q_state := Result_Submitted\<rparr>))) (runs sample_submitted) \<noteq> None"
    "\<not> control_repair sample_submitted (sample_completed_row\<lparr>q_state := Result_Submitted\<rparr>)" "captures sample_submitted = []"
    by (simp_all add: lookup_by_def select_one_def control_repair_def executor_role_def sample_submitted_def sample_completed_row_def
        sample_queue_defs lit_def)
  ultimately show ?thesis using sample_digest_hex by (simp add: bind_terminal_integrity_def bind_res_Inr_iff)
qed

lemma sample_wake_name: "wake_delivery_id (sample_id ''v'') Terminal 1 = Inr sample_wake_id"
  by (simp add: wake_delivery_id_def sample_wake_id_def lit_def)

lemma sample_decision_made:
  assumes "l = l0\<lparr>decisions := [], generations := []\<rparr>" "successors l0 = []" "queue l0 = queue sample_committed"
  shows "ensure_controller_decision (sample_id ''v'') Terminal 1 (Some sample_digest) (Some (lit ''t'')) (10 + DECISION_WINDOW)
      Wake_Pending Queue_Completed l
    = Inr (decision_id_of sample_wake_id, l\<lparr>decisions := [sample_decision], generations := [sample_generation]\<rparr>)"
proof -
  obtain t where "encode_plain (decision_summary l (sample_id ''v'') Terminal 1 (Some (lit ''t''))
      (Some sample_digest) Queue_Completed) = Inr t" "2 \<le> length t" "length t \<le> 16384"
  proof (rule that)
    let ?es = "summary_entries l (sample_id ''v'') Terminal (lit ''1'') (Some (lit ''t'')) (Some sample_digest) Queue_Completed"
    show "encode_plain (decision_summary l (sample_id ''v'') Terminal 1 (Some (lit ''t'')) (Some sample_digest) Queue_Completed)
        = Inr (object_text ?es)" by (rule summary_text [OF sample_one(1)])
    show "2 \<le> length (object_text ?es)" using length_object by blast
    have "released_ids l (sample_id ''v'') = []" using assms(1,2) by (simp add: released_ids_def)
    with length_summary [of l "sample_id ''v''" Terminal "lit ''1''" "Some (lit ''t'')" "Some sample_digest" Queue_Completed]
    show "length (object_text ?es) \<le> 16384" by (simp add: sample_id_def sample_digest_def lit_def)
  qed
  with sample_wake_name show ?thesis
    using assms(1,3)
    by (simp add: ensure_controller_decision_def insert_decision_def insert_generation_def bind_res_Inr_iff Let_def)
      (simp add: sample_decision_def sample_generation_def decision_id_of_def sample_wake_id_def DECISION_WINDOW_def
        sample_committed_def sample_completed_row_def sample_queue_row_def sample_id_def lit_def)
qed

lemma sample_commits:
  "commit_in_transaction sample_env 10 (sample_id ''v'') 1 1 (lit ''token'') (lit ''done'') (lit ''completed'') sample_queue
     = Inr (sample_completed_row, sample_committed)"
proof -
  let ?l = "sample_submitted\<lparr>queue := queue sample_committed, retries := sample_retries\<rparr>"
  let ?q = "sample_completed_row\<lparr>q_state := Result_Submitted\<rparr>"
  let ?l2 = "?l\<lparr>successor_outbox := successor_outbox sample_committed, notifications := notifications sample_committed\<rparr>"
  have "reset_retry (sample_id ''v'') sample_submitted = sample_submitted\<lparr>retries := sample_retries\<rparr>"
    by (simp add: reset_retry_def clear_retry_def update_where_def sample_submitted_def sample_queue_defs sample_retries_def
        sample_id_def lit_def)
  moreover have "lookup_by q_dispatch (sample_id ''v'') (queue (sample_submitted\<lparr>retries := sample_retries\<rparr>)) = Some ?q"
    by (simp add: lookup_by_def select_one_def sample_submitted_def sample_completed_row_def sample_queue_row_def sample_id_def lit_def)
  moreover have upd: "release_successors 10 (sample_id ''v'') [] (update_queue (sample_id ''v'')
      (\<lambda>r. r\<lparr>q_state := terminal_state ?q, q_updated := 10\<rparr>) (sample_submitted\<lparr>retries := sample_retries\<rparr>)) = ?l"
    by (simp add: release_successors_def update_queue_def update_where_def terminal_state_def failed_statuses_def
        sample_committed_def sample_submitted_def sample_completed_row_def sample_queue_defs sample_id_def lit_def)
  moreover have "announce_terminal sample_env 10 ?q [] None ?l = Inr sample_committed"
  proof -
    let ?l1 = "?l\<lparr>successor_outbox := successor_outbox sample_committed\<rparr>"
    let ?l3 = "?l2\<lparr>decisions := [sample_decision], generations := [sample_generation]\<rparr>"
    note defs = sample_committed_def sample_submitted_def sample_completed_row_def sample_queue_defs sample_id_def
    have facts: "q_dispatch ?q = sample_id ''v''" "terminal_state ?q = Queue_Completed"
        "source_thread_of ?l (sample_id ''v'') = Some (lit ''t'')" "q_raw ?q = Some (lit ''done'', sample_digest)"
        "sha256 sample_env = (\<lambda>_. sample_digest)"
      by (simp_all add: terminal_state_def failed_statuses_def source_thread_of_def lookup_by_def select_one_def sample_env_def)
        (simp_all add: defs lit_def)
    have "insert_successor_out \<lparr>so_source = sample_id ''v'', so_successor = None, so_outcome = Not_Required, so_completed = Some 10\<rparr> ?l
        = Inr ?l1"
      by (simp add: insert_successor_out_def bind_res_Inr_iff) (simp add: defs)
    moreover have "insert_notification \<lparr>n_dispatch = sample_id ''v'', n_digest = sample_digest, n_task = Some (lit ''t''),
        n_outcome = Unavailable, n_attempted = None\<rparr> ?l1 = Inr ?l2"
      by (simp add: insert_notification_def bind_res_Inr_iff) (simp add: defs)
    moreover have "close_checkpoints 10 (sample_id ''v'') ?l2 = ?l2"
      by (simp add: close_checkpoints_def update_where_def sample_submitted_def sample_queue_defs)
    moreover have "ensure_controller_decision (sample_id ''v'') Terminal 1 (Some sample_digest) (Some (lit ''t'')) (10 + DECISION_WINDOW)
        Wake_Pending Queue_Completed ?l2 = Inr (decision_id_of sample_wake_id, ?l3)"
      by (rule sample_decision_made [of _ ?l2]) (simp_all add: sample_submitted_def sample_queue_defs)
    moreover have "new_wake sample_wake_id (sample_id ''v'') (decision_id_of sample_wake_id) Terminal 1 (Some (lit ''t'')) = sample_wake"
      by (simp add: new_wake_def sample_wake_def)
    moreover have "insert_wake sample_wake ?l3 = Inr sample_committed"
      by (simp add: insert_wake_def wake_check_def bind_res_Inr_iff sample_wake_def sample_decision_def)
        (simp add: defs sample_wake_id_def sample_wake_def sample_decision_def lit_def)
    ultimately show ?thesis
      unfolding announce_terminal_def Let_def facts by (simp add: notification_text sample_wake_name)
  qed
  moreover have "unreleased_successors (sample_submitted\<lparr>retries := sample_retries\<rparr>) (sample_id ''v'') = []"
    by (simp add: unreleased_successors_def sample_submitted_def sample_queue_defs)
  moreover have "returning (sample_id ''v'') sample_committed = Inr (sample_completed_row, sample_committed)"
    by (simp add: returning_Inr lookup_by_def select_one_def sample_committed_def sample_completed_row_def sample_queue_row_def
        sample_id_def lit_def)
  ultimately show ?thesis
    using sample_submission sample_bound
    by (simp add: commit_in_transaction_def finalize_in_transaction_def sample_env_digest queue_dispatch_def successor_allowed_def)
      (simp add: sample_completed_row_def get_def require_def)
qed

lemma sample_text_len: "utf8_len (lit ''done'') = Inr 4"
  by (simp add: utf8_len_def utf8_strict_def utf8_surrogatepass_def utf8_char_def is_surrogate_def lit_def)

lemma sample_committed_valid: "validate_queue sample_env sample_committed = Inr ()"
proof -
  let ?l = sample_committed
  note defs = sample_committed_def sample_submitted_def sample_completed_row_def sample_retries_def sample_queue_defs
    sample_wake_def sample_decision_def sample_env_def sample_id_def lit_def
  from sample_text_len have "each_res (check_queue_identity sample_env ?l) (queue ?l) = Inr ()"
    by (simp add: each_res_Inr check_queue_identity_def bind_res_Inr_iff lookup_by_def select_one_def defs)
  moreover have "each_res (check_capability ?l) (capabilities ?l) = Inr ()" "each_res (check_queue_row ?l) (queue ?l) = Inr ()"
    by (simp_all add: each_res_Inr check_capability_def check_queue_row_def check_successor_out_def bind_res_Inr_iff lookup_by_def
        select_one_def active_states_def Let_def defs)
  moreover have "each_res check_binding (bindings ?l) = Inr ()" "each_res (check_recovery ?l) (recoveries ?l) = Inr ()"
    "each_res check_retry (retries ?l) = Inr ()"
    by (simp_all add: each_res_Inr check_binding_def check_recovery_def check_retry_def within_budget_def used_within_budget_def
        bind_res_Inr_iff lookup_by_def select_one_def defs)
  moreover have "check_wake ?l sample_wake = Inr ()"
    using sample_wake_name
    by (simp add: check_wake_def bind_res_Inr_iff sample_wake_def lookup_by_def select_one_def)
      (simp add: sample_committed_def sample_decision_def sample_submitted_def sample_completed_row_def sample_queue_defs sample_id_def)
  moreover have "check_decision ?l sample_decision = Inr ()"
    by (simp add: check_decision_def bind_res_Inr_iff lookup_by_def select_one_def sample_committed_def sample_decision_def sample_wake_def)
  moreover have "each_res (check_wakes_of ?l) (queue ?l) = Inr ()"
    by (simp add: each_res_Inr check_wakes_of_def bind_res_Inr_iff Let_def defs)
  moreover have "b_dispatch ` set (bindings ?l) = q_dispatch ` set (queue ?l)" "rs_dispatch ` set (recoveries ?l) = q_dispatch ` set (queue ?l)"
    "rp_dispatch ` set (retries ?l) = q_dispatch ` set (queue ?l)"
    by (simp_all add: defs)
  ultimately show ?thesis
    by (simp add: validate_queue_def) (simp add: defs)
qed

lemma sample_commit_run:
  "request sample_env sample_commit sample_queue = Inr ((), sample_committed)"
  "ledger_run sample_env [sample_commit] sample_queue = sample_committed"
proof -
  let ?f = "commit_in_transaction sample_env 10 (sample_id ''v'') 1 1 (lit ''token'') (lit ''done'') (lit ''completed'')"
  have "bounded_result sample_env sample_queue (sample_id ''v'') (lit ''done'') = Inr (lit ''completed'')"
    using sample_text_len
    by (simp add: bounded_result_def parse_queue_result_def queue_dispatch_def lookup_by_def select_one_def bind_res_Inr_iff)
      (simp add: sample_queue_defs sample_env_def sample_id_def lit_def)
  then have "queue_transaction sample_env 10 (Result (Commit_Result (sample_id ''v'') 1 1 (lit ''token'') (lit ''done''))) sample_queue
      = committing sample_env ?f sample_queue"
    by (simp add: committing_def forget_def commit_queue_result_def)
  moreover have "workflow_part sample_committed = workflow_part sample_queue"
    by (simp add: sample_committed_def sample_submitted_def) (simp add: workflow_part_def)
  ultimately show "request sample_env sample_commit sample_queue = Inr ((), sample_committed)"
    "ledger_run sample_env [sample_commit] sample_queue = sample_committed"
    unfolding sample_commit_def
    using sample_request [where f = ?f and l' = sample_committed and x = sample_completed_row] sample_commits sample_committed_valid
    by blast+
qed

definition sample_issue :: queue_op where
  "sample_issue = Attempt (Issue_Capability (sample_id ''w'') 1 1 sample_digest (lit ''/w'') (lit ''sdk_headless'') sample_digest None 1)"

definition sample_issued :: capability_row where
  "sample_issued = (sample_capability ''w'' None)\<lparr>c_issued := 10, c_expires := 30000010\<rparr>"

lemma sample_issue_request:
  "request sample_env (10, Inr sample_issue) sample_queue
     = Inr ((), sample_queue\<lparr>capabilities := capabilities sample_queue @ [sample_issued]\<rparr>)"
  unfolding sample_issue_def
proof (rule sample_request(1) )
  let ?l = "sample_queue\<lparr>capabilities := capabilities sample_queue @ [sample_issued]\<rparr>"
  show "issue_attempt_capability 10 (sample_id ''w'') 1 1 sample_digest (lit ''/w'') (lit ''sdk_headless'') sample_digest None 1
      sample_queue = Inr (sample_issued, ?l)"
    using sample_digest_hex
    by (simp add: issue_attempt_capability_def bind_res_Inr_iff queue_dispatch_def lookup_by_def select_one_def is_capability_def
        capability_expiry_def bounded_lifetime_def CAPABILITY_MIN_def CAPABILITY_MAX_def Let_def sample_queue_defs
        sample_id_def sample_issued_def lit_def)
  show "validate_queue sample_env ?l = Inr ()"
    by (simp add: sample_check_defs sample_queue_defs sample_issued_def lit_def)
qed simp_all

text \<open>A repository that is idle: nothing but the harness.\<close>

definition sample_idle :: ledger where
  "sample_idle = empty_ledger\<lparr>harness := Some sample_harness\<rparr>"

definition sample_fenced :: ledger where
  "sample_fenced = empty_ledger\<lparr>harness := Some (sample_harness\<lparr>h_shutdown := True\<rparr>)\<rparr>"

lemma idle_rows:
  assumes "l = empty_ledger\<lparr>harness := h\<rparr>"
  shows "validate_rows sample_env l = Inr ()" "ledger_inv sample_env l"
proof -
  have "machine_inv l" by (rule workflow_part_inv [OF _ empty_machine_inv])
    (use empty_machine_inv workflow_part_valid [of l empty_ledger] in \<open>simp_all add: assms machine_inv_def exec_inv_def\<close>)
  moreover have "validate_queue sample_env l = Inr ()" by (simp add: sample_check_defs assms empty_ledger_def)
  ultimately show "validate_rows sample_env l = Inr ()" by (simp add: validate_rows_iff machine_inv_def exec_inv_def)
  with \<open>machine_inv l\<close> show "ledger_inv sample_env l"
    by (simp add: ledger_inv_def queue_inv_def raw_backed_def) (simp add: assms empty_ledger_def)
qed

lemma sample_fence: "queue_transaction sample_env 10 (Attempt Refresh_Fence) sample_idle = Inr ((), sample_fenced)"
proof -
  have "arm_harness_refresh_fence 10 sample_idle = Inr (harness sample_fenced, sample_fenced)"
    by (simp add: arm_harness_refresh_fence_def raise_if_active_children_def bind_res_Inr_iff each_res_Inr Let_def
        sample_idle_def sample_fenced_def empty_ledger_def)
  then show ?thesis using idle_rows(1) [OF sample_idle_def] idle_rows(1) [OF sample_fenced_def]
    by (simp add: committing_Inr)
qed

end
