(* ===== verification/Ledger_Guarantees.thy ===== *)
theory Ledger_Guarantees
  imports Queue_Sample
begin

text \<open>
  What holds of the dispatch queue over any interleaving of its transactions with those of the
  workflow.
\<close>

section \<open>Fencing\<close>

text \<open>The epoch of the harness lease an operation is done under.\<close>

fun attempt_epoch :: "attempt_op \<Rightarrow> int option" where
  "attempt_epoch (Renew_Harness epoch _ _) = Some epoch"
| "attempt_epoch (Shutdown_Harness epoch _) = Some epoch"
| "attempt_epoch (Cancel_Queue _ epoch) = epoch"
| "attempt_epoch (Claim_Queue epoch _) = Some epoch"
| "attempt_epoch (Set_Queue _ _ epoch) = epoch"
| "attempt_epoch (Recover_Queue _ epoch _) = Some epoch"
| "attempt_epoch (Bind_Liveness _ epoch _ _ _ _ _ _) = Some epoch"
| "attempt_epoch (Bind_Thread _ epoch _ _ _ _) = Some epoch"
| "attempt_epoch (Renew_Liveness _ _ _ _ _ epoch) = epoch"
| "attempt_epoch (Adopt_Worker _ epoch _ _ _) = Some epoch"
| "attempt_epoch _ = None"

fun recovery_epoch :: "recovery_op \<Rightarrow> int option" where
  "recovery_epoch (Begin_Continuation _ epoch _ _) = Some epoch"
| "recovery_epoch (Begin_Inspection _ epoch _) = Some epoch"
| "recovery_epoch (Claim_Checkpoint epoch _) = Some epoch"
| "recovery_epoch _ = None"

fun epoch_of :: "queue_op \<Rightarrow> int option" where
  "epoch_of (Attempt r) = attempt_epoch r"
| "epoch_of (Result r) = None"
| "epoch_of (Recovery r) = recovery_epoch r"

definition epoch_gone :: "ledger \<Rightarrow> int \<Rightarrow> bool" where
  "epoch_gone l epoch \<longleftrightarrow> (\<forall>h. harness l = Some h \<longrightarrow> h_epoch h \<noteq> epoch)"

lemma not_live: "epoch_gone l epoch \<Longrightarrow> \<not> live_harness l epoch now"
  by (auto simp: epoch_gone_def live_harness_def split: option.splits)

lemma cancel_row_fenced:
  "cancel_queue_row now (Some epoch) retain q l = Inr (r, l') \<Longrightarrow> epoch_gone l epoch \<Longrightarrow> l' = l"
  using not_live by (auto simp: cancel_queue_row_def check_cancellable_def bind_res_Inr_iff Let_def split: if_splits)

lemma fenced_ops:
  assumes "epoch_gone l epoch"
  shows "renew_harness now epoch nonce lease l = Inr (h, l') \<Longrightarrow> l' = l"
    "request_harness_shutdown epoch nonce l = Inr (h, l') \<Longrightarrow> l' = l"
    "cancel_queue_dispatch now i (Some epoch) l = Inr (r, l') \<Longrightarrow> l' = l"
    "claim_queue_dispatch now epoch nonce l = Inr (ro, l') \<Longrightarrow> l' = l"
    "set_queue_state now i st (Some epoch) l = Inr (r, l') \<Longrightarrow> l' = l"
    "recover_queue_dispatch now i epoch keep l = Inr (r, l') \<Longrightarrow> l' = l"
    "bind_worker_liveness now i epoch g a pid birth token lease l = Inr (w, l') \<Longrightarrow> l' = l"
    "bind_worker_thread E now i epoch g a token thread l = Inr (r, l') \<Longrightarrow> l' = l"
    "renew_worker_liveness E now i g a token lease (Some epoch) l = Inr (w, l') \<Longrightarrow> l' = l"
    "adopt_live_worker now i epoch pid birth nonce l = Inr (r, l') \<Longrightarrow> l' = l"
    "begin_recovery_continuation now i epoch nonce current l = Inr (r, l') \<Longrightarrow> l' = l"
    "begin_recovery_inspection now i epoch current l = Inr (r, l') \<Longrightarrow> l' = l"
    "claim_due_checkpoint now epoch current l = Inr (wo, l') \<Longrightarrow> l' = l"
  using assms not_live [OF assms] cancel_row_fenced [OF _ assms]
  by (auto simp: begin_recovery_continuation_def begin_recovery_inspection_def claim_due_checkpoint_def renew_harness_def request_harness_shutdown_def owned_harness_iff epoch_gone_def cancel_queue_dispatch_def
      claim_queue_dispatch_def set_queue_state_def recover_queue_dispatch_def bind_worker_liveness_def bind_worker_thread_def
      renew_worker_liveness_def adopt_live_worker_def require_live_harness_def bind_res_Inr_iff split: if_splits)

lemma fenced_attempts:
  "epoch_gone l epoch \<Longrightarrow> attempt_epoch r = Some epoch \<Longrightarrow> attempt_transaction E now r l = Inr (u, l') \<Longrightarrow> l' = l"
  by (cases r) (auto simp: transaction_Inr dest: fenced_ops)

lemma fenced_recoveries:
  "epoch_gone l epoch \<Longrightarrow> recovery_epoch r = Some epoch \<Longrightarrow> recovery_transaction E now r l = Inr (u, l') \<Longrightarrow> l' = l"
  by (cases r) (auto simp: transaction_Inr dest: fenced_ops)

lemma fenced_step:
  assumes "epoch_gone l epoch" "epoch_of op = Some epoch"
  shows "ledger_step E l (now, Inr op) = l"
proof (rule ledger_step_cases [of E l "(now, Inr op)"])
  fix u assume "request E (now, Inr op) l = Inr (u, ledger_step E l (now, Inr op))"
  then have "queue_transaction E now op l = Inr (u, ledger_step E l (now, Inr op))" by (simp add: request_def)
  with assms(2) fenced_attempts [OF assms(1)] fenced_recoveries [OF assms(1)] show ?thesis
    by (cases op) auto
qed

lemma epoch_stays_gone:
  assumes "harness_le (Some h) (Some h')" "harness_le (Some h') (harness l)" "h_epoch h' \<noteq> h_epoch h"
  shows "epoch_gone l (h_epoch h)"
  using assms by (auto simp: harness_le_def epoch_gone_def)

text \<open>
  C3. A harness that lost its lease is fenced off for good: once another epoch has been acquired, every
  request made under the old epoch leaves the ledger as it is, whatever happens in between.
\<close>

theorem stale_harness_is_fenced:
  assumes "ledger_inv E l" "harness l = Some h" "harness (ledger_run E rs l) = Some h'" "h_epoch h' \<noteq> h_epoch h"
    and "epoch_of op = Some (h_epoch h)"
  shows "ledger_run E (rs @ rs' @ [(now, Inr op)]) l = ledger_run E (rs @ rs') l"
proof -
  let ?l = "ledger_run E rs l"
  have inv: "ledger_inv E ?l" by (rule ledger_run_facts [OF assms(1)])
  have "harness_le (Some h) (Some h')" using ledger_run_facts(3) [OF assms(1), of rs] assms(2,3) by (simp add: queue_le_def)
  moreover have "harness_le (Some h') (harness (ledger_run E rs' ?l))"
    using ledger_run_facts(3) [OF inv, of rs'] assms(3) by (simp add: queue_le_def)
  ultimately have "epoch_gone (ledger_run E rs' ?l) (h_epoch h)" using assms(4) by (rule epoch_stays_gone)
  from fenced_step [OF this assms(5)] show ?thesis by (simp add: ledger_run_append) (simp add: ledger_run_def)
qed

theorem stale_harness_is_fenced_witness:
  "ledger_run sample_env ([sample_acquire] @ [] @ [(2010, Inr (Attempt (Claim_Queue 3 sample_digest)))]) sample_queue
     = sample_queue\<lparr>harness := Some next_harness\<rparr>"
proof -
  have "harness sample_queue = Some sample_harness" by (simp add: sample_queue_def)
  moreover have "harness (ledger_run sample_env [sample_acquire] sample_queue) = Some next_harness" by (simp add: sample_acquired)
  moreover have "h_epoch next_harness \<noteq> h_epoch sample_harness" "epoch_of (Attempt (Claim_Queue 3 sample_digest)) = Some (h_epoch sample_harness)"
    by (simp_all add: next_harness_def sample_harness_def)
  ultimately show ?thesis
    using stale_harness_is_fenced [OF sample_ledger_inv, of sample_harness "[sample_acquire]" next_harness
        "Attempt (Claim_Queue 3 sample_digest)" "[]" 2010] sample_acquired by simp
qed

section \<open>The refresh fence\<close>

fun is_acquire :: "ledger_request \<Rightarrow> bool" where
  "is_acquire (now, Inr (Attempt (Acquire_Harness _ _ _ _ _ _))) = True"
| "is_acquire _ = False"

definition fenced :: "ledger \<Rightarrow> bool" where
  "fenced l \<longleftrightarrow> (\<forall>h. harness l = Some h \<longrightarrow> h_shutdown h)"

lemma arm_fence_fences:
  assumes "arm_harness_refresh_fence now l = Inr (ho, l')"
  shows "fenced l'" "\<And>q. q \<in> set (queue l') \<Longrightarrow> q_state q \<notin> {Claimed, Starting, Running}"
    "\<And>w. w \<in> set (liveness l') \<Longrightarrow> l_exited w \<noteq> None"
  using assms
  by (auto simp: arm_harness_refresh_fence_def raise_if_active_children_def bind_res_Inr_iff Let_def fenced_def)

lemma exec_body_harness: "exec_body now op l = Inr (u, l') \<Longrightarrow> queue_base l \<Longrightarrow> harness l' = harness l"
proof (cases "\<exists>k. op = Cancel_Execution k")
  case False
  moreover assume "exec_body now op l = Inr (u, l')"
  ultimately have "queue_part l' = queue_part l" using exec_body_frame by blast
  then show ?thesis by (simp add: queue_part_def)
next
  case True
  moreover assume "exec_body now op l = Inr (u, l')" and base: "queue_base l"
  ultimately obtain k x where "cancel_execution now k l = Inr (x, l')" by (auto simp: forget_Inr)
  then show ?thesis
  proof (rule cancel_execution_parts)
    fix q q' l1 assume q: "q \<in> set (queue l)" "cancel_queue_row now None False q l = Inr (q', l1)"
      and p: "queue_part l' = queue_part l1"
    have "lookup_by q_dispatch (q_dispatch q) (queue l) = Some q"
      using q base by (intro lookup_by_unique) (simp_all add: queue_base_def)
    from cancel_row_keeps [OF q(2) base this] p show ?thesis by (simp add: queue_part_def)
  qed (simp add: queue_part_def)
qed

lemma attempt_fenced:
  assumes "attempt_transaction E now op l = Inr (u, l')" "queue_inv E l" "fenced l" "\<not> is_acquire (now, Inr (Attempt op))"
  shows "fenced l'"
proof (cases "op = Refresh_Fence \<or> (\<exists>e n t. op = Renew_Harness e n t) \<or> (\<exists>e n. op = Shutdown_Harness e n)")
  case True
  with assms(1,3) show ?thesis
    by (auto simp: transaction_Inr renew_harness_def request_harness_shutdown_def bind_res_Inr_iff Let_def
        owned_harness_iff fenced_def dest!: arm_fence_fences(1))
next
  case False
  note base = queue_inv_base [OF assms(2)]
  from attempt_valid [OF assms(1)] have ok: "validate_queue E l' = Inr ()" by (simp add: validate_rows_iff)
  have "harness l' = harness l"
    using False assms(1,2,4) base recover_keeps [OF _ base ok]
    by (cases op) (auto simp: transaction_Inr dest: cancel_dispatch_keeps acknowledge_keeps
        claim_keeps set_state_keeps issue_keeps bind_liveness_keeps bind_thread_keeps renew_liveness_keeps adopt_keeps
        authorize_keeps)
  with assms(3) show ?thesis by (simp add: fenced_def)
qed

lemma transaction_fenced:
  assumes "queue_transaction E now op l = Inr (u, l')" "queue_inv E l" "fenced l" "\<not> is_acquire (now, Inr op)"
  shows "fenced l'"
proof (cases op)
  case (Attempt r)
  with assms attempt_fenced show ?thesis by simp
next
  case (Result r)
  with assms(1,3) result_holds [OF _ assms(2)] show ?thesis by (simp add: fenced_def)
next
  case (Recovery r)
  with assms(1,3) recovery_quiet [OF _ assms(2)] show ?thesis by (simp add: fenced_def quiet_def)
qed

lemma fenced_step_kept:
  assumes "ledger_inv E l" "fenced l" "\<not> is_acquire r"
  shows "fenced (ledger_step E l r)"
proof (rule ledger_step_cases [of E l r])
  fix u assume step: "request E r l = Inr (u, ledger_step E l r)"
  obtain now op where r: "r = (now, op)" by (cases r)
  from assms(1) have inv: "queue_inv E l" by (simp add: ledger_inv_def)
  show ?thesis
  proof (cases op)
    case (Inl e)
    with step r have "exec_body now e l = Inr (u, ledger_step E l r)" by (simp add: request_def atomically_Inr)
    from exec_body_harness [OF this queue_inv_base [OF inv]] assms(2) show ?thesis by (simp add: fenced_def)
  next
    case (Inr q)
    with step r have "queue_transaction E now q l = Inr (u, ledger_step E l r)" by (simp add: request_def)
    from transaction_fenced [OF this inv assms(2)] assms(3) r Inr show ?thesis by simp
  qed
qed (use assms(2) in simp)

lemma fenced_run: "ledger_inv E l \<Longrightarrow> fenced l \<Longrightarrow> \<forall>r\<in>set rs. \<not> is_acquire r \<Longrightarrow> fenced (ledger_run E rs l)"
proof (induction rs arbitrary: l)
  case (Cons r rs)
  have "fenced (ledger_run E rs (ledger_step E l r))"
    by (rule Cons.IH) (use Cons.prems ledger_step_law fenced_step_kept in auto)
  then show ?case by (simp add: ledger_run_def)
qed (simp add: ledger_run_def)

lemma fenced_claim:
  assumes "fenced l"
  shows "ledger_step E l (now, Inr (Attempt (Claim_Queue epoch nonce))) = l"
proof (rule ledger_step_cases [of E l "(now, Inr (Attempt (Claim_Queue epoch nonce)))"])
  fix u assume "request E (now, Inr (Attempt (Claim_Queue epoch nonce))) l = Inr (u, ledger_step E l (now, Inr (Attempt (Claim_Queue epoch nonce))))"
  with assms show ?thesis
    by (auto simp: request_def transaction_Inr claim_queue_dispatch_def bind_res_Inr_iff live_harness_def
        harness_refresh_fenced_def fenced_def split: option.splits)
qed

section \<open>Claims\<close>

lemma first_eligible_least:
  assumes "first_eligible l now = Some q" "r \<in> set (queue l)" "eligible l now r"
  shows "q_sequence q \<le> q_sequence r"
proof -
  let ?qs = "filter (eligible l now) (sort_key q_sequence (queue l))"
  from assms(1) obtain qs where qs: "?qs = q # qs" by (auto simp: first_eligible_def split: list.splits)
  have "sorted (map q_sequence ?qs)" by (rule sorted_filter) simp
  moreover have "r \<in> set ?qs" using assms(2,3) by simp
  ultimately show ?thesis unfolding qs by auto
qed

lemma first_eligible_None: "first_eligible l now = None \<longleftrightarrow> (\<forall>q\<in>set (queue l). \<not> eligible l now q)"
proof -
  have "first_eligible l now = None \<longleftrightarrow> filter (eligible l now) (sort_key q_sequence (queue l)) = []"
    by (simp add: first_eligible_def split: list.splits)
  then show ?thesis by (simp add: filter_empty_conv)
qed

lemma cancelled_state:
  assumes "cancel_queue_row now epoch retain q l = Inr (q', l')" "lookup_by q_dispatch (q_dispatch q) (queue l) = Some q"
  shows "map_option q_state (lookup_by q_dispatch (q_dispatch q) (queue l')) = Some Queue_Cancelled"
proof (cases "q_state q = Queue_Cancelled")
  case True
  with assms show ?thesis by (simp add: cancel_queue_row_def)
next
  case False
  let ?P = "\<lambda>r. q_dispatch r = q_dispatch q \<and> q_state r \<in> set active_states"
  let ?f = "\<lambda>r. r\<lparr>q_state := Queue_Cancelled, q_claim := None, q_raw := None, q_terminal := None, q_updated := now\<rparr>"
  from assms(1) False have "check_cancellable now epoch q l = Inr ()" and l': "queue l' = update_where ?P ?f (queue l)"
    by (auto simp: cancel_queue_row_def bind_res_Inr_iff Let_def returning_Inr retire_checkpoints_def
        unresolve_commands_def split: if_splits option.splits)
  with False have "q_state q \<in> set active_states"
    by (cases "q_state q") (auto simp: check_cancellable_def bind_res_Inr_iff active_states_def)
  with assms(2) show ?thesis by (simp add: l' lookup_update_if)
qed

text \<open>
  C5. Claims are first in, first out: a claim that is granted takes, of all eligible rows, one with the
  least sequence number, binds it to the claiming harness, and changes no other row and no other
  table; a claim that finds nothing either leaves the ledger as it is because no row is eligible, or
  has cancelled the first eligible row, whose execution was cancelled.
\<close>

theorem claim_is_fifo:
  assumes "ledger_inv E l" "atomically (validate_rows E) (claim_queue_dispatch now epoch nonce) l = Inr (r, l')"
  shows "case r of
      Some q \<Rightarrow> (\<exists>q0\<in>set (queue l). eligible l now q0 \<and> (\<forall>x\<in>set (queue l). eligible l now x \<longrightarrow> q_sequence q0 \<le> q_sequence x)
        \<and> q = q0\<lparr>q_state := Claimed, q_claim := Some (epoch, nonce), q_updated := now\<rparr>
        \<and> l' = l\<lparr>queue := map (\<lambda>x. if x = q0 then q else x) (queue l)\<rparr>)
    | None \<Rightarrow> (\<forall>q\<in>set (queue l). \<not> eligible l now q) \<and> l' = l
        \<or> (\<exists>q0. first_eligible l now = Some q0 \<and> map_option ex_status (lookup_by ex_key (q_key q0) (executions l)) = Some EX_CANCELLED
             \<and> map_option q_state (lookup_by q_dispatch (q_dispatch q0) (queue l')) = Some Queue_Cancelled)"
proof -
  from assms(2) have body: "claim_queue_dispatch now epoch nonce l = Inr (r, l')" by (simp add: atomically_Inr)
  from assms(1) have dist: "distinct (map q_dispatch (queue l))" by (simp add: ledger_inv_def queue_inv_def)
  show ?thesis
  proof (cases "first_eligible l now")
    case None
    with body have "r = None" "l' = l" by (auto simp: claim_queue_dispatch_def bind_res_Inr_iff)
    with None show ?thesis by (simp add: first_eligible_None)
  next
    case (Some q0)
    note q0 = first_eligibleD [OF Some]
    have only: "x = q0" if "x \<in> set (queue l)" "q_dispatch x = q_dispatch q0" for x
      using same_key_same_row [OF dist that(1) q0(1) that(2)] .
    have look: "lookup_by q_dispatch (q_dispatch q0) (queue l) = Some q0"
      by (rule lookup_by_unique [OF dist q0(1)])
    show ?thesis
    proof (cases "map_option ex_status (lookup_by ex_key (q_key q0) (executions l)) = Some EX_CANCELLED")
      case True
      with body Some obtain q' where "r = None" and c: "cancel_queue_row now None False q0 l = Inr (q', l')"
        by (auto simp: claim_queue_dispatch_def bind_res_Inr_iff)
      moreover have "map_option q_state (lookup_by q_dispatch (q_dispatch q0) (queue l')) = Some Queue_Cancelled"
        by (rule cancelled_state [OF c look])
      ultimately show ?thesis using Some True by auto
    next
      case False
      let ?f = "\<lambda>r. r\<lparr>q_state := Claimed, q_claim := Some (epoch, nonce), q_updated := now\<rparr>"
      have queued: "q_state q0 = Queued" using q0(2) by (simp add: eligible_def)
      have upd: "update_where (\<lambda>r. q_dispatch r = q_dispatch q0 \<and> q_state r = Queued) ?f (queue l)
          = map (\<lambda>x. if x = q0 then ?f q0 else x) (queue l)"
        unfolding update_where_def by (rule map_cong [OF refl]) (use only queued in auto)
      from body Some False have l': "l' = l\<lparr>queue := map (\<lambda>x. if x = q0 then ?f q0 else x) (queue l)\<rparr>"
        and r: "r = lookup_by q_dispatch (q_dispatch q0) (queue l')"
        by (auto simp: claim_queue_dispatch_def bind_res_Inr_iff Let_def upd split: if_splits)
      have "map q_dispatch (map (\<lambda>x. if x = q0 then ?f q0 else x) (queue l)) = map q_dispatch (queue l)" by simp
      with dist have "distinct (map q_dispatch (map (\<lambda>x. if x = q0 then ?f q0 else x) (queue l)))" by (simp only:)
      then have "r = Some (?f q0)"
        unfolding r l' using lookup_by_unique [of q_dispatch _ "?f q0"] q0(1) by (auto simp: image_iff)
      then show ?thesis using q0 l' first_eligible_least [OF Some] by auto
    qed
  qed
qed

theorem claim_is_fifo_witness:
  "\<exists>q0\<in>set (queue sample_queue). eligible sample_queue 10 q0
     \<and> (\<forall>x\<in>set (queue sample_queue). eligible sample_queue 10 x \<longrightarrow> q_sequence q0 \<le> q_sequence x)"
  using claim_is_fifo [OF sample_ledger_inv sample_claimed] by auto

section \<open>Results\<close>

text \<open>
  C8. What a row of the queue is stays fixed over every run: its identity, and once it has a result,
  the result, its status and the attempt it belongs to; a completed, failed or cancelled row never
  changes again in anything but the time of its last update; and a consumed capability stays as it is.
\<close>

theorem results_are_final:
  assumes "ledger_inv E l" "lookup_by q_dispatch i (queue l) = Some q"
  shows "(\<exists>y. lookup_by q_dispatch i (queue (ledger_run E rs l)) = Some y
      \<and> q_key y = q_key q \<and> q_generation y = q_generation q \<and> q_sequence y = q_sequence q \<and> q_attempt q \<le> q_attempt y
      \<and> (q_raw q \<noteq> None \<longrightarrow> q_raw y = q_raw q \<and> q_terminal y = q_terminal q \<and> q_attempt y = q_attempt q)
      \<and> (q_state q \<in> {Queue_Completed, Queue_Failed, Queue_Cancelled} \<longrightarrow> y\<lparr>q_updated := 0\<rparr> = q\<lparr>q_updated := 0\<rparr>))
    \<and> (\<forall>c\<in>set (capabilities l). c_consumed c \<noteq> None \<longrightarrow> c \<in> set (capabilities (ledger_run E rs l)))"
proof -
  note le = ledger_run_facts(3) [OF assms(1), of rs]
  from queue_row_kept [OF le assms(2)] obtain y where "lookup_by q_dispatch i (queue (ledger_run E rs l)) = Some y"
    "queue_row_le q y" .
  moreover from le have "consumed_kept l (ledger_run E rs l)" by (simp add: queue_le_def)
  ultimately show ?thesis
    by (auto simp: queue_row_le_def queue_identity_def timeless_def closed_states_def consumed_kept_def)
qed

theorem results_are_final_witness:
  "\<exists>y. lookup_by q_dispatch (sample_id ''x'') (queue (ledger_run sample_env [sample_acquire, sample_commit] sample_queue)) = Some y
     \<and> q_raw y = Some (lit ''ok'', sample_digest)"
proof -
  have "lookup_by q_dispatch (sample_id ''x'') (queue sample_queue) = Some (sample_queue_row ''x'' Result_Submitted 3)"
    by (simp add: lookup_by_def select_one_def sample_queue_defs sample_id_def lit_def)
  from results_are_final [OF sample_ledger_inv this, of "[sample_acquire, sample_commit]"] show ?thesis
    by (auto simp: sample_queue_row_def)
qed

text \<open>
  C4. Every result has its origin in one request: when a row without a result has one after a run, its
  digest is that of its text, and the run contains the request that gave it, with that very text.
  Either the request presented the token of an unconsumed capability of the generation and attempt
  the row had at that moment, which was still open or, for a retained result, belonged to a row whose worker
  had reported that the result lost its transport; or, without any token, the recovery
  read the text back while the row waited for the inspection of its persisted thread.
\<close>

theorem results_come_from_submissions:
  assumes "ledger_inv E l" "lookup_by q_dispatch i (queue l) = Some q" "q_raw q = None"
    and "lookup_by q_dispatch i (queue (ledger_run E rs l)) = Some q'" "q_raw q' = Some (raw, digest)"
  shows "digest = sha256 E raw \<and> (\<exists>before now op after q0. rs = before @ (now, Inr (Result op)) # after
    \<and> lookup_by q_dispatch i (queue (ledger_run E before l)) = Some q0
    \<and> ((\<exists>token late c. presents op = Some (i, q_generation q0, q_attempt q0, token, raw, late)
          \<and> is_capability i (q_generation q0) (q_attempt q0) c
          \<and> c \<in> set (capabilities (ledger_run E before l)) \<and> c_consumed c = None \<and> c_token c = sha256 E token
          \<and> (if late then late_result_allowed (ledger_run E before l) i (q_generation q0) (q_attempt q0) else now < c_expires c))
       \<or> op = Ingest_Result i raw \<and> q_state q0 = Inspection_Pending))"
proof -
  from result_origin [OF assms] obtain before r after where digest: "digest = sha256 E raw" and rs: "rs = before @ r # after"
    and sub: "result_submission E (ledger_run E before l) r i raw" by blast
  let ?l = "ledger_run E before l"
  obtain now x where r: "r = (now, x)" by (cases r)
  from sub obtain op where op: "x = Inr (Result op)" and alt: "(\<exists>late c. accepted_under E now op ?l i raw late c)
      \<or> op = Ingest_Result i raw \<and> map_option q_state (lookup_by q_dispatch i (queue ?l)) = Some Inspection_Pending"
    unfolding result_submission_def r by auto
  from alt have "\<exists>q0. lookup_by q_dispatch i (queue ?l) = Some q0
    \<and> ((\<exists>late c. accepted_under E now op ?l i raw late c \<and> is_capability i (q_generation q0) (q_attempt q0) c)
       \<or> op = Ingest_Result i raw \<and> q_state q0 = Inspection_Pending)"
  proof (elim disjE exE)
    fix late c assume acc: "accepted_under E now op ?l i raw late c"
    then have c: "c \<in> set (capabilities ?l)" "c_dispatch c = i" by (auto simp: accepted_under_def is_capability_def)
    from ledger_run_facts(1) [OF assms(1)] have "queue_inv E ?l" by (simp add: ledger_inv_def)
    with c(1) have "check_capability ?l c = Inr ()" using validate_queueD(3) by (auto simp: queue_inv_def validate_rows_iff)
    then obtain q0 where "lookup_by q_dispatch i (queue ?l) = Some q0" "c_generation c = q_generation q0" "c_attempt c = q_attempt q0"
      using c(2) by (auto elim: check_capabilityD)
    with acc c(2) show ?thesis by (auto simp: is_capability_def)
  qed auto
  then obtain q0 where q0: "lookup_by q_dispatch i (queue ?l) = Some q0" and from_q0: "(\<exists>late c. accepted_under E now op ?l i raw late c
      \<and> is_capability i (q_generation q0) (q_attempt q0) c) \<or> op = Ingest_Result i raw \<and> q_state q0 = Inspection_Pending" by blast
  have "(\<exists>token late c. presents op = Some (i, q_generation q0, q_attempt q0, token, raw, late)
          \<and> is_capability i (q_generation q0) (q_attempt q0) c
          \<and> c \<in> set (capabilities ?l) \<and> c_consumed c = None \<and> c_token c = sha256 E token
          \<and> (if late then late_result_allowed ?l i (q_generation q0) (q_attempt q0) else now < c_expires c))
       \<or> op = Ingest_Result i raw \<and> q_state q0 = Inspection_Pending"
    using from_q0
  proof (elim disjE exE conjE)
    fix late c assume acc: "accepted_under E now op ?l i raw late c" and c: "is_capability i (q_generation q0) (q_attempt q0) c"
    from acc obtain g a token where p: "presents op = Some (i, g, a, token, raw, late)" "is_capability i g a c"
      and rest: "c \<in> set (capabilities ?l)" "c_consumed c = None" "c_token c = sha256 E token"
        "if late then late_result_allowed ?l i g a else now < c_expires c" unfolding accepted_under_def by blast
    from c p(2) have "g = q_generation q0" "a = q_attempt q0" by (simp_all add: is_capability_def)
    with p(1) rest c show ?thesis by blast
  qed simp
  with digest rs r op q0 show ?thesis by blast
qed

theorem results_come_from_submissions_witness:
  "\<exists>before now op after. [sample_commit] = before @ (now, Inr (Result op)) # after
     \<and> (\<exists>token late. presents op = Some (sample_id ''v'', 1, 1, token, lit ''done'', late))"
proof -
  have q: "lookup_by q_dispatch (sample_id ''v'') (queue sample_queue) = Some (sample_queue_row ''v'' Running 1)"
    "q_raw (sample_queue_row ''v'' Running 1) = None"
    by (simp_all add: lookup_by_def select_one_def sample_queue_defs sample_id_def lit_def)
  have q': "lookup_by q_dispatch (sample_id ''v'') (queue (ledger_run sample_env [sample_commit] sample_queue))
      = Some sample_completed_row"
    by (simp add: sample_commit_run sample_committed_def lookup_by_def select_one_def sample_completed_row_def sample_queue_row_def
        sample_id_def lit_def)
  have "q_raw sample_completed_row = Some (lit ''done'', sample_digest)" by (simp add: sample_completed_row_def)
  from results_come_from_submissions [OF sample_ledger_inv q q' this]
  obtain before now op after q0 where split: "[sample_commit] = before @ (now, Inr (Result op)) # after"
    and q0: "lookup_by q_dispatch (sample_id ''v'') (queue (ledger_run sample_env before sample_queue)) = Some q0"
    and alt: "(\<exists>token late. presents op = Some (sample_id ''v'', q_generation q0, q_attempt q0, token, lit ''done'', late))
      \<or> op = Ingest_Result (sample_id ''v'') (lit ''done'')" by blast
  from split have b: "before = []" by (cases before) simp_all
  with split have op: "op = Commit_Result (sample_id ''v'') 1 1 (lit ''token'') (lit ''done'')" by (simp add: sample_commit_def)
  from q0 q(1) b have "q0 = sample_queue_row ''v'' Running 1" by (simp add: ledger_run_def)
  then have "q_generation q0 = 1" "q_attempt q0 = 1" by (simp_all add: sample_queue_row_def)
  with alt op have "\<exists>token late. presents op = Some (sample_id ''v'', 1, 1, token, lit ''done'', late)" by simp
  with split show ?thesis by blast
qed

text \<open>
  C20. Capabilities are short-lived: whatever request is made at a time, a capability it issues or
  extends is unconsumed and expires between 30 and 300 seconds later, however long a lease was asked
  for; the only other change of a capability is its consumption, before it has expired or, for a
  result that lost its transport, after a renewal of 30 seconds.
\<close>

theorem capability_lifetimes_are_bounded:
  assumes "ledger_inv E l" "request E (now, op) l = Inr (u, l')" "c \<in> set (capabilities l')" "c \<notin> set (capabilities l)"
  shows "c_consumed c = None \<and> now + 30000000 \<le> c_expires c \<and> c_expires c \<le> now + 300000000
    \<or> (\<exists>c0\<in>set (capabilities l). c_consumed c0 = None \<and> c_consumed c = Some now
         \<and> (c_expires c = c_expires c0 \<and> now < c_expires c0
            \<or> c_expires c = now + 30000000 \<and> late_result_allowed l (c_dispatch c) (c_generation c) (c_attempt c)))"
proof -
  from request_caps [OF assms(2,1,3,4)] obtain qop where "capability_step E now qop l c" by blast
  then show ?thesis
    unfolding capability_step_def
  proof (elim disjE exE conjE)
    fix r i raw late c0 assume "accepted_under E now r l i raw late c0" "c = consume E now raw (if late then renewed now c0 else c0)"
    then show ?thesis
      by (intro disjI2 bexI [of _ c0])
        (auto simp: accepted_under_def is_capability_def consume_def renewed_def CAPABILITY_MIN_def split: if_splits)
  qed (simp add: bounded_capability_def CAPABILITY_MIN_def CAPABILITY_MAX_def)
qed

theorem capability_lifetimes_are_bounded_witness:
  "c_consumed sample_issued = None \<and> 10 + 30000000 \<le> c_expires sample_issued \<and> c_expires sample_issued \<le> 10 + 300000000"
proof -
  have "sample_issued \<in> set (capabilities (sample_queue\<lparr>capabilities := capabilities sample_queue @ [sample_issued]\<rparr>))"
    "sample_issued \<notin> set (capabilities sample_queue)" "c_consumed sample_issued = None"
    by (simp_all add: sample_queue_defs sample_issued_def lit_def)
  with capability_lifetimes_are_bounded [OF sample_ledger_inv sample_issue_request this(1,2)] show ?thesis by auto
qed

lemma transaction_keeps_raw:
  assumes "ledger_inv E l" "lookup_by q_dispatch i (queue l) = Some q" "queue_transaction E now op l = Inr (u, l')"
    and "\<forall>r. op \<noteq> Result r"
  obtains y where "lookup_by q_dispatch i (queue l') = Some y" "q_raw y = q_raw q"
proof -
  from assms(1) have "queue_inv E l" by (simp add: ledger_inv_def)
  from transaction_keeps [OF assms(3) this assms(4)] have "raw_same l l'" by (simp add: keeps_def)
  with assms(2) that show thesis unfolding raw_same_def rows_le_def by blast
qed

lemma valid_row_result:
  assumes "queue_inv E l" "lookup_by q_dispatch i (queue l) = Some q"
  shows "check_queue_row l q = Inr ()"
  using assms validate_queueD(2) lookup_by_in [OF assms(2)] by (auto simp: queue_inv_def validate_rows_iff)

text \<open>
  C27. A result cannot be declared: setting the state of a row that is still active to submitted,
  completed or failed is refused, although the table of allowed changes lists these changes; and a
  recovery of a row whose result was submitted is refused, so a result is never thrown away.
\<close>

theorem results_cannot_be_declared:
  assumes "ledger_inv E l" "lookup_by q_dispatch i (queue l) = Some q"
  shows "(q_state q \<in> set active_states \<and> st \<in> {Result_Submitted, Queue_Completed, Queue_Failed} \<longrightarrow>
      (\<exists>e. queue_transaction E now (Attempt (Set_Queue i st epoch)) l = Inl e))
    \<and> (q_state q = Result_Submitted \<longrightarrow> (\<exists>e. queue_transaction E now (Attempt (Recover_Queue i ep keep)) l = Inl e))"
proof (intro conjI impI)
  assume st: "q_state q \<in> set active_states \<and> st \<in> {Result_Submitted, Queue_Completed, Queue_Failed}"
  show "\<exists>e. queue_transaction E now (Attempt (Set_Queue i st epoch)) l = Inl e"
  proof (cases "queue_transaction E now (Attempt (Set_Queue i st epoch)) l")
    case (Inr p)
    then obtain u l' where t: "queue_transaction E now (Attempt (Set_Queue i st epoch)) l = Inr (u, l')" by (cases p) auto
    from transaction_keeps_raw [OF assms t] obtain y where y: "lookup_by q_dispatch i (queue l') = Some y" "q_raw y = q_raw q" by auto
    from t obtain r where "set_queue_state now i st epoch l = Inr (r, l')" by (auto simp: transaction_Inr)
    with st assms(2) lookup_by_in [OF assms(2)] y(1) have "q_state y = st"
      by (auto simp: set_queue_state_def bind_res_Inr_iff queue_dispatch_iff returning_Inr update_queue_def lookup_update_if)
    moreover have "queue_inv E l'" using transaction_inv [OF t] assms(1) by (simp add: ledger_inv_def)
    note row = check_queue_rowD [OF valid_row_result [OF this y(1)]]
    moreover from assms have "q_raw q = None"
      using check_queue_rowD(3) [OF valid_row_result] st by (auto simp: ledger_inv_def)
    ultimately show ?thesis using row(1,2) y(2) st by auto
  qed blast
next
  assume st: "q_state q = Result_Submitted"
  show "\<exists>e. queue_transaction E now (Attempt (Recover_Queue i ep keep)) l = Inl e"
  proof (cases "queue_transaction E now (Attempt (Recover_Queue i ep keep)) l")
    case (Inr p)
    then obtain u l' where t: "queue_transaction E now (Attempt (Recover_Queue i ep keep)) l = Inr (u, l')" by (cases p) auto
    from transaction_keeps_raw [OF assms t] obtain y where y: "lookup_by q_dispatch i (queue l') = Some y" "q_raw y = q_raw q" by auto
    from t obtain r where "recover_queue_dispatch now i ep keep l = Inr (r, l')" by (auto simp: transaction_Inr)
    with st assms(2) lookup_by_in [OF assms(2)] y(1) have "q_state y = Queued"
      by (auto simp: recover_queue_dispatch_def bind_res_Inr_iff queue_dispatch_iff returning_Inr update_queue_def
          forget_attempt_def Let_def lookup_update_if)
    moreover have "queue_inv E l'" using transaction_inv [OF t] assms(1) by (simp add: ledger_inv_def)
    note row = check_queue_rowD [OF valid_row_result [OF this y(1)]]
    moreover from assms have "q_raw q \<noteq> None"
      using check_queue_rowD(1) [OF valid_row_result] st by (auto simp: ledger_inv_def)
    ultimately show ?thesis using row(3) y(2) by (auto simp: active_states_def)
  qed blast
qed

theorem results_cannot_be_declared_witness:
  "(\<exists>e. queue_transaction sample_env 10 (Attempt (Set_Queue (sample_id ''v'') Queue_Completed (Some 3))) sample_queue = Inl e)
   \<and> (\<exists>e. queue_transaction sample_env 10 (Attempt (Recover_Queue (sample_id ''x'') 3 True)) sample_queue = Inl e)"
proof -
  have "lookup_by q_dispatch (sample_id ''v'') (queue sample_queue) = Some (sample_queue_row ''v'' Running 1)"
    "lookup_by q_dispatch (sample_id ''x'') (queue sample_queue) = Some (sample_queue_row ''x'' Result_Submitted 3)"
    by (simp_all add: lookup_by_def select_one_def sample_queue_defs sample_id_def lit_def)
  from results_cannot_be_declared [OF sample_ledger_inv this(1)] results_cannot_be_declared [OF sample_ledger_inv this(2)]
  show ?thesis by (simp add: sample_queue_row_def active_states_def)
qed

end
