(* ===== verification/Retry_Bounds.thy ===== *)
theory Retry_Bounds
  imports Queue_Sample
begin

text \<open>
  How often a dispatch can be tried: what an operation does to the attempt number of a row and to the
  counters that pay for a further attempt.
\<close>

section \<open>The counters of a row\<close>

definition tries_part where
  "tries_part l i = (map_option q_attempt (lookup_by q_dispatch i (queue l)),
     map_option rp_pre_identity (lookup_by rp_dispatch i (retries l)),
     map_option rs_continuation (lookup_by rs_dispatch i (recoveries l)))"

lemma lookup_update_keeps:
  assumes "\<And>r. key (f r) = key r" "\<And>r. g (f r) = g r"
  shows "map_option g (lookup_by key j (update_where P f rows)) = map_option g (lookup_by key j rows)"
  using assms unfolding lookup_by_def select_one_def update_where_def by (induction rows) auto

lemmas tries_simps = tries_part_def fun_eq_iff lookup_update_keeps clear_retry_def clear_recovery_def

lemma tries_update [simp]:
  "tries_part (l\<lparr>capabilities := v1\<rparr>) = tries_part l" "tries_part (l\<lparr>liveness := v2\<rparr>) = tries_part l"
  "tries_part (l\<lparr>commands := v3\<rparr>) = tries_part l" "tries_part (l\<lparr>controls := v4\<rparr>) = tries_part l"
  "tries_part (l\<lparr>successor_outbox := v5\<rparr>) = tries_part l" "tries_part (l\<lparr>notifications := v6\<rparr>) = tries_part l"
  "tries_part (l\<lparr>successors := v7\<rparr>) = tries_part l" "tries_part (l\<lparr>wakes := v8\<rparr>) = tries_part l"
  "tries_part (l\<lparr>decisions := v9\<rparr>) = tries_part l" "tries_part (l\<lparr>generations := v10\<rparr>) = tries_part l"
  "tries_part (l\<lparr>bindings := v11\<rparr>) = tries_part l" "tries_part (l\<lparr>captures := v12\<rparr>) = tries_part l"
  "tries_part (l\<lparr>refresh_pending := v13\<rparr>) = tries_part l" "tries_part (l\<lparr>harness := v14\<rparr>) = tries_part l"
  by (simp_all add: tries_simps)

lemma tries_rows [simp]:
  "(\<And>q. q_dispatch (f q) = q_dispatch q) \<Longrightarrow> (\<And>q. q_attempt (f q) = q_attempt q) \<Longrightarrow>
     tries_part (l\<lparr>queue := update_where P f (queue l)\<rparr>) = tries_part l"
  "(\<And>r. rp_dispatch (g r) = rp_dispatch r) \<Longrightarrow> (\<And>r. rp_pre_identity (g r) = rp_pre_identity r) \<Longrightarrow>
     tries_part (l\<lparr>retries := update_where Q g (retries l)\<rparr>) = tries_part l"
  "(\<And>r. rs_dispatch (h r) = rs_dispatch r) \<Longrightarrow> (\<And>r. rs_continuation (h r) = rs_continuation r) \<Longrightarrow>
     tries_part (l\<lparr>recoveries := update_where R h (recoveries l)\<rparr>) = tries_part l"
  by (simp_all add: tries_simps)

section \<open>Operations that leave the counters alone\<close>

lemma tries_helpers [simp]:
  "tries_part (forget_attempt i l) = tries_part l" "tries_part (unresolve_commands now i l) = tries_part l"
  "tries_part (retire_checkpoints now i l) = tries_part l" "tries_part (close_checkpoints now i l) = tries_part l"
  "tries_part (release_successors now i ids l) = tries_part l" "tries_part (disarm i l) = tries_part l"
  "tries_part (extend_capability i g a t l) = tries_part l" "tries_part (reset_retry i l) = tries_part l"
  "tries_part (record_exit now i l) = tries_part l"
  by (simp_all add: forget_attempt_def unresolve_commands_def retire_checkpoints_def close_checkpoints_def Let_def
      release_successors_def disarm_def extend_capability_def reset_retry_def record_exit_def clear_retry_def)

lemma tries_update_row [simp]:
  "(\<And>q. q_dispatch (f q) = q_dispatch q) \<Longrightarrow> (\<And>q. q_attempt (f q) = q_attempt q) \<Longrightarrow> tries_part (update_queue i f l) = tries_part l"
  "(\<And>r. rp_dispatch (g r) = rp_dispatch r) \<Longrightarrow> (\<And>r. rp_pre_identity (g r) = rp_pre_identity r) \<Longrightarrow>
     tries_part (update_retry i g l) = tries_part l"
  "(\<And>r. rs_dispatch (h r) = rs_dispatch r) \<Longrightarrow> (\<And>r. rs_continuation (h r) = rs_continuation r) \<Longrightarrow>
     tries_part (update_recovery i h l) = tries_part l"
  by (simp_all add: update_queue_def update_retry_def update_recovery_def)

lemma cancel_row_tries: "cancel_queue_row now epoch retain q l = Inr (r, l') \<Longrightarrow> tries_part l' = tries_part l"
  unfolding cancel_queue_row_def Let_def
  by (auto simp: bind_res_Inr_iff returning_Inr tries_simps retire_checkpoints_def unresolve_commands_def split: if_splits option.splits)

lemma harness_tries:
  "acquire_harness now pid birth digest version nonce lease l = Inr (h, l') \<Longrightarrow> tries_part l' = tries_part l"
  "renew_harness now epoch nonce lease l = Inr (h, l') \<Longrightarrow> tries_part l' = tries_part l"
  "request_harness_shutdown epoch nonce l = Inr (h, l') \<Longrightarrow> tries_part l' = tries_part l"
  "arm_harness_refresh_fence now l = Inr (ho, l') \<Longrightarrow> tries_part l' = tries_part l"
  by (auto simp: acquire_harness_def renew_harness_def request_harness_shutdown_def arm_harness_refresh_fence_def
      bind_res_Inr_iff Let_def)

lemma cancel_tries: "cancel_queue_dispatch now i epoch l = Inr (r, l') \<Longrightarrow> tries_part l' = tries_part l"
  by (auto simp: cancel_queue_dispatch_def bind_res_Inr_iff dest: cancel_row_tries)

lemma acknowledge_tries:
  "acknowledge_worker_cancellation_exit now i action pid birth code l = Inr (r, l') \<Longrightarrow> tries_part l' = tries_part l"
  by (auto simp: acknowledge_worker_cancellation_exit_def bind_res_Inr_iff Let_def tries_simps split: option.splits if_splits
      dest!: cancel_row_tries)

lemma claim_tries: "claim_queue_dispatch now epoch nonce l = Inr (r, l') \<Longrightarrow> tries_part l' = tries_part l"
  by (auto simp: claim_queue_dispatch_def bind_res_Inr_iff Let_def split: option.splits if_splits dest: cancel_row_tries)

lemma set_state_tries: "set_queue_state now i st epoch l = Inr (r, l') \<Longrightarrow> tries_part l' = tries_part l"
  by (auto simp: set_queue_state_def bind_res_Inr_iff returning_Inr split: if_splits dest: cancel_tries)

lemma issue_tries:
  "issue_attempt_capability now i g a schema ws backend token req lease l = Inr (c, l') \<Longrightarrow> tries_part l' = tries_part l"
  by (auto simp: issue_attempt_capability_def bind_res_Inr_iff Let_def split: option.splits if_splits)

lemma liveness_tries:
  "bind_worker_liveness now i epoch g a pid birth token lease l = Inr (w, l') \<Longrightarrow> tries_part l' = tries_part l"
  "renew_worker_liveness E now i g a token lease eo l = Inr (w, l') \<Longrightarrow> tries_part l' = tries_part l"
  by (auto simp: bind_worker_liveness_def renew_worker_liveness_def bind_res_Inr_iff Let_def extend_capability_def tries_simps split: option.splits)

lemma thread_tries:
  "bind_worker_thread E now i epoch g a token thread l = Inr (r, l') \<Longrightarrow> tries_part l' = tries_part l"
  "adopt_live_worker now i epoch pid birth nonce l = Inr (r, l') \<Longrightarrow> tries_part l' = tries_part l"
  by (auto simp: bind_worker_thread_def adopt_live_worker_def bind_res_Inr_iff returning_Inr split: option.splits)

lemma authorize_tries: "authorize_successor now s t l = Inr (a, l') \<Longrightarrow> tries_part l' = tries_part l"
  by (auto simp: authorize_successor_def bind_res_Inr_iff Let_def split: option.splits)

lemma insert_tries:
  "insert_wake w l = Inr l' \<Longrightarrow> tries_part l' = tries_part l" "insert_decision s d l = Inr l' \<Longrightarrow> tries_part l' = tries_part l"
  "insert_generation g l = Inr l' \<Longrightarrow> tries_part l' = tries_part l"
  "insert_successor_out so l = Inr l' \<Longrightarrow> tries_part l' = tries_part l"
  "insert_notification n l = Inr l' \<Longrightarrow> tries_part l' = tries_part l"
  by (auto simp: insert_wake_def insert_decision_def insert_generation_def insert_successor_out_def insert_notification_def
      bind_res_Inr_iff)

lemma ensure_tries: "ensure_controller_decision i k n dg src t ws st l = Inr (d, l') \<Longrightarrow> tries_part l' = tries_part l"
  unfolding ensure_controller_decision_def bind_res_Inr_iff Let_def
  by (auto simp: bind_res_Inr_iff split: if_splits dest!: insert_tries)

lemma announce_tries:
  assumes "announce_terminal E now q ids n l = Inr l'"
  shows "tries_part l' = tries_part l"
proof -
  from assms obtain l1 l2 d l3 w so nt k ny dg src t ws st where
    "insert_successor_out so l = Inr l1" "insert_notification nt l1 = Inr l2"
    "ensure_controller_decision (q_dispatch q) k ny dg src t ws st (close_checkpoints now (q_dispatch q) l2) = Inr (d, l3)"
    "insert_wake w l3 = Inr l'"
    unfolding announce_terminal_def Let_def bind_res_Inr_iff by (auto simp: bind_res_Inr_iff split: prod.splits)
  then show ?thesis by (simp add: insert_tries ensure_tries)
qed

lemma finalize_tries: "finalize_in_transaction E now i payload notify l = Inr (r, l') \<Longrightarrow> tries_part l' = tries_part l"
  by (auto simp: finalize_in_transaction_def bind_res_Inr_iff Let_def returning_Inr split: if_splits dest!: announce_tries)

lemma submit_tries:
  assumes "submit_in_transaction E now i g a token raw status l = Inr (r, l')"
  shows "tries_part l' = tries_part l"
proof -
  note body = assms(1) [unfolded submit_in_transaction_def bind_res_Inr_iff queue_dispatch_iff]
  from body obtain q where q: "lookup_by q_dispatch i (queue l) = Some q" by blast
  from body q obtain c where c: "select_one (is_capability i g a) (capabilities l) = Some c" by (auto split: option.splits)
  from body q c show ?thesis
    by (auto simp: bind_res_Inr_iff Let_def returning_Inr update_queue_def tries_simps split: if_splits)
qed

lemma bind_integrity_tries: "bind_terminal_integrity i d l = Inr l' \<Longrightarrow> tries_part l' = tries_part l"
  unfolding bind_terminal_integrity_def by (auto simp: bind_res_Inr_iff split: option.splits if_splits)

lemma commit_tries: "commit_in_transaction E now i g a token raw status l = Inr (r, l') \<Longrightarrow> tries_part l' = tries_part l"
  by (auto simp: commit_in_transaction_def bind_res_Inr_iff dest!: submit_tries bind_integrity_tries finalize_tries)

lemma retained_tries: "retained_in_transaction E now i g a token raw status l = Inr (r, l') \<Longrightarrow> tries_part l' = tries_part l"
  by (erule retained_commits) (simp add: commit_tries)

lemma ingest_tries: "ingest_in_transaction E now i raw status l = Inr (r, l') \<Longrightarrow> tries_part l' = tries_part l"
  by (auto simp: ingest_in_transaction_def bind_res_Inr_iff Let_def split: if_splits
      dest!: bind_integrity_tries finalize_tries)

lemma notification_tries: "record_notification_attempt now i task d st l = Inr (n, l') \<Longrightarrow> tries_part l' = tries_part l"
  by (auto simp: record_notification_attempt_def bind_res_Inr_iff Let_def split: option.splits if_splits dest!: insert_tries(5))

lemma update_wakes_tries: "update_wakes P f l = Inr l' \<Longrightarrow> tries_part l' = tries_part l"
  by (auto simp: update_wakes_def bind_res_Inr_iff)

lemma wake_tries:
  "claim_wake i l = Inr (w, l') \<Longrightarrow> tries_part l' = tries_part l"
  "reconcile_inflight_wakes l = Inr (u, l') \<Longrightarrow> tries_part l' = tries_part l"
  "reconcile_exhausted_wake_notifications now l = Inr (u, l') \<Longrightarrow> tries_part l' = tries_part l"
  "reconcile_wake_delivery i turn l = Inr (w, l') \<Longrightarrow> tries_part l' = tries_part l"
  unfolding claim_wake_def reconcile_inflight_wakes_def reconcile_exhausted_wake_notifications_def reconcile_wake_delivery_def
  by (auto simp: bind_res_Inr_iff returning_wake_Inr split: option.splits if_splits dest!: update_wakes_tries)

lemma delivery_tries:
  "deliver_wake i w turn l = Inr l' \<Longrightarrow> tries_part l' = tries_part l" "lose_wake i w turn l = Inr l' \<Longrightarrow> tries_part l' = tries_part l"
  "fail_wake now i w turn l = Inr l' \<Longrightarrow> tries_part l' = tries_part l"
  unfolding deliver_wake_def lose_wake_def fail_wake_def
  by (auto simp: bind_res_Inr_iff Let_def split: if_splits dest!: update_wakes_tries)

lemma record_delivery_tries: "record_wake_delivery now i st turn l = Inr (w, l') \<Longrightarrow> tries_part l' = tries_part l"
  unfolding record_wake_delivery_def
  by (auto simp: bind_res_Inr_iff returning_wake_Inr split: option.splits if_splits dest!: delivery_tries)

lemma checkpoint_tries:
  "claim_due_checkpoint now epoch current l = Inr (wo, l') \<Longrightarrow> tries_part l' = tries_part l"
  "rearm_checkpoint now i seconds l = Inr (b, l') \<Longrightarrow> tries_part l' = tries_part l"
  unfolding claim_due_checkpoint_def rearm_checkpoint_def
  by (auto simp: bind_res_Inr_iff Let_def split: list.splits option.splits dest!: insert_tries(1) ensure_tries)

lemma settle_tries: "tries_part (settle_inspection now i kind insp phase due reason r l) = tries_part l"
  by (simp add: settle_inspection_def Let_def update_recovery_def update_retry_def tries_simps disarm_def)

lemma inspection_tries: "record_recovery_inspection E now i kind insp req due att l = Inr (r, l') \<Longrightarrow> tries_part l' = tries_part l"
  by (erule inspection_cases) (auto simp: settle_tries)

lemma attention_tries: "begin_attention now i reason failure l = Inr (b, l') \<Longrightarrow> tries_part l' = tries_part l"
  by (auto simp: begin_attention_def bind_res_Inr_iff attention_now_def Let_def update_recovery_def update_retry_def tries_simps disarm_def
      split: option.splits if_splits)

lemma begin_inspection_tries: "begin_recovery_inspection now i epoch current l = Inr (r, l') \<Longrightarrow> tries_part l' = tries_part l"
  by (auto simp: begin_recovery_inspection_def bind_res_Inr_iff Let_def returning_Inr update_recovery_def update_retry_def tries_simps
      split: option.splits)

lemma require_attention_tries:
  assumes "mark_human_attention_required E now i reason failure l = Inr (u, l')"
  shows "tries_part l' = tries_part l"
  using assms by (rule attention_Inr) (auto dest!: attention_tries inspection_tries)

section \<open>Operations that spend a budget\<close>

text \<open>
  A further attempt of row \<open>i\<close> is paid for by a counter, but for \<open>k\<close> attempts; the budget of the first
  counter is fixed, and that of the second never passes eight.
\<close>

definition spends :: "int \<Rightarrow> ledger \<Rightarrow> ledger \<Rightarrow> pystr \<Rightarrow> bool" where
  "spends k l l' i \<longleftrightarrow> (\<forall>a p c. tries_part l i = (Some a, Some p, Some c) \<longrightarrow>
     (\<exists>a' p' c'. tries_part l' i = (Some a', Some p', Some c') \<and> a' - fst p' - fst c' \<le> a - fst p - fst c + k
        \<and> snd p' = snd p \<and> snd c' \<le> max 8 (snd c)))"

lemma spends_same: "tries_part l' i = tries_part l i \<Longrightarrow> 0 \<le> k \<Longrightarrow> spends k l l' i"
  by (auto simp: spends_def)

lemma spends_trans:
  assumes "spends j l l1 i" "spends k l1 l2 i"
  shows "spends (j + k) l l2 i"
  unfolding spends_def
proof (intro allI impI)
  fix a p c assume "tries_part l i = (Some a, Some p, Some c)"
  with assms(1) obtain a1 p1 c1 where t1: "tries_part l1 i = (Some a1, Some p1, Some c1)"
    and le1: "a1 - fst p1 - fst c1 \<le> a - fst p - fst c + j" "snd p1 = snd p" "snd c1 \<le> max 8 (snd c)"
    unfolding spends_def by blast
  from assms(2) t1 obtain a2 p2 c2 where t2: "tries_part l2 i = (Some a2, Some p2, Some c2)"
    and le2: "a2 - fst p2 - fst c2 \<le> a1 - fst p1 - fst c1 + k" "snd p2 = snd p1" "snd c2 \<le> max 8 (snd c1)"
    unfolding spends_def by blast
  have "a2 - fst p2 - fst c2 \<le> a - fst p - fst c + (j + k)" "snd p2 = snd p" "snd c2 \<le> max 8 (snd c)"
    using le1 le2 by linarith+
  with t2 show "\<exists>a' p' c'. tries_part l2 i = (Some a', Some p', Some c') \<and> a' - fst p' - fst c' \<le> a - fst p - fst c + (j + k)
        \<and> snd p' = snd p \<and> snd c' \<le> max 8 (snd c)" by blast
qed

lemma spends_cong: "spends k l l1 i \<Longrightarrow> tries_part l2 = tries_part l1 \<Longrightarrow> spends k l l2 i"
  by (simp add: spends_def)

lemma spends_mono: "spends j l l' i \<Longrightarrow> j \<le> k \<Longrightarrow> spends k l l' i"
  unfolding spends_def by (meson add_left_mono order_trans)

lemma spends_row:
  assumes "\<And>q p c. lookup_by q_dispatch i (queue l) = Some q \<Longrightarrow> lookup_by rp_dispatch i (retries l) = Some p \<Longrightarrow>
      lookup_by rs_dispatch i (recoveries l) = Some c \<Longrightarrow> q_dispatch q = i \<Longrightarrow> rp_dispatch p = i \<Longrightarrow> rs_dispatch c = i \<Longrightarrow>
      \<exists>q' p' c'. lookup_by q_dispatch i (queue l') = Some q' \<and> lookup_by rp_dispatch i (retries l') = Some p'
        \<and> lookup_by rs_dispatch i (recoveries l') = Some c'
        \<and> q_attempt q' - fst (rp_pre_identity p') - fst (rs_continuation c')
            \<le> q_attempt q - fst (rp_pre_identity p) - fst (rs_continuation c) + k
        \<and> snd (rp_pre_identity p') = snd (rp_pre_identity p) \<and> snd (rs_continuation c') \<le> max 8 (snd (rs_continuation c))"
  shows "spends k l l' i"
  unfolding spends_def tries_part_def
proof (intro allI impI)
  fix a p c assume "(map_option q_attempt (lookup_by q_dispatch i (queue l)), map_option rp_pre_identity (lookup_by rp_dispatch i (retries l)),
     map_option rs_continuation (lookup_by rs_dispatch i (recoveries l))) = (Some a, Some p, Some c)"
  then obtain x y z where "lookup_by q_dispatch i (queue l) = Some x" "lookup_by rp_dispatch i (retries l) = Some y"
    "lookup_by rs_dispatch i (recoveries l) = Some z" and same: "a = q_attempt x" "p = rp_pre_identity y" "c = rs_continuation z" by auto
  moreover from this have "q_dispatch x = i" "rp_dispatch y = i" "rs_dispatch z = i" using lookup_by_in by metis+
  ultimately obtain q' p' c' where "lookup_by q_dispatch i (queue l') = Some q'" "lookup_by rp_dispatch i (retries l') = Some p'"
    "lookup_by rs_dispatch i (recoveries l') = Some c'" "q_attempt q' - fst (rp_pre_identity p') - fst (rs_continuation c')
            \<le> q_attempt x - fst (rp_pre_identity y) - fst (rs_continuation z) + k"
    "snd (rp_pre_identity p') = snd (rp_pre_identity y)" "snd (rs_continuation c') \<le> max 8 (snd (rs_continuation z))"
    using assms by metis
  then show "\<exists>a' p' c'. (map_option q_attempt (lookup_by q_dispatch i (queue l')),
     map_option rp_pre_identity (lookup_by rp_dispatch i (retries l')), map_option rs_continuation (lookup_by rs_dispatch i (recoveries l')))
       = (Some a', Some p', Some c') \<and> a' - fst p' - fst c' \<le> a - fst p - fst c + k \<and> snd p' = snd p \<and> snd c' \<le> max 8 (snd c)"
    unfolding same by simp
qed

lemma requeue_spends: "spends (if j = i then 1 else 0) l (requeue now available i l) j"
  by (rule spends_row)
    (simp add: requeue_def Let_def forget_attempt_def update_queue_def lookup_update_if clear_recovery_def)

lemma recover_spends:
  assumes "recover_queue_dispatch now i epoch keep l = Inr (r, l')"
  shows "spends (if j = i then 1 else 0) l l' j"
proof -
  from assms obtain thread where "l' = l \<or> l' = (update_queue i (\<lambda>r. r\<lparr>q_state := Queued, q_claim := None, q_attempt := q_attempt r + 1,
                  q_thread := thread, q_host := None, q_updated := now\<rparr>) (forget_attempt i l))\<lparr>recoveries :=
      update_where (\<lambda>r. rs_dispatch r = i) clear_recovery (recoveries l)\<rparr>"
    by (auto simp: recover_queue_dispatch_def bind_res_Inr_iff Let_def returning_Inr update_queue_def forget_attempt_def split: if_splits)
  then show ?thesis
  proof
    assume l': "l' = (update_queue i (\<lambda>r. r\<lparr>q_state := Queued, q_claim := None, q_attempt := q_attempt r + 1,
                  q_thread := thread, q_host := None, q_updated := now\<rparr>) (forget_attempt i l))\<lparr>recoveries :=
      update_where (\<lambda>r. rs_dispatch r = i) clear_recovery (recoveries l)\<rparr>"
    show ?thesis
      unfolding l' by (rule spends_row) (simp add: update_queue_def forget_attempt_def lookup_update_if clear_recovery_def)
  qed (simp add: spends_same)
qed

lemma continue_spends: "spends 0 l (continue_row now i claim fresh l) j"
  by (rule spends_row)
    (simp add: continue_row_def Let_def forget_attempt_def update_recovery_def update_retry_def lookup_update_if clear_recovery_def)

lemma exhausted_tries: "tries_part (exhausted now i what l) = tries_part l"
  by (simp add: exhausted_def)

lemma continuation_spends:
  "begin_recovery_continuation now i epoch nonce current l = Inr (r, l') \<Longrightarrow> spends 0 l l' j"
  by (erule continuation_cases) (auto simp: exhausted_tries spends_same continue_spends)

lemma configure_spends: "configure_recovery i env prof k1 k2 k3 k4 l = Inr (r, l') \<Longrightarrow> spends 0 l l' j"
  by (rule spends_row)
    (auto simp: configure_recovery_def bind_res_Inr_iff return_recovery_Inr update_recovery_def lookup_update_if recovery_budgets_ok_def
      split: option.splits)

lemma enqueue_spends: "enqueue_in_transaction E now a d l = Inr (q, l') \<Longrightarrow> spends 0 l l' j"
  by (rule spends_row)
    (auto simp: enqueue_in_transaction_def insert_queue_def Let_def bind_res_Inr_iff lookup_by_append split: option.splits)

lemma count_budget:
  "snd (rp_pre_identity (count_failure f r)) = snd (rp_pre_identity r)"
  "fst (rp_pre_identity (count_failure f r)) = fst (rp_pre_identity r) + (if f = PRE_IDENTITY_TRANSPORT then 1 else 0)"
  by (cases f; simp)+

lemma count_spends:
  assumes g: "\<And>x. rp_dispatch (g x) = rp_dispatch x" "\<And>x. rp_pre_identity (g x) = rp_pre_identity (count_failure f x)"
    and "snd (rp_provider_transient r) \<le> 8"
  shows "spends (if f = PRE_IDENTITY_TRANSPORT \<and> j = i then -1 else 0) l (widen_budgets f i r (update_retry i g l)) j"
proof (rule spends_row)
  fix q p c assume "lookup_by q_dispatch j (queue l) = Some q" "lookup_by rp_dispatch j (retries l) = Some p"
    "lookup_by rs_dispatch j (recoveries l) = Some c" "rp_dispatch p = j" "rs_dispatch c = j"
  with g assms(3) show "\<exists>q' p' c'. lookup_by q_dispatch j (queue (widen_budgets f i r (update_retry i g l))) = Some q'
      \<and> lookup_by rp_dispatch j (retries (widen_budgets f i r (update_retry i g l))) = Some p'
      \<and> lookup_by rs_dispatch j (recoveries (widen_budgets f i r (update_retry i g l))) = Some c'
      \<and> q_attempt q' - fst (rp_pre_identity p') - fst (rs_continuation c')
          \<le> q_attempt q - fst (rp_pre_identity p) - fst (rs_continuation c) + (if f = PRE_IDENTITY_TRANSPORT \<and> j = i then -1 else 0)
      \<and> snd (rp_pre_identity p') = snd (rp_pre_identity p) \<and> snd (rs_continuation c') \<le> max 8 (snd (rs_continuation c))"
    by (cases f) (auto simp: widen_budgets_def update_retry_def lookup_update_if count_budget max_def)
qed

text \<open>A budget for provider failures that is valid is at most four.\<close>

definition small_grants :: "ledger \<Rightarrow> bool" where
  "small_grants l \<longleftrightarrow> (\<forall>r\<in>set (retries l). snd (rp_provider_transient r) \<le> 8)"

lemma valid_small_grants: "validate_rows E l = Inr () \<Longrightarrow> small_grants l"
  by (auto simp: small_grants_def validate_rows_iff validate_queue_def bind_res_Inr_iff each_res_Inr check_retry_def)

lemma consume_spends:
  assumes "consume_retry E now i f strat prior req q r l = Inr (x, l')" "snd (rp_provider_transient r) \<le> 8"
  shows "spends 0 l l' j"
proof -
  define g where "g due = (\<lambda>x. (count_failure f x)\<lparr>rp_revision := rp_revision x + 1, rp_last_failure := Some (lit (failure_text f)),
     rp_strategy := strat, rp_next_eligible := due, rp_prior := prior\<rparr>)" for due
  define l1 where "l1 due = widen_budgets f i r (update_retry i (g due) l)" for due
  have g: "rp_dispatch (g due x) = rp_dispatch x" "rp_pre_identity (g due x) = rp_pre_identity (count_failure f x)" for due x
    by (cases f; simp add: g_def)+
  from assms(1) obtain due where due: "(let available = (case due of None \<Rightarrow> now | Some t \<Rightarrow> t); l1 = l1 due;
         exited = (case lookup_by l_dispatch i (liveness l1) of None \<Rightarrow> True | Some w \<Rightarrow> l_exited w \<noteq> None);
         l2 = (if f = PRE_IDENTITY_TRANSPORT
               then (if q_state q \<noteq> Queued \<and> exited then requeue now available i l1 else l1)
               else if q_state q = Queued \<and> strat = Backoff
               then update_queue i (\<lambda>x. x\<lparr>q_available := available, q_updated := now\<rparr>) l1 else l1)
     in return_retry i l2) = Inr (x, l')"
    unfolding consume_retry_def bind_res_Inr_iff l1_def g_def by blast
  then obtain available where "l' = l1 due \<or> l' = update_queue i (\<lambda>x. x\<lparr>q_available := available, q_updated := now\<rparr>) (l1 due)
      \<or> l' = requeue now available i (l1 due) \<and> f = PRE_IDENTITY_TRANSPORT"
    unfolding Let_def return_retry_Inr by (simp split: if_splits) blast+
  moreover have l1: "spends 0 l (l1 due) j"
    unfolding l1_def by (rule spends_mono [OF count_spends [OF g [of due] assms(2), of j i l]]) simp
  ultimately show ?thesis
  proof (elim disjE conjE)
    assume "l' = requeue now available i (l1 due)" "f = PRE_IDENTITY_TRANSPORT"
    with spends_trans [OF count_spends [OF g [of due] assms(2), of j i l, folded l1_def] requeue_spends [of j i "l1 due" now available]] show ?thesis
      by (simp split: if_splits)
  next
    assume "l' = update_queue i (\<lambda>x. x\<lparr>q_available := available, q_updated := now\<rparr>) (l1 due)"
    with l1 show ?thesis by (intro spends_cong [OF l1]) simp
  qed simp
qed

lemma demand_tries: "tries_part (demand_attention now i f prior reason l) = tries_part l"
  by (simp add: demand_attention_def)

lemma retry_failure_spends:
  assumes "record_retry_failure E now i f prior req att l = Inr (x, l')" "small_grants l"
  shows "spends 0 l l' j"
proof -
  from assms(1) obtain r where r: "lookup_by rp_dispatch i (retries l) = Some r"
    and c: "l' = l \<or> (\<exists>strat q. consume_retry E now i f strat prior req q r l = Inr (x, l'))
      \<or> (\<exists>reason. l' = demand_attention now i f prior reason l)" by (rule retry_failure_cases) blast
  have "snd (rp_provider_transient r) \<le> 8" using assms(2) lookup_by_in [OF r] by (simp add: small_grants_def)
  with c consume_spends [of E now i f _ prior req _ r l x l' j] show ?thesis
    by (auto simp: demand_tries spends_same)
qed

section \<open>The exit of a worker\<close>

lemma exit_retry_spends:
  assumes "snd (rp_provider_transient r) \<le> 8"
  shows "spends 0 l (exit_retry now i st f strat thread r due l) j"
proof -
  define g where "g = (\<lambda>x. (count_failure f x)\<lparr>rp_revision := rp_revision x + 1, rp_last_failure := Some (lit (failure_text f)),
     rp_strategy := strat, rp_next_eligible := due, rp_prior := (thread, snd (rp_prior x)), rp_attention := None\<rparr>)"
  have g: "rp_dispatch (g x) = rp_dispatch x" "rp_pre_identity (g x) = rp_pre_identity (count_failure f x)" for x
    by (cases f; simp add: g_def)+
  let ?l = "widen_budgets f i r (update_retry i g l)"
  have l1: "spends 0 l ?l j" by (rule spends_mono [OF count_spends [OF g assms, of j i l]]) simp
  consider available where "f = PRE_IDENTITY_TRANSPORT" "exit_retry now i st f strat thread r due l = requeue now available i ?l"
    | "tries_part (exit_retry now i st f strat thread r due l) = tries_part ?l"
    by (cases "f = PRE_IDENTITY_TRANSPORT") (simp_all add: exit_retry_def Let_def g_def)
  then show ?thesis
  proof cases
    case (1 available)
    with spends_trans [OF count_spends [OF g assms, of j i l] requeue_spends [of j i ?l now available]] show ?thesis
      by (simp split: if_splits)
  qed (rule spends_cong [OF l1])
qed

lemma exit_attention_tries: "tries_part (exit_attention now i f thread l) = tries_part l"
  by (simp add: exit_attention_def Let_def update_recovery_def update_retry_def tries_simps)

lemma apply_exit_spends:
  assumes "apply_exit_retry_policy E now i st f thread amb l = Inr l'" "small_grants l"
  shows "spends 0 l l' j"
proof -
  from assms(1) obtain r where r: "lookup_by rp_dispatch i (retries l) = Some r"
    by (auto simp: apply_exit_retry_policy_def split: option.splits)
  have grant: "snd (rp_provider_transient r) \<le> 8" using assms(2) lookup_by_in [OF r] by (simp add: small_grants_def)
  from assms(1) r consider strat due where "l' = exit_retry now i st f strat thread r due l" | "tries_part l' = tries_part l"
    by (auto simp: apply_exit_retry_policy_def bind_res_Inr_iff exit_attention_tries split: option.splits if_splits)
  then show ?thesis
    by cases (simp_all add: exit_retry_spends [OF grant] spends_same)
qed

lemma arm_tries: "tries_part (arm_inspection now i label code tr r l) = tries_part l"
  by (simp add: arm_inspection_def Let_def update_recovery_def update_retry_def tries_simps)

lemma arm_grants: "small_grants (arm_inspection now i label code tr r l) = small_grants l"
  by (simp add: small_grants_def arm_inspection_def Let_def update_recovery_def update_retry_def ball_update_where)

lemma mark_exit_spends:
  assumes "mark_worker_exit E now i pid birth code cl l = Inr (u, l')" "small_grants l"
  shows "spends 0 l l' j"
proof -
  note body = assms(1) [unfolded mark_worker_exit_def bind_res_Inr_iff]
  from body obtain w q where wq: "lookup_by l_dispatch i (liveness l) = Some w" "lookup_by q_dispatch i (queue l) = Some q"
    by (auto split: option.splits)
  from body wq consider "tries_part l' = tries_part l"
    | f thread amb label tr r where "apply_exit_retry_policy E now i (q_state q) f thread amb
        (arm_inspection now i label code tr r (record_exit now i l)) = Inr l'"
    by (auto simp: bind_res_Inr_iff Let_def split: option.splits if_splits)
  then show ?thesis
  proof cases
    case (2 f thread amb label tr r)
    from assms(2) have "small_grants (arm_inspection now i label code tr r (record_exit now i l))"
      by (simp add: arm_grants) (simp add: small_grants_def record_exit_def)
    from apply_exit_spends [OF 2 this, of j] show ?thesis by (simp add: spends_def arm_tries)
  qed (simp add: spends_same)
qed

lemma valid_budgets:
  assumes "validate_rows E l = Inr ()"
  shows "p \<in> set (retries l) \<Longrightarrow> rp_pre_identity p = b \<Longrightarrow> fst b \<le> snd b"
    "c \<in> set (recoveries l) \<Longrightarrow> rs_continuation c = b \<Longrightarrow> fst b \<le> snd b"
  using assms by (auto simp: validate_rows_iff validate_queue_def bind_res_Inr_iff each_res_Inr check_retry_def check_recovery_def
      used_within_budget_def within_budget_def)

section \<open>Runs\<close>

lemma attempt_tries:
  assumes "attempt_transaction E now r l = Inr (u, l')"
  shows "tries_part l' = tries_part l \<or> (\<exists>i epoch keep x. r = Recover_Queue i epoch keep \<and> recover_queue_dispatch now i epoch keep l = Inr (x, l'))"
  using assms
  by (cases r) (auto simp: transaction_Inr dest: harness_tries cancel_tries acknowledge_tries claim_tries set_state_tries issue_tries
      liveness_tries thread_tries authorize_tries)

lemma result_tries: "result_transaction E now r l = Inr (u, l') \<Longrightarrow> tries_part l' = tries_part l"
  by (cases r) (auto simp: transaction_Inr dest: submit_tries commit_tries retained_tries ingest_tries)

lemma recovery_spends:
  assumes "recovery_transaction E now r l = Inr (u, l')"
  shows "spends 0 l l' j"
proof -
  from recovery_valid [OF assms] have grants: "small_grants l" using valid_small_grants by blast
  show ?thesis
  proof (cases r)
    case (Require_Attention i reason failure)
    with assms show ?thesis by (intro spends_same) (simp_all add: require_attention_tries)
  next
    case (Retry_Failure i f prior req att)
    with assms obtain x where "record_retry_failure E now i f prior req att l = Inr (x, l')" by (auto simp: transaction_Inr)
    from retry_failure_spends [OF this grants] show ?thesis .
  next
    case (Worker_Exit i pid birth code cls)
    with assms mark_exit_spends [OF _ grants] show ?thesis by (auto simp: transaction_Inr)
  next
    case (Enqueue_Dispatch a)
    with assms show ?thesis by (auto simp: transaction_Inr dest: enqueue_spends)
  next
    case (Configure_Recovery i env prof k1 k2 k3 k4)
    with assms show ?thesis by (auto simp: transaction_Inr dest: configure_spends)
  next
    case (Begin_Continuation i epoch nonce current)
    with assms show ?thesis by (auto simp: transaction_Inr dest: continuation_spends)
  qed (use assms in \<open>auto simp: transaction_Inr intro!: spends_same dest!: inspection_tries begin_inspection_tries finalize_tries
      notification_tries wake_tries record_delivery_tries checkpoint_tries\<close>)
qed

fun recovers :: "pystr \<Rightarrow> ledger_request \<Rightarrow> bool" where
  "recovers i (now, Inr (Attempt (Recover_Queue j epoch keep))) = (j = i)"
| "recovers i r = False"

lemma recovers_iff: "recovers i (now, op) \<longleftrightarrow> (\<exists>epoch keep. op = Inr (Attempt (Recover_Queue i epoch keep)))"
  by (induction i "(now, op)" rule: recovers.induct) auto

lemma exec_tries:
  assumes "exec_body now op l = Inr (u, l')"
  shows "tries_part l' = tries_part l"
proof -
  have same: "tries_part l2 = tries_part l1" if "queue_part l2 = queue_part l1" for l1 l2
    using that by (simp add: queue_part_def tries_simps)
  show ?thesis
  proof (cases "\<exists>k. op = Cancel_Execution k")
    case True
    then obtain k where "op = Cancel_Execution k" ..
    with assms obtain x where "cancel_execution now k l = Inr (x, l')" by (auto simp: forget_Inr)
    then show ?thesis by (rule cancel_execution_parts) (use same cancel_row_tries in metis)+
  next
    case False
    with exec_body_frame [OF assms] same show ?thesis by blast
  qed
qed

lemma step_spends: "spends (if recovers i r then 1 else 0) l (ledger_step E l r) i"
proof (rule ledger_step_cases [of E l r])
  assume "ledger_step E l r = l"
  then show ?thesis by (simp add: spends_same)
next
  fix u assume req: "request E r l = Inr (u, ledger_step E l r)"
  obtain now op where r: "r = (now, op)" by (cases r)
  show ?thesis
  proof (cases op)
    case (Inl e)
    with req r exec_tries show ?thesis by (intro spends_same) (auto simp: request_def atomically_Inr)
  next
    case (Inr q)
    with req r have t: "queue_transaction E now q l = Inr (u, ledger_step E l r)" by (simp add: request_def)
    show ?thesis
    proof (cases q)
      case (Attempt x)
      with t have "attempt_transaction E now x l = Inr (u, ledger_step E l r)" by simp
      from attempt_tries [OF this] show ?thesis
      proof (elim disjE exE conjE)
        fix j epoch keep y assume "x = Recover_Queue j epoch keep" "recover_queue_dispatch now j epoch keep l = Inr (y, ledger_step E l r)"
        with recover_spends [OF this(2), of i] Attempt Inr r show ?thesis by (simp add: recovers_iff split: if_splits)
      qed (simp add: spends_same)
    next
      case (Result x)
      with t result_tries show ?thesis by (intro spends_same) simp_all
    next
      case (Recovery x)
      with t have "spends 0 l (ledger_step E l r) i" using recovery_spends by simp
      then show ?thesis by (rule spends_mono) simp
    qed
  qed
qed

lemma run_spends: "spends (int (length (filter (recovers i) rs))) l (ledger_run E rs l) i"
proof (induction rs arbitrary: l)
  case (Cons r rs)
  from spends_trans [OF step_spends [of i r l E] Cons.IH [of "ledger_step E l r"]] show ?case
    by (rule spends_mono [where k = "int (length (filter (recovers i) (r # rs)))", elim_format])
      (simp_all add: ledger_run_def split: if_splits)
qed (simp add: ledger_run_def spends_same)

text \<open>
  C7. A dispatch is not tried for ever: over any run, whatever fails and however the workers exit, the
  attempt number of a row grows by at most what is left of its budget for failures before the thread
  is known, what is left of eight continuations, and the number of explicit recoveries of the row.
  A row as it is enqueued reaches its fourteenth attempt at most.  An operator who changes the budgets is not
  part of the machine.
\<close>

theorem tries_are_bounded:
  assumes "ledger_inv E l" "lookup_by q_dispatch i (queue l) = Some q" "lookup_by rp_dispatch i (retries l) = Some p"
    and "lookup_by rs_dispatch i (recoveries l) = Some c" "snd (rs_continuation c) \<le> 8"
  shows "\<exists>y. lookup_by q_dispatch i (queue (ledger_run E rs l)) = Some y
    \<and> q_attempt y \<le> q_attempt q + (snd (rp_pre_identity p) - fst (rp_pre_identity p)) + (8 - fst (rs_continuation c))
        + int (length (filter (recovers i) rs))"
proof -
  let ?l = "ledger_run E rs l"
  have "tries_part l i = (Some (q_attempt q), Some (rp_pre_identity p), Some (rs_continuation c))"
    using assms by (simp add: tries_part_def)
  with run_spends [of i rs l E] obtain a p' c' where t: "tries_part ?l i = (Some a, Some p', Some c')"
    and le: "a - fst p' - fst c' \<le> q_attempt q - fst (rp_pre_identity p) - fst (rs_continuation c) + int (length (filter (recovers i) rs))"
      "snd p' = snd (rp_pre_identity p)" "snd c' \<le> max 8 (snd (rs_continuation c))"
    unfolding spends_def by blast
  from t obtain y z r where y: "lookup_by q_dispatch i (queue ?l) = Some y" "q_attempt y = a"
    and z: "lookup_by rp_dispatch i (retries ?l) = Some z" "rp_pre_identity z = p'"
    and r: "lookup_by rs_dispatch i (recoveries ?l) = Some r" "rs_continuation r = c'"
    by (auto simp: tries_part_def)
  from ledger_run_facts(1) [OF assms(1)] have ok: "validate_rows E ?l = Inr ()" by (simp add: ledger_inv_def queue_inv_def)
  have "fst p' \<le> snd p'" by (rule valid_budgets(1) [OF ok]) (use lookup_by_in [OF z(1)] z(2) in simp_all)
  moreover have "fst c' \<le> snd c'" by (rule valid_budgets(2) [OF ok]) (use lookup_by_in [OF r(1)] r(2) in simp_all)
  ultimately have "a \<le> q_attempt q + (snd (rp_pre_identity p) - fst (rp_pre_identity p)) + (8 - fst (rs_continuation c))
      + int (length (filter (recovers i) rs))"
    using le assms(5) by simp
  with y show ?thesis by blast
qed

theorem tries_are_bounded_witness:
  "\<exists>y. lookup_by q_dispatch (sample_id ''v'') (queue (ledger_run sample_env [sample_acquire, sample_commit] sample_queue)) = Some y
     \<and> q_attempt y \<le> 14"
proof -
  have "lookup_by q_dispatch (sample_id ''v'') (queue sample_queue) = Some (sample_queue_row ''v'' Running 1)"
    "lookup_by rp_dispatch (sample_id ''v'') (retries sample_queue) = Some (new_retry_row (sample_id ''v''))"
    "lookup_by rs_dispatch (sample_id ''v'') (recoveries sample_queue) = Some (sample_recovery ''v'')"
    by (simp_all add: lookup_by_def select_one_def sample_queue_defs sample_id_def lit_def)
  from tries_are_bounded [OF sample_ledger_inv this, of "[sample_acquire, sample_commit]"] show ?thesis
    by (simp add: sample_queue_row_def new_retry_row_def sample_recovery_def sample_acquire_def sample_commit_def)
qed

end
