(* ===== verification/Wake_Delivery.thy ===== *)
theory Wake_Delivery
  imports Queue_Sample
begin

text \<open>
  The wake of a terminal dispatch: it is sent at most twice, a delivery whose outcome is unknown is never
  sent again, and what was delivered stays delivered.
\<close>

section \<open>What may happen to a wake\<close>

definition wake_identity where
  "wake_identity w = (w_delivery w, w_dispatch w, w_decision w, w_kind w, w_cycle w, w_source_thread w)"

definition wake_le :: "wake_row \<Rightarrow> wake_row \<Rightarrow> bool" where
  "wake_le w w' \<longleftrightarrow> wake_identity w' = wake_identity w \<and> w_attempts w \<le> w_attempts w'
     \<and> (w_state w = Wake_Delivered \<longrightarrow> w' = w)
     \<and> (w_state w = Wake_Ambiguous \<longrightarrow> w_state w' \<in> {Wake_Ambiguous, Wake_Delivered} \<and> w_attempts w' = w_attempts w)
     \<and> (w_state w' = Wake_Starting \<and> w' \<noteq> w \<longrightarrow> w_attempts w < w_attempts w')"

lemma wake_le_refl: "wake_le w w"
  by (simp add: wake_le_def)

lemma wake_le_trans:
  assumes "wake_le w w1" "wake_le w1 w2"
  shows "wake_le w w2"
proof -
  from assms have "wake_identity w2 = wake_identity w" "w_attempts w \<le> w_attempts w2" by (auto simp: wake_le_def)
  moreover from assms have "w_state w = Wake_Delivered \<longrightarrow> w2 = w" by (auto simp: wake_le_def)
  moreover from assms have "w_state w = Wake_Ambiguous \<longrightarrow> w_state w2 \<in> {Wake_Ambiguous, Wake_Delivered} \<and> w_attempts w2 = w_attempts w"
    by (auto simp: wake_le_def)
  moreover have "w_attempts w < w_attempts w2" if "w_state w2 = Wake_Starting" "w2 \<noteq> w"
  proof (cases "w2 = w1")
    case True
    with that assms(1) show ?thesis by (simp add: wake_le_def)
  next
    case False
    with that(1) assms(2) have "w_attempts w1 < w_attempts w2" by (simp add: wake_le_def)
    moreover from assms(1) have "w_attempts w \<le> w_attempts w1" by (simp add: wake_le_def)
    ultimately show ?thesis by simp
  qed
  ultimately show ?thesis by (simp add: wake_le_def)
qed

text \<open>The constraints of the table, and what a step does to the wakes of terminal rows.\<close>

definition wakes_ok :: "ledger \<Rightarrow> bool" where
  "wakes_ok l \<longleftrightarrow> distinct (map w_delivery (wakes l)) \<and> list_all wake_check (wakes l)"

definition wakes_le :: "ledger \<Rightarrow> ledger \<Rightarrow> bool" where
  "wakes_le l l' \<longleftrightarrow> (\<forall>w\<in>set (wakes l). w_kind w = Terminal \<longrightarrow> (\<exists>w'\<in>set (wakes l'). wake_le w w'))"

definition wakes_step :: "ledger \<Rightarrow> ledger \<Rightarrow> bool" where
  "wakes_step l l' \<longleftrightarrow> (wakes_ok l \<longrightarrow> wakes_ok l' \<and> wakes_le l l')"

lemma wakes_le_trans:
  assumes "wakes_le l l1" "wakes_le l1 l2"
  shows "wakes_le l l2"
  unfolding wakes_le_def
proof (intro ballI impI)
  fix w assume "w \<in> set (wakes l)" "w_kind w = Terminal"
  with assms(1) obtain w1 where w1: "w1 \<in> set (wakes l1)" "wake_le w w1" unfolding wakes_le_def by blast
  then have "w_kind w1 = Terminal" using \<open>w_kind w = Terminal\<close> by (simp add: wake_le_def wake_identity_def)
  with assms(2) w1(1) obtain w2 where "w2 \<in> set (wakes l2)" "wake_le w1 w2" unfolding wakes_le_def by blast
  with wake_le_trans [OF w1(2)] show "\<exists>w'\<in>set (wakes l2). wake_le w w'" by blast
qed

lemma wakes_same: "wakes l' = wakes l \<Longrightarrow> wakes_step l l'"
  using wake_le_refl by (auto simp: wakes_step_def wakes_ok_def wakes_le_def)

lemma wakes_step_trans: "wakes_step l l1 \<Longrightarrow> wakes_step l1 l2 \<Longrightarrow> wakes_step l l2"
  using wakes_le_trans by (auto simp: wakes_step_def)

lemma wakes_step_eq: "wakes_step l l1 \<Longrightarrow> wakes l2 = wakes l1 \<Longrightarrow> wakes_step l l2"
  by (erule wakes_step_trans) (rule wakes_same)

lemma wakes_step_from: "wakes_step l1 l' \<Longrightarrow> wakes l1 = wakes l \<Longrightarrow> wakes_step l l'"
  using wakes_step_trans [OF wakes_same [of l1 l]] by blast

lemma delete_checkpoints_step:
  assumes "wakes l' = delete_where P (wakes l)" "\<And>w. P w \<Longrightarrow> w_kind w = Checkpoint"
  shows "wakes_step l l'"
  using assms wake_le_refl
  by (force simp: wakes_step_def wakes_ok_def wakes_le_def delete_where_def distinct_map_filter list_all_iff)

lemma update_checkpoints_step:
  assumes "wakes l' = update_where P f (wakes l)" "\<And>w. w_delivery (f w) = w_delivery w" "\<And>w. P w \<Longrightarrow> w_kind w = Checkpoint"
    and "\<And>w. P w \<Longrightarrow> wake_check w \<Longrightarrow> wake_check (f w)"
  shows "wakes_step l l'"
proof -
  have "map w_delivery (wakes l') = map w_delivery (wakes l)" using assms(1,2) by (simp add: map_update_where)
  moreover have "list_all wake_check (wakes l')" if "list_all wake_check (wakes l)"
    using that assms(4) unfolding list_all_iff assms(1) ball_update_where by blast
  moreover have "\<exists>w'\<in>set (wakes l'). wake_le w w'" if "w \<in> set (wakes l)" "w_kind w = Terminal" for w
    using that wake_le_refl assms(3) [of w] by (auto simp: assms(1) set_update_where)
  ultimately show ?thesis by (simp add: wakes_step_def wakes_ok_def wakes_le_def)
qed

lemma insert_wake_step:
  assumes "insert_wake w l = Inr l'"
  shows "wakes_step l l'"
proof -
  from assms have l': "wakes l' = wakes l @ [w]" "wake_check w" "w_delivery w \<notin> w_delivery ` set (wakes l)"
    by (auto simp: insert_wake_def bind_res_Inr_iff)
  have "\<exists>w'\<in>set (wakes l'). wake_le v w'" if "v \<in> set (wakes l)" for v
    using that wake_le_refl [of v] unfolding l'(1) set_append by blast
  with l' show ?thesis by (simp add: wakes_step_def wakes_ok_def wakes_le_def)
qed

lemma update_wakes_step:
  assumes "update_wakes P f l = Inr l'" "\<And>w. w_delivery (f w) = w_delivery w"
    and "\<And>w. w \<in> set (wakes l) \<Longrightarrow> wakes_ok l \<Longrightarrow> P w \<Longrightarrow> wake_le w (f w)"
  shows "wakes_step l l'"
proof -
  from assms(1) have l': "wakes l' = update_where P f (wakes l)" and ok: "\<forall>w\<in>set (wakes l). P w \<longrightarrow> wake_check (f w)"
    by (auto simp: update_wakes_def bind_res_Inr_iff)
  have "map w_delivery (wakes l') = map w_delivery (wakes l)" using assms(2) by (simp add: l' map_update_where)
  moreover have "list_all wake_check (wakes l')" if "list_all wake_check (wakes l)"
    using that ok unfolding list_all_iff l' ball_update_where by blast
  moreover have "\<exists>w'\<in>set (wakes l'). wake_le w w'" if "w \<in> set (wakes l)" "wakes_ok l" for w
    using that wake_le_refl assms(3) [of w] by (cases "P w") (auto simp: l' set_update_where)
  ultimately show ?thesis by (simp add: wakes_step_def wakes_ok_def wakes_le_def)
qed

section \<open>Operations on other tables\<close>

lemma wakes_helpers [simp]:
  "wakes (forget_attempt i l) = wakes l" "wakes (unresolve_commands now i l) = wakes l" "wakes (release_successors now i ids l) = wakes l"
  "wakes (disarm i l) = wakes l" "wakes (extend_capability i g a t l) = wakes l" "wakes (reset_retry i l) = wakes l"
  "wakes (record_exit now i l) = wakes l" "wakes (update_queue i f1 l) = wakes l" "wakes (update_retry i f2 l) = wakes l"
  "wakes (update_recovery i f3 l) = wakes l" "wakes (widen_budgets f i r l) = wakes l" "wakes (requeue now available i l) = wakes l"
  by (cases f; simp add: forget_attempt_def unresolve_commands_def release_successors_def disarm_def extend_capability_def reset_retry_def
      record_exit_def update_queue_def update_retry_def update_recovery_def widen_budgets_def requeue_def Let_def)+

lemma harness_wakes:
  "acquire_harness now pid birth digest version nonce lease l = Inr (h, l') \<Longrightarrow> wakes l' = wakes l"
  "renew_harness now epoch nonce lease l = Inr (h, l') \<Longrightarrow> wakes l' = wakes l"
  "request_harness_shutdown epoch nonce l = Inr (h, l') \<Longrightarrow> wakes l' = wakes l"
  "arm_harness_refresh_fence now l = Inr (ho, l') \<Longrightarrow> wakes l' = wakes l"
  by (auto simp: acquire_harness_def renew_harness_def request_harness_shutdown_def arm_harness_refresh_fence_def
      bind_res_Inr_iff Let_def)

lemma issue_wakes:
  "issue_attempt_capability now i g a schema ws backend token req lease l = Inr (c, l') \<Longrightarrow> wakes l' = wakes l"
  by (auto simp: issue_attempt_capability_def bind_res_Inr_iff Let_def split: option.splits if_splits)

lemma liveness_wakes:
  "bind_worker_liveness now i epoch g a pid birth token lease l = Inr (w, l') \<Longrightarrow> wakes l' = wakes l"
  "renew_worker_liveness E now i g a token lease eo l = Inr (w, l') \<Longrightarrow> wakes l' = wakes l"
  by (auto simp: bind_worker_liveness_def renew_worker_liveness_def bind_res_Inr_iff Let_def split: option.splits)

lemma thread_wakes:
  "bind_worker_thread E now i epoch g a token thread l = Inr (r, l') \<Longrightarrow> wakes l' = wakes l"
  "adopt_live_worker now i epoch pid birth nonce l = Inr (r, l') \<Longrightarrow> wakes l' = wakes l"
  by (auto simp: bind_worker_thread_def adopt_live_worker_def bind_res_Inr_iff returning_Inr split: option.splits)

lemma authorize_wakes: "authorize_successor now s t l = Inr (a, l') \<Longrightarrow> wakes l' = wakes l"
  by (auto simp: authorize_successor_def bind_res_Inr_iff Let_def split: option.splits)

lemma recover_wakes: "recover_queue_dispatch now i epoch keep l = Inr (r, l') \<Longrightarrow> wakes l' = wakes l"
  by (auto simp: recover_queue_dispatch_def bind_res_Inr_iff Let_def returning_Inr split: if_splits)

lemma submit_wakes: "submit_in_transaction E now i g a token raw status l = Inr (r, l') \<Longrightarrow> wakes l' = wakes l"
  by (erule submit_cases) auto

lemma bind_integrity_wakes: "bind_terminal_integrity i d l = Inr l' \<Longrightarrow> wakes l' = wakes l"
  unfolding bind_terminal_integrity_def by (auto simp: bind_res_Inr_iff split: option.splits if_splits)

lemma insert_wakes:
  "insert_decision s d l = Inr l' \<Longrightarrow> wakes l' = wakes l" "insert_generation g l = Inr l' \<Longrightarrow> wakes l' = wakes l"
  "insert_successor_out so l = Inr l' \<Longrightarrow> wakes l' = wakes l" "insert_notification n l = Inr l' \<Longrightarrow> wakes l' = wakes l"
  by (auto simp: insert_decision_def insert_generation_def insert_successor_out_def insert_notification_def bind_res_Inr_iff)

lemma ensure_wakes: "ensure_controller_decision i k n dg src t ws st l = Inr (d, l') \<Longrightarrow> wakes l' = wakes l"
  unfolding ensure_controller_decision_def bind_res_Inr_iff Let_def
  by (auto simp: bind_res_Inr_iff split: if_splits dest!: insert_wakes)

lemma notification_wakes: "record_notification_attempt now i task d st l = Inr (n, l') \<Longrightarrow> wakes l' = wakes l"
  by (auto simp: record_notification_attempt_def bind_res_Inr_iff Let_def split: option.splits if_splits dest!: insert_wakes(4))

lemma enqueue_wakes: "enqueue_in_transaction E now a d l = Inr (q, l') \<Longrightarrow> wakes l' = wakes l"
  by (auto simp: enqueue_in_transaction_def insert_queue_def Let_def bind_res_Inr_iff split: option.splits)

lemma consume_wakes:
  assumes "consume_retry E now i f strat prior req q r l = Inr (x, l')"
  shows "wakes l' = wakes l"
  using assms unfolding consume_retry_def bind_res_Inr_iff Let_def return_retry_Inr by (elim exE conjE) (simp split: if_splits)

lemma retry_failure_wakes: "record_retry_failure E now i f prior req att l = Inr (x, l') \<Longrightarrow> wakes l' = wakes l"
  by (erule retry_failure_cases) (auto simp: demand_attention_def dest: consume_wakes)

lemma exit_wakes: "apply_exit_retry_policy E now i st f thread amb l = Inr l' \<Longrightarrow> wakes l' = wakes l"
  by (auto simp: apply_exit_retry_policy_def bind_res_Inr_iff exit_retry_def exit_attention_def Let_def split: option.splits if_splits)

lemma mark_exit_wakes:
  assumes "mark_worker_exit E now i pid birth code cl l = Inr (u, l')"
  shows "wakes l' = wakes l"
proof -
  note body = assms(1) [unfolded mark_worker_exit_def bind_res_Inr_iff]
  from body obtain w q where wq: "lookup_by l_dispatch i (liveness l) = Some w" "lookup_by q_dispatch i (queue l) = Some q"
    by (auto split: option.splits)
  from body wq consider "wakes l' = wakes l"
    | f thread amb label tr r where "apply_exit_retry_policy E now i (q_state q) f thread amb
        (arm_inspection now i label code tr r (record_exit now i l)) = Inr l'"
    by (auto simp: bind_res_Inr_iff Let_def split: option.splits if_splits)
  then show ?thesis by cases (auto simp: arm_inspection_def Let_def dest: exit_wakes)
qed

lemma configure_wakes: "configure_recovery i env prof a b c d l = Inr (r, l') \<Longrightarrow> wakes l' = wakes l"
  unfolding configure_recovery_def by (auto simp: bind_res_Inr_iff return_recovery_Inr split: option.splits)

lemma inspection_wakes: "record_recovery_inspection E now i kind insp req due att l = Inr (r, l') \<Longrightarrow> wakes l' = wakes l"
  by (erule inspection_cases) (auto simp: settle_inspection_def Let_def)

lemma attention_wakes: "begin_attention now i reason failure l = Inr (b, l') \<Longrightarrow> wakes l' = wakes l"
  by (auto simp: begin_attention_def bind_res_Inr_iff attention_now_def Let_def split: option.splits if_splits)

lemma require_attention_wakes:
  assumes "mark_human_attention_required E now i reason failure l = Inr (u, l')"
  shows "wakes l' = wakes l"
  using assms by (rule attention_Inr) (auto dest!: attention_wakes inspection_wakes)

lemma begin_inspection_wakes: "begin_recovery_inspection now i epoch current l = Inr (r, l') \<Longrightarrow> wakes l' = wakes l"
  by (auto simp: begin_recovery_inspection_def bind_res_Inr_iff Let_def returning_Inr split: option.splits)

lemma continuation_wakes: "begin_recovery_continuation now i epoch nonce current l = Inr (r, l') \<Longrightarrow> wakes l' = wakes l"
  by (erule continuation_cases) (auto simp: exhausted_def continue_row_def Let_def)

section \<open>Operations on wakes\<close>

lemma cancel_row_step: "cancel_queue_row now epoch retain q l = Inr (r, l') \<Longrightarrow> wakes_step l l'"
proof -
  assume "cancel_queue_row now epoch retain q l = Inr (r, l')"
  then have "wakes l' = wakes l \<or> wakes l' = delete_where (\<lambda>w. w_dispatch w = q_dispatch q \<and> w_kind w = Checkpoint) (wakes l)"
    by (auto simp: cancel_queue_row_def bind_res_Inr_iff Let_def returning_Inr retire_checkpoints_def split: if_splits option.splits)
  then show ?thesis using wakes_same delete_checkpoints_step by blast
qed

lemma cancel_step: "cancel_queue_dispatch now i epoch l = Inr (r, l') \<Longrightarrow> wakes_step l l'"
  by (auto simp: cancel_queue_dispatch_def bind_res_Inr_iff dest: cancel_row_step)

lemma acknowledge_step:
  assumes "acknowledge_worker_cancellation_exit now i action pid birth code l = Inr (r, l')"
  shows "wakes_step l l'"
proof -
  from assms have "l' = l \<or> (\<exists>q l1. wakes l1 = wakes l \<and> cancel_queue_row now None True q l1 = Inr (r, l'))"
    by (auto simp: acknowledge_worker_cancellation_exit_def bind_res_Inr_iff Let_def split: option.splits if_splits;
        (rule disjI2 exI conjI | assumption | simp)+)
  then show ?thesis using wakes_same wakes_step_from [OF cancel_row_step] by blast
qed

lemma claim_step: "claim_queue_dispatch now epoch nonce l = Inr (r, l') \<Longrightarrow> wakes_step l l'"
  by (auto simp: claim_queue_dispatch_def bind_res_Inr_iff Let_def split: option.splits if_splits intro: wakes_same cancel_row_step)

lemma set_state_step: "set_queue_state now i st epoch l = Inr (r, l') \<Longrightarrow> wakes_step l l'"
  by (auto simp: set_queue_state_def bind_res_Inr_iff returning_Inr split: if_splits intro: wakes_same cancel_step)

lemma close_checkpoints_step: "wakes_step l (close_checkpoints now i l)"
proof (rule update_checkpoints_step)
  let ?ds = "update_where (\<lambda>d. d_dispatch d = i \<and> d_kind d = Checkpoint \<and> d_action d = None
                   \<and> d_state d \<notin> {Action_Committed, Acknowledged, Superseded, Legacy_Closed})
                 (\<lambda>d. d\<lparr>d_state := Superseded, d_superseded := Some now, d_claim_expires := None, d_attention := None\<rparr>) (decisions l)"
  let ?P = "\<lambda>w. w_dispatch w = i \<and> w_kind w = Checkpoint \<and> w_state w \<noteq> Wake_Delivered
                       \<and> (\<exists>d\<in>set ?ds. d_id d = w_decision w \<and> d_action d = None)"
  let ?f = "\<lambda>w. w\<lparr>w_state := Wake_Suppressed, w_source_turn := None\<rparr>"
  show "wakes (close_checkpoints now i l) = update_where ?P ?f (wakes l)" by (simp add: close_checkpoints_def Let_def)
  show "w_delivery (?f w) = w_delivery w" for w by simp
  show "?P w \<Longrightarrow> w_kind w = Checkpoint" for w by simp
  show "?P w \<Longrightarrow> wake_check w \<Longrightarrow> wake_check (?f w)" for w by (auto simp: wake_check_def)
qed

lemma announce_step:
  assumes "announce_terminal E now q ids n l = Inr l'"
  shows "wakes_step l l'"
proof -
  from assms obtain l1 l2 d l3 w so nt k ny dg src t ws st where
    "insert_successor_out so l = Inr l1" "insert_notification nt l1 = Inr l2"
    and e: "ensure_controller_decision (q_dispatch q) k ny dg src t ws st (close_checkpoints now (q_dispatch q) l2) = Inr (d, l3)"
    and w: "insert_wake w l3 = Inr l'"
    unfolding announce_terminal_def Let_def bind_res_Inr_iff by (auto simp: bind_res_Inr_iff split: prod.splits)
  then have "wakes l2 = wakes l" by (simp add: insert_wakes)
  from wakes_step_from [OF close_checkpoints_step this] have "wakes_step l (close_checkpoints now (q_dispatch q) l2)" .
  from wakes_step_eq [OF this ensure_wakes [OF e]] have "wakes_step l l3" .
  from wakes_step_trans [OF this insert_wake_step [OF w]] show ?thesis .
qed

lemma finalize_step: "finalize_in_transaction E now i payload notify l = Inr (r, l') \<Longrightarrow> wakes_step l l'"
  by (auto simp: finalize_in_transaction_def bind_res_Inr_iff Let_def returning_Inr split: if_splits
      intro: wakes_same wakes_step_from [OF announce_step])

lemma commit_step:
  assumes "commit_in_transaction E now i g a token raw status l = Inr (r, l')"
  shows "wakes_step l l'"
proof -
  from assms obtain r1 l1 l2 where s: "submit_in_transaction E now i g a token raw status l = Inr (r1, l1)"
    and b: "bind_terminal_integrity i (sha256 E raw) l1 = Inr l2"
    and f: "finalize_in_transaction E now i [] None (reset_retry i l2) = Inr (r, l')"
    by (auto simp: commit_in_transaction_def bind_res_Inr_iff)
  from wakes_step_from [OF finalize_step [OF f], of l] show ?thesis
    by (simp add: bind_integrity_wakes [OF b] submit_wakes [OF s])
qed

lemma retained_step: "retained_in_transaction E now i g a token raw status l = Inr (r, l') \<Longrightarrow> wakes_step l l'"
  by (erule retained_commits) (auto intro: wakes_step_from [OF commit_step])

lemma ingest_step:
  assumes "ingest_in_transaction E now i raw status l = Inr (r, l')"
  shows "wakes_step l l'"
proof -
  from assms have "wakes l' = wakes l \<or> (\<exists>l2. wakes l2 = wakes l \<and> finalize_in_transaction E now i [] None l2 = Inr (r, l'))"
    by (auto simp: ingest_in_transaction_def bind_res_Inr_iff Let_def split: if_splits dest!: bind_integrity_wakes)
  then show ?thesis using wakes_same wakes_step_from [OF finalize_step] by blast
qed

lemma claim_checkpoint_step:
  assumes "claim_due_checkpoint now epoch current l = Inr (wo, l')"
  shows "wakes_step l l'"
proof -
  from assms have "l' = l \<or> (\<exists>w l1. wakes l1 = wakes l \<and> insert_wake w l1 = Inr l')"
    unfolding claim_due_checkpoint_def by (auto simp: bind_res_Inr_iff Let_def split: list.splits dest!: ensure_wakes)
  then show ?thesis using wakes_same wakes_step_from [OF insert_wake_step] by blast
qed

lemma rearm_wakes: "rearm_checkpoint now i seconds l = Inr (b, l') \<Longrightarrow> wakes l' = wakes l"
  unfolding rearm_checkpoint_def by (auto simp: bind_res_Inr_iff Let_def split: option.splits)

lemma only_wake: "wakes_ok l \<Longrightarrow> lookup_by w_delivery i (wakes l) = Some v \<Longrightarrow> w \<in> set (wakes l) \<Longrightarrow> w_delivery w = i \<Longrightarrow> w = v"
  using lookup_by_unique [of w_delivery "wakes l" w] by (simp add: wakes_ok_def)

lemma claim_wake_step:
  assumes "claim_wake i l = Inr (w, l')"
  shows "wakes_step l l'"
proof -
  from assms obtain v where v: "lookup_by w_delivery i (wakes l) = Some v" by (auto simp: claim_wake_def split: option.splits)
  from assms v consider "l' = l"
    | "w_state v \<notin> {Wake_Delivered, Wake_Ambiguous}"
        "update_wakes (\<lambda>w. w_delivery w = i) (\<lambda>w. w\<lparr>w_state := Wake_Failed\<rparr>) l = Inr l'"
    | "update_wakes (\<lambda>w. w_delivery w = i \<and> w_state w \<in> {Wake_Pending, Wake_Failed})
         (\<lambda>w. w\<lparr>w_state := Wake_Starting, w_attempts := w_attempts w + 1\<rparr>) l = Inr l'"
    by (auto simp: claim_wake_def bind_res_Inr_iff returning_wake_Inr split: option.splits if_splits)
  then show ?thesis
  proof cases
    case 2
    from 2(2) show ?thesis
      by (rule update_wakes_step) (use 2(1) only_wake [OF _ v] in \<open>auto simp: wake_le_def wake_identity_def\<close>)
  next
    case 3
    then show ?thesis by (rule update_wakes_step) (auto simp: wake_le_def wake_identity_def)
  qed (simp add: wakes_same)
qed

lemma reconcile_step:
  "reconcile_inflight_wakes l = Inr (u, l') \<Longrightarrow> wakes_step l l'"
  "reconcile_exhausted_wake_notifications now l = Inr (u, l') \<Longrightarrow> wakes_step l l'"
  by (auto simp: reconcile_inflight_wakes_def reconcile_exhausted_wake_notifications_def bind_res_Inr_iff wake_le_def wake_identity_def
      intro: wakes_same elim!: update_wakes_step)

lemma reconcile_wake_step:
  assumes "reconcile_wake_delivery i turn l = Inr (w, l')"
  shows "wakes_step l l'"
proof -
  from assms consider "l' = l" | l1 where "update_wakes (\<lambda>w. w_delivery w = i \<and> w_state w = Wake_Ambiguous)
      (\<lambda>w. w\<lparr>w_state := Wake_Delivered, w_source_turn := Some turn\<rparr>) l = Inr l1" "wakes l' = wakes l1"
    by (auto simp: reconcile_wake_delivery_def bind_res_Inr_iff returning_wake_Inr split: option.splits if_splits)
  then show ?thesis
  proof cases
    case (2 l1)
    from 2(1) have "wakes_step l l1" by (rule update_wakes_step) (auto simp: wake_le_def wake_identity_def)
    then show ?thesis using 2(2) by (rule wakes_step_eq)
  qed (simp add: wakes_same)
qed

lemma starting_step:
  assumes "update_wakes (\<lambda>w. w_delivery w = i \<and> w_state w = Wake_Starting) f l = Inr l1" "wakes l' = wakes l1"
    and "\<And>w. wake_identity (f w) = wake_identity w" "\<And>w. w_attempts (f w) = w_attempts w" "\<And>w. w_state (f w) \<noteq> Wake_Starting"
  shows "wakes_step l l'"
proof -
  have "w_delivery (f w) = w_delivery w" for w using assms(3) [of w] by (simp add: wake_identity_def)
  from assms(1) this have "wakes_step l l1"
    by (rule update_wakes_step) (use assms(3-5) in \<open>simp add: wake_le_def\<close>)
  then show ?thesis using assms(2) by (rule wakes_step_eq)
qed

lemma delivery_step:
  "deliver_wake i w turn l = Inr l' \<Longrightarrow> wakes_step l l'" "lose_wake i w turn l = Inr l' \<Longrightarrow> wakes_step l l'"
  "fail_wake now i w turn l = Inr l' \<Longrightarrow> wakes_step l l'"
  unfolding deliver_wake_def lose_wake_def fail_wake_def
  by (auto simp: bind_res_Inr_iff Let_def wake_identity_def split: if_splits elim!: starting_step)

lemma record_delivery_step: "record_wake_delivery now i st turn l = Inr (w, l') \<Longrightarrow> wakes_step l l'"
  unfolding record_wake_delivery_def
  by (auto simp: bind_res_Inr_iff returning_wake_Inr split: option.splits if_splits intro: wakes_same dest: delivery_step)

section \<open>Runs\<close>

lemma attempt_wakes_step:
  assumes "attempt_transaction E now r l = Inr (u, l')"
  shows "wakes_step l l'"
  using assms
  by (cases r) (auto simp: transaction_Inr intro: cancel_step acknowledge_step claim_step set_state_step wakes_same
      dest: harness_wakes issue_wakes liveness_wakes thread_wakes authorize_wakes recover_wakes)

lemma result_wakes_step: "result_transaction E now r l = Inr (u, l') \<Longrightarrow> wakes_step l l'"
  by (cases r) (auto simp: transaction_Inr intro: wakes_same commit_step retained_step ingest_step dest: submit_wakes)

lemma recovery_wakes_step:
  assumes "recovery_transaction E now r l = Inr (u, l')"
  shows "wakes_step l l'"
proof (cases r)
  case (Retry_Failure i f prior req att)
  with assms obtain x where "record_retry_failure E now i f prior req att l = Inr (x, l')" by (auto simp: transaction_Inr)
  from retry_failure_wakes [OF this] show ?thesis by (rule wakes_same)
qed (use assms in \<open>auto simp: transaction_Inr intro: wakes_same finalize_step claim_wake_step reconcile_step reconcile_wake_step
    record_delivery_step claim_checkpoint_step dest: require_attention_wakes mark_exit_wakes enqueue_wakes configure_wakes
    inspection_wakes begin_inspection_wakes continuation_wakes notification_wakes rearm_wakes\<close>)

lemma exec_wakes_step:
  assumes "exec_body now op l = Inr (u, l')"
  shows "wakes_step l l'"
proof (cases "\<exists>k. op = Cancel_Execution k")
  case True
  then obtain k where "op = Cancel_Execution k" ..
  with assms obtain x where "cancel_execution now k l = Inr (x, l')" by (auto simp: forget_Inr)
  then show ?thesis
  proof (rule cancel_execution_parts)
    fix q q' l1 assume "cancel_queue_row now None False q l = Inr (q', l1)" "queue_part l' = queue_part l1"
    then show ?thesis using wakes_step_eq [OF cancel_row_step] by (simp add: queue_part_def)
  qed (simp add: queue_part_def wakes_same)
next
  case False
  with exec_body_frame [OF assms] show ?thesis by (intro wakes_same) (simp add: queue_part_def)
qed

lemma request_wakes_step:
  assumes "request E r l = Inr (u, l')"
  shows "wakes_step l l'"
proof (cases "snd r")
  case (Inl e)
  with assms exec_wakes_step show ?thesis by (auto simp: request_def atomically_Inr)
next
  case (Inr q)
  with assms have "queue_transaction E (fst r) q l = Inr (u, l')" by (simp add: request_def)
  then show ?thesis using attempt_wakes_step result_wakes_step recovery_wakes_step by (cases q) auto
qed

interpretation wake_machine: guarded_machine "ledger_step E" wakes_ok wakes_le
proof
  fix l r
  have "wakes_step l (ledger_step E l r)"
    by (rule ledger_step_cases [of E l r]) (auto intro: wakes_same request_wakes_step)
  then show "wakes_ok l \<Longrightarrow> wakes_ok (ledger_step E l r)" "wakes_ok l \<Longrightarrow> wakes_le l (ledger_step E l r)"
    by (simp_all add: wakes_step_def)
next
  show "wakes_le l l" for l using wake_le_refl by (auto simp: wakes_le_def)
qed (rule wakes_le_trans)

text \<open>
  C9. The wake of a terminal dispatch is not sent again: over any run it keeps its identity, it is
  sent at most twice, each sending is counted, a delivery whose outcome is unknown is never sent again but only
  settled as delivered, and a delivered wake keeps the turn it was delivered with.
\<close>

theorem lost_wakes_are_not_resent:
  assumes "wakes_ok l" "w \<in> set (wakes l)" "w_kind w = Terminal"
  shows "\<exists>w'\<in>set (wakes (ledger_run E rs l)). wake_identity w' = wake_identity w \<and> w_attempts w \<le> w_attempts w' \<and> w_attempts w' \<le> 2
    \<and> (w_state w = Wake_Delivered \<longrightarrow> w' = w)
    \<and> (w_state w = Wake_Ambiguous \<longrightarrow> w_state w' \<in> {Wake_Ambiguous, Wake_Delivered} \<and> w_attempts w' = w_attempts w)
    \<and> (w_state w' = Wake_Starting \<and> w' \<noteq> w \<longrightarrow> w_attempts w < w_attempts w')"
proof -
  from wake_machine.run_le [OF assms(1), of E rs] wake_machine.run_inv [OF assms(1), of E rs]
  have le: "wakes_le l (ledger_run E rs l)" and ok: "wakes_ok (ledger_run E rs l)" by (simp_all add: ledger_run_def)
  from le assms(2,3) obtain w' where w': "w' \<in> set (wakes (ledger_run E rs l))" "wake_le w w'" unfolding wakes_le_def by blast
  moreover from ok w'(1) have "w_attempts w' \<le> 2" by (auto simp: wakes_ok_def list_all_iff wake_check_def)
  ultimately show ?thesis unfolding wake_le_def by blast
qed

theorem lost_wakes_are_not_resent_witness:
  "\<exists>w'\<in>set (wakes (ledger_run sample_env [(10, Inr (Recovery (Claim_Wake sample_wake_id)))]
      (sample_committed\<lparr>wakes := [sample_wake\<lparr>w_state := Wake_Ambiguous, w_attempts := 1\<rparr>]\<rparr>))).
     w_state w' \<in> {Wake_Ambiguous, Wake_Delivered} \<and> w_attempts w' = 1"
proof -
  let ?w = "sample_wake\<lparr>w_state := Wake_Ambiguous, w_attempts := 1\<rparr>"
  have "wake_check ?w" by (simp add: sample_wake_def wake_check_def sample_wake_id_def sample_id_def lit_def)
  then have "wakes_ok (sample_committed\<lparr>wakes := [?w]\<rparr>)" "?w \<in> set (wakes (sample_committed\<lparr>wakes := [?w]\<rparr>))"
    by (simp_all add: wakes_ok_def)
  moreover have "w_kind ?w = Terminal" by (simp add: sample_wake_def)
  ultimately show ?thesis
    using lost_wakes_are_not_resent [of "sample_committed\<lparr>wakes := [?w]\<rparr>" ?w sample_env
        "[(10, Inr (Recovery (Claim_Wake sample_wake_id)))]"] by auto
qed

end
