(* ===== verification/Delivery_Guarantees.thy ===== *)
theory Delivery_Guarantees
  imports Ledger_Guarantees Retry_Bounds Wake_Delivery
begin

text \<open>
  What a result leaves behind when it is accepted, when it is refused, and how a dispatch enters the queue.
\<close>

section \<open>A committed result\<close>

text \<open>What a finalization leaves alone besides the laws of the queue.\<close>

definition kept_part where
  "kept_part l = (successors l, recoveries l)"

lemma insert_kept:
  "insert_wake w l = Inr l' \<Longrightarrow> kept_part l' = kept_part l" "insert_decision s d l = Inr l' \<Longrightarrow> kept_part l' = kept_part l"
  "insert_generation g l = Inr l' \<Longrightarrow> kept_part l' = kept_part l" "insert_successor_out so l = Inr l' \<Longrightarrow> kept_part l' = kept_part l"
  "insert_notification n l = Inr l' \<Longrightarrow> kept_part l' = kept_part l"
  by (auto simp: insert_wake_def insert_decision_def insert_generation_def insert_successor_out_def insert_notification_def
      bind_res_Inr_iff kept_part_def)

lemma announce_parts:
  assumes "announce_terminal E now q ids n l = Inr l'"
  obtains l1 l2 so nt d l3 w dg source ws where "insert_successor_out so l = Inr l1" "insert_notification nt l1 = Inr l2"
    "ensure_controller_decision (q_dispatch q) Terminal 1 dg source (now + DECISION_WINDOW) ws (terminal_state q)
       (close_checkpoints now (q_dispatch q) l2) = Inr (d, l3)"
    "insert_wake w l3 = Inr l'"
proof -
  from assms obtain l1 l2 so nt d l3 w dg source ws where "insert_successor_out so l = Inr l1" "insert_notification nt l1 = Inr l2"
    "ensure_controller_decision (q_dispatch q) Terminal 1 dg source (now + DECISION_WINDOW) ws (terminal_state q)
       (close_checkpoints now (q_dispatch q) l2) = Inr (d, l3)"
    "insert_wake w l3 = Inr l'"
    unfolding announce_terminal_def Let_def bind_res_Inr_iff by (auto simp: bind_res_Inr_iff split: prod.splits)
  then show thesis by (rule that)
qed

lemma ensure_kept: "ensure_controller_decision i k n dg src t ws st l = Inr (d, l') \<Longrightarrow> kept_part l' = kept_part l"
  unfolding ensure_controller_decision_def bind_res_Inr_iff Let_def
  by (auto simp: bind_res_Inr_iff split: if_splits dest!: insert_kept)

lemma close_kept [simp]: "kept_part (close_checkpoints now i l) = kept_part l"
  by (simp add: close_checkpoints_def Let_def kept_part_def)

lemma announce_kept:
  assumes "announce_terminal E now q ids n l = Inr l'"
  shows "kept_part l' = kept_part l"
  using assms
proof (rule announce_parts)
  fix l1 l2 so nt d l3 w dg source ws
  assume "insert_successor_out so l = Inr l1" "insert_notification nt l1 = Inr l2" "insert_wake w l3 = Inr l'"
    "ensure_controller_decision (q_dispatch q) Terminal 1 dg source (now + DECISION_WINDOW) ws (terminal_state q)
       (close_checkpoints now (q_dispatch q) l2) = Inr (d, l3)"
  then show ?thesis by (simp add: insert_kept ensure_kept)
qed

lemma released_all:
  assumes "s \<in> set (successors (release_successors now i (unreleased_successors l i) l))" "as_source s = i"
  shows "as_released s \<noteq> None"
proof
  assume none: "as_released s = None"
  from assms(1) obtain x where x: "x \<in> set (successors l)" "s = (if as_source x = i \<and> as_successor x \<in> set (unreleased_successors l i)
      \<and> as_released x = None then x\<lparr>as_released := Some now\<rparr> else x)"
    by (auto simp: release_successors_def update_where_def)
  with none have s: "s = x" by (auto split: if_splits)
  with x(1) none assms(2) have "as_successor x \<in> set (unreleased_successors l i)" by (auto simp: unreleased_successors_def)
  with s none assms(2) have "as_released s = Some now" using arg_cong [OF x(2), of as_released] by simp
  with none show False by simp
qed

text \<open>A finalization of a submitted row, in full.\<close>

lemma finalize_submitted:
  assumes "finalize_in_transaction E now i payload notify l = Inr (r, l')" "lookup_by q_dispatch i (queue l) = Some q"
    and "q_state q = Result_Submitted"
  shows "lookup_by q_dispatch i (queue l') = Some (q\<lparr>q_state := terminal_state q, q_updated := now\<rparr>)"
    "capabilities l' = capabilities l" "recoveries l' = recoveries l"
    "\<forall>s\<in>set (successors l'). as_source s = i \<longrightarrow> as_released s \<noteq> None"
proof -
  let ?l = "update_queue i (\<lambda>r. r\<lparr>q_state := terminal_state q, q_updated := now\<rparr>) l"
  from assms have a: "announce_terminal E now q (unreleased_successors l i) notify (release_successors now i (unreleased_successors l i) ?l)
      = Inr l'"
    by (auto simp: finalize_in_transaction_def bind_res_Inr_iff queue_dispatch_iff Let_def returning_Inr)
  from announce_part [OF a] show "lookup_by q_dispatch i (queue l') = Some (q\<lparr>q_state := terminal_state q, q_updated := now\<rparr>)"
    "capabilities l' = capabilities l"
    using assms(2) lookup_by_in [OF assms(2)] by (simp_all add: law_part_iff update_queue_def lookup_update_if)
  from announce_kept [OF a] have kept: "successors l' = successors (release_successors now i (unreleased_successors l i) ?l)"
    "recoveries l' = recoveries (release_successors now i (unreleased_successors l i) ?l)" by (simp_all add: kept_part_def)
  then show "recoveries l' = recoveries l" by (simp add: release_successors_def update_queue_def)
  have same: "unreleased_successors ?l i = unreleased_successors l i" by (simp add: unreleased_successors_def update_queue_def)
  from released_all [of _ now i ?l] show "\<forall>s\<in>set (successors l'). as_source s = i \<longrightarrow> as_released s \<noteq> None" unfolding kept same by blast
qed

text \<open>The submission of a first result.\<close>

lemma first_submission:
  assumes "submit_in_transaction E now i g a token raw status l = Inr (r, l')" "queue_inv E l"
    and "lookup_by q_dispatch i (queue l) = Some q" "q_raw q = None"
  obtains c where "c \<in> set (capabilities l)" "is_capability i g a c" "c_generation c = q_generation q" "c_attempt c = q_attempt q"
    "lookup_by q_dispatch i (queue l') = Some (q\<lparr>q_state := Result_Submitted, q_raw := Some (raw, sha256 E raw),
        q_terminal := Some status, q_updated := now\<rparr>)"
    "capabilities l' = update_where (is_capability i g a) (\<lambda>c. c\<lparr>c_consumed := Some now, c_accepted := Some (sha256 E raw)\<rparr>)
        (capabilities l)"
    "recoveries l' = update_where (\<lambda>r. rs_dispatch r = i) (\<lambda>r. r\<lparr>rs_state := (if status \<in> set failed_statuses then Rec_Failed
        else Rec_Completed), rs_next_eligible := None, rs_attention := None\<rparr>) (recoveries l)"
proof -
  note body = assms(1) [unfolded submit_in_transaction_def bind_res_Inr_iff queue_dispatch_iff]
  from body assms(3) obtain c where c: "select_one (is_capability i g a) (capabilities l) = Some c" by (auto split: option.splits)
  note cin = select_one_Some [OF c]
  from body assms(3) c have b: "c_generation c = q_generation q" "c_attempt c = q_attempt q" by (auto simp: bind_res_Inr_iff)
  have open_row: "q_state q \<notin> {Queue_Completed, Queue_Failed}"
    using check_queue_rowD(2) [OF valid_row_result [OF assms(2,3)]] assms(4) by blast
  from assms(2) have "check_capability l c = Inr ()" using validate_queueD(3) cin by (auto simp: queue_inv_def validate_rows_iff)
  then have "c_consumed c = None"
    by (rule check_capabilityD) (use cin assms(3,4) in \<open>cases "c_consumed c"; auto simp: is_capability_def\<close>)
  with body assms(3) c open_row have l': "l' = (update_queue i (\<lambda>q. q\<lparr>q_state := Result_Submitted, q_raw := Some (raw, sha256 E raw),
        q_terminal := Some status, q_updated := now\<rparr>) (l\<lparr>capabilities := update_where (is_capability i g a)
          (\<lambda>c. c\<lparr>c_consumed := Some now, c_accepted := Some (sha256 E raw)\<rparr>) (capabilities l)\<rparr>))\<lparr>recoveries :=
            update_where (\<lambda>r. rs_dispatch r = i) (\<lambda>r. r\<lparr>rs_state := (if status \<in> set failed_statuses then Rec_Failed
              else Rec_Completed), rs_next_eligible := None, rs_attention := None\<rparr>) (recoveries l)\<rparr>"
    by (simp add: bind_res_Inr_iff Let_def returning_Inr update_queue_def)
  show thesis
    by (rule that [OF _ _ b]) (use cin lookup_by_in [OF assms(3)] assms(3) in \<open>simp_all add: l' update_queue_def lookup_update_if\<close>)
qed

lemma bind_integrity_recoveries: "bind_terminal_integrity i d l = Inr l' \<Longrightarrow> recoveries l' = recoveries l"
  unfolding bind_terminal_integrity_def by (auto simp: bind_res_Inr_iff split: option.splits if_splits)

lemma recovery_row:
  assumes "queue_inv E l" "lookup_by q_dispatch i (queue l) = Some q"
  obtains x where "lookup_by rs_dispatch i (recoveries l) = Some x"
proof -
  from assms(1) have "rs_dispatch ` set (recoveries l) = q_dispatch ` set (queue l)"
    by (simp add: queue_inv_def validate_rows_iff validate_queue_def bind_res_Inr_iff)
  then have "i \<in> rs_dispatch ` set (recoveries l)" using lookup_by_in [OF assms(2)] by (auto simp: image_iff)
  then show thesis using that by (cases "lookup_by rs_dispatch i (recoveries l)") (simp_all add: lookup_by_None)
qed

lemma commit_first:
  assumes "commit_in_transaction E now i g a token raw status l = Inr (r, l')" "queue_inv E l"
    and "lookup_by q_dispatch i (queue l) = Some q" "q_raw q = None"
  obtains c where "c \<in> set (capabilities l)" "is_capability i g a c" "c_generation c = q_generation q" "c_attempt c = q_attempt q"
    "lookup_by q_dispatch i (queue l') = Some (q\<lparr>q_state := (if status \<in> set failed_statuses then Queue_Failed else Queue_Completed),
        q_raw := Some (raw, sha256 E raw), q_terminal := Some status, q_updated := now\<rparr>)"
    "c\<lparr>c_consumed := Some now, c_accepted := Some (sha256 E raw)\<rparr> \<in> set (capabilities l')"
    "\<forall>s\<in>set (successors l'). as_source s = i \<longrightarrow> as_released s \<noteq> None"
    "map_option rs_state (lookup_by rs_dispatch i (recoveries l')) = Some (if status \<in> set failed_statuses then Rec_Failed else Rec_Completed)"
proof -
  from assms(1) obtain r1 l1 l2 where s: "submit_in_transaction E now i g a token raw status l = Inr (r1, l1)"
    and b: "bind_terminal_integrity i (sha256 E raw) l1 = Inr l2"
    and f: "finalize_in_transaction E now i [] None (reset_retry i l2) = Inr (r, l')"
    by (auto simp: commit_in_transaction_def bind_res_Inr_iff)
  let ?q = "q\<lparr>q_state := Result_Submitted, q_raw := Some (raw, sha256 E raw), q_terminal := Some status, q_updated := now\<rparr>"
  from s assms(2-4) obtain c where c: "c \<in> set (capabilities l)" "is_capability i g a c" "c_generation c = q_generation q"
      "c_attempt c = q_attempt q" and q1: "lookup_by q_dispatch i (queue l1) = Some ?q"
    and caps: "capabilities l1 = update_where (is_capability i g a) (\<lambda>c. c\<lparr>c_consumed := Some now, c_accepted := Some (sha256 E raw)\<rparr>)
        (capabilities l)"
    and sub_recs: "recoveries l1 = update_where (\<lambda>r. rs_dispatch r = i) (\<lambda>r. r\<lparr>rs_state := (if status \<in> set failed_statuses then
        Rec_Failed else Rec_Completed), rs_next_eligible := None, rs_attention := None\<rparr>) (recoveries l)" by (rule first_submission)
  from bind_integrity_part [OF b] have part: "law_part (reset_retry i l2) = law_part l1" by simp
  then have same: "queue (reset_retry i l2) = queue l1" "capabilities (reset_retry i l2) = capabilities l1"
    unfolding law_part_iff by blast+
  have q2: "lookup_by q_dispatch i (queue (reset_retry i l2)) = Some ?q" using q1 same by simp
  have recs: "recoveries (reset_retry i l2) = recoveries l1"
    using bind_integrity_recoveries [OF b] by (simp add: reset_retry_def)
  note fin = finalize_submitted [OF f q2]
  obtain x where "lookup_by rs_dispatch i (recoveries l) = Some x" by (rule recovery_row [OF assms(2,3)])
  with sub_recs have rec: "map_option rs_state (lookup_by rs_dispatch i (recoveries l')) = Some (if status \<in> set failed_statuses
      then Rec_Failed else Rec_Completed)"
    using lookup_by_in [of rs_dispatch i "recoveries l" x] by (simp add: fin(3) recs lookup_update_if)
  show thesis
  proof (rule that [OF c _ _ _ rec])
    show "c\<lparr>c_consumed := Some now, c_accepted := Some (sha256 E raw)\<rparr> \<in> set (capabilities l')"
      using c by (simp add: fin(2) same(2) caps set_update_where)
    show "lookup_by q_dispatch i (queue l') = Some (q\<lparr>q_state := (if status \<in> set failed_statuses then Queue_Failed else Queue_Completed),
        q_raw := Some (raw, sha256 E raw), q_terminal := Some status, q_updated := now\<rparr>)"
      using fin(1) by (simp add: terminal_state_def image_iff)
  qed (use fin(4) in simp)
qed

text \<open>
  C6. An accepted result is complete: when a commit for a row without a result succeeds, the row is
  completed or failed as the status of the result says, it holds the text and its digest, the
  capability of its attempt is consumed by that digest, the recovery of the row has ended the same way, its outboxes are
  written, it has exactly one terminal wake, and all its authorized successors are released.
\<close>

theorem commit_is_complete:
  assumes "ledger_inv E l" "queue_transaction E now (Result (Commit_Result i g a token raw)) l = Inr (u, l')"
    and "lookup_by q_dispatch i (queue l) = Some q" "q_raw q = None"
  shows "\<exists>y status. parse_queue_result E l i raw = Inr status \<and> lookup_by q_dispatch i (queue l') = Some y
    \<and> q_state y = (if status \<in> set failed_statuses then Queue_Failed else Queue_Completed)
    \<and> q_raw y = Some (raw, sha256 E raw) \<and> q_terminal y = Some status \<and> q_generation y = g \<and> q_attempt y = a
    \<and> (\<exists>c\<in>set (capabilities l'). is_capability i g a c \<and> c_consumed c = Some now \<and> c_accepted c = Some (sha256 E raw))
    \<and> map_option rs_state (lookup_by rs_dispatch i (recoveries l')) = Some (if status \<in> set failed_statuses then Rec_Failed else Rec_Completed)
    \<and> i \<in> so_source ` set (successor_outbox l') \<and> i \<in> n_dispatch ` set (notifications l')
    \<and> length (filter (\<lambda>w. w_dispatch w = i \<and> w_kind w = Terminal) (wakes l')) = 1
    \<and> (\<forall>s\<in>set (successors l'). as_source s = i \<longrightarrow> as_released s \<noteq> None)"
proof -
  from assms(1) have inv: "queue_inv E l" by (simp add: ledger_inv_def)
  from assms(2) obtain status r where st: "bounded_result E l i raw = Inr status"
    and c: "commit_in_transaction E now i g a token raw status l = Inr (r, l')" by (auto simp: transaction_Inr)
  let ?y = "q\<lparr>q_state := (if status \<in> set failed_statuses then Queue_Failed else Queue_Completed),
        q_raw := Some (raw, sha256 E raw), q_terminal := Some status, q_updated := now\<rparr>"
  from c inv assms(3,4) obtain cap where cap: "is_capability i g a cap" "c_generation cap = q_generation q" "c_attempt cap = q_attempt q"
      "cap\<lparr>c_consumed := Some now, c_accepted := Some (sha256 E raw)\<rparr> \<in> set (capabilities l')"
    and y: "lookup_by q_dispatch i (queue l') = Some ?y" and rel: "\<forall>s\<in>set (successors l'). as_source s = i \<longrightarrow> as_released s \<noteq> None"
    and rec: "map_option rs_state (lookup_by rs_dispatch i (recoveries l')) = Some (if status \<in> set failed_statuses
        then Rec_Failed else Rec_Completed)"
    by (rule commit_first)
  have inv': "queue_inv E l'" by (rule transaction_inv [OF assms(2) inv])
  note out = check_queue_rowD(5) [OF valid_row_result [OF inv' y]]
  from inv' lookup_by_in [OF y] have wakes: "check_wakes_of l' ?y = Inr ()"
    using validate_queueD(5) by (auto simp: queue_inv_def validate_rows_iff)
  have yi: "q_dispatch q = i" using lookup_by_in [OF assms(3)] by simp
  show ?thesis
  proof (intro exI conjI)
    show "parse_queue_result E l i raw = Inr status" using st by (auto simp: bounded_result_def bind_res_Inr_iff)
    show "lookup_by q_dispatch i (queue l') = Some ?y" by (rule y)
    show "\<exists>c\<in>set (capabilities l'). is_capability i g a c \<and> c_consumed c = Some now \<and> c_accepted c = Some (sha256 E raw)"
      by (rule bexI [OF _ cap(4)]) (use cap(1) in \<open>simp add: is_capability_def\<close>)
    show "i \<in> so_source ` set (successor_outbox l')" "i \<in> n_dispatch ` set (notifications l')"
      using out yi by (auto simp: lookup_by_None)
    show "length (filter (\<lambda>w. w_dispatch w = i \<and> w_kind w = Terminal) (wakes l')) = 1"
      using wakes yi by (simp add: check_wakes_of_def Let_def bind_res_Inr_iff conj_commute split: if_splits)
    show "q_generation ?y = g" "q_attempt ?y = a" using cap(1-3) by (simp_all add: is_capability_def)
  qed (use rel rec in simp_all)
qed

theorem commit_is_complete_witness:
  "\<exists>y. lookup_by q_dispatch (sample_id ''v'') (queue sample_committed) = Some y \<and> q_state y = Queue_Completed
     \<and> q_raw y = Some (lit ''done'', sample_digest)
     \<and> length (filter (\<lambda>w. w_dispatch w = sample_id ''v'' \<and> w_kind w = Terminal) (wakes sample_committed)) = 1"
proof -
  have "queue_transaction sample_env 10 (Result (Commit_Result (sample_id ''v'') 1 1 (lit ''token'') (lit ''done''))) sample_queue
      = Inr ((), sample_committed)"
    using sample_commit_run(1) by (simp add: request_def sample_commit_def)
  moreover have q: "lookup_by q_dispatch (sample_id ''v'') (queue sample_queue) = Some (sample_queue_row ''v'' Running 1)"
    "q_raw (sample_queue_row ''v'' Running 1) = None"
    by (simp_all add: lookup_by_def select_one_def sample_queue_defs sample_id_def lit_def)
  ultimately obtain y status where "parse_queue_result sample_env sample_queue (sample_id ''v'') (lit ''done'') = Inr status"
    "lookup_by q_dispatch (sample_id ''v'') (queue sample_committed) = Some y"
    "q_state y = (if status \<in> set failed_statuses then Queue_Failed else Queue_Completed)"
    "q_raw y = Some (lit ''done'', sample_digest)"
    "length (filter (\<lambda>w. w_dispatch w = sample_id ''v'' \<and> w_kind w = Terminal) (wakes sample_committed)) = 1"
    using commit_is_complete [OF sample_ledger_inv] unfolding sample_env_digest by blast
  moreover have "parse_queue_result sample_env sample_queue (sample_id ''v'') (lit ''done'') = Inr (lit ''completed'')"
    using q(1) by (simp add: parse_queue_result_def bind_res_Inr_iff queue_dispatch_iff sample_env_def)
  ultimately show ?thesis by (auto simp: failed_statuses_def lit_def)
qed

section \<open>Results that are refused\<close>

text \<open>
  A submission on its own is always refused: \<open>submit_queue_result\<close> ends the recovery of the row
  while the row is only submitted, and the validation that closes the transaction wants both to be
  terminal.  A first result can only be stored by the operations that finalize it in the same transaction.
\<close>

theorem submission_alone_is_refused:
  assumes "ledger_inv E l" "lookup_by q_dispatch i (queue l) = Some q" "q_raw q = None"
  shows "\<exists>e. queue_transaction E now (Result (Submit_Result i g a token raw)) l = Inl e"
proof (cases "queue_transaction E now (Result (Submit_Result i g a token raw)) l")
  case (Inr p)
  then obtain u l' where t: "queue_transaction E now (Result (Submit_Result i g a token raw)) l = Inr (u, l')" by (cases p) auto
  from assms(1) have inv: "queue_inv E l" by (simp add: ledger_inv_def)
  from t obtain status r where s: "submit_in_transaction E now i g a token raw status l = Inr (r, l')" by (auto simp: transaction_Inr)
  define rec where "rec = (if status \<in> set failed_statuses then Rec_Failed else Rec_Completed)"
  from s inv assms(2,3) have y: "lookup_by q_dispatch i (queue l') = Some (q\<lparr>q_state := Result_Submitted,
      q_raw := Some (raw, sha256 E raw), q_terminal := Some status, q_updated := now\<rparr>)"
    and recs: "recoveries l' = update_where (\<lambda>r. rs_dispatch r = i) (\<lambda>r. r\<lparr>rs_state := rec, rs_next_eligible := None, rs_attention := None\<rparr>)
        (recoveries l)"
    by (rule first_submission; simp add: rec_def)+
  obtain x where x: "lookup_by rs_dispatch i (recoveries l) = Some x" by (rule recovery_row [OF inv assms(2)])
  then have z: "lookup_by rs_dispatch i (recoveries l') = Some (x\<lparr>rs_state := rec, rs_next_eligible := None, rs_attention := None\<rparr>)"
    using lookup_by_in [OF x] by (simp add: recs lookup_update_if)
  have "queue_inv E l'" by (rule transaction_inv [OF t inv])
  with lookup_by_in [OF z] have "check_recovery l' (x\<lparr>rs_state := rec, rs_next_eligible := None, rs_attention := None\<rparr>) = Inr ()"
    using validate_queueD(6) by (auto simp: queue_inv_def validate_rows_iff)
  with y lookup_by_in [OF x] have False by (simp add: check_recovery_def bind_res_Inr_iff rec_def split: if_splits)
  then show ?thesis ..
qed blast

theorem submission_alone_is_refused_witness:
  "\<exists>e. queue_transaction sample_env 10 (Result (Submit_Result (sample_id ''v'') 1 1 (lit ''token'') (lit ''done''))) sample_queue = Inl e"
proof (rule submission_alone_is_refused [OF sample_ledger_inv])
  show "lookup_by q_dispatch (sample_id ''v'') (queue sample_queue) = Some (sample_queue_row ''v'' Running 1)"
    "q_raw (sample_queue_row ''v'' Running 1) = None"
    by (simp_all add: lookup_by_def select_one_def sample_queue_defs sample_id_def lit_def)
qed

section \<open>Enqueueing\<close>

lemma sequence_new: "r \<in> set (queue l) \<Longrightarrow> q_sequence r < next_queue_sequence l"
proof -
  assume r: "r \<in> set (queue l)"
  then have "q_sequence r \<le> Max (set (map q_sequence (queue l)))" by (intro Max_ge) auto
  moreover have "queue l \<noteq> []" using r by auto
  ultimately show ?thesis by (simp add: next_queue_sequence_def)
qed

lemma inserted:
  assumes "insert_queue E a d t deadline l = Inr (q, l')"
  shows "q = new_queue_row a d (next_queue_sequence l) t" "queue l' = queue l @ [q]" "dispatches l' = dispatches l"
    "lookup_by q_dispatch (dp_id d) (queue l') = Some q" "same_enqueue E a d q l' = Inr ()"
proof -
  define b where "b = \<lparr>b_dispatch = dp_id d, b_facts = enqueue_binding E a, b_source_thread = eq_source a,
             b_deadline = Some deadline, b_armed = True\<rparr>"
  from assms have q: "q = new_queue_row a d (next_queue_sequence l) t"
    and l': "l' = l\<lparr>queue := queue l @ [q], bindings := bindings l @ [b], recoveries := recoveries l @ [new_recovery_row a (dp_id d)],
      retries := retries l @ [new_retry_row (dp_id d)]\<rparr>"
    and new: "dp_id d \<notin> q_dispatch ` set (queue l)" "dp_id d \<notin> b_dispatch ` set (bindings l)"
      "dp_id d \<notin> rs_dispatch ` set (recoveries l)"
    by (auto simp: insert_queue_def Let_def bind_res_Inr_iff b_def new_queue_row_def)
  from new have none: "lookup_by q_dispatch (dp_id d) (queue l) = None" "lookup_by b_dispatch (dp_id d) (bindings l) = None"
    "lookup_by rs_dispatch (dp_id d) (recoveries l) = None" by (simp_all add: lookup_by_None)
  show "q = new_queue_row a d (next_queue_sequence l) t" "queue l' = queue l @ [q]" "dispatches l' = dispatches l"
    by (simp_all add: l' flip: q)
  show "lookup_by q_dispatch (dp_id d) (queue l') = Some q"
    using none(1) by (simp add: l' lookup_by_append q new_queue_row_def)
  have "lookup_by b_dispatch (dp_id d) (bindings l') = Some b" "lookup_by rs_dispatch (dp_id d) (recoveries l') = Some (new_recovery_row a (dp_id d))"
    using none by (simp_all add: l' lookup_by_append b_def new_recovery_row_def)
  then show "same_enqueue E a d q l' = Inr ()"
    by (simp add: same_enqueue_def q new_queue_row_def b_def new_recovery_row_def bind_res_Inr_iff)
qed

text \<open>
  C10. Enqueueing is idempotent and fair: a dispatch that was enqueued is enqueued again, at any later
  time and with the same arguments, without any change; and a new row goes behind every row of the queue,
  as a first attempt, without a claim, and never while a refresh fence is armed.
\<close>

theorem enqueue_is_idempotent:
  assumes "enqueue_dispatch E now a l = Inr (q, l')"
  shows "enqueue_dispatch E later a l' = Inr (q, l')
    \<and> (l' = l \<or> queue l' = queue l @ [q] \<and> q_state q = Queued \<and> q_attempt q = 1 \<and> q_claim q = None
         \<and> (\<forall>r\<in>set (queue l). q_sequence r < q_sequence q) \<and> \<not> harness_refresh_fenced l)"
proof -
  from assms obtain i d where d: "dispatch_id (eq_dispatch a) = Inr i" "lookup_by dp_id i (dispatches l) = Some d"
    and ok: "check_enqueue E a = Inr ()" "validate_rows E l = Inr ()" "validate_rows E l' = Inr ()"
    and body: "enqueue_in_transaction E now a d l = Inr (q, l')" by (auto simp: enqueue_dispatch_Inr atomically_Inr)
  have again: "enqueue_dispatch E later a l' = Inr (q, l')" if "dispatches l' = dispatches l"
      "lookup_by q_dispatch (dp_id d) (queue l') = Some q" "same_enqueue E a d q l' = Inr ()"
    using that d ok by (auto simp: enqueue_dispatch_Inr atomically_Inr enqueue_in_transaction_def Let_def bind_res_Inr_iff)
  show ?thesis
  proof (cases "lookup_by q_dispatch (dp_id d) (queue l)")
    case (Some q0)
    with body have "l' = l" "q0 = q" "same_enqueue E a d q l = Inr ()"
      by (auto simp: enqueue_in_transaction_def Let_def bind_res_Inr_iff)
    with Some again show ?thesis by simp
  next
    case None
    with body obtain t deadline where ins: "insert_queue E a d t deadline l = Inr (q, l')" and "\<not> harness_refresh_fenced l"
      by (auto simp: enqueue_in_transaction_def Let_def bind_res_Inr_iff)
    note facts = inserted [OF ins]
    have "q_state q = Queued" "q_attempt q = 1" "q_claim q = None" "q_sequence q = next_queue_sequence l"
      by (simp_all add: facts(1) new_queue_row_def)
    with facts(2) \<open>\<not> harness_refresh_fenced l\<close> sequence_new again [OF facts(3-5)] show ?thesis by simp
  qed
qed

definition sample_before :: ledger where
  "sample_before = sample_queue\<lparr>
     queue := [sample_queue_row ''v'' Running 1, sample_queue_row ''x'' Result_Submitted 3],
     bindings := map sample_binding [''v'', ''x''],
     retries := map (\<lambda>role. new_retry_row (lit ''r/a/'' @ lit role @ lit ''/1'')) [''v'', ''x''],
     recoveries := map sample_recovery [''v'', ''x'']\<rparr>"

definition sample_enqueue :: enqueue_args where
  "sample_enqueue = \<lparr>eq_dispatch = sample_id ''w'', eq_backend = lit ''sdk_headless'', eq_facts = (lit ''c'', None, lit ''d''),
     eq_workspace = lit ''/w'', eq_contract = sample_digest, eq_available = None, eq_deadline = None, eq_plan_path = lit ''p'',
     eq_plan = None, eq_projection = None, eq_source = None, eq_mode = INHERIT_NATIVE, eq_profile = Some sample_digest,
     eq_compat = None, eq_permission = None, eq_checkpoint = 900, eq_provider_key = Some (lit ''KEY''), eq_provider_profile = None,
     eq_inspection = 8, eq_continuation = 2, eq_fresh = True, eq_fresh_budget = 1\<rparr>"

definition sample_enqueued :: queue_row where
  "sample_enqueued = new_queue_row sample_enqueue (sample_dispatch ''w'') 4 10"

definition sample_after :: ledger where
  "sample_after = sample_before\<lparr>queue := queue sample_before @ [sample_enqueued],
     bindings := bindings sample_before @ [\<lparr>b_dispatch = sample_id ''w'', b_facts = enqueue_binding sample_env sample_enqueue,
       b_source_thread = None, b_deadline = Some 910, b_armed = True\<rparr>],
     recoveries := recoveries sample_before @ [new_recovery_row sample_enqueue (sample_id ''w'')],
     retries := retries sample_before @ [new_retry_row (sample_id ''w'')]\<rparr>"

lemma sample_enqueue_check: "check_enqueue sample_env sample_enqueue = Inr ()"
  using sample_digest_hex
  by (simp add: check_enqueue_def bind_res_Inr_iff sample_enqueue_def sample_env_def recovery_budgets_ok_def env_key_def
      utf8_strict_def utf8_surrogatepass_def utf8_char_def is_surrogate_def)
    (simp add: sample_digest_def lit_def)

lemma sample_enqueue_body:
  "enqueue_in_transaction sample_env 10 sample_enqueue (sample_dispatch ''w'') sample_before = Inr (sample_enqueued, sample_after)"
proof -
  have "next_queue_sequence sample_before = 4" by (simp add: next_queue_sequence_def sample_before_def sample_queue_row_def)
  moreover have "lookup_by q_dispatch (sample_id ''w'') (queue sample_before) = None" "\<not> harness_refresh_fenced sample_before"
    by (simp_all add: lookup_by_def select_one_def harness_refresh_fenced_def sample_before_def sample_queue_defs sample_id_def lit_def)
  moreover have "sample_id ''w'' \<notin> q_dispatch ` set (queue sample_before)" "sample_id ''w'' \<notin> b_dispatch ` set (bindings sample_before)"
    "sample_id ''w'' \<notin> rs_dispatch ` set (recoveries sample_before)" "sample_id ''w'' \<notin> rp_dispatch ` set (retries sample_before)"
    "4 \<notin> q_sequence ` set (queue sample_before)" "sample_id ''w'' \<in> dp_id ` set (dispatches sample_before)"
    by (simp_all add: sample_before_def sample_queue_defs sample_id_def lit_def)
  moreover have "dp_id (sample_dispatch ''w'') = sample_id ''w''" by (simp add: sample_dispatch_def sample_id_def)
  ultimately show ?thesis
    by (simp add: enqueue_in_transaction_def insert_queue_def bind_res_Inr_iff Let_def new_queue_row_def
        sample_enqueued_def sample_after_def)
      (simp add: sample_enqueue_def sample_dispatch_def lit_def)
qed

lemma sample_enqueue_valid: "validate_rows sample_env sample_before = Inr ()" "validate_rows sample_env sample_after = Inr ()"
proof -
  show "validate_rows sample_env sample_before = Inr ()"
    by (rule sample_valid) (simp_all add: sample_before_def workflow_part_def, simp add: sample_check_defs sample_queue_defs lit_def)
  show "validate_rows sample_env sample_after = Inr ()"
    by (rule sample_valid)
      (simp add: sample_after_def sample_before_def workflow_part_def,
       simp add: sample_after_def sample_before_def sample_check_defs sample_queue_defs sample_enqueued_def new_queue_row_def
         sample_enqueue_def new_recovery_row_def sample_id_def lit_def)
qed

theorem enqueue_is_idempotent_witness:
  "enqueue_dispatch sample_env 99 sample_enqueue sample_after = Inr (sample_enqueued, sample_after)
   \<and> q_sequence (sample_queue_row ''x'' Result_Submitted 3) < q_sequence sample_enqueued"
proof -
  have "dispatch_id (eq_dispatch sample_enqueue) = Inr (sample_id ''w'')"
    by (simp add: sample_enqueue_def sample_one generation_of_int_def validated_identifier_def id_pattern_def ascii_alnum_def
        dispatch_id_def dispatch_parts_of_def sample_id_def lit_def slash_def)
  moreover have "lookup_by dp_id (sample_id ''w'') (dispatches sample_before) = Some (sample_dispatch ''w'')"
    by (simp add: lookup_by_def select_one_def sample_before_def sample_queue_defs sample_id_def lit_def)
  ultimately have "enqueue_dispatch sample_env 10 sample_enqueue sample_before = Inr (sample_enqueued, sample_after)"
    using sample_enqueue_check sample_enqueue_body sample_enqueue_valid by (auto simp: enqueue_dispatch_Inr atomically_Inr)
  moreover have "length (queue sample_after) \<noteq> length (queue sample_before)" by (simp add: sample_after_def)
  then have "sample_after \<noteq> sample_before" by metis
  moreover have "sample_queue_row ''x'' Result_Submitted 3 \<in> set (queue sample_before)" by (simp add: sample_before_def)
  ultimately show ?thesis using enqueue_is_idempotent [of sample_env 10 sample_enqueue sample_before sample_enqueued sample_after 99]
    by blast
qed

end
