(* ===== verification/Recovery_Guarantees.thy ===== *)
theory Recovery_Guarantees
  imports Delivery_Guarantees
begin

text \<open>
  Where recovery gets stuck: an exit that is refused while its row waits for a human, and a checkpoint that
  holds up those behind it.
\<close>

section \<open>Exits of rows that wait for a human\<close>

lemma widen_rows:
  "queue (widen_budgets f i r l) = queue l"
  "map_option rs_state (lookup_by rs_dispatch j (recoveries (widen_budgets f i r l))) = map_option rs_state (lookup_by rs_dispatch j (recoveries l))"
  by (cases f; simp add: widen_budgets_def lookup_update_keeps)+

lemma exit_retry_rows:
  assumes "f \<noteq> PRE_IDENTITY_TRANSPORT" "st \<noteq> Queued"
  shows "queue (exit_retry now i st f strat thread r due l) = queue l"
    "map_option rs_state (lookup_by rs_dispatch j (recoveries (exit_retry now i st f strat thread r due l)))
       = map_option rs_state (lookup_by rs_dispatch j (recoveries l))"
  using assms by (simp_all add: exit_retry_def Let_def widen_rows) (simp_all add: update_retry_def)

text \<open>
  C22. The exit of a worker whose row already waits for a human is refused under two conditions: an
  inspection is left, and the exit stands for a failure that may still be retried, other than one before
  the thread had its identity (that one is recorded and requeues the row).  The recovery state is then set to inspection
  while the queue row stays where it is, and the validation that closes the transaction wants both to
  agree, so the request raises and the worker lease stays open in the ledger.
\<close>

theorem attended_exits_are_refused:
  assumes "ledger_inv E l" "lookup_by q_dispatch i (queue l) = Some q" "q_state q = Human_Attention"
    and "lookup_by l_dispatch i (liveness l) = Some w" "l_exited w = None"
    and "lookup_by rs_dispatch i (recoveries l) = Some r" "fst (rs_inspection r) < snd (rs_inspection r)"
    and "lookup_by rp_dispatch i (retries l) = Some p" "exit_failure cl code = Some f" "retry_allowed f p" "f \<noteq> PRE_IDENTITY_TRANSPORT"
  shows "\<exists>e. queue_transaction E now (Recovery (Worker_Exit i pid birth code cl)) l = Inl e"
proof (cases "queue_transaction E now (Recovery (Worker_Exit i pid birth code cl)) l")
  case (Inr x)
  then obtain u l' where t: "queue_transaction E now (Recovery (Worker_Exit i pid birth code cl)) l = Inr (u, l')" by (cases x) auto
  then obtain y where m: "mark_worker_exit E now i pid birth code cl l = Inr (y, l')" by (auto simp: transaction_Inr)
  obtain label thread amb where policy: "apply_exit_retry_policy E now i Human_Attention f thread amb
      (arm_inspection now i label code (cl = Some (lit ''transient-after-identity'') \<or> code = Some 79) r (record_exit now i l)) = Inr l'"
    using m assms(2-6,9) by (auto simp: mark_worker_exit_def bind_res_Inr_iff Let_def)
  define l1 where "l1 = arm_inspection now i label code (cl = Some (lit ''transient-after-identity'') \<or> code = Some 79) r (record_exit now i l)"
  have ids: "q_dispatch q = i" "rs_dispatch r = i" using lookup_by_in [OF assms(2)] lookup_by_in [OF assms(6)] by simp_all
  have q1: "lookup_by q_dispatch i (queue l1) = Some q"
    using assms(2,3,7) by (simp add: l1_def arm_inspection_def Let_def record_exit_def update_recovery_def lookup_update_if)
  have r1: "map_option rs_state (lookup_by rs_dispatch i (recoveries l1)) = Some Rec_Inspection"
    using assms(6,7) ids by (simp add: l1_def arm_inspection_def Let_def record_exit_def update_recovery_def lookup_update_if)
  have p1: "lookup_by rp_dispatch i (retries l1) = Some p"
    using assms(7,8) by (simp add: l1_def arm_inspection_def Let_def record_exit_def update_recovery_def)
  from policy assms(10) p1 obtain strat due where "l' = exit_retry now i Human_Attention f strat thread p due l1"
    unfolding l1_def [symmetric] by (auto simp: apply_exit_retry_policy_def retry_allowed_def bind_res_Inr_iff)
  with exit_retry_rows [OF assms(11)] q1 r1
  have q': "lookup_by q_dispatch i (queue l') = Some q" and r': "map_option rs_state (lookup_by rs_dispatch i (recoveries l')) = Some Rec_Inspection"
    by simp_all
  from r' obtain z where z: "lookup_by rs_dispatch i (recoveries l') = Some z" "rs_state z = Rec_Inspection" by auto
  from assms(1) have "queue_inv E l" by (simp add: ledger_inv_def)
  from transaction_inv [OF t this] lookup_by_in [OF z(1)] have "check_recovery l' z = Inr ()"
    using validate_queueD(6) by (auto simp: queue_inv_def validate_rows_iff)
  with z q' assms(3) lookup_by_in [OF z(1)] have False by (simp add: check_recovery_def bind_res_Inr_iff)
  then show ?thesis ..
qed blast

definition sample_attended_row :: queue_row where
  "sample_attended_row = (sample_queue_row ''v'' Running 1)\<lparr>q_state := Human_Attention\<rparr>"

definition sample_attended_recovery :: recovery_row where
  "sample_attended_recovery = (sample_recovery ''v'')\<lparr>rs_state := Rec_Attention, rs_attention := Some (lit ''help'')\<rparr>"

definition sample_worker :: liveness_row where
  "sample_worker = \<lparr>l_dispatch = sample_id ''v'', l_generation = 1, l_attempt = 1, l_pid = 9, l_birth = lit ''b'', l_token = sample_digest,
     l_expires = 500, l_seen = 0, l_exited = None\<rparr>"

definition sample_attended :: ledger where
  "sample_attended = sample_queue\<lparr>
     queue := [sample_attended_row, sample_queue_row ''w'' Queued 2, sample_queue_row ''x'' Result_Submitted 3],
     liveness := [sample_worker], recoveries := [sample_attended_recovery, sample_recovery ''w'', sample_recovery ''x'']\<rparr>"

lemma sample_attended_inv: "ledger_inv sample_env sample_attended"
proof -
  have part: "workflow_part sample_attended = workflow_part sample_queue" by (simp add: sample_attended_def workflow_part_def)
  have "validate_queue sample_env sample_attended = Inr ()"
    by (simp add: sample_check_defs sample_queue_defs sample_attended_def sample_attended_row_def sample_attended_recovery_def
        sample_worker_def sample_id_def lit_def)
  from sample_valid [OF part this] have ok: "validate_rows sample_env sample_attended = Inr ()" .
  from workflow_part_inv [OF part sample_workflow] ok have "machine_inv sample_attended" by (simp add: validate_rows_iff)
  moreover have "distinct (map q_dispatch (queue sample_attended))"
    by (simp add: sample_attended_def sample_attended_row_def sample_queue_row_def lit_def)
  moreover have "raw_backed sample_attended"
    by (simp add: raw_backed_def backed_def sample_attended_def sample_attended_row_def sample_queue_defs is_capability_def lit_def)
  ultimately show ?thesis using ok by (simp add: ledger_inv_def queue_inv_def)
qed

theorem attended_exits_are_refused_witness:
  "\<exists>e. queue_transaction sample_env 10 (Recovery (Worker_Exit (sample_id ''v'') 9 (lit ''b'') (Some 75) None)) sample_attended = Inl e"
proof (rule attended_exits_are_refused [OF sample_attended_inv])
  show "lookup_by q_dispatch (sample_id ''v'') (queue sample_attended) = Some sample_attended_row"
    "lookup_by l_dispatch (sample_id ''v'') (liveness sample_attended) = Some sample_worker"
    "lookup_by rs_dispatch (sample_id ''v'') (recoveries sample_attended) = Some sample_attended_recovery"
    "lookup_by rp_dispatch (sample_id ''v'') (retries sample_attended) = Some (new_retry_row (sample_id ''v''))"
    by (simp_all add: lookup_by_def select_one_def sample_attended_def sample_attended_row_def sample_attended_recovery_def
        sample_worker_def sample_queue_defs sample_id_def lit_def)
  show "q_state sample_attended_row = Human_Attention" "l_exited sample_worker = None"
    "fst (rs_inspection sample_attended_recovery) < snd (rs_inspection sample_attended_recovery)"
    by (simp_all add: sample_attended_row_def sample_worker_def sample_attended_recovery_def sample_recovery_def)
  show "exit_failure None (Some 75) = Some INVALID_RESPONSE_CHAIN" by (simp add: exit_failure_def exit_codes_def)
  show "retry_allowed INVALID_RESPONSE_CHAIN (new_retry_row (sample_id ''v''))" by (simp add: retry_allowed_def new_retry_row_def)
qed simp

section \<open>A checkpoint without cycles left\<close>

definition armed_rows :: "ledger \<Rightarrow> (queue_row \<times> binding_row) list" where
  "armed_rows l = sort_key (\<lambda>(q, b). (case b_deadline b of None \<Rightarrow> 0 | Some t \<Rightarrow> t, q_sequence q))
     [(q, b). q \<leftarrow> queue l, b \<leftarrow> bindings l, b_dispatch b = q_dispatch q \<and> q_state q \<in> set checkpoint_states
        \<and> b_armed b \<and> b_deadline b \<noteq> None]"

definition due_at :: "time \<Rightarrow> queue_row \<times> binding_row \<Rightarrow> bool" where
  "due_at t p \<longleftrightarrow> (case b_deadline (snd p) of None \<Rightarrow> False | Some u \<Rightarrow> u \<le> t)"

lemma due_filter: "due_checkpoints l t = filter (due_at t) (armed_rows l)"
proof -
  have "filter (due_at t) [(q, b). q \<leftarrow> queue l, b \<leftarrow> bindings l, b_dispatch b = q_dispatch q \<and> q_state q \<in> set checkpoint_states
        \<and> b_armed b \<and> b_deadline b \<noteq> None]
      = [(q, b). q \<leftarrow> queue l, b \<leftarrow> bindings l, b_dispatch b = q_dispatch q \<and> q_state q \<in> set checkpoint_states
        \<and> b_armed b \<and> (case b_deadline b of None \<Rightarrow> False | Some u \<Rightarrow> u \<le> t)]"
    by (simp add: filter_concat comp_def if_distrib)
      (intro arg_cong [where f = concat] map_cong refl; auto simp: due_at_def split: option.splits)
  then show ?thesis by (simp add: due_checkpoints_def armed_rows_def filter_sort)
qed

lemma due_head:
  assumes "due_checkpoints l t = p # ps" "t \<le> t'"
  obtains ps' where "due_checkpoints l t' = p # ps'"
proof (cases "armed_rows l")
  case Nil
  with assms(1) show thesis by (simp add: due_filter)
next
  case (Cons x xs)
  let ?k = "\<lambda>p. case b_deadline (snd p) of None \<Rightarrow> 0 | Some u \<Rightarrow> u"
  have armed: "b_deadline (snd y) \<noteq> None" if "y \<in> set (armed_rows l)" for y
    using that by (auto simp: armed_rows_def)
  have "p \<in> set (armed_rows l)" "due_at t p" using assms(1) unfolding due_filter by (auto simp: filter_eq_Cons_iff)
  moreover have "?k x \<le> ?k p" if "p \<in> set (armed_rows l)"
  proof -
    have "sorted (map (\<lambda>(q, b). (case b_deadline b of None \<Rightarrow> 0 | Some t \<Rightarrow> t, q_sequence q)) (armed_rows l))"
      unfolding armed_rows_def by (rule sorted_sort_key)
    with Cons that have "p = x \<or> (\<lambda>(q, b). (case b_deadline b of None \<Rightarrow> 0 | Some t \<Rightarrow> t, q_sequence q)) x
        \<le> (\<lambda>(q, b). (case b_deadline b of None \<Rightarrow> 0 | Some t \<Rightarrow> t, q_sequence q)) p" by auto
    then show ?thesis by (auto simp: less_eq_prod_def split: prod.splits)
  qed
  moreover have "x \<in> set (armed_rows l)" using Cons by simp
  ultimately have "due_at t x" using armed [of x] armed [of p] by (auto simp: due_at_def)
  with assms Cons have "x = p" unfolding due_filter by simp
  moreover from \<open>due_at t x\<close> assms(2) have "due_at t' x" by (auto simp: due_at_def split: option.splits)
  ultimately show thesis using that Cons unfolding due_filter by simp
qed

text \<open>What a successful claim of a checkpoint did.\<close>

lemma claimed_checkpoint:
  assumes "claim_due_checkpoint now epoch current l = Inr (x, l')"
  shows "l' = l \<and> due_checkpoints l current = []
    \<or> (\<exists>q b rest w. due_checkpoints l current = (q, b) # rest \<and> last_cycle l (q_dispatch q) < 64
         \<and> wakes l' = wakes l @ [w] \<and> w_dispatch w = q_dispatch q)"
proof (cases "due_checkpoints l current")
  case Nil
  with assms show ?thesis by (simp add: claim_due_checkpoint_def bind_res_Inr_iff)
next
  case (Cons p rest)
  obtain q b where p: "p = (q, b)" by (cases p)
  with Cons assms obtain delivery d t n l1 where "last_cycle l (q_dispatch q) + 1 \<le> 64"
    and d: "ensure_controller_decision (q_dispatch q) Checkpoint n None (b_source_thread b) t
        (if b_source_thread b = None then Wake_Not_Applicable else Wake_Pending) (q_state q) (disarm (q_dispatch q) l) = Inr (d, l1)"
    and w: "insert_wake (new_wake delivery (q_dispatch q) d Checkpoint n (b_source_thread b)) l1 = Inr l'"
    by (auto simp: claim_due_checkpoint_def bind_res_Inr_iff Let_def)
  moreover from w ensure_wakes [OF d]
  have "wakes l' = wakes l @ [new_wake delivery (q_dispatch q) d Checkpoint n (b_source_thread b)]"
    by (auto simp: insert_wake_def bind_res_Inr_iff)
  ultimately show ?thesis using Cons p by (force simp: new_wake_def)
qed

lemma due_head_least:
  assumes "due_checkpoints l t = (q', b') # rest" "(q, b) \<in> set (due_checkpoints l t)"
  shows "\<exists>d d'. b_deadline b = Some d \<and> b_deadline b' = Some d' \<and> (d', q_sequence q') \<le> (d, q_sequence q)"
proof -
  let ?k = "\<lambda>(q, b). (case b_deadline b of None \<Rightarrow> 0 | Some t \<Rightarrow> t, q_sequence q)"
  have armed: "b_deadline (snd y) \<noteq> None" if "y \<in> set (due_checkpoints l t)" for y
    using that by (auto simp: due_checkpoints_def split: option.splits)
  have "sorted (map ?k (due_checkpoints l t))" unfolding due_checkpoints_def by (rule sorted_sort_key)
  with assms have "?k (q', b') \<le> ?k (q, b)" by (auto simp: order.refl)
  moreover have "(q', b') \<in> set (due_checkpoints l t)" using assms(1) by simp
  ultimately show ?thesis using armed [OF assms(2)] armed [of "(q', b')"] by auto
qed

text \<open>
  C19. A dispatch without cycles left holds up the checkpoints behind it: as long as a row that has used its
  64 cycles is armed, due and in a state with checkpoints, a claim of a checkpoint inserts a wake only for a
  row with cycles left whose deadline is earlier, or the same with an earlier place in the queue; it never gets past the spent row.  And once
  the spent row is the one due first, every claim at that time or later raises the same error under a
  live lease and leaves the ledger as it is: the code disarms the row before it raises, but the exception rolls this back.
\<close>

theorem spent_checkpoint_blocks_later:
  assumes "ledger_inv E l" "q \<in> set (queue l)" "b \<in> set (bindings l)" "b_dispatch b = q_dispatch q" "q_state q \<in> set checkpoint_states"
    and "b_armed b" "b_deadline b = Some d" "d \<le> current" "64 \<le> last_cycle l (q_dispatch q)"
  shows "(\<forall>now epoch l'. queue_transaction E now (Recovery (Claim_Checkpoint epoch current)) l = Inr ((), l') \<longrightarrow>
      (\<exists>q' b' d' w. q' \<in> set (queue l) \<and> b' \<in> set (bindings l) \<and> b_dispatch b' = q_dispatch q' \<and> b_armed b' \<and> b_deadline b' = Some d'
         \<and> (d' < d \<or> d' = d \<and> q_sequence q' \<le> q_sequence q) \<and> last_cycle l (q_dispatch q') < 64
         \<and> wakes l' = wakes l @ [w] \<and> w_dispatch w = q_dispatch q'))
    \<and> (fst (hd (due_checkpoints l current)) = q \<longrightarrow> (\<forall>now epoch later. current \<le> later \<and> live_harness l epoch now \<longrightarrow>
         queue_transaction E now (Recovery (Claim_Checkpoint epoch later)) l = Inl (stale ''checkpoint cycle budget exhausted'')
         \<and> ledger_step E l (now, Inr (Recovery (Claim_Checkpoint epoch later))) = l))"
proof (intro conjI allI impI)
  have due: "(q, b) \<in> set (due_checkpoints l current)" using assms(2-8) by (auto simp: due_checkpoints_def)
  fix now epoch l'
  assume "queue_transaction E now (Recovery (Claim_Checkpoint epoch current)) l = Inr ((), l')"
  then obtain x where "claim_due_checkpoint now epoch current l = Inr (x, l')" by (auto simp: transaction_Inr)
  from claimed_checkpoint [OF this] due obtain q' b' rest w where h: "due_checkpoints l current = (q', b') # rest"
      "last_cycle l (q_dispatch q') < 64" "wakes l' = wakes l @ [w]" "w_dispatch w = q_dispatch q'" by auto
  have "(q', b') \<in> set (due_checkpoints l current)" using h(1) by simp
  then have "q' \<in> set (queue l)" "b' \<in> set (bindings l)" "b_dispatch b' = q_dispatch q'" "b_armed b'"
    by (auto simp: due_checkpoints_def)
  moreover from due_head_least [OF h(1) due] assms(7) obtain d' where "b_deadline b' = Some d'"
      "d' < d \<or> d' = d \<and> q_sequence q' \<le> q_sequence q" by (fastforce simp: less_eq_prod_def)
  ultimately show "\<exists>q' b' d' w. q' \<in> set (queue l) \<and> b' \<in> set (bindings l) \<and> b_dispatch b' = q_dispatch q' \<and> b_armed b' \<and> b_deadline b' = Some d'
         \<and> (d' < d \<or> d' = d \<and> q_sequence q' \<le> q_sequence q) \<and> last_cycle l (q_dispatch q') < 64
         \<and> wakes l' = wakes l @ [w] \<and> w_dispatch w = q_dispatch q'" using h(2-4) by blast
next
  have due: "(q, b) \<in> set (due_checkpoints l current)" using assms(2-8) by (auto simp: due_checkpoints_def)
  fix now epoch later
  assume first: "fst (hd (due_checkpoints l current)) = q" and later: "current \<le> later \<and> live_harness l epoch now"
  from due first obtain c rest where "due_checkpoints l current = (q, c) # rest" by (cases "due_checkpoints l current") auto
  from due_head [OF this] later obtain ps where "due_checkpoints l later = (q, c) # ps" by blast
  with assms(9) later have "claim_due_checkpoint now epoch later l = Inl (stale ''checkpoint cycle budget exhausted'')"
    by (simp add: claim_due_checkpoint_def require_live_harness_def)
  moreover have "validate_rows E l = Inr ()" using assms(1) by (simp add: ledger_inv_def queue_inv_def)
  ultimately show raised: "queue_transaction E now (Recovery (Claim_Checkpoint epoch later)) l = Inl (stale ''checkpoint cycle budget exhausted'')"
    by (simp add: committing_def forget_def atomically_def)
  then show "ledger_step E l (now, Inr (Recovery (Claim_Checkpoint epoch later))) = l"
    by (simp add: ledger_step_def after_op_def request_def)
qed

text \<open>
  A valid ledger in that situation: the running row of the sample has had 64 checkpoints, all
  acknowledged, and its checkpoint is armed again; the checkpoint of the row with the submitted result is due at the same time.
\<close>

definition spent_name :: "nat \<Rightarrow> pystr" where
  "spent_name n = lit ''wake/'' @ sample_id ''v'' @ lit ''/checkpoint'' @ (if n = 1 then [] else lit ''/'' @ nat_digits n)"

definition spent_wake :: "nat \<Rightarrow> wake_row" where
  "spent_wake n = \<lparr>w_delivery = spent_name n, w_dispatch = sample_id ''v'', w_decision = decision_id_of (spent_name n),
     w_kind = Checkpoint, w_cycle = int n, w_source_thread = Some (lit ''t''), w_state = Wake_Delivered, w_attempts = 1,
     w_source_turn = Some (lit ''u'')\<rparr>"

definition spent_decision :: "nat \<Rightarrow> decision_row" where
  "spent_decision n = \<lparr>d_id = decision_id_of (spent_name n), d_dispatch = sample_id ''v'', d_kind = Checkpoint, d_cycle = int n,
     d_state = Acknowledged, d_revision = 3, d_deadline = 300000010, d_generation = 1, d_action = Some (lit ''continue''),
     d_claimant = Some (lit ''h'', lit ''t'', lit ''u''), d_claim_expires = None, d_attention = None, d_superseded = None\<rparr>"

definition sample_spent :: ledger where
  "sample_spent = sample_queue\<lparr>wakes := map spent_wake [1..<65], decisions := map spent_decision [1..<65]\<rparr>"

lemma spent_name_inj: "spent_name m = spent_name n \<Longrightarrow> m = n"
proof -
  assume same: "spent_name m = spent_name n"
  then have "m = 1 \<longleftrightarrow> n = 1" by (auto simp: spent_name_def lit_def split: if_splits)
  moreover have "nat_digits m = nat_digits n" if "m \<noteq> 1" "n \<noteq> 1" using same that by (simp add: spent_name_def)
  ultimately show ?thesis by (metis digits_value_nat_digits)
qed

lemma spent_wake_name: "n \<le> 64 \<Longrightarrow> wake_delivery_id (sample_id ''v'') Checkpoint (int n) = Inr (spent_name n)"
  using int_repr_limit_large [of "int n"]
  by (auto simp: wake_delivery_id_def spent_name_def py_int_repr_def int_str_def lit_def)

lemma spent_wake_found:
  assumes "n \<in> set ns"
  shows "lookup_by w_decision (decision_id_of (spent_name n)) (map spent_wake ns) = Some (spent_wake n)"
  using assms by (induction ns) (auto simp: lookup_by_def select_one_def spent_wake_def decision_id_of_def dest: spent_name_inj)

lemma spent_decision_found:
  assumes "n \<in> set ns"
  shows "lookup_by d_id (decision_id_of (spent_name n)) (map spent_decision ns) = Some (spent_decision n)"
  using assms by (induction ns) (auto simp: lookup_by_def select_one_def spent_decision_def decision_id_of_def dest: spent_name_inj)

lemma sample_spent_inv: "ledger_inv sample_env sample_spent"
proof -
  let ?l = sample_spent
  have part: "workflow_part ?l = workflow_part sample_queue" by (simp add: sample_spent_def workflow_part_def)
  have bound: "lookup_by b_dispatch (sample_id ''v'') (bindings ?l) = Some (sample_binding ''v'')" "sample_id ''v'' \<in> q_dispatch ` set (queue ?l)"
    by (simp_all add: lookup_by_def select_one_def sample_spent_def sample_queue_defs sample_id_def lit_def)
  have "check_wake ?l (spent_wake n) = Inr ()" if n: "n \<in> set [1..<65]" for n
  proof -
    have "lookup_by d_id (decision_id_of (spent_name n)) (decisions ?l) = Some (spent_decision n)"
      unfolding sample_spent_def using spent_decision_found [OF n] by simp
    with bound spent_wake_name [of n] n show ?thesis
      by (simp add: check_wake_def spent_wake_def bind_res_Inr_iff) (simp add: spent_decision_def sample_binding_def)
  qed
  moreover have "check_decision ?l (spent_decision n) = Inr ()" if n: "n \<in> set [1..<65]" for n
  proof -
    have "lookup_by w_decision (decision_id_of (spent_name n)) (wakes ?l) = Some (spent_wake n)"
      unfolding sample_spent_def using spent_wake_found [OF n] by simp
    with n show ?thesis
      by (simp add: check_decision_def spent_decision_def bind_res_Inr_iff) (simp add: spent_wake_def)
  qed
  moreover have "check_wakes_of ?l q = Inr ()" if "q \<in> set (queue ?l)" for q
  proof (cases "q_dispatch q = sample_id ''v''")
    case True
    have ws: "filter (\<lambda>w. w_dispatch w = q_dispatch q) (wakes ?l) = map spent_wake [1..<65]"
      by (simp add: True sample_spent_def filter_map comp_def spent_wake_def)
    have cs: "map w_cycle (filter (\<lambda>w. w_kind w = Checkpoint) (map spent_wake [1..<65])) = map int [1..<65]"
      by (simp add: filter_map comp_def spent_wake_def del: upt_Suc upt_rec_numeral)
    have ts: "filter (\<lambda>w. w_kind w = Terminal) (map spent_wake [1..<65]) = []"
      by (simp add: filter_map comp_def spent_wake_def del: upt_Suc upt_rec_numeral)
    have running: "q_state q = Running"
      using that True by (auto simp: sample_spent_def sample_queue_defs sample_id_def lit_def)
    have "sort (map int [1..<65]) = map int [1..<65]" by (rule sorted_sort_id) (simp add: sorted_map del: upt_Suc upt_rec_numeral)
    then show ?thesis unfolding check_wakes_of_def ws cs ts Let_def by (simp add: running distinct_map del: upt_Suc upt_rec_numeral)
  next
    case False
    then have "filter (\<lambda>w. w_dispatch w = q_dispatch q) (wakes ?l) = []"
      by (simp add: sample_spent_def filter_empty_conv spent_wake_def)
    moreover have "q_state q \<notin> {Queue_Completed, Queue_Failed}"
      using that by (auto simp: sample_spent_def sample_queue_defs)
    ultimately show ?thesis by (simp add: check_wakes_of_def)
  qed
  moreover have "check_capture ?l = check_capture sample_queue" "check_queue_identity sample_env ?l = check_queue_identity sample_env sample_queue"
    "check_capability ?l = check_capability sample_queue" "check_queue_row ?l = check_queue_row sample_queue"
    "check_liveness ?l = check_liveness sample_queue" "check_successor ?l = check_successor sample_queue"
    "check_recovery ?l = check_recovery sample_queue"
    by (rule ext; simp add: sample_spent_def check_capture_def control_repair_def check_queue_identity_def check_capability_def check_queue_row_def
        check_successor_out_def check_liveness_def check_successor_def check_recovery_def cong: option.case_cong outbox_outcome.case_cong)+
  moreover have "wakes ?l = map spent_wake [1..<65]" "decisions ?l = map spent_decision [1..<65]" by (simp_all add: sample_spent_def)
  moreover have "queue ?l = queue sample_queue" "capabilities ?l = capabilities sample_queue" "bindings ?l = bindings sample_queue"
    "captures ?l = captures sample_queue" "notifications ?l = notifications sample_queue" "liveness ?l = liveness sample_queue"
    "successors ?l = successors sample_queue" "recoveries ?l = recoveries sample_queue" "retries ?l = retries sample_queue"
    by (simp_all add: sample_spent_def)
  ultimately have "validate_queue sample_env ?l = Inr ()"
    using sample_rows by (simp add: validate_queue_def bind_res_Inr_iff each_res_Inr)
  from sample_valid [OF part this] have ok: "validate_rows sample_env ?l = Inr ()" .
  from workflow_part_inv [OF part sample_workflow] ok have "machine_inv ?l" by (simp add: validate_rows_iff)
  moreover from sample_ledger_inv have "distinct (map q_dispatch (queue ?l))" "raw_backed ?l"
    by (simp_all add: ledger_inv_def queue_inv_def sample_spent_def raw_backed_def backed_def)
  ultimately show ?thesis using ok by (simp add: ledger_inv_def queue_inv_def)
qed

theorem spent_checkpoint_blocks_later_witness:
  "queue_transaction sample_env 10 (Recovery (Claim_Checkpoint 3 1000)) sample_spent = Inl (stale ''checkpoint cycle budget exhausted'')
   \<and> sample_queue_row ''x'' Result_Submitted 3 \<in> fst ` set (due_checkpoints sample_spent 1000)
   \<and> last_cycle sample_spent (sample_id ''x'') = 0 \<and> ledger_inv sample_env sample_spent"
proof -
  let ?q = "sample_queue_row ''v'' Running 1"
  have rows: "?q \<in> set (queue sample_spent)" "sample_binding ''v'' \<in> set (bindings sample_spent)"
    "b_dispatch (sample_binding ''v'') = q_dispatch ?q" "q_state ?q \<in> set checkpoint_states" "b_armed (sample_binding ''v'')"
    "b_deadline (sample_binding ''v'') = Some 900"
    by (simp_all add: sample_spent_def sample_queue_def checkpoint_states_def) (simp_all add: sample_queue_row_def sample_binding_def)
  have due: "due_checkpoints sample_spent 1000 = [(?q, sample_binding ''v''), (sample_queue_row ''x'' Result_Submitted 3, sample_binding ''x'')]"
    by (simp add: due_checkpoints_def sample_spent_def sample_queue_def sample_queue_row_def sample_binding_def checkpoint_states_def lit_def)
  have "fold max (map int [1..<Suc n]) 0 = int n" for n by (induction n) simp_all
  from this [of 64] have "fold max (map int [1..<65]) 0 = 64" by simp
  moreover have "map w_cycle (filter (\<lambda>w. w_dispatch w = q_dispatch ?q \<and> w_kind w = Checkpoint) (wakes sample_spent)) = map int [1..<65]"
    by (simp add: sample_spent_def filter_map comp_def spent_wake_def sample_queue_row_def sample_id_def del: upt_Suc upt_rec_numeral)
  ultimately have spent: "64 \<le> last_cycle sample_spent (q_dispatch ?q)" by (simp add: last_cycle_def)
  have "live_harness sample_spent 3 10" by (simp add: live_harness_def sample_spent_def sample_queue_def sample_harness_def)
  with spent_checkpoint_blocks_later [OF sample_spent_inv rows _ spent, of 1000] due
  have "queue_transaction sample_env 10 (Recovery (Claim_Checkpoint 3 1000)) sample_spent = Inl (stale ''checkpoint cycle budget exhausted'')"
    by simp
  moreover have "last_cycle sample_spent (sample_id ''x'') = 0"
    by (simp add: last_cycle_def sample_spent_def filter_map comp_def spent_wake_def sample_id_def lit_def del: upt_Suc upt_rec_numeral)
  ultimately show ?thesis using due sample_spent_inv by simp
qed

end
