(* ===== verification/Fence_Guarantees.thy ===== *)
theory Fence_Guarantees
  imports Ledger_Guarantees
begin

text \<open>
  What an armed refresh fence stops and what it lets through: which requests can make a row run that was
  not running, and that a recovery continuation is one of them even under the fence.
\<close>

section \<open>Launches\<close>

definition launched :: "pystr \<Rightarrow> ledger \<Rightarrow> bool" where
  "launched i l \<longleftrightarrow> (\<exists>q\<in>set (queue l). q_dispatch q = i \<and> q_state q \<in> {Claimed, Starting, Running})"

definition no_launch :: "ledger \<Rightarrow> ledger \<Rightarrow> bool" where
  "no_launch l l' \<longleftrightarrow> (\<forall>i. launched i l' \<longrightarrow> launched i l)"

lemma no_launch_trans: "no_launch l l1 \<Longrightarrow> no_launch l1 l2 \<Longrightarrow> no_launch l l2"
  by (simp add: no_launch_def)

lemma no_launch_same: "queue l' = queue l \<Longrightarrow> no_launch l l'"
  by (simp add: no_launch_def launched_def)

lemma no_launch_part: "law_part l' = law_part l \<Longrightarrow> no_launch l l'"
  by (rule no_launch_same) (simp add: law_part_iff)

lemma no_launch_update:
  assumes "queue l' = update_where P f (queue l)" "\<And>q. q_dispatch (f q) = q_dispatch q"
    and "\<And>q. P q \<Longrightarrow> q_state (f q) \<in> {Claimed, Starting, Running} \<Longrightarrow> q_state q \<in> {Claimed, Starting, Running}"
  shows "no_launch l l'"
  unfolding no_launch_def
proof (intro allI impI)
  fix i assume "launched i l'"
  then obtain q where "q \<in> set (queue l)" "q_dispatch (if P q then f q else q) = i"
    "q_state (if P q then f q else q) \<in> {Claimed, Starting, Running}"
    unfolding launched_def assms(1) update_where_def by auto
  with assms(2) [of q] assms(3) [of q] show "launched i l" unfolding launched_def by (auto split: if_splits)
qed

lemma no_launch_rest: "queue l' = update_where P (\<lambda>q. q\<lparr>q_state := st, q_updated := t\<rparr>) (queue l) \<Longrightarrow> st \<notin> {Claimed, Starting, Running} \<Longrightarrow>
    no_launch l l'"
  by (erule no_launch_update) simp_all

section \<open>The harness and the attempts of a row\<close>

lemma harness_queue:
  "acquire_harness now pid birth digest version nonce lease l = Inr (h, l') \<Longrightarrow> queue l' = queue l"
  "renew_harness now epoch nonce lease l = Inr (h, l') \<Longrightarrow> queue l' = queue l"
  "request_harness_shutdown epoch nonce l = Inr (h, l') \<Longrightarrow> queue l' = queue l"
  "arm_harness_refresh_fence now l = Inr (ho, l') \<Longrightarrow> queue l' = queue l"
  by (auto simp: acquire_harness_def renew_harness_def request_harness_shutdown_def arm_harness_refresh_fence_def
      bind_res_Inr_iff Let_def)

lemma issue_queue:
  "issue_attempt_capability now i g a schema ws backend token req lease l = Inr (c, l') \<Longrightarrow> queue l' = queue l"
  "renew_worker_liveness E now i g a token lease eo l = Inr (w, l') \<Longrightarrow> queue l' = queue l"
  "authorize_successor now s t l = Inr (x, l') \<Longrightarrow> queue l' = queue l"
  by (auto simp: issue_attempt_capability_def renew_worker_liveness_def authorize_successor_def bind_res_Inr_iff Let_def
      extend_capability_def split: option.splits if_splits)

lemma cancel_row_launch: "cancel_queue_row now epoch retain q l = Inr (r, l') \<Longrightarrow> no_launch l l'"
proof -
  assume "cancel_queue_row now epoch retain q l = Inr (r, l')"
  then have "queue l' = queue l \<or> queue l' = update_where (\<lambda>r. q_dispatch r = q_dispatch q \<and> q_state r \<in> set active_states)
      (\<lambda>r. r\<lparr>q_state := Queue_Cancelled, q_claim := None, q_raw := None, q_terminal := None, q_updated := now\<rparr>) (queue l)"
    by (auto simp: cancel_queue_row_def bind_res_Inr_iff Let_def returning_Inr retire_checkpoints_def
        unresolve_commands_def split: if_splits option.splits)
  then show ?thesis by (elim disjE no_launch_same) (erule no_launch_update; simp)
qed

lemma cancel_launch: "cancel_queue_dispatch now i epoch l = Inr (r, l') \<Longrightarrow> no_launch l l'"
  by (auto simp: cancel_queue_dispatch_def bind_res_Inr_iff dest: cancel_row_launch)

lemma acknowledge_launch:
  assumes "acknowledge_worker_cancellation_exit now i action pid birth code l = Inr (r, l')"
  shows "no_launch l l'"
proof -
  from assms have "l' = l \<or> (\<exists>q l1. queue l1 = queue l \<and> cancel_queue_row now None True q l1 = Inr (r, l'))"
    by (auto simp: acknowledge_worker_cancellation_exit_def bind_res_Inr_iff Let_def split: option.splits if_splits;
        (rule disjI2 exI conjI | assumption | simp)+)
  then show ?thesis using no_launch_same no_launch_trans [OF no_launch_same cancel_row_launch] by blast
qed

text \<open>A direct change of the state makes a row run only when it claims it.\<close>

lemma set_state_launch:
  assumes "set_queue_state now i st epoch l = Inr (r, l')" "st \<noteq> Claimed" "distinct (map q_dispatch (queue l))"
  shows "no_launch l l'"
proof (cases "st = Queue_Cancelled")
  case True
  with assms(1) cancel_launch show ?thesis by (simp add: set_queue_state_def)
next
  case False
  with assms(1) obtain q where q: "lookup_by q_dispatch i (queue l) = Some q" "st \<in> set (queue_targets (q_state q))"
    and l': "queue l' = update_where (\<lambda>q. q_dispatch q = i) (\<lambda>q. q\<lparr>q_state := st, q_updated := now\<rparr>) (queue l)"
    by (auto simp: set_queue_state_def bind_res_Inr_iff returning_Inr queue_dispatch_iff update_queue_def)
  have from_running: "q_state q \<in> {Claimed, Starting, Running}" if "st \<in> {Starting, Running}"
    using q(2) that by (cases "q_state q") auto
  show ?thesis
  proof (cases "st \<in> {Starting, Running}")
    case True
    have "launched j l" if "launched j l'" for j
    proof -
      from that obtain r where r: "r \<in> set (queue l)" "q_dispatch r = j" "q_dispatch r \<noteq> i \<longrightarrow> q_state r \<in> {Claimed, Starting, Running}"
        unfolding launched_def l' update_where_def by (auto split: if_splits)
      show ?thesis
      proof (cases "j = i")
        case True
        with from_running \<open>st \<in> {Starting, Running}\<close> lookup_by_in [OF q(1)] show ?thesis by (auto simp: launched_def)
      qed (use r in \<open>auto simp: launched_def\<close>)
    qed
    then show ?thesis by (simp add: no_launch_def)
  next
    case False
    with l' show ?thesis by (intro no_launch_rest) (use assms(2) in auto)
  qed
qed

lemma recover_launch:
  assumes "recover_queue_dispatch now i epoch keep l = Inr (r, l')"
  shows "no_launch l l'"
proof -
  from assms consider "l' = l" | th where "queue l' = update_where (\<lambda>r. q_dispatch r = i) (\<lambda>r. r\<lparr>q_state := Queued, q_claim := None,
      q_attempt := q_attempt r + 1, q_thread := th, q_host := None, q_updated := now\<rparr>) (queue l)"
    by (auto simp: recover_queue_dispatch_def bind_res_Inr_iff Let_def returning_Inr update_queue_def forget_attempt_def
        split: if_splits)
  then show ?thesis
  proof cases
    case (2 th)
    then show ?thesis by (rule no_launch_update) simp_all
  qed (simp add: no_launch_same)
qed

lemma bind_launch:
  "bind_worker_liveness now i epoch g a pid birth token lease l = Inr (w, l') \<Longrightarrow> no_launch l l'"
  "bind_worker_thread E now i epoch g a token thread l = Inr (r, l') \<Longrightarrow> no_launch l l'"
  "adopt_live_worker now i epoch pid birth nonce l = Inr (r, l') \<Longrightarrow> no_launch l l'"
proof -
  assume "bind_worker_liveness now i epoch g a pid birth token lease l = Inr (w, l')"
  then have "queue l' = update_where (\<lambda>q. q_dispatch q = i \<and> q_state q = Claimed) (\<lambda>q. q\<lparr>q_state := Starting, q_updated := now\<rparr>) (queue l)"
    by (auto simp: bind_worker_liveness_def bind_res_Inr_iff Let_def extend_capability_def split: option.splits)
  then show "no_launch l l'" by (rule no_launch_update) simp_all
next
  assume "bind_worker_thread E now i epoch g a token thread l = Inr (r, l')"
  then have "queue l' = update_where (\<lambda>q. q_dispatch q = i \<and> q_state q \<in> {Claimed, Starting, Running})
      (\<lambda>q. q\<lparr>q_state := Running, q_thread := Some thread, q_updated := now\<rparr>) (queue l)"
    by (auto simp: bind_worker_thread_def bind_res_Inr_iff returning_Inr)
  then show "no_launch l l'" by (rule no_launch_update) simp_all
next
  assume "adopt_live_worker now i epoch pid birth nonce l = Inr (r, l')"
  then have "queue l' = update_where (\<lambda>q. q_dispatch q = i \<and> q_state q \<in> {Claimed, Starting, Running})
      (\<lambda>q. q\<lparr>q_claim := Some (epoch, nonce), q_updated := now\<rparr>) (queue l)"
    by (auto simp: adopt_live_worker_def bind_res_Inr_iff returning_Inr split: option.splits)
  then show "no_launch l l'" by (rule no_launch_update) simp_all
qed

section \<open>Results and recovery\<close>

lemma submit_launch:
  assumes "submit_in_transaction E now i g a token raw status l = Inr (r, l')"
  shows "no_launch l l'"
  using assms
proof (rule submit_cases)
  fix q c assume "l' = l \<or> c_consumed c = None \<and> q_state q \<notin> closed_states \<and> (\<exists>recs. l' = l\<lparr>
        capabilities := update_where (is_capability i g a) (\<lambda>c. c\<lparr>c_consumed := Some now, c_accepted := Some (sha256 E raw)\<rparr>)
          (capabilities l),
        queue := update_where (\<lambda>q. q_dispatch q = i) (\<lambda>q. q\<lparr>q_state := Result_Submitted, q_raw := Some (raw, sha256 E raw),
          q_terminal := Some status, q_updated := now\<rparr>) (queue l), recoveries := recs\<rparr>)"
  then have "queue l' = queue l \<or> queue l' = update_where (\<lambda>q. q_dispatch q = i) (\<lambda>q. q\<lparr>q_state := Result_Submitted,
      q_raw := Some (raw, sha256 E raw), q_terminal := Some status, q_updated := now\<rparr>) (queue l)" by auto
  then show ?thesis by (elim disjE no_launch_same) (erule no_launch_update; simp)
qed

lemma finalize_launch: "finalize_in_transaction E now i payload notify l = Inr (r, l') \<Longrightarrow> no_launch l l'"
proof (erule finalize_cases)
  fix q assume "law_part l' = law_part (update_queue i (\<lambda>r. r\<lparr>q_state := terminal_state q, q_updated := now\<rparr>) l)"
  then have "queue l' = update_where (\<lambda>q. q_dispatch q = i) (\<lambda>r. r\<lparr>q_state := terminal_state q, q_updated := now\<rparr>) (queue l)"
    by (simp add: law_part_iff update_queue_def)
  then show ?thesis by (rule no_launch_rest) (use terminal_state_closed [of q] in auto)
qed (simp add: no_launch_same)

lemma commit_launch:
  assumes "commit_in_transaction E now i g a token raw status l = Inr (r, l')"
  shows "no_launch l l'"
proof -
  from assms obtain r1 l1 l2 where s: "submit_in_transaction E now i g a token raw status l = Inr (r1, l1)"
    and b: "bind_terminal_integrity i (sha256 E raw) l1 = Inr l2"
    and f: "finalize_in_transaction E now i [] None (reset_retry i l2) = Inr (r, l')"
    by (auto simp: commit_in_transaction_def bind_res_Inr_iff)
  have "law_part (reset_retry i l2) = law_part l1" using bind_integrity_part [OF b] by simp
  from no_launch_trans [OF no_launch_trans [OF submit_launch [OF s] no_launch_part [OF this]] finalize_launch [OF f]] show ?thesis .
qed

lemma retained_launch: "retained_in_transaction E now i g a token raw status l = Inr (r, l') \<Longrightarrow> no_launch l l'"
  by (erule retained_commits, rule no_launch_trans [OF no_launch_same commit_launch]) (simp_all add: extend_capability_def)

lemma ingest_launch:
  assumes "ingest_in_transaction E now i raw status l = Inr (r, l')"
  shows "no_launch l l'"
proof -
  from assms consider "law_part l' = law_part l" | l1 l2 where "bind_terminal_integrity i (sha256 E raw) l1 = Inr l2"
      "finalize_in_transaction E now i [] None l2 = Inr (r, l')" "queue l1 = update_where (\<lambda>q. q_dispatch q = i)
        (\<lambda>q. q\<lparr>q_state := Result_Submitted, q_raw := Some (raw, sha256 E raw), q_terminal := Some status, q_updated := now\<rparr>) (queue l)"
    by (auto simp: ingest_in_transaction_def bind_res_Inr_iff Let_def reset_retry_def update_queue_def split: if_splits
        dest: bind_integrity_part)
  then show ?thesis
  proof cases
    case (2 l1 l2)
    from 2(3) have "no_launch l l1" by (rule no_launch_update) simp_all
    from no_launch_trans [OF no_launch_trans [OF this no_launch_part [OF bind_integrity_part [OF 2(1)]]] finalize_launch [OF 2(2)]]
    show ?thesis .
  qed (rule no_launch_part)
qed

lemma requeue_launch: "no_launch l (requeue now available i l)"
proof (rule no_launch_update)
  show "queue (requeue now available i l) = update_where (\<lambda>q. q_dispatch q = i) (\<lambda>q. q\<lparr>q_state := Queued, q_claim := None,
      q_attempt := q_attempt q + 1, q_thread := None, q_host := None, q_available := available, q_updated := now\<rparr>) (queue l)"
    by (simp add: requeue_def Let_def update_queue_def forget_attempt_def)
qed simp_all

lemma available_launch: "no_launch l (update_queue i (\<lambda>x. x\<lparr>q_available := t, q_updated := now\<rparr>) l)"
proof (rule no_launch_update)
  show "queue (update_queue i (\<lambda>x. x\<lparr>q_available := t, q_updated := now\<rparr>) l) =
      update_where (\<lambda>q. q_dispatch q = i) (\<lambda>x. x\<lparr>q_available := t, q_updated := now\<rparr>) (queue l)" by (simp add: update_queue_def)
qed simp_all

lemma attention_launch: "law_part l' = law_part (update_queue i (\<lambda>q. q\<lparr>q_state := Human_Attention, q_updated := t\<rparr>) l) \<Longrightarrow> no_launch l l'"
  by (rule no_launch_rest [where st = Human_Attention and t = t]) (simp_all add: law_part_iff update_queue_def)

lemma enqueue_launch:
  assumes "enqueue_in_transaction E now a d l = Inr (q, l')"
  shows "no_launch l l'"
proof (cases "lookup_by q_dispatch (dp_id d) (queue l)")
  case None
  with assms obtain t n where "queue l' = queue l @ [new_queue_row a d n t]"
    by (auto simp: enqueue_in_transaction_def insert_queue_def Let_def bind_res_Inr_iff)
  then show ?thesis by (auto simp: no_launch_def launched_def new_queue_row_def)
qed (use assms no_launch_same [of l' l] in \<open>auto simp: enqueue_in_transaction_def Let_def bind_res_Inr_iff\<close>)

lemma retry_failure_launch:
  assumes "record_retry_failure E now i f prior req att l = Inr (x, l')"
  shows "no_launch l l'"
  using assms
proof (rule retry_failure_cases)
  fix r q assume "l' = l \<or> (\<exists>strat. consume_retry E now i f strat prior req q r l = Inr (x, l'))
      \<or> (\<exists>reason. l' = demand_attention now i f prior reason l)"
  then show ?thesis
  proof (elim disjE exE)
    fix strat assume "consume_retry E now i f strat prior req q r l = Inr (x, l')"
    then show ?thesis
    proof (rule consume_cases)
      fix l1 available assume "law_part l1 = law_part l" and l': "l' = requeue now available i l1 \<or> l' = l1
        \<or> l' = update_queue i (\<lambda>x. x\<lparr>q_available := available, q_updated := now\<rparr>) l1"
      from this(1) have "no_launch l l1" by (rule no_launch_part)
      with l' requeue_launch available_launch no_launch_trans show ?thesis by metis
    qed
  qed (auto simp: no_launch_same demand_part intro: attention_launch)
qed

lemma mark_exit_launch:
  assumes "mark_worker_exit E now i pid birth code cl l = Inr (u, l')"
  shows "no_launch l l'"
  using assms
proof (cases rule: mark_exit_cases)
  case quick
  then show ?thesis by (rule no_launch_part)
next
  case (policy w q r label tr fc thread amb)
  let ?l = "arm_inspection now i label code tr r (record_exit now i l)"
  obtain st where part: "law_part ?l = law_part ((record_exit now i l)\<lparr>queue := update_where
      (\<lambda>q. q_dispatch q = i \<and> q_state q \<in> {Claimed, Starting, Running}) (\<lambda>q. q\<lparr>q_state := st, q_updated := now\<rparr>)
      (queue (record_exit now i l))\<rparr>)" and st: "st \<in> {Inspection_Pending, Human_Attention}" by (rule arm_inspection_part)
  then have "queue ?l = update_where (\<lambda>q. q_dispatch q = i \<and> q_state q \<in> {Claimed, Starting, Running})
      (\<lambda>q. q\<lparr>q_state := st, q_updated := now\<rparr>) (queue l)" by (simp add: law_part_iff record_exit_def)
  then have arm: "no_launch l ?l" by (rule no_launch_rest) (use st in auto)
  from policy(9) show ?thesis
  proof (rule apply_exit_cases)
    fix l1 available assume l1: "law_part l1 = law_part ?l" and l': "l' = requeue now available i l1 \<or> l' = l1
       \<or> l' = update_queue i (\<lambda>x. x\<lparr>q_available := available, q_updated := now\<rparr>) l1 \<or> l' = l1\<lparr>queue := attention_rows now i (queue l1)\<rparr>"
    have "no_launch l1 (l1\<lparr>queue := attention_rows now i (queue l1)\<rparr>)"
      by (rule no_launch_rest [where st = Human_Attention and t = now]) (simp_all add: attention_rows_def)
    with l' requeue_launch available_launch no_launch_same [of l1 l1] have "no_launch l1 l'" by auto
    from no_launch_trans [OF no_launch_trans [OF arm no_launch_part [OF l1]] this] show ?thesis .
  qed
qed

lemma moved_launch:
  assumes "law_part l' = law_part (l\<lparr>queue := update_where P (\<lambda>q. q\<lparr>q_state := st, q_updated := t\<rparr>) (queue l)\<rparr>)"
    and "\<And>q. P q \<Longrightarrow> st \<in> {Claimed, Starting, Running} \<Longrightarrow> q_state q \<in> {Claimed, Starting, Running}"
  shows "no_launch l l'"
proof (rule no_launch_update)
  show "queue l' = update_where P (\<lambda>q. q\<lparr>q_state := st, q_updated := t\<rparr>) (queue l)" using assms(1) by (simp add: law_part_iff)
qed (use assms(2) in auto)

lemma inspection_launch:
  assumes "record_recovery_inspection E now i kind insp req due att l = Inr (r, l')"
  shows "no_launch l l'"
proof -
  from assms obtain x where "l' = l \<or> (\<exists>phase due' reason. l' = settle_inspection now i kind insp phase due' reason x l)"
    by (rule inspection_cases) blast
  then show ?thesis
  proof (elim disjE exE)
    fix phase due' reason assume l': "l' = settle_inspection now i kind insp phase due' reason x l"
    have "queue l' = update_where (\<lambda>q. q_dispatch q = i \<and> q_state q \<in> {Inspection_Pending, Retry_Wait, Continuation_Pending})
        (\<lambda>q. q\<lparr>q_state := decision_state_of phase, q_updated := now\<rparr>) (queue l)"
      by (simp add: l' settle_inspection_def Let_def disarm_def update_retry_def update_recovery_def)
    then show ?thesis by (rule no_launch_rest) (cases phase; simp add: decision_state_of_def)
  qed (simp add: no_launch_same)
qed

lemma begin_attention_launch:
  assumes "begin_attention now i reason failure l = Inr (b, l')"
  shows "no_launch l l'"
proof -
  from assms have "l' = l \<or> l' = attention_now now i reason failure l"
    by (auto simp: begin_attention_def bind_res_Inr_iff split: option.splits if_splits)
  moreover have "queue (attention_now now i reason failure l) = update_where (\<lambda>q. q_dispatch q = i
      \<and> q_state q \<in> {Queued, Claimed, Starting, Running}) (\<lambda>q. q\<lparr>q_state := Human_Attention, q_updated := now\<rparr>) (queue l)"
    by (simp add: attention_now_def Let_def disarm_def update_retry_def update_recovery_def)
  then have "no_launch l (attention_now now i reason failure l)" by (rule no_launch_rest) simp
  ultimately show ?thesis using no_launch_same by blast
qed

lemma require_attention_launch:
  assumes "mark_human_attention_required E now i reason failure l = Inr (u, l')"
  shows "no_launch l l'"
  using assms
proof (rule attention_Inr)
  fix l1 more assume first: "begin_attention now i (redact E reason) failure l = Inr (more, l1)"
    and rest: "l' = l1 \<or> (\<exists>r. record_recovery_inspection E now i Ambiguous (None, None) (Some Rec_Attention) None
        (Some (redact E reason)) l1 = Inr (r, l'))"
  from begin_attention_launch [OF first] rest inspection_launch no_launch_trans show ?thesis by blast
qed

lemma begin_inspection_launch:
  assumes "begin_recovery_inspection now i epoch current l = Inr (r, l')"
  shows "no_launch l l'"
proof -
  from assms have "queue l' = update_where (\<lambda>q. q_dispatch q = i \<and> q_state q = Retry_Wait)
      (\<lambda>q. q\<lparr>q_state := Inspection_Pending, q_updated := current\<rparr>) (queue l)"
    unfolding begin_recovery_inspection_def bind_res_Inr_iff Let_def
    by (auto simp: bind_res_Inr_iff returning_Inr update_retry_def update_recovery_def split: option.splits)
  then show ?thesis by (rule no_launch_rest) simp
qed

text \<open>A continuation claims its row.\<close>

lemma continuation_launch:
  assumes "begin_recovery_continuation now i epoch nonce current l = Inr (r, l')" "launched j l'"
  shows "launched j l \<or> j = i"
  using assms(1)
proof (rule continuation_cases)
  fix x q assume "(\<exists>what. l' = exhausted current i what l) \<or> fst (rs_continuation x) < snd (rs_continuation x)
       \<and> (rs_fresh_after_idle x \<longrightarrow> fst (rs_fresh_thread x) < snd (rs_fresh_thread x))
       \<and> l' = continue_row current i (epoch, nonce) (rs_fresh_after_idle x) l"
  then show ?thesis
  proof (elim disjE exE conjE)
    fix what assume "l' = exhausted current i what l"
    then have "no_launch l l'" using attention_launch [of l' i current l] by (simp add: exhausted_part)
    with assms(2) show ?thesis by (simp add: no_launch_def)
  next
    assume "l' = continue_row current i (epoch, nonce) (rs_fresh_after_idle x) l"
    then have "queue l' = update_where (\<lambda>q. q_dispatch q = i \<and> q_state q = Continuation_Pending) (\<lambda>q. q\<lparr>q_state := Claimed,
        q_claim := Some (epoch, nonce), q_attempt := q_attempt q + 1, q_thread := (if rs_fresh_after_idle x then None else q_thread q),
        q_updated := current\<rparr>) (queue l)"
      by (simp add: continue_row_def Let_def forget_attempt_def update_recovery_def update_retry_def)
    with assms(2) show ?thesis unfolding launched_def update_where_def by (auto split: if_splits)
  qed
qed

section \<open>Runs under the fence\<close>

text \<open>The requests that can make a row run under the fence: they do not look at it.\<close>

fun launches :: "pystr \<Rightarrow> ledger_request \<Rightarrow> bool" where
  "launches i (now, Inr (Recovery (Begin_Continuation j epoch nonce current))) = (j = i)"
| "launches i (now, Inr (Attempt (Set_Queue j st epoch))) = (j = i \<and> st = Claimed)"
| "launches i r = False"

lemma set_claimed_launch:
  assumes "set_queue_state now i Claimed epoch l = Inr (r, l')" "launched j l'"
  shows "launched j l \<or> j = i"
proof -
  from assms(1) have "queue l' = update_where (\<lambda>q. q_dispatch q = i) (\<lambda>q. q\<lparr>q_state := Claimed, q_updated := now\<rparr>) (queue l)"
    by (auto simp: set_queue_state_def bind_res_Inr_iff returning_Inr update_queue_def)
  with assms(2) show ?thesis unfolding launched_def update_where_def by (auto split: if_splits)
qed

lemma attempt_launch:
  assumes "attempt_transaction E now r l = Inr (u, l')" "distinct (map q_dispatch (queue l))"
    and "\<forall>epoch nonce. r \<noteq> Claim_Queue epoch nonce" "launched i l'"
  shows "launched i l \<or> launches i (now, Inr (Attempt r))"
proof (cases "\<exists>j epoch. r = Set_Queue j Claimed epoch")
  case True
  with assms(1,4) show ?thesis by (auto simp: transaction_Inr dest: set_claimed_launch)
next
  case False
  have "no_launch l l'"
    using assms(1,3) False set_state_launch [OF _ _ assms(2)]
    by (cases r) (auto simp: transaction_Inr intro: cancel_launch acknowledge_launch recover_launch bind_launch
        dest: harness_queue [THEN no_launch_same] issue_queue [THEN no_launch_same])
  with assms(4) show ?thesis by (simp add: no_launch_def)
qed

lemma result_launch: "result_transaction E now r l = Inr (u, l') \<Longrightarrow> no_launch l l'"
  by (cases r) (auto simp: transaction_Inr intro: submit_launch commit_launch retained_launch ingest_launch)

lemma recovery_launch:
  assumes "recovery_transaction E now r l = Inr (u, l')" "launched i l'"
  shows "launched i l \<or> launches i (now, Inr (Recovery r))"
proof (cases "\<exists>j epoch nonce current. r = Begin_Continuation j epoch nonce current")
  case True
  with assms show ?thesis by (auto simp: transaction_Inr dest: continuation_launch)
next
  case False
  have "no_launch l l'"
  proof (cases r)
    case (Retry_Failure j f prior req att)
    with assms(1) obtain x where "record_retry_failure E now j f prior req att l = Inr (x, l')" by (auto simp: transaction_Inr)
    then show ?thesis by (rule retry_failure_launch)
  next
    case (Record_Inspection j kind insp req due att)
    with assms(1) obtain x where "record_recovery_inspection E now j kind insp req due att l = Inr (x, l')" by (auto simp: transaction_Inr)
    then show ?thesis by (rule inspection_launch)
  qed (use assms(1) False in \<open>auto simp: transaction_Inr intro: enqueue_launch mark_exit_launch require_attention_launch
      begin_inspection_launch finalize_launch
      dest!: configure_part [THEN no_launch_part] notification_part [THEN no_launch_part] claim_wake_part [THEN no_launch_part]
        reconcile_parts [THEN no_launch_part] record_delivery_part [THEN no_launch_part] checkpoint_parts [THEN no_launch_part]\<close>)
  with assms(2) show ?thesis by (simp add: no_launch_def)
qed

lemma exec_launch:
  assumes "exec_body now op l = Inr (u, l')"
  shows "no_launch l l'"
proof (cases "\<exists>k. op = Cancel_Execution k")
  case True
  then obtain k where "op = Cancel_Execution k" ..
  with assms obtain x where "cancel_execution now k l = Inr (x, l')" by (auto simp: forget_Inr)
  then show ?thesis
  proof (rule cancel_execution_parts)
    fix q q' l1 assume "cancel_queue_row now None False q l = Inr (q', l1)" "queue_part l' = queue_part l1"
    then show ?thesis using no_launch_trans [OF cancel_row_launch no_launch_same] by (simp add: queue_part_def)
  qed (simp add: queue_part_def no_launch_same)
next
  case False
  with exec_body_frame [OF assms] show ?thesis by (intro no_launch_same) (simp add: queue_part_def)
qed

lemma fenced_step_launch:
  assumes "ledger_inv E l" "fenced l" "launched i (ledger_step E l r)"
  shows "launched i l \<or> launches i r"
proof (rule ledger_step_cases [of E l r])
  fix u assume step: "request E r l = Inr (u, ledger_step E l r)"
  obtain now op where r: "r = (now, op)" by (cases r)
  show ?thesis
  proof (cases op)
    case (Inl e)
    with step r have "exec_body now e l = Inr (u, ledger_step E l r)" by (simp add: request_def atomically_Inr)
    from exec_launch [OF this] assms(3) show ?thesis by (simp add: no_launch_def)
  next
    case (Inr q)
    with step r have tr: "queue_transaction E now q l = Inr (u, ledger_step E l r)" by (simp add: request_def)
    show ?thesis
    proof (cases q)
      case (Attempt x)
      show ?thesis
      proof (cases "\<exists>epoch nonce. x = Claim_Queue epoch nonce")
        case True
        with Attempt Inr r fenced_claim [OF assms(2)] assms(3) show ?thesis by auto
      next
        case False
        from assms(1) have "distinct (map q_dispatch (queue l))" by (simp add: ledger_inv_def queue_inv_def)
        with attempt_launch [OF _ this _ assms(3)] False tr Attempt Inr r show ?thesis by simp
      qed
    next
      case (Result x)
      with tr result_launch assms(3) show ?thesis by (auto simp: no_launch_def)
    next
      case (Recovery x)
      with tr recovery_launch [OF _ assms(3)] Inr r show ?thesis by simp
    qed
  qed
qed (use assms(3) in simp)

lemma fenced_run_launch:
  assumes "ledger_inv E l" "fenced l" "\<forall>r\<in>set rs. \<not> is_acquire r" "launched i (ledger_run E rs l)"
  shows "launched i l \<or> (\<exists>r\<in>set rs. launches i r)"
  using assms
proof (induction rs arbitrary: l)
  case (Cons r rs)
  have "launched i (ledger_step E l r) \<or> (\<exists>r\<in>set rs. launches i r)"
    by (rule Cons.IH) (use Cons.prems ledger_step_law fenced_step_kept in \<open>auto simp: ledger_run_def\<close>)
  with fenced_step_launch [OF Cons.prems(1,2), of i r] show ?case by auto
qed (simp add: ledger_run_def)

text \<open>
  C16. When the refresh fence is armed, no row and no worker is running.  Until a harness acquires the
  lease anew, whatever else is done, every claim of the queue leaves the ledger as it is, and a row
  is claimed, starting or running only if one of two requests was made for that very row: a
  recovery continuation, or a direct change of its state to claimed.  Neither of them looks at the fence.
\<close>

theorem refresh_fence_holds:
  assumes "ledger_inv E l" "queue_transaction E t (Attempt Refresh_Fence) l = Inr (u, l1)" "\<forall>r\<in>set rs. \<not> is_acquire r"
  shows "(\<forall>i. \<not> launched i l1) \<and> (\<forall>w\<in>set (liveness l1). l_exited w \<noteq> None)
    \<and> ledger_run E (rs @ [(now, Inr (Attempt (Claim_Queue epoch nonce)))]) l1 = ledger_run E rs l1
    \<and> (launched i (ledger_run E rs l1) \<longrightarrow> (\<exists>r\<in>set rs. launches i r))"
proof -
  from assms(2) obtain ho where arm: "arm_harness_refresh_fence t l = Inr (ho, l1)" by (auto simp: transaction_Inr)
  have "request E (t, Inr (Attempt Refresh_Fence)) l = Inr (u, l1)" using assms(2) by (simp add: request_def)
  from request_step [OF this assms(1)] have inv: "ledger_inv E l1" ..
  note fence = arm_fence_fences(1) [OF arm]
  have none: "\<not> launched j l1" for j using arm_fence_fences(2) [OF arm] by (auto simp: launched_def)
  from fenced_claim [OF fenced_run [OF inv fence assms(3)]]
  have "ledger_run E (rs @ [(now, Inr (Attempt (Claim_Queue epoch nonce)))]) l1 = ledger_run E rs l1"
    by (simp add: ledger_run_append) (simp add: ledger_run_def)
  with none arm_fence_fences(3) [OF arm] fenced_run_launch [OF inv fence assms(3), of i] show ?thesis by blast
qed

text \<open>The sample with a row that waits for its continuation, before and after the fence is armed.\<close>

definition sample_waiting :: ledger where
  "sample_waiting = sample_queue\<lparr>
     queue := [sample_queue_row ''v'' Continuation_Pending 1, sample_queue_row ''w'' Queued 2, sample_queue_row ''x'' Result_Submitted 3],
     recoveries := [(sample_recovery ''v'')\<lparr>rs_state := Rec_Continuation, rs_next_eligible := Some 0\<rparr>, sample_recovery ''w'',
       sample_recovery ''x'']\<rparr>"

definition sample_waiting_fenced :: ledger where
  "sample_waiting_fenced = sample_waiting\<lparr>harness := Some (sample_harness\<lparr>h_shutdown := True\<rparr>)\<rparr>"

definition sample_continued :: ledger where
  "sample_continued = sample_waiting_fenced\<lparr>
     queue := [(sample_queue_row ''v'' Continuation_Pending 1)\<lparr>q_state := Claimed, q_claim := Some (3, sample_digest),
         q_attempt := 2, q_thread := None, q_updated := 20\<rparr>, sample_queue_row ''w'' Queued 2, sample_queue_row ''x'' Result_Submitted 3],
     capabilities := [sample_capability ''x'' (Some 5)],
     retries := [(new_retry_row (sample_id ''v''))\<lparr>rp_revision := 1\<rparr>, new_retry_row (sample_id ''w''), new_retry_row (sample_id ''x'')],
     recoveries := [(sample_recovery ''v'')\<lparr>rs_continuation := (1, 2), rs_fresh_thread := (1, 1)\<rparr>, sample_recovery ''w'',
       sample_recovery ''x'']\<rparr>"

lemmas sample_waiting_defs = sample_continued_def sample_waiting_fenced_def sample_waiting_def

lemma sample_waiting_valid:
  assumes "l \<in> {sample_waiting, sample_waiting_fenced, sample_continued}"
  shows "validate_rows sample_env l = Inr ()"
proof (rule sample_valid)
  show "workflow_part l = workflow_part sample_queue" using assms by (auto simp: sample_waiting_defs workflow_part_def)
  have "validate_queue sample_env sample_waiting = Inr ()" "validate_queue sample_env sample_waiting_fenced = Inr ()"
    "validate_queue sample_env sample_continued = Inr ()"
    by (simp_all add: sample_check_defs sample_queue_defs sample_waiting_defs sample_id_def lit_def)
  with assms show "validate_queue sample_env l = Inr ()" by auto
qed

lemma sample_waiting_inv: "ledger_inv sample_env sample_waiting"
proof -
  have part: "workflow_part sample_waiting = workflow_part sample_queue" by (simp add: sample_waiting_def workflow_part_def)
  have ok: "validate_rows sample_env sample_waiting = Inr ()" by (rule sample_waiting_valid) simp
  from workflow_part_inv [OF part sample_workflow] ok have "machine_inv sample_waiting" by (simp add: validate_rows_iff)
  moreover have "distinct (map q_dispatch (queue sample_waiting))"
    by (simp add: sample_waiting_def sample_queue_row_def lit_def)
  moreover have "raw_backed sample_waiting"
    by (simp add: raw_backed_def backed_def sample_waiting_def sample_queue_defs is_capability_def lit_def)
  ultimately show ?thesis using ok by (simp add: ledger_inv_def queue_inv_def)
qed

lemma sample_waiting_fence: "queue_transaction sample_env 10 (Attempt Refresh_Fence) sample_waiting = Inr ((), sample_waiting_fenced)"
proof -
  have "arm_harness_refresh_fence 10 sample_waiting = Inr (harness sample_waiting_fenced, sample_waiting_fenced)"
    by (simp add: arm_harness_refresh_fence_def raise_if_active_children_def bind_res_Inr_iff each_res_Inr Let_def
        sample_waiting_defs) (simp add: sample_queue_defs)
  then show ?thesis using sample_waiting_valid by (simp add: committing_Inr)
qed

lemma sample_continuation:
  "ledger_run sample_env [(20, Inr (Recovery (Begin_Continuation (sample_id ''v'') 3 sample_digest 20)))] sample_waiting_fenced
     = sample_continued"
proof -
  have "continue_row 20 (sample_id ''v'') (3, sample_digest) True sample_waiting_fenced = sample_continued"
  proof (rule ledger.equality)
    let ?l = "sample_waiting_fenced"
    have "queue ?l = [sample_queue_row ''v'' Continuation_Pending 1, sample_queue_row ''w'' Queued 2, sample_queue_row ''x'' Result_Submitted 3]"
      "capabilities ?l = [sample_capability ''v'' None, sample_capability ''x'' (Some 5)]" "liveness ?l = []"
      "recoveries ?l = [(sample_recovery ''v'')\<lparr>rs_state := Rec_Continuation, rs_next_eligible := Some 0\<rparr>, sample_recovery ''w'',
        sample_recovery ''x'']"
      "retries ?l = map new_retry_row [sample_id ''v'', sample_id ''w'', sample_id ''x'']"
      by (simp_all add: sample_waiting_fenced_def sample_waiting_def sample_queue_def sample_id_def empty_ledger_def)
    note rows = this
    show "queue (continue_row 20 (sample_id ''v'') (3, sample_digest) True ?l) = queue sample_continued"
      "capabilities (continue_row 20 (sample_id ''v'') (3, sample_digest) True ?l) = capabilities sample_continued"
      "liveness (continue_row 20 (sample_id ''v'') (3, sample_digest) True ?l) = liveness sample_continued"
      "recoveries (continue_row 20 (sample_id ''v'') (3, sample_digest) True ?l) = recoveries sample_continued"
      "retries (continue_row 20 (sample_id ''v'') (3, sample_digest) True ?l) = retries sample_continued"
      by (simp_all add: continue_row_def Let_def forget_attempt_def update_recovery_def update_retry_def update_where_def delete_where_def
          clear_recovery_def sample_continued_def rows)
        (simp_all add: sample_queue_row_def sample_capability_def sample_recovery_def new_retry_row_def sample_id_def lit_def)
  qed (simp_all add: continue_row_def Let_def forget_attempt_def update_recovery_def update_retry_def sample_continued_def)
  moreover have "live_harness sample_waiting_fenced 3 20"
    by (simp add: live_harness_def sample_waiting_defs sample_harness_def)
  moreover have "lookup_by rs_dispatch (sample_id ''v'') (recoveries sample_waiting_fenced)
      = Some ((sample_recovery ''v'')\<lparr>rs_state := Rec_Continuation, rs_next_eligible := Some 0\<rparr>)"
    "lookup_by q_dispatch (sample_id ''v'') (queue sample_waiting_fenced) = Some (sample_queue_row ''v'' Continuation_Pending 1)"
    "worker_gone sample_waiting_fenced (sample_id ''v'')"
    "require_queue_program_capability sample_waiting_fenced (sample_queue_row ''v'' Continuation_Pending 1) = Inr ()"
    "lookup_by q_dispatch (sample_id ''v'') (queue sample_continued) \<noteq> None"
    by (simp_all add: worker_gone_def require_queue_program_capability_def lookup_by_def select_one_def sample_waiting_defs
        sample_queue_defs sample_id_def lit_def)
  ultimately have "\<exists>q. begin_recovery_continuation 20 (sample_id ''v'') 3 sample_digest 20 sample_waiting_fenced = Inr (q, sample_continued)"
    using sample_digest_hex
    by (auto simp: begin_recovery_continuation_def bind_res_Inr_iff require_live_harness_def returning_Inr sample_recovery_def
        sample_queue_row_def)
  moreover have "validate_rows sample_env sample_waiting_fenced = Inr ()" "validate_rows sample_env sample_continued = Inr ()"
    by (rule sample_waiting_valid; simp)+
  ultimately have "request sample_env (20, Inr (Recovery (Begin_Continuation (sample_id ''v'') 3 sample_digest 20))) sample_waiting_fenced
      = Inr ((), sample_continued)" by (simp add: request_def committing_Inr)
  then show ?thesis by (simp add: ledger_run_def ledger_step_def after_op_def)
qed

theorem refresh_fence_holds_witness:
  "launched (sample_id ''v'') sample_continued
   \<and> (\<exists>r\<in>{(20, Inr (Recovery (Begin_Continuation (sample_id ''v'') 3 sample_digest 20)))}. launches (sample_id ''v'') r)
   \<and> ledger_run sample_env [(30, Inr (Attempt (Claim_Queue 3 sample_digest)))] sample_continued = sample_continued"
proof -
  let ?rs = "[(20, Inr (Recovery (Begin_Continuation (sample_id ''v'') 3 sample_digest 20)))]"
  have "\<forall>r\<in>set ?rs. \<not> is_acquire r" by simp
  note fence = refresh_fence_holds [OF sample_waiting_inv sample_waiting_fence this, of 30 3 sample_digest "sample_id ''v''"]
  have l: "launched (sample_id ''v'') sample_continued"
    by (simp add: launched_def sample_continued_def sample_queue_row_def sample_id_def)
  with fence have "\<exists>r\<in>set ?rs. launches (sample_id ''v'') r" unfolding sample_continuation by blast
  moreover from fence have "ledger_run sample_env (?rs @ [(30, Inr (Attempt (Claim_Queue 3 sample_digest)))]) sample_waiting_fenced
      = sample_continued" unfolding sample_continuation by blast
  then have "ledger_run sample_env [(30, Inr (Attempt (Claim_Queue 3 sample_digest)))] sample_continued = sample_continued"
    unfolding ledger_run_append sample_continuation .
  ultimately show ?thesis using l by simp
qed

end
