(* ===== verification/Name_Bounds.thy ===== *)
theory Name_Bounds
  imports Delivery_Guarantees
begin

text \<open>
  What the length bound on the lineage of a decision means for dispatches with long names: the ids of all
  decisions stay short over every run, so that such a dispatch never gets the terminal decision it needs to end.
\<close>

section \<open>Terminal decisions of long names\<close>

text \<open>The name of a terminal wake, and the decision and the lineage it leads to.\<close>

definition terminal_name :: "pystr \<Rightarrow> pystr" where
  "terminal_name i = lit ''wake/'' @ i @ lit ''/terminal''"

lemma terminal_wake_name: "wake_delivery_id i Terminal 1 = Inr (terminal_name i)"
  by (simp add: wake_delivery_id_def terminal_name_def lit_def)

lemma ensure_lineage:
  assumes "ensure_controller_decision i Terminal 1 dg source deadline ws st l = Inr (d, l')"
    and "decision_id_of (terminal_name i) \<notin> d_id ` set (decisions l)"
  shows "length i \<le> 225"
proof -
  from assms obtain g l1 where "insert_generation g l1 = Inr l'" "g_lineage g = lit ''lineage/'' @ decision_id_of (terminal_name i)"
    unfolding ensure_controller_decision_def bind_res_Inr_iff Let_def terminal_wake_name
    by (auto simp: bind_res_Inr_iff)
  then have "length (lit ''lineage/'' @ decision_id_of (terminal_name i)) \<le> 256"
    by (auto simp: insert_generation_def bind_res_Inr_iff)
  then show ?thesis by (simp add: decision_id_of_def terminal_name_def lit_def)
qed

lemma long_finalize:
  assumes "finalize_in_transaction E now i payload notify l = Inr (r, l')" "225 < length i"
    and "decision_id_of (terminal_name i) \<notin> d_id ` set (decisions l)" "lookup_by q_dispatch i (queue l) = Some q"
  shows "q_state q \<in> {Queue_Completed, Queue_Failed, Queue_Cancelled}"
proof (rule ccontr)
  assume "q_state q \<notin> {Queue_Completed, Queue_Failed, Queue_Cancelled}"
  with assms(1,4) obtain l0 where a: "announce_terminal E now q (unreleased_successors l i) notify l0 = Inr l'"
    and l0: "decisions l0 = decisions l"
    by (auto simp: finalize_in_transaction_def bind_res_Inr_iff queue_dispatch_iff Let_def returning_Inr release_successors_def
        update_queue_def)
  from a show False
  proof (rule announce_parts)
    fix l1 l2 so nt d l3 w dg source ws
    assume o1: "insert_successor_out so l0 = Inr l1" and o2: "insert_notification nt l1 = Inr l2"
      and e: "ensure_controller_decision (q_dispatch q) Terminal 1 dg source (now + DECISION_WINDOW) ws (terminal_state q)
        (close_checkpoints now (q_dispatch q) l2) = Inr (d, l3)"
    from o1 o2 have "decisions l2 = decisions l"
      by (auto simp: insert_successor_out_def insert_notification_def bind_res_Inr_iff l0)
    moreover have "map d_id (decisions (close_checkpoints now (q_dispatch q) l2)) = map d_id (decisions l2)"
      by (simp add: close_checkpoints_def Let_def map_update_where)
    ultimately have "d_id ` set (decisions (close_checkpoints now (q_dispatch q) l2)) = d_id ` set (decisions l)" by (metis set_map)
    with ensure_lineage [OF e] assms(2,3) lookup_by_in [OF assms(4)] show False by simp
  qed
qed

text \<open>The row a finalization finds after a submission and a binding is still open.\<close>

lemma open_after_submit:
  assumes "submit_in_transaction E now i g a token raw status l = Inr (r, l1)" "lookup_by q_dispatch i (queue l) = Some q"
    and "q_state q \<notin> {Queue_Completed, Queue_Failed, Queue_Cancelled}"
  obtains y where "lookup_by q_dispatch i (queue l1) = Some y" "q_state y \<notin> {Queue_Completed, Queue_Failed, Queue_Cancelled}"
    "decisions l1 = decisions l"
  using assms(1)
proof (rule submit_cases)
  fix q' c assume cases: "l1 = l \<or> c_consumed c = None \<and> q_state q' \<notin> closed_states \<and> (\<exists>recs. l1 = l\<lparr>
        capabilities := update_where (is_capability i g a) (\<lambda>c. c\<lparr>c_consumed := Some now, c_accepted := Some (sha256 E raw)\<rparr>)
          (capabilities l),
        queue := update_where (\<lambda>q. q_dispatch q = i) (\<lambda>q. q\<lparr>q_state := Result_Submitted, q_raw := Some (raw, sha256 E raw),
          q_terminal := Some status, q_updated := now\<rparr>) (queue l), recoveries := recs\<rparr>)"
  then have same: "decisions l1 = decisions l" by auto
  from cases assms(2,3) lookup_by_in [OF assms(2)]
  have "\<exists>y. lookup_by q_dispatch i (queue l1) = Some y \<and> q_state y \<notin> {Queue_Completed, Queue_Failed, Queue_Cancelled}"
    by (auto simp: lookup_update_if)
  with same that show thesis by blast
qed

lemma bind_integrity_rows: "bind_terminal_integrity i d l = Inr l' \<Longrightarrow> decisions l' = decisions l \<and> queue l' = queue l"
  unfolding bind_terminal_integrity_def by (auto simp: bind_res_Inr_iff split: option.splits if_splits)

lemma long_commit:
  assumes "commit_in_transaction E now i g a token raw status l = Inr (r, l')" "225 < length i"
    and "decision_id_of (terminal_name i) \<notin> d_id ` set (decisions l)" "lookup_by q_dispatch i (queue l) = Some q"
  shows "q_state q \<in> {Queue_Completed, Queue_Failed, Queue_Cancelled}"
proof (rule ccontr)
  assume "q_state q \<notin> {Queue_Completed, Queue_Failed, Queue_Cancelled}"
  from assms(1) obtain r1 l1 l2 where s: "submit_in_transaction E now i g a token raw status l = Inr (r1, l1)"
    and b: "bind_terminal_integrity i (sha256 E raw) l1 = Inr l2"
    and f: "finalize_in_transaction E now i [] None (reset_retry i l2) = Inr (r, l')"
    by (auto simp: commit_in_transaction_def bind_res_Inr_iff)
  from s assms(4) \<open>q_state q \<notin> _\<close> obtain y where y: "lookup_by q_dispatch i (queue l1) = Some y"
      "q_state y \<notin> {Queue_Completed, Queue_Failed, Queue_Cancelled}" "decisions l1 = decisions l" by (rule open_after_submit)
  have "decisions (reset_retry i l2) = decisions l" "queue (reset_retry i l2) = queue l1"
    using bind_integrity_rows [OF b] y(3) by (simp_all add: reset_retry_def)
  with long_finalize [OF f assms(2)] assms(3) y(1,2) show False by metis
qed

lemma long_ingest:
  assumes "ingest_in_transaction E now i raw status l = Inr (r, l')" "225 < length i"
    and "decision_id_of (terminal_name i) \<notin> d_id ` set (decisions l)" "lookup_by q_dispatch i (queue l) = Some q"
  shows "q_state q \<in> {Queue_Completed, Queue_Failed, Queue_Cancelled}"
proof (rule ccontr)
  assume "q_state q \<notin> {Queue_Completed, Queue_Failed, Queue_Cancelled}"
  with assms(1,4) lookup_by_in [OF assms(4)] obtain l1 l2 y where b: "bind_terminal_integrity i (sha256 E raw) l1 = Inr l2"
    and f: "finalize_in_transaction E now i [] None l2 = Inr (r, l')" and l1: "decisions l1 = decisions l"
    and y: "lookup_by q_dispatch i (queue l1) = Some y" "q_state y = Result_Submitted"
    by (auto simp: ingest_in_transaction_def bind_res_Inr_iff queue_dispatch_iff Let_def reset_retry_def update_queue_def lookup_update_if)
  from long_finalize [OF f assms(2)] assms(3) y bind_integrity_rows [OF b] l1 show False by auto
qed

section \<open>Operations that leave the decisions alone\<close>

lemma decisions_helpers [simp]:
  "decisions (forget_attempt i l) = decisions l" "decisions (unresolve_commands now i l) = decisions l" "decisions (release_successors now i ids l) = decisions l"
  "decisions (disarm i l) = decisions l" "decisions (extend_capability i g a t l) = decisions l" "decisions (reset_retry i l) = decisions l"
  "decisions (record_exit now i l) = decisions l" "decisions (update_queue i f1 l) = decisions l" "decisions (update_retry i f2 l) = decisions l"
  "decisions (update_recovery i f3 l) = decisions l" "decisions (widen_budgets f i r l) = decisions l" "decisions (requeue now available i l) = decisions l"
  by (cases f; simp add: forget_attempt_def unresolve_commands_def release_successors_def disarm_def extend_capability_def reset_retry_def
      record_exit_def update_queue_def update_retry_def update_recovery_def widen_budgets_def requeue_def Let_def)+

lemma harness_decisions:
  "acquire_harness now pid birth digest version nonce lease l = Inr (h, l') \<Longrightarrow> decisions l' = decisions l"
  "renew_harness now epoch nonce lease l = Inr (h, l') \<Longrightarrow> decisions l' = decisions l"
  "request_harness_shutdown epoch nonce l = Inr (h, l') \<Longrightarrow> decisions l' = decisions l"
  "arm_harness_refresh_fence now l = Inr (ho, l') \<Longrightarrow> decisions l' = decisions l"
  by (auto simp: acquire_harness_def renew_harness_def request_harness_shutdown_def arm_harness_refresh_fence_def
      bind_res_Inr_iff Let_def)

lemma issue_decisions:
  "issue_attempt_capability now i g a schema ws backend token req lease l = Inr (c, l') \<Longrightarrow> decisions l' = decisions l"
  by (auto simp: issue_attempt_capability_def bind_res_Inr_iff Let_def split: option.splits if_splits)

lemma liveness_decisions:
  "bind_worker_liveness now i epoch g a pid birth token lease l = Inr (w, l') \<Longrightarrow> decisions l' = decisions l"
  "renew_worker_liveness E now i g a token lease eo l = Inr (w, l') \<Longrightarrow> decisions l' = decisions l"
  by (auto simp: bind_worker_liveness_def renew_worker_liveness_def bind_res_Inr_iff Let_def split: option.splits)

lemma thread_decisions:
  "bind_worker_thread E now i epoch g a token thread l = Inr (r, l') \<Longrightarrow> decisions l' = decisions l"
  "adopt_live_worker now i epoch pid birth nonce l = Inr (r, l') \<Longrightarrow> decisions l' = decisions l"
  by (auto simp: bind_worker_thread_def adopt_live_worker_def bind_res_Inr_iff returning_Inr split: option.splits)

lemma authorize_decisions: "authorize_successor now s t l = Inr (a, l') \<Longrightarrow> decisions l' = decisions l"
  by (auto simp: authorize_successor_def bind_res_Inr_iff Let_def split: option.splits)

lemma recover_decisions: "recover_queue_dispatch now i epoch keep l = Inr (r, l') \<Longrightarrow> decisions l' = decisions l"
  by (auto simp: recover_queue_dispatch_def bind_res_Inr_iff Let_def returning_Inr split: if_splits)

lemma submit_decisions: "submit_in_transaction E now i g a token raw status l = Inr (r, l') \<Longrightarrow> decisions l' = decisions l"
  by (erule submit_cases) auto

lemma bind_integrity_decisions: "bind_terminal_integrity i d l = Inr l' \<Longrightarrow> decisions l' = decisions l"
  using bind_integrity_rows by blast

lemma insert_decisions:
  "insert_successor_out so l = Inr l' \<Longrightarrow> decisions l' = decisions l" "insert_notification n l = Inr l' \<Longrightarrow> decisions l' = decisions l"
  "insert_wake w l = Inr l' \<Longrightarrow> decisions l' = decisions l" "insert_generation g l = Inr l' \<Longrightarrow> decisions l' = decisions l"
  by (auto simp: insert_successor_out_def insert_notification_def insert_wake_def insert_generation_def bind_res_Inr_iff)

lemma notification_decisions: "record_notification_attempt now i task d st l = Inr (n, l') \<Longrightarrow> decisions l' = decisions l"
  by (auto simp: record_notification_attempt_def bind_res_Inr_iff Let_def split: option.splits if_splits dest!: insert_decisions(2))

lemma enqueue_decisions: "enqueue_in_transaction E now a d l = Inr (q, l') \<Longrightarrow> decisions l' = decisions l"
  by (auto simp: enqueue_in_transaction_def insert_queue_def Let_def bind_res_Inr_iff split: option.splits)

lemma consume_decisions:
  assumes "consume_retry E now i f strat prior req q r l = Inr (x, l')"
  shows "decisions l' = decisions l"
  using assms unfolding consume_retry_def bind_res_Inr_iff Let_def return_retry_Inr by (elim exE conjE) (simp split: if_splits)

lemma retry_failure_decisions: "record_retry_failure E now i f prior req att l = Inr (x, l') \<Longrightarrow> decisions l' = decisions l"
  by (erule retry_failure_cases) (auto simp: demand_attention_def dest: consume_decisions)

lemma exit_decisions: "apply_exit_retry_policy E now i st f thread amb l = Inr l' \<Longrightarrow> decisions l' = decisions l"
  by (auto simp: apply_exit_retry_policy_def bind_res_Inr_iff exit_retry_def exit_attention_def Let_def split: option.splits if_splits)

lemma mark_exit_decisions:
  assumes "mark_worker_exit E now i pid birth code cl l = Inr (u, l')"
  shows "decisions l' = decisions l"
proof -
  note body = assms(1) [unfolded mark_worker_exit_def bind_res_Inr_iff]
  from body obtain w q where wq: "lookup_by l_dispatch i (liveness l) = Some w" "lookup_by q_dispatch i (queue l) = Some q"
    by (auto split: option.splits)
  from body wq consider "decisions l' = decisions l"
    | f thread amb label tr r where "apply_exit_retry_policy E now i (q_state q) f thread amb
        (arm_inspection now i label code tr r (record_exit now i l)) = Inr l'"
    by (auto simp: bind_res_Inr_iff Let_def split: option.splits if_splits)
  then show ?thesis by cases (auto simp: arm_inspection_def Let_def dest: exit_decisions)
qed

lemma configure_decisions: "configure_recovery i env prof a b c d l = Inr (r, l') \<Longrightarrow> decisions l' = decisions l"
  unfolding configure_recovery_def by (auto simp: bind_res_Inr_iff return_recovery_Inr split: option.splits)

lemma inspection_decisions: "record_recovery_inspection E now i kind insp req due att l = Inr (r, l') \<Longrightarrow> decisions l' = decisions l"
  by (erule inspection_cases) (auto simp: settle_inspection_def Let_def)

lemma attention_decisions: "begin_attention now i reason failure l = Inr (b, l') \<Longrightarrow> decisions l' = decisions l"
  by (auto simp: begin_attention_def bind_res_Inr_iff attention_now_def Let_def split: option.splits if_splits)

lemma require_attention_decisions:
  assumes "mark_human_attention_required E now i reason failure l = Inr (u, l')"
  shows "decisions l' = decisions l"
  using assms by (rule attention_Inr) (auto dest!: attention_decisions inspection_decisions)

lemma begin_inspection_decisions: "begin_recovery_inspection now i epoch current l = Inr (r, l') \<Longrightarrow> decisions l' = decisions l"
  by (auto simp: begin_recovery_inspection_def bind_res_Inr_iff Let_def returning_Inr split: option.splits)

lemma continuation_decisions: "begin_recovery_continuation now i epoch nonce current l = Inr (r, l') \<Longrightarrow> decisions l' = decisions l"
  by (erule continuation_cases) (auto simp: exhausted_def continue_row_def Let_def)

section \<open>The ids of decisions\<close>

text \<open>The lineage of a decision is its id behind a prefix of eight characters, and has at most 256.\<close>

definition ids_fit :: "ledger \<Rightarrow> bool" where
  "ids_fit l \<longleftrightarrow> (\<forall>d\<in>set (decisions l). length (d_id d) \<le> 248)"

lemma ids_fit_same: "map d_id (decisions l') = map d_id (decisions l) \<Longrightarrow> ids_fit l \<Longrightarrow> ids_fit l'"
proof -
  assume same: "map d_id (decisions l') = map d_id (decisions l)" and "ids_fit l"
  then have "\<forall>i\<in>set (map d_id (decisions l)). length i \<le> 248" by (simp add: ids_fit_def)
  then have "\<forall>i\<in>set (map d_id (decisions l')). length i \<le> 248" unfolding same .
  then show "ids_fit l'" by (simp add: ids_fit_def)
qed

lemma ids_fit_eq: "decisions l' = decisions l \<Longrightarrow> ids_fit l \<Longrightarrow> ids_fit l'"
  by (simp add: ids_fit_def)

lemma ids_fit_updated: "decisions l' = update_where P f (decisions l) \<Longrightarrow> (\<And>d. d_id (f d) = d_id d) \<Longrightarrow> ids_fit l \<Longrightarrow> ids_fit l'"
  by (rule ids_fit_same) (simp add: map_update_where)

lemma ensure_fits:
  assumes "ensure_controller_decision i k n dg src t ws st l = Inr (d, l')" "ids_fit l"
  shows "ids_fit l'"
proof -
  from assms(1) obtain delivery where "wake_delivery_id i k n = Inr delivery"
    by (auto simp: ensure_controller_decision_def bind_res_Inr_iff)
  with assms(1) have "l' = l \<or> (\<exists>s x g l1. insert_decision s x l = Inr l1 \<and> insert_generation g l1 = Inr l'
      \<and> g_lineage g = lit ''lineage/'' @ d_id x)"
    by (cases "decision_id_of delivery \<in> d_id ` set (decisions l)")
      (simp_all add: ensure_controller_decision_def bind_res_Inr_iff Let_def del: imageE, force)
  then show ?thesis
  proof (elim disjE exE conjE)
    fix s x g l1 assume o: "insert_decision s x l = Inr l1" "insert_generation g l1 = Inr l'" "g_lineage g = lit ''lineage/'' @ d_id x"
    from o(2,3) have "length (d_id x) \<le> 248" by (auto simp: insert_generation_def bind_res_Inr_iff lit_def)
    moreover from o(1,2) have "decisions l' = decisions l @ [x]"
      by (auto simp: insert_decision_def insert_generation_def bind_res_Inr_iff)
    ultimately show ?thesis using assms(2) by (simp add: ids_fit_def)
  qed (use assms(2) in simp)
qed

lemma cancel_row_fits: "cancel_queue_row now epoch retain q l = Inr (r, l') \<Longrightarrow> ids_fit l \<Longrightarrow> ids_fit l'"
proof -
  assume "cancel_queue_row now epoch retain q l = Inr (r, l')" and fit: "ids_fit l"
  then have "decisions l' = decisions l \<or> (\<exists>P. decisions l' = update_where P
      (\<lambda>d. d\<lparr>d_state := Superseded, d_superseded := Some now, d_claim_expires := None, d_attention := None\<rparr>) (decisions l))"
    by (auto simp: cancel_queue_row_def bind_res_Inr_iff Let_def returning_Inr retire_checkpoints_def split: if_splits option.splits)
  with fit show ?thesis by (auto intro: ids_fit_eq elim!: ids_fit_updated)
qed

lemma cancel_fits: "cancel_queue_dispatch now i epoch l = Inr (r, l') \<Longrightarrow> ids_fit l \<Longrightarrow> ids_fit l'"
  by (auto simp: cancel_queue_dispatch_def bind_res_Inr_iff dest: cancel_row_fits)

lemma acknowledge_fits:
  assumes "acknowledge_worker_cancellation_exit now i action pid birth code l = Inr (r, l')" "ids_fit l"
  shows "ids_fit l'"
proof -
  from assms(1) have "l' = l \<or> (\<exists>q l1. decisions l1 = decisions l \<and> cancel_queue_row now None True q l1 = Inr (r, l'))"
    by (auto simp: acknowledge_worker_cancellation_exit_def bind_res_Inr_iff Let_def split: option.splits if_splits;
        (rule disjI2 exI conjI | assumption | simp)+)
  then show ?thesis using assms(2) cancel_row_fits ids_fit_eq by blast
qed

lemma claim_fits: "claim_queue_dispatch now epoch nonce l = Inr (r, l') \<Longrightarrow> ids_fit l \<Longrightarrow> ids_fit l'"
  by (auto simp: claim_queue_dispatch_def bind_res_Inr_iff Let_def split: option.splits if_splits intro: ids_fit_eq cancel_row_fits)

lemma set_state_fits: "set_queue_state now i st epoch l = Inr (r, l') \<Longrightarrow> ids_fit l \<Longrightarrow> ids_fit l'"
  by (auto simp: set_queue_state_def bind_res_Inr_iff returning_Inr split: if_splits intro: ids_fit_eq cancel_fits)

lemma announce_fits:
  assumes "announce_terminal E now q ids n l = Inr l'" "ids_fit l"
  shows "ids_fit l'"
  using assms(1)
proof (rule announce_parts)
  fix l1 l2 so nt d l3 w dg source ws
  assume o: "insert_successor_out so l = Inr l1" "insert_notification nt l1 = Inr l2" "insert_wake w l3 = Inr l'"
    and e: "ensure_controller_decision (q_dispatch q) Terminal 1 dg source (now + DECISION_WINDOW) ws (terminal_state q)
       (close_checkpoints now (q_dispatch q) l2) = Inr (d, l3)"
  have "map d_id (decisions (close_checkpoints now (q_dispatch q) l2)) = map d_id (decisions l)"
    using o by (simp add: close_checkpoints_def Let_def map_update_where insert_decisions)
  from ensure_fits [OF e ids_fit_same [OF this assms(2)]] show ?thesis using insert_decisions(3) [OF o(3)] by (rule ids_fit_eq [rotated])
qed

lemma finalize_fits: "finalize_in_transaction E now i payload notify l = Inr (r, l') \<Longrightarrow> ids_fit l \<Longrightarrow> ids_fit l'"
  by (auto simp: finalize_in_transaction_def bind_res_Inr_iff Let_def returning_Inr split: if_splits
      elim!: announce_fits intro: ids_fit_eq [of _ l])

lemma commit_fits:
  assumes "commit_in_transaction E now i g a token raw status l = Inr (r, l')" "ids_fit l"
  shows "ids_fit l'"
proof -
  from assms(1) obtain r1 l1 l2 where s: "submit_in_transaction E now i g a token raw status l = Inr (r1, l1)"
    and b: "bind_terminal_integrity i (sha256 E raw) l1 = Inr l2"
    and f: "finalize_in_transaction E now i [] None (reset_retry i l2) = Inr (r, l')"
    by (auto simp: commit_in_transaction_def bind_res_Inr_iff)
  have "decisions (reset_retry i l2) = decisions l"
    by (simp add: bind_integrity_decisions [OF b] submit_decisions [OF s])
  from finalize_fits [OF f ids_fit_eq [OF this assms(2)]] show ?thesis .
qed

lemma retained_fits:
  assumes "retained_in_transaction E now i g a token raw status l = Inr (r, l')" "ids_fit l"
  shows "ids_fit l'"
  using assms(1)
proof (rule retained_commits)
  assume "commit_in_transaction E now i g a token raw status (extend_capability i g a (now + CAPABILITY_MIN) l) = Inr (r, l')"
  then show ?thesis by (rule commit_fits) (use assms(2) in \<open>simp add: ids_fit_eq\<close>)
qed

lemma ingest_fits:
  assumes "ingest_in_transaction E now i raw status l = Inr (r, l')" "ids_fit l"
  shows "ids_fit l'"
proof -
  from assms(1) have "decisions l' = decisions l \<or> (\<exists>l2. decisions l2 = decisions l \<and> finalize_in_transaction E now i [] None l2 = Inr (r, l'))"
    by (auto simp: ingest_in_transaction_def bind_res_Inr_iff Let_def split: if_splits dest!: bind_integrity_decisions)
  then show ?thesis using assms(2) finalize_fits ids_fit_eq by blast
qed

lemma claim_checkpoint_fits:
  assumes "claim_due_checkpoint now epoch current l = Inr (wo, l')" "ids_fit l"
  shows "ids_fit l'"
proof (cases "due_checkpoints l current")
  case Nil
  with assms show ?thesis by (simp add: claim_due_checkpoint_def bind_res_Inr_iff)
next
  case (Cons p rest)
  obtain q b where p: "p = (q, b)" by (cases p)
  with Cons assms(1) obtain n t d l1 w where
    e: "ensure_controller_decision (q_dispatch q) Checkpoint n None (b_source_thread b) t
      (if b_source_thread b = None then Wake_Not_Applicable else Wake_Pending) (q_state q) (disarm (q_dispatch q) l) = Inr (d, l1)"
    and w: "insert_wake w l1 = Inr l'"
    by (auto simp: claim_due_checkpoint_def bind_res_Inr_iff Let_def)
  from ensure_fits [OF e] ids_fit_eq [OF _ assms(2)] have "ids_fit l1" by simp
  then show ?thesis by (rule ids_fit_eq [OF insert_decisions(3) [OF w]])
qed

lemma rearm_decisions: "rearm_checkpoint now i seconds l = Inr (b, l') \<Longrightarrow> decisions l' = decisions l"
  unfolding rearm_checkpoint_def by (auto simp: bind_res_Inr_iff Let_def split: option.splits)

lemma update_wakes_decisions: "update_wakes P f l = Inr l' \<Longrightarrow> decisions l' = decisions l"
  by (auto simp: update_wakes_def bind_res_Inr_iff)

lemma claim_wake_decisions: "claim_wake i l = Inr (w, l') \<Longrightarrow> decisions l' = decisions l"
  by (auto simp: claim_wake_def bind_res_Inr_iff returning_wake_Inr split: option.splits if_splits dest: update_wakes_decisions)

lemma await_ids: "d_id (await_claim d) = d_id d" "d_id (await_claim_until t d) = d_id d"
  by (simp_all add: await_claim_def await_claim_until_def)

lemma reconcile_ids:
  "reconcile_inflight_wakes l = Inr (u, l') \<Longrightarrow> map d_id (decisions l') = map d_id (decisions l)"
  "reconcile_exhausted_wake_notifications now l = Inr (u, l') \<Longrightarrow> map d_id (decisions l') = map d_id (decisions l)"
  "reconcile_wake_delivery i turn l = Inr (w, l') \<Longrightarrow> map d_id (decisions l') = map d_id (decisions l)"
  by (auto simp: reconcile_inflight_wakes_def reconcile_exhausted_wake_notifications_def reconcile_wake_delivery_def
      bind_res_Inr_iff returning_wake_Inr map_update_where await_ids split: option.splits if_splits dest!: update_wakes_decisions)

lemma delivery_ids:
  "deliver_wake i w turn l = Inr l' \<Longrightarrow> map d_id (decisions l') = map d_id (decisions l)"
  "lose_wake i w turn l = Inr l' \<Longrightarrow> map d_id (decisions l') = map d_id (decisions l)"
  "fail_wake now i w turn l = Inr l' \<Longrightarrow> map d_id (decisions l') = map d_id (decisions l)"
  by (auto simp: deliver_wake_def lose_wake_def fail_wake_def bind_res_Inr_iff Let_def map_update_where await_ids
      split: if_splits dest!: update_wakes_decisions)

lemma record_delivery_ids: "record_wake_delivery now i st turn l = Inr (w, l') \<Longrightarrow> map d_id (decisions l') = map d_id (decisions l)"
  unfolding record_wake_delivery_def
  by (auto simp: bind_res_Inr_iff returning_wake_Inr split: option.splits if_splits dest: delivery_ids)

lemma wake_fits:
  "reconcile_inflight_wakes l = Inr (u, l') \<Longrightarrow> ids_fit l \<Longrightarrow> ids_fit l'"
  "reconcile_exhausted_wake_notifications now l = Inr (u, l') \<Longrightarrow> ids_fit l \<Longrightarrow> ids_fit l'"
  "reconcile_wake_delivery i turn l = Inr (w, l') \<Longrightarrow> ids_fit l \<Longrightarrow> ids_fit l'"
  "record_wake_delivery now i st x l = Inr (w, l') \<Longrightarrow> ids_fit l \<Longrightarrow> ids_fit l'"
  by (metis reconcile_ids record_delivery_ids ids_fit_same)+

section \<open>Runs\<close>

lemma attempt_fits:
  assumes "attempt_transaction E now r l = Inr (u, l')" "ids_fit l"
  shows "ids_fit l'"
  using assms
  by (cases r) (auto simp: transaction_Inr intro: cancel_fits acknowledge_fits claim_fits set_state_fits ids_fit_eq
      dest: harness_decisions issue_decisions liveness_decisions thread_decisions authorize_decisions recover_decisions)

lemma result_fits: "result_transaction E now r l = Inr (u, l') \<Longrightarrow> ids_fit l \<Longrightarrow> ids_fit l'"
  by (cases r) (auto simp: transaction_Inr intro: ids_fit_eq commit_fits retained_fits ingest_fits dest: submit_decisions)

lemmas unmarked_fits = require_attention_decisions mark_exit_decisions enqueue_decisions configure_decisions claim_wake_decisions
  inspection_decisions begin_inspection_decisions continuation_decisions notification_decisions rearm_decisions

lemma recovery_fits:
  assumes "recovery_transaction E now r l = Inr (u, l')" "ids_fit l"
  shows "ids_fit l'"
proof (cases r)
  case (Retry_Failure i f prior req att)
  with assms(1) obtain x where "record_retry_failure E now i f prior req att l = Inr (x, l')" by (auto simp: transaction_Inr)
  from ids_fit_eq [OF retry_failure_decisions [OF this] assms(2)] show ?thesis .
qed (use assms in \<open>auto simp: transaction_Inr dest: unmarked_fits [THEN ids_fit_eq] finalize_fits wake_fits claim_checkpoint_fits\<close>)

lemma exec_fits:
  assumes "exec_body now op l = Inr (u, l')" "ids_fit l"
  shows "ids_fit l'"
proof (cases "\<exists>k. op = Cancel_Execution k")
  case True
  then obtain k where "op = Cancel_Execution k" ..
  with assms(1) obtain x where "cancel_execution now k l = Inr (x, l')" by (auto simp: forget_Inr)
  then show ?thesis
  proof (rule cancel_execution_parts)
    fix q q' l1 assume c: "cancel_queue_row now None False q l = Inr (q', l1)" "queue_part l' = queue_part l1"
    from c(2) have "decisions l' = decisions l1" by (simp add: queue_part_def)
    then show ?thesis by (rule ids_fit_eq) (rule cancel_row_fits [OF c(1) assms(2)])
  qed (use assms(2) in \<open>simp add: queue_part_def ids_fit_eq\<close>)
next
  case False
  with exec_body_frame [OF assms(1)] show ?thesis by (intro ids_fit_eq [OF _ assms(2)]) (simp add: queue_part_def)
qed

lemma request_fits:
  assumes "request E r l = Inr (u, l')" "ids_fit l"
  shows "ids_fit l'"
proof (cases "snd r")
  case (Inl e)
  with assms exec_fits show ?thesis by (auto simp: request_def atomically_Inr)
next
  case (Inr q)
  with assms(1) have "queue_transaction E (fst r) q l = Inr (u, l')" by (simp add: request_def)
  then show ?thesis by (cases q) (use assms(2) in \<open>auto dest: attempt_fits result_fits recovery_fits\<close>)
qed

interpretation name_machine: guarded_machine "ledger_step E" ids_fit "\<lambda>l l'. True"
proof
  show "ids_fit (ledger_step E l r)" if "ids_fit l" for l r
  proof (rule ledger_step_cases [of E l r])
    fix u assume "request E r l = Inr (u, ledger_step E l r)"
    then show ?thesis using that by (rule request_fits)
  qed (use that in simp)
qed simp_all

section \<open>Rows that end\<close>

text \<open>A row that ended with a result has a terminal wake, whose decision has an id longer than the name of the row.\<close>

lemma terminal_name_length: "wake_delivery_id i Terminal n = Inr t \<Longrightarrow> length i + 14 \<le> length t"
  by (auto simp: wake_delivery_id_def Let_def bind_res_Inr_iff lit_def split: if_splits)

lemma ended_name_fits:
  assumes "validate_rows E l = Inr ()" "ids_fit l" "q \<in> set (queue l)" "q_state q \<in> {Queue_Completed, Queue_Failed}"
  shows "length (q_dispatch q) \<le> 225"
proof -
  from assms(1) have v: "validate_queue E l = Inr ()" by (simp add: validate_rows_iff)
  from v have cw: "check_wake l w = Inr ()" if "w \<in> set (wakes l)" for w
    using that by (auto simp: validate_queue_def bind_res_Inr_iff each_res_Inr)
  from v have cd: "check_decision l d = Inr ()" if "d \<in> set (decisions l)" for d
    using that by (auto simp: validate_queue_def bind_res_Inr_iff each_res_Inr)
  from validate_queueD(5) [OF v assms(3)] assms(4)
  have "length (filter (\<lambda>w. w_kind w = Terminal) (filter (\<lambda>w. w_dispatch w = q_dispatch q) (wakes l))) = 1"
    by (auto simp: check_wakes_of_def Let_def bind_res_Inr_iff split: if_splits)
  then have "filter (\<lambda>w. w_kind w = Terminal) (filter (\<lambda>w. w_dispatch w = q_dispatch q) (wakes l)) \<noteq> []" by force
  then obtain w where w: "w \<in> set (wakes l)" "w_dispatch w = q_dispatch q" "w_kind w = Terminal"
    by (auto simp: filter_empty_conv)
  from cw [OF w(1)] w(2,3) obtain d where d: "d \<in> set (decisions l)" "d_id d = w_decision w" "d_dispatch d = q_dispatch q" "d_kind d = Terminal"
    by (auto simp: check_wake_def bind_res_Inr_iff dest: lookup_by_in split: option.splits)
  from w(1) d(2) obtain x where x: "lookup_by w_decision (d_id d) (wakes l) = Some x"
    by (cases "lookup_by w_decision (d_id d) (wakes l)") (auto simp: lookup_by_None)
  from cd [OF d(1)] x d(3,4) have "d_id d = decision_id_of (w_delivery x)" "w_dispatch x = q_dispatch q" "w_kind x = Terminal"
    by (auto simp: check_decision_def bind_res_Inr_iff)
  moreover from cw [of x] lookup_by_in [OF x] have "wake_delivery_id (w_dispatch x) (w_kind x) (w_cycle x) = Inr (w_delivery x)"
    by (auto simp: check_wake_def bind_res_Inr_iff)
  ultimately have "length (q_dispatch q) + 23 \<le> length (d_id d)"
    using terminal_name_length [of "q_dispatch q" "w_cycle x" "w_delivery x"] by (simp add: decision_id_of_def lit_def)
  with assms(2) d(1) show ?thesis by (fastforce simp: ids_fit_def)
qed

lemma terminal_id_absent:
  assumes "ids_fit l" "225 < length i"
  shows "decision_id_of (terminal_name i) \<notin> d_id ` set (decisions l)"
proof
  assume "decision_id_of (terminal_name i) \<in> d_id ` set (decisions l)"
  then obtain d where "d \<in> set (decisions l)" "d_id d = decision_id_of (terminal_name i)" by force
  with assms show False by (force simp: ids_fit_def decision_id_of_def terminal_name_def lit_def)
qed

lemma long_operation:
  assumes "queue_transaction E now op l = Inr (u, l')" "225 < length i"
    and "decision_id_of (terminal_name i) \<notin> d_id ` set (decisions l)" "lookup_by q_dispatch i (queue l) = Some q"
    and "op \<in> {Result (Commit_Result i g a token raw), Result (Retained_Result i g a token raw), Result (Ingest_Result i raw),
               Recovery (Finalize_Result i payload task)}"
  shows "q_state q \<in> {Queue_Completed, Queue_Failed, Queue_Cancelled}"
proof -
  note long = assms(2-4)
  from assms(5,1) consider status r where "commit_in_transaction E now i g a token raw status l = Inr (r, l')"
    | status r where "retained_in_transaction E now i g a token raw status l = Inr (r, l')"
    | status r where "ingest_in_transaction E now i raw status l = Inr (r, l')"
    | r where "finalize_in_transaction E now i payload task l = Inr (r, l')"
    by (auto simp: transaction_Inr)
  then show ?thesis
  proof cases
    case (2 status r)
    then show ?thesis
    proof (rule retained_commits)
      assume c: "commit_in_transaction E now i g a token raw status (extend_capability i g a (now + CAPABILITY_MIN) l) = Inr (r, l')"
      show ?thesis by (rule long_commit [OF c assms(2)]) (use assms(3,4) in \<open>simp_all add: extend_capability_def\<close>)
    qed
  qed (rule long_commit [OF _ long] long_ingest [OF _ long] long_finalize [OF _ long]; assumption)+
qed

text \<open>
  C23. A dispatch with a name of more than 225 characters never ends with a result: from any valid ledger whose
  decision ids are short enough for their lineage (the empty one has none) and over any run, such a row is
  never completed or failed, whatever is submitted for it, and as long as it is not cancelled each of the four operations that
  would end it (commit, retained commit, ingestion, finalization) raises.  Only a cancellation can end
  it.  The lineage of its terminal decision would not fit its column; the name itself, the queue and every
  operation before the end allow far more.
\<close>

theorem long_dispatches_never_finish:
  assumes "ledger_inv E l0" "\<forall>d\<in>set (decisions l0). length (d_id d) \<le> 248"
    and "lookup_by q_dispatch i (queue (ledger_run E rs l0)) = Some q" "225 < length i"
  shows "q_state q \<notin> {Queue_Completed, Queue_Failed}
    \<and> (q_state q \<noteq> Queue_Cancelled \<longrightarrow> (\<forall>now g a token raw payload task.
         \<forall>op\<in>{Result (Commit_Result i g a token raw), Result (Retained_Result i g a token raw), Result (Ingest_Result i raw),
               Recovery (Finalize_Result i payload task)}. \<exists>e. queue_transaction E now op (ledger_run E rs l0) = Inl e))"
proof (intro conjI impI allI ballI)
  let ?l = "ledger_run E rs l0"
  have fit: "ids_fit ?l"
    unfolding ledger_run_def by (rule name_machine.run_inv) (use assms(2) in \<open>simp add: ids_fit_def\<close>)
  have "ledger_inv E ?l" using ledger_machine.run_inv [OF assms(1)] unfolding ledger_run_def .
  then have "validate_rows E ?l = Inr ()" by (simp add: ledger_inv_def queue_inv_def)
  with ended_name_fits [OF this fit] lookup_by_in [OF assms(3)] assms(4) show open_row: "q_state q \<notin> {Queue_Completed, Queue_Failed}"
    by force
  fix now g a token raw payload task op
  assume "q_state q \<noteq> Queue_Cancelled" and op: "op \<in> {Result (Commit_Result i g a token raw), Result (Retained_Result i g a token raw),
      Result (Ingest_Result i raw), Recovery (Finalize_Result i payload task)}"
  with open_row long_operation [OF _ assms(4) terminal_id_absent [OF fit assms(4)] assms(3) op, of E now]
  show "\<exists>e. queue_transaction E now op ?l = Inl e"
    by (cases "queue_transaction E now op ?l") auto
qed

text \<open>A valid ledger with one running dispatch whose name has 245 characters.\<close>

definition long_part :: pystr where
  "long_part = replicate 120 97"

definition long_id :: pystr where
  "long_id = long_part @ slash # lit ''a'' @ slash # long_part @ slash # lit ''1''"

definition sample_long :: ledger where
  "sample_long = empty_ledger\<lparr>
     runs := [\<lparr>run_id = long_part, run_created = 0, run_closed = None, run_program = None\<rparr>],
     milestones := [\<lparr>ms_key = MKey long_part (lit ''a''), ms_state = PLANNED, ms_created = 0, ms_updated = 0\<rparr>],
     dispatches := [\<lparr>dp_id = long_id, dp_key = MKey long_part (lit ''a''), dp_role = long_part, dp_generation = 1, dp_claimed = 0\<rparr>],
     queue := [(sample_queue_row ''v'' Running 1)\<lparr>q_dispatch := long_id, q_key := MKey long_part (lit ''a''), q_role := long_part\<rparr>],
     bindings := [(sample_binding ''v'')\<lparr>b_dispatch := long_id\<rparr>],
     capabilities := [(sample_capability ''v'' None)\<lparr>c_dispatch := long_id\<rparr>],
     retries := [new_retry_row long_id],
     recoveries := [(sample_recovery ''v'')\<lparr>rs_dispatch := long_id\<rparr>],
     harness := Some sample_harness\<rparr>"

lemma long_part_facts: "length long_part = 120" "id_pattern long_part" "long_part \<noteq> executor_role"
proof -
  have eq: "long_part = 97 # replicate 119 97"
    by (simp only: long_part_def replicate_Suc [symmetric] numeral_eq_Suc pred_numeral_simps BitM.simps)
  show "length long_part = 120" "id_pattern long_part" "long_part \<noteq> executor_role"
    by (simp_all add: eq id_pattern_def ascii_alnum_def list_all_iff executor_role_def lit_def)
qed

lemma long_id_parts: "dispatch_id_from_parts (long_part, lit ''a'', long_part, 1) = Inr long_id"
proof -
  have ok: "validated_identifier label long_part = Inr long_part" "validated_identifier label (lit ''a'') = Inr (lit ''a'')" for label
    using long_part_facts by (simp_all add: validated_identifier_def id_pattern_def ascii_alnum_def lit_def)
  from identifier_no_slash [OF ok(1)] have "slash \<notin> set long_part" by simp
  then have "split_on slash long_id = [long_part, lit ''a'', long_part, lit ''1'']"
    by (simp add: long_id_def split_on_append split_on_none lit_def) (simp add: slash_def)
  then have "dispatch_id long_id = Inr long_id"
    using ok sample_one(2) by (simp add: dispatch_id_def dispatch_parts_of_def lit_def)
  then show ?thesis using ok sample_one(1) by (simp add: dispatch_id_from_parts_def generation_of_int_def long_id_def)
qed

lemma sample_long_inv: "ledger_inv sample_env sample_long"
proof -
  have "validate_workflow sample_long = Inr ()"
    using long_id_parts long_part_facts(3)
    by (simp add: validate_workflow_def bind_res_Inr_iff each_res_Inr check_orphans_def check_duplicates_def check_milestone_def history_def
        check_dispatch_def check_claim_count_def claim_count_def sample_long_def empty_ledger_def)
  then have "machine_inv sample_long"
    by (simp add: machine_inv_def exec_inv_def own_app_def sql_keys_def exclusive_def) (simp add: sample_long_def empty_ledger_def)
  moreover have "validate_queue sample_env sample_long = Inr ()"
    by (simp add: sample_check_defs sample_queue_defs sample_long_def)
  moreover have "raw_backed sample_long"
    by (simp add: raw_backed_def backed_def sample_long_def sample_queue_defs is_capability_def)
  moreover have "distinct (map q_dispatch (queue sample_long))" by (simp add: sample_long_def)
  ultimately show ?thesis by (simp add: ledger_inv_def queue_inv_def validate_rows_iff machine_inv_def exec_inv_def)
qed

theorem long_dispatches_never_finish_witness:
  "ledger_inv sample_env sample_long \<and> length long_id = 245
   \<and> (\<exists>e. queue_transaction sample_env 10 (Result (Commit_Result long_id 1 1 (lit ''token'') (lit ''done''))) sample_long = Inl e)
   \<and> queue_transaction sample_env 10 (Result (Commit_Result (sample_id ''v'') 1 1 (lit ''token'') (lit ''done''))) sample_queue
       = Inr ((), sample_committed)"
proof -
  let ?q = "(sample_queue_row ''v'' Running 1)\<lparr>q_dispatch := long_id, q_key := MKey long_part (lit ''a''), q_role := long_part\<rparr>"
  have len: "length long_id = 245" using long_part_facts(1) by (simp add: long_id_def lit_def)
  have "\<forall>d\<in>set (decisions sample_long). length (d_id d) \<le> 248" by (simp add: sample_long_def empty_ledger_def)
  moreover have "lookup_by q_dispatch long_id (queue (ledger_run sample_env [] sample_long)) = Some ?q"
    by (simp add: ledger_run_def lookup_by_def select_one_def sample_long_def)
  ultimately have "\<forall>now g a token raw payload task.
      \<forall>op\<in>{Result (Commit_Result long_id g a token raw), Result (Retained_Result long_id g a token raw), Result (Ingest_Result long_id raw),
        Recovery (Finalize_Result long_id payload task)}. \<exists>e. queue_transaction sample_env now op (ledger_run sample_env [] sample_long) = Inl e"
    using long_dispatches_never_finish [OF sample_long_inv, of long_id "[]" ?q] len by (simp add: sample_queue_row_def)
  then have "\<exists>e. queue_transaction sample_env 10 (Result (Commit_Result long_id 1 1 (lit ''token'') (lit ''done''))) sample_long = Inl e"
    by (simp add: ledger_run_def)
  moreover have "queue_transaction sample_env 10 (Result (Commit_Result (sample_id ''v'') 1 1 (lit ''token'') (lit ''done''))) sample_queue
      = Inr ((), sample_committed)"
    using sample_commit_run(1) by (simp add: request_def sample_commit_def)
  ultimately show ?thesis using sample_long_inv len by simp
qed

end
