(* ===== verification/Request_Guards.thy ===== *)
theory Request_Guards
  imports Queue_Sample
begin

text \<open>
  The guards of the workflow operations against the whole row validation that closes a transaction: which
  requests the modelled checks of \<open>_validate_rows\<close> refuse although the guards of the operation let them through.
\<close>

section \<open>What the operations leave alone\<close>

lemma runs_helpers [simp]:
  "runs (update_execution k f l) = runs l" "runs (update_integrity k g l) = runs l" "runs (set_milestone_state now k st l) = runs l"
  by (simp_all add: update_execution_def update_integrity_def set_milestone_state_def)

lemma move_milestone_runs: "move_milestone now k s t kind why d l = Inr (e, l') \<Longrightarrow> runs l' = runs l"
  by (auto simp: move_milestone_def append_event_def bind_res_Inr_iff Let_def)

lemma create_milestone_runs: "create_milestone now r m l = Inr (x2, l') \<Longrightarrow> runs l' = runs l"
  by (auto simp: create_milestone_def bind_res_Inr_iff Let_def split: option.splits if_splits)

lemma claim_dispatch_runs: "claim_dispatch now r m role g l = Inr (x, l') \<Longrightarrow> runs l' = runs l"
  by (auto simp: claim_dispatch_def bind_res_Inr_iff Let_def split: option.splits prod.splits dest!: move_milestone_runs)

lemma transition_runs: "transition now k t s why l = Inr (x, l') \<Longrightarrow> runs l' = runs l"
  unfolding transition_def bind_res_Inr_iff by (elim exE conjE) (rule move_milestone_runs)

lemma plan_runs: "plan_execution now k p l = Inr (x, l') \<Longrightarrow> runs l' = runs l"
  by (auto simp: plan_execution_def bind_res_Inr_iff Let_def split: option.splits)

lemma lease_runs: "acquire_workspace_lease now k w l = Inr (x, l') \<Longrightarrow> runs l' = runs l"
  by (auto simp: acquire_workspace_lease_def settle_lease_def bind_res_Inr_iff Let_def split: option.splits if_splits)

lemma profile_runs:
  "record_native_profile now k p l = Inr (x, l') \<Longrightarrow> runs l' = runs l"
  "record_git_authority_before now k g l = Inr (x, l') \<Longrightarrow> runs l' = runs l"
  by (auto simp: record_native_profile_def record_git_authority_before_def body_iff Let_def
      split: option.splits)

lemma rebind_runs:
  assumes "rebind_native_profile_for_resume now k pr c a l = Inr (x, l')"
  shows "runs l' = runs l"
proof -
  from assms obtain i where "lookup_by in_key k (integrity l) = Some i"
    by (auto simp: rebind_native_profile_for_resume_def body_iff)
  with assms show ?thesis
    by (cases "meet (in_permission i) a") (auto simp: rebind_native_profile_for_resume_def body_iff Let_def)
qed

lemma thread_ops_runs:
  "record_thread_starting now k l = Inr (x, l') \<Longrightarrow> runs l' = runs l"
  "record_pre_identity_uncertainty now k l = Inr (x, l') \<Longrightarrow> runs l' = runs l"
  "reject_thread_start_authorization now k l = Inr (x, l') \<Longrightarrow> runs l' = runs l"
  by (auto simp: record_thread_starting_def record_pre_identity_uncertainty_def reject_thread_start_authorization_def body_iff
      split: if_splits)

lemma thread_identity_runs: "record_thread_identity now k t l = Inr (x, l') \<Longrightarrow> runs l' = runs l"
  by (auto simp: record_thread_identity_def body_iff split: option.splits prod.splits dest!: move_milestone_runs)

lemma turn_ops_runs:
  "record_turn_starting now k l = Inr (x, l') \<Longrightarrow> runs l' = runs l"
  "reject_turn_authorization now k l = Inr (x, l') \<Longrightarrow> runs l' = runs l"
  "record_turn now k ob l = Inr (x, l') \<Longrightarrow> runs l' = runs l"
  by (auto simp: record_turn_starting_def reject_turn_authorization_def record_turn_def body_iff split: option.splits if_splits)

lemma terminal_runs: "record_terminal_execution now k oc l = Inr (x, l') \<Longrightarrow> runs l' = runs l"
  by (auto simp: record_terminal_execution_def body_iff Let_def split: prod.splits dest!: move_milestone_runs)

lemma cancel_runs: "cancel_execution now k l = Inr (x, l') \<Longrightarrow> runs l' = runs l"
proof (cases "select_one (\<lambda>q. q_key q = k) (queue l)")
  case None
  assume "cancel_execution now k l = Inr (x, l')"
  with None show ?thesis
    by (auto simp: cancel_execution_def body_iff Let_def split: prod.splits if_splits dest!: move_milestone_runs)
next
  case (Some q)
  assume "cancel_execution now k l = Inr (x, l')"
  with Some have "l' = l \<or> (\<exists>q' l1. cancel_queue_row now None False q l = Inr (q', l1) \<and> runs l' = runs l1)"
    by (auto simp: cancel_execution_def body_iff Let_def split: prod.splits if_splits dest!: move_milestone_runs; fastforce)
  then show ?thesis using cancel_row_frame by (fastforce simp: workflow_part_def)
qed

lemmas exec_op_runs = create_milestone_runs claim_dispatch_runs transition_runs plan_runs lease_runs profile_runs rebind_runs thread_ops_runs
  thread_identity_runs turn_ops_runs terminal_runs cancel_runs

text \<open>The programs of the runs stay registered, and unregistered.\<close>

definition programs_kept :: "ledger \<Rightarrow> ledger \<Rightarrow> bool" where
  "programs_kept l l' \<longleftrightarrow> (\<forall>r x. lookup_by run_id r (runs l) = Some x
     \<longrightarrow> (\<exists>y. lookup_by run_id r (runs l') = Some y \<and> run_program y = run_program x))"

lemma programs_same: "runs l' = runs l \<Longrightarrow> programs_kept l l'"
  by (simp add: programs_kept_def)

lemma programs_update:
  assumes "runs l' = update_where (\<lambda>x. run_id x = r) f (runs l)" "\<And>x. run_id (f x) = run_id x" "\<And>x. run_program (f x) = run_program x"
  shows "programs_kept l l'"
  using assms by (simp add: programs_kept_def lookup_by_update)

lemma programs_run_ops:
  "create_run now r l = Inr (x, l') \<Longrightarrow> programs_kept l l'" "close_run now r l = Inr (x, l') \<Longrightarrow> programs_kept l l'"
proof -
  show "create_run now r l = Inr (x, l') \<Longrightarrow> programs_kept l l'"
    by (auto simp: create_run_def bind_res_Inr_iff Let_def programs_kept_def lookup_by_append split: option.splits if_splits)
  show "close_run now r l = Inr (x, l') \<Longrightarrow> programs_kept l l'"
    by (rule programs_update [of _ r "\<lambda>x. x\<lparr>run_closed := (case run_closed x of None \<Rightarrow> Some now | Some t \<Rightarrow> Some t)\<rparr>"])
      (auto simp: close_run_def bind_res_Inr_iff Let_def)
qed

lemma exec_body_programs: "exec_body now op l = Inr (u, l') \<Longrightarrow> programs_kept l l'"
  by (cases op) (auto simp: forget_Inr intro: programs_same programs_run_ops dest: exec_op_runs)

text \<open>The checks of the queue tables only ask the other tables for dispatches and programs that stay.\<close>

lemma repair_kept:
  assumes "programs_kept l l'" "control_repair l q"
  shows "control_repair l' q"
proof -
  from assms(2) obtain x where "lookup_by run_id (mk_run (q_key q)) (runs l) = Some x" "run_program x = None"
    by (auto simp: control_repair_def split: option.splits)
  with assms show ?thesis unfolding programs_kept_def control_repair_def by fastforce
qed

lemma lookup_by_prefix: "prefix xs ys \<Longrightarrow> lookup_by key k xs = Some x \<Longrightarrow> lookup_by key k ys = Some x"
  unfolding lookup_by_def select_one_def prefix_def by (induction xs arbitrary: ys) (auto split: if_splits)

lemma queue_checks_kept:
  assumes "validate_queue E l = Inr ()" "queue_part l' = queue_part l" "prefix (dispatches l) (dispatches l')" "programs_kept l l'"
  shows "validate_queue E l' = Inr ()"
proof -
  from assms(2) have eqs: "queue l' = queue l" "capabilities l' = capabilities l" "liveness l' = liveness l" "retries l' = retries l"
    "recoveries l' = recoveries l" "successor_outbox l' = successor_outbox l" "notifications l' = notifications l"
    "successors l' = successors l" "wakes l' = wakes l" "decisions l' = decisions l" "bindings l' = bindings l"
    "captures l' = captures l" by (simp_all add: queue_part_def)
  have same: "check_capability l' = check_capability l" "check_queue_row l' = check_queue_row l" "check_liveness l' = check_liveness l"
    "check_successor l' = check_successor l" "check_wake l' = check_wake l" "check_wakes_of l' = check_wakes_of l"
    "check_recovery l' = check_recovery l" "check_decision l' = check_decision l"
    by (rule ext; unfold check_capability_def check_queue_row_def check_successor_out_def check_liveness_def check_successor_def
        check_wake_def check_wakes_of_def check_recovery_def check_decision_def eqs; rule refl)+
  have "check_queue_identity E l' q = Inr ()" if ok: "check_queue_identity E l q = Inr ()" for q
  proof -
    from ok obtain d where d: "lookup_by dp_id (q_dispatch q) (dispatches l) = Some d"
      by (cases "lookup_by dp_id (q_dispatch q) (dispatches l)") (auto simp: check_queue_identity_def bind_res_Inr_iff)
    with lookup_by_prefix [OF assms(3) d] ok show ?thesis by (simp add: check_queue_identity_def)
  qed
  moreover have "check_capture l' t = Inr ()" if "check_capture l t = Inr ()" for t
    using that repair_kept [OF assms(4)] by (auto simp: check_capture_def eqs bind_res_Inr_iff split: option.splits)
  ultimately show ?thesis using assms(1) unfolding validate_queue_def eqs same by (auto simp: bind_res_Inr_iff each_res_Inr)
qed

section \<open>Cancellation of the queue row\<close>

definition cancelled_row :: "time \<Rightarrow> queue_row \<Rightarrow> queue_row" where
  "cancelled_row now q = q\<lparr>q_state := Queue_Cancelled, q_claim := None, q_raw := None, q_terminal := None, q_updated := now\<rparr>"

definition superseded :: "time \<Rightarrow> decision_row \<Rightarrow> decision_row" where
  "superseded now d = d\<lparr>d_state := Superseded, d_superseded := Some now, d_claim_expires := None, d_attention := None\<rparr>"

definition open_checkpoint :: "pystr \<Rightarrow> decision_row \<Rightarrow> bool" where
  "open_checkpoint i d \<longleftrightarrow> d_dispatch d = i \<and> d_kind d = Checkpoint \<and> d_state d \<notin> {Action_Committed, Acknowledged, Superseded, Legacy_Closed}"

lemma cancel_row_fields:
  assumes "cancel_queue_row now None False q l = Inr (q', l')" "q_state q \<noteq> Queue_Cancelled" and i: "i = q_dispatch q"
  shows "q_state q \<in> set active_states" "i \<notin> so_source ` set (successor_outbox l)" "i \<notin> n_dispatch ` set (notifications l)"
    "queue l' = update_where (\<lambda>r. q_dispatch r = i \<and> q_state r \<in> set active_states) (cancelled_row now) (queue l)"
    "capabilities l' = delete_where (\<lambda>c. c_dispatch c = i) (capabilities l)"
    "liveness l' = delete_where (\<lambda>w. l_dispatch w = i) (liveness l)"
    "retries l' = update_where (\<lambda>r. rp_dispatch r = i) clear_retry (retries l)"
    "recoveries l' = update_where (\<lambda>r. rs_dispatch r = i) clear_recovery (recoveries l)"
    "decisions l' = update_where (open_checkpoint i) (superseded now) (decisions l)"
    "wakes l' = delete_where (\<lambda>w. w_dispatch w = i \<and> w_kind w = Checkpoint) (wakes l)"
    "bindings l' = bindings l" "captures l' = captures l" "successors l' = successors l"
    "successor_outbox l' = successor_outbox l" "notifications l' = notifications l" "dispatches l' = dispatches l" "runs l' = runs l"
proof -
  show "q_state q \<in> set active_states"
    using assms by (cases "q_state q") (auto simp: cancel_queue_row_def check_cancellable_def bind_res_Inr_iff active_states_def)
  show "i \<notin> so_source ` set (successor_outbox l)" "i \<notin> n_dispatch ` set (notifications l)"
    using assms by (auto simp: cancel_queue_row_def check_cancellable_def bind_res_Inr_iff Let_def)
  have eqs: "(\<lambda>q. q\<lparr>q_state := Queue_Cancelled, q_claim := None, q_raw := None, q_terminal := None, q_updated := now\<rparr>) = cancelled_row now"
    "(\<lambda>d. d\<lparr>d_state := Superseded, d_superseded := Some now, d_claim_expires := None, d_attention := None\<rparr>) = superseded now"
    "(\<lambda>d. d_dispatch d = q_dispatch q \<and> d_kind d = Checkpoint \<and> d_state d \<notin> {Action_Committed, Acknowledged, Superseded, Legacy_Closed})
        = open_checkpoint (q_dispatch q)"
    by (rule ext, simp add: cancelled_row_def superseded_def open_checkpoint_def)+
  from assms(1,2) have "l' = retire_checkpoints now i
    (let l1 = unresolve_commands now i l; l2 = l1\<lparr>capabilities := delete_where (\<lambda>c. c_dispatch c = i) (capabilities l1)\<rparr>;
         l3 = l2\<lparr>liveness := delete_where (\<lambda>w. l_dispatch w = i) (liveness l2)\<rparr>;
         l4 = l3\<lparr>queue := update_where (\<lambda>q. q_dispatch q = i \<and> q_state q \<in> set active_states) (cancelled_row now) (queue l3)\<rparr>
     in l4\<lparr>retries := update_where (\<lambda>r. rp_dispatch r = i) clear_retry (retries l4),
           recoveries := update_where (\<lambda>r. rs_dispatch r = i) clear_recovery (recoveries l4)\<rparr>)"
    unfolding cancel_queue_row_def Let_def eqs by (simp add: i bind_res_Inr_iff returning_Inr)
  then show "queue l' = update_where (\<lambda>r. q_dispatch r = i \<and> q_state r \<in> set active_states) (cancelled_row now) (queue l)"
    "capabilities l' = delete_where (\<lambda>c. c_dispatch c = i) (capabilities l)"
    "liveness l' = delete_where (\<lambda>w. l_dispatch w = i) (liveness l)"
    "retries l' = update_where (\<lambda>r. rp_dispatch r = i) clear_retry (retries l)"
    "recoveries l' = update_where (\<lambda>r. rs_dispatch r = i) clear_recovery (recoveries l)"
    "decisions l' = update_where (open_checkpoint i) (superseded now) (decisions l)"
    "wakes l' = delete_where (\<lambda>w. w_dispatch w = i \<and> w_kind w = Checkpoint) (wakes l)"
    "bindings l' = bindings l" "captures l' = captures l" "successors l' = successors l"
    "successor_outbox l' = successor_outbox l" "notifications l' = notifications l" "dispatches l' = dispatches l" "runs l' = runs l"
    unfolding retire_checkpoints_def eqs(2,3) [unfolded i [symmetric]] by (simp_all add: unresolve_commands_def Let_def)
qed

lemma lookup_not_deleted:
  assumes "lookup_by key k rows = Some r" "\<not> P r"
  shows "lookup_by key k (delete_where P rows) = Some r"
  using assms unfolding lookup_by_def select_one_def delete_where_def by (induction rows) (auto split: if_splits)

lemma lookup_updated:
  assumes "\<And>r. key (f r) = key r"
  shows "lookup_by key k (update_where P f rows) = map_option (\<lambda>r. if P r then f r else r) (lookup_by key k rows)"
  unfolding lookup_by_def select_one_def update_where_def by (induction rows) (auto simp: assms)

lemma lookup_none_deleted: "lookup_by key k rows = None \<Longrightarrow> lookup_by key k (delete_where P rows) = None"
  by (auto simp: lookup_by_None set_delete_where)

text \<open>What may stand in the way: a captured workspace, a terminal wake, or a checkpoint that already has its action.\<close>

definition row_blocked :: "ledger \<Rightarrow> pystr \<Rightarrow> bool" where
  "row_blocked l i \<longleftrightarrow> i \<in> tc_dispatch ` set (captures l)
     \<or> (\<exists>w\<in>set (wakes l). w_dispatch w = i \<and> w_kind w = Terminal)
     \<or> (\<exists>d\<in>set (decisions l). open_checkpoint i d \<and> d_action d \<noteq> None)"

text \<open>All wakes of a decision have its dispatch and kind, also when two rows share the id.\<close>

lemma wakes_of_decision:
  assumes "validate_queue E l = Inr ()" "d \<in> set (decisions l)" "w \<in> set (wakes l)" "w_decision w = d_id d"
  shows "w_dispatch w = d_dispatch d" "w_kind w = d_kind d"
proof -
  from assms(1) have checks: "check_wake l w = Inr ()" "\<And>d. d \<in> set (decisions l) \<Longrightarrow> check_decision l d = Inr ()"
    using assms(3) by (auto simp: validate_queue_def bind_res_Inr_iff each_res_Inr)
  from checks(1) obtain d1 where d1: "lookup_by d_id (d_id d) (decisions l) = Some d1" "d_dispatch d1 = w_dispatch w" "d_kind d1 = w_kind w"
    using assms(4) by (auto simp: check_wake_def bind_res_Inr_iff split: option.splits)
  obtain w1 where w1: "lookup_by w_decision (d_id d) (wakes l) = Some w1"
    using assms(3,4) by (cases "lookup_by w_decision (d_id d) (wakes l)") (auto simp: lookup_by_None image_iff)
  from checks(2) [OF assms(2)] w1 have "w_dispatch w1 = d_dispatch d" "w_kind w1 = d_kind d"
    by (auto simp: check_decision_def bind_res_Inr_iff)
  moreover from lookup_by_in [OF d1(1)] have d1': "d1 \<in> set (decisions l)" "d_id d1 = d_id d" by simp_all
  from checks(2) [OF d1'(1)] w1 d1'(2) have "w_dispatch w1 = d_dispatch d1" "w_kind w1 = d_kind d1"
    by (auto simp: check_decision_def bind_res_Inr_iff)
  ultimately show "w_dispatch w = d_dispatch d" "w_kind w = d_kind d" using d1(2,3) by simp_all
qed

lemma decision_after_cancel:
  assumes "validate_queue E l = Inr ()" "d \<in> set (decisions l)" "\<not> (open_checkpoint i d \<and> d_action d \<noteq> None)"
    and "wakes l' = delete_where (\<lambda>w. w_dispatch w = i \<and> w_kind w = Checkpoint) (wakes l)"
  shows "check_decision l' (if open_checkpoint i d then superseded now d else d) = Inr ()"
proof -
  let ?P = "\<lambda>w. w_dispatch w = i \<and> w_kind w = Checkpoint"
  from assms(1,2) have ok: "check_decision l d = Inr ()" by (simp add: validate_queue_def bind_res_Inr_iff each_res_Inr)
  show ?thesis
  proof (cases "d_dispatch d = i \<and> d_kind d = Checkpoint")
    case True
    have "\<not> (w_decision w = d_id d \<and> \<not> ?P w)" if "w \<in> set (wakes l)" for w
      using wakes_of_decision [OF assms(1,2) that] True by auto
    then have "lookup_by w_decision (d_id d) (wakes l') = None" unfolding lookup_by_None assms(4) by (auto simp: set_delete_where)
    moreover have "d_state d \<in> {Action_Committed, Acknowledged, Superseded, Legacy_Closed}" if "\<not> open_checkpoint i d"
      using that True by (simp add: open_checkpoint_def)
    ultimately show ?thesis using ok assms(3)
      by (cases "open_checkpoint i d") (auto simp: check_decision_def bind_res_Inr_iff superseded_def)
  next
    case False
    then have "\<not> open_checkpoint i d" by (auto simp: open_checkpoint_def)
    moreover have "lookup_by w_decision (d_id d) (wakes l') = lookup_by w_decision (d_id d) (wakes l)"
    proof (cases "lookup_by w_decision (d_id d) (wakes l)")
      case (Some w)
      with lookup_by_in [OF Some] wakes_of_decision [OF assms(1,2), of w] False have "\<not> ?P w" by auto
      from lookup_not_deleted [where P = ?P, OF Some this] Some show ?thesis by (simp add: assms(4))
    qed (simp add: assms(4) lookup_none_deleted)
    ultimately show ?thesis using ok by (simp add: check_decision_def)
  qed
qed

lemma decisions_after_cancel:
  assumes "validate_queue E l = Inr ()" "\<not> row_blocked l i" "decisions l' = update_where (open_checkpoint i) (superseded now) (decisions l)"
    and "wakes l' = delete_where (\<lambda>w. w_dispatch w = i \<and> w_kind w = Checkpoint) (wakes l)" "d \<in> set (decisions l')"
  shows "check_decision l' d = Inr ()"
proof -
  from assms(3,5) obtain x where x: "x \<in> set (decisions l)" "d = (if open_checkpoint i x then superseded now x else x)"
    by (auto simp: set_update_where)
  with assms(2) have "\<not> (open_checkpoint i x \<and> d_action x \<noteq> None)" by (auto simp: row_blocked_def)
  from decision_after_cancel [OF assms(1) x(1) this assms(4)] x(2) show ?thesis by simp
qed

lemma wakes_after_cancel:
  assumes "validate_queue E l = Inr ()" "decisions l' = update_where (open_checkpoint i) (superseded now) (decisions l)"
    and "wakes l' = delete_where (\<lambda>w. w_dispatch w = i \<and> w_kind w = Checkpoint) (wakes l)" "bindings l' = bindings l"
    and "q_dispatch ` set (queue l') = q_dispatch ` set (queue l)" "w \<in> set (wakes l')"
  shows "check_wake l' w = Inr ()"
proof -
  from assms(3,6) have "w \<in> set (wakes l)" by (simp add: set_delete_where)
  with assms(1) have ok: "check_wake l w = Inr ()" by (simp add: validate_queue_def bind_res_Inr_iff each_res_Inr)
  have "\<exists>e. lookup_by d_id j (decisions l') = Some e \<and> d_dispatch e = d_dispatch d \<and> d_kind e = d_kind d"
    if "lookup_by d_id j (decisions l) = Some d" for j d
  proof -
    have "lookup_by d_id j (decisions l') = map_option (\<lambda>d. if open_checkpoint i d then superseded now d else d) (lookup_by d_id j (decisions l))"
      unfolding assms(2) by (rule lookup_updated) (simp add: superseded_def)
    with that show ?thesis by (auto simp: superseded_def)
  qed
  with ok show ?thesis
    unfolding check_wake_def assms(4,5) by (auto simp: bind_res_Inr_iff split: option.splits) (metis option.distinct(1) option.inject)+
qed

lemma cancelled_queue:
  assumes "cancel_queue_row now None False q l = Inr (q', l')" "q_state q \<noteq> Queue_Cancelled"
    and "distinct (map q_dispatch (queue l))" "q \<in> set (queue l)" and i: "i = q_dispatch q"
  shows "lookup_by q_dispatch j (queue l') = (if j = i then Some (cancelled_row now q) else lookup_by q_dispatch j (queue l))"
    "map q_dispatch (queue l') = map q_dispatch (queue l)"
    "r \<in> set (queue l') \<Longrightarrow> r = cancelled_row now q \<or> r \<in> set (queue l) \<and> q_dispatch r \<noteq> i"
proof -
  note fields = cancel_row_fields [OF assms(1,2) i]
  have only: "r = q" if "r \<in> set (queue l)" "q_dispatch r = i" for r
    using same_key_same_row [OF assms(3) that(1) assms(4)] that(2) i by simp
  have queue': "queue l' = update_where (\<lambda>r. q_dispatch r = i) (cancelled_row now) (queue l)"
    unfolding fields(4) update_where_def using only fields(1) by (auto intro!: map_cong)
  have "lookup_by q_dispatch i (queue l) = Some q" unfolding i by (rule lookup_by_unique [OF assms(3,4)])
  then show "lookup_by q_dispatch j (queue l') = (if j = i then Some (cancelled_row now q) else lookup_by q_dispatch j (queue l))"
    by (simp add: queue' lookup_by_update cancelled_row_def)
  show "map q_dispatch (queue l') = map q_dispatch (queue l)" by (simp add: queue' map_update_where cancelled_row_def)
  show "r = cancelled_row now q \<or> r \<in> set (queue l) \<and> q_dispatch r \<noteq> i" if "r \<in> set (queue l')"
    using that only by (auto simp: queue' set_update_where)
qed

text \<open>The checks of the rows of the queue after a cancellation.\<close>

lemma rows_after_cancel:
  assumes "cancel_queue_row now None False q l = Inr (q', l')" "q_state q \<noteq> Queue_Cancelled" "validate_queue E l = Inr ()"
    and "distinct (map q_dispatch (queue l))" "q \<in> set (queue l)" "\<not> row_blocked l (q_dispatch q)" "r \<in> set (queue l')"
  shows "check_queue_identity E l' r = Inr ()" "check_queue_row l' r = Inr ()" "check_wakes_of l' r = Inr ()"
proof -
  define i where "i = q_dispatch q"
  note fields = cancel_row_fields [OF assms(1,2) i_def] and rows = cancelled_queue [OF assms(1,2,4,5) i_def]
  have ids: "q_dispatch ` set (queue l') = q_dispatch ` set (queue l)" using rows(2) by (metis set_map)
  note old = validate_queueD(2,5,7) [OF assms(3)]
  have out: "lookup_by so_source i (successor_outbox l) = None" "lookup_by n_dispatch i (notifications l) = None"
    using fields(2,3) by (simp_all add: lookup_by_None)
  have terminal: "w_kind w = Checkpoint" if "w \<in> set (wakes l)" "w_dispatch w = i" for w
    using assms(6) that by (cases "w_kind w") (auto simp: row_blocked_def i_def)
  show "check_queue_identity E l' r = Inr ()"
    using rows(3) [OF assms(7)] old(3) [of r] old(3) [OF assms(5)]
    by (auto simp: check_queue_identity_def fields bind_res_Inr_iff cancelled_row_def split: option.splits)
  show "check_queue_row l' r = Inr ()"
  proof (cases "r = cancelled_row now q")
    case True
    with out show ?thesis by (simp add: check_queue_row_def fields cancelled_row_def i_def Let_def active_states_def)
  next
    case False
    have "check_queue_row l' r = check_queue_row l r" 
      unfolding check_queue_row_def check_successor_out_def fields(14,15) ids by (rule refl)
    with False rows(3) [OF assms(7)] old(1) show ?thesis by auto
  qed
  show "check_wakes_of l' r = Inr ()"
  proof (cases "r = cancelled_row now q")
    case True
    have "filter (\<lambda>w. w_dispatch w = i) (wakes l') = []"
      using terminal by (auto simp: fields(10) filter_empty_conv set_delete_where)
    with True show ?thesis by (simp add: check_wakes_of_def cancelled_row_def i_def)
  next
    case False
    with rows(3) [OF assms(7)] have r: "r \<in> set (queue l)" "q_dispatch r \<noteq> i" by auto
    then have "filter (\<lambda>w. w_dispatch w = q_dispatch r) (wakes l') = filter (\<lambda>w. w_dispatch w = q_dispatch r) (wakes l)"
      by (auto simp: fields(10) delete_where_def intro: filter_cong)
    then have "check_wakes_of l' r = check_wakes_of l r" by (simp add: check_wakes_of_def)
    with old(2) r(1) show ?thesis by simp
  qed
qed

lemma tables_after_cancel:
  assumes "cancel_queue_row now None False q l = Inr (q', l')" "q_state q \<noteq> Queue_Cancelled" "validate_queue E l = Inr ()"
    and "distinct (map q_dispatch (queue l))" "q \<in> set (queue l)" "\<not> row_blocked l (q_dispatch q)"
  shows "c \<in> set (capabilities l') \<Longrightarrow> check_capability l' c = Inr ()" "t \<in> set (captures l') \<Longrightarrow> check_capture l' t = Inr ()"
    "w \<in> set (liveness l') \<Longrightarrow> check_liveness l' w = Inr ()" "s \<in> set (successors l') \<Longrightarrow> check_successor l' s = Inr ()"
    "x \<in> set (recoveries l') \<Longrightarrow> check_recovery l' x = Inr ()" "p \<in> set (retries l') \<Longrightarrow> check_retry p = Inr ()"
proof -
  define i where "i = q_dispatch q"
  note fields = cancel_row_fields [OF assms(1,2) i_def] and rows = cancelled_queue [OF assms(1,2,4,5) i_def]
  have ids: "q_dispatch ` set (queue l') = q_dispatch ` set (queue l)" using rows(2) by (metis set_map)
  have found: "lookup_by q_dispatch i (queue l) = Some q" unfolding i_def by (rule lookup_by_unique [OF assms(4,5)])
  note old = assms(3) [unfolded validate_queue_def bind_res_Inr_iff each_res_Inr]
  show "check_capability l' c = Inr ()" if "c \<in> set (capabilities l')"
  proof -
    from that have "c \<in> set (capabilities l)" "c_dispatch c \<noteq> i" by (simp_all add: fields(5) set_delete_where)
    with old show ?thesis by (simp add: check_capability_def rows(1))
  qed
  show "check_capture l' t = Inr ()" if "t \<in> set (captures l')"
  proof -
    from that have t: "t \<in> set (captures l)" "tc_dispatch t \<noteq> i" using assms(6) by (auto simp: fields(12) row_blocked_def i_def image_iff)
    have repair: "control_repair l' = control_repair l" by (rule ext) (simp add: control_repair_def fields(17))
    have "check_capture l' t = check_capture l t" unfolding check_capture_def repair rows(1) using t(2) by simp
    with t(1) old show ?thesis by simp
  qed
  show "check_liveness l' w = Inr ()" if "w \<in> set (liveness l')"
  proof -
    from that have "w \<in> set (liveness l)" "l_dispatch w \<noteq> i" by (simp_all add: fields(6) set_delete_where)
    with old show ?thesis by (simp add: check_liveness_def rows(1))
  qed
  show "check_successor l' s = Inr ()" if "s \<in> set (successors l')"
  proof -
    from that old have ok: "check_successor l s = Inr ()" by (simp add: fields(13))
    then have "as_released s \<noteq> None \<longrightarrow> as_source s \<noteq> i"
      using found fields(1) by (auto simp: check_successor_def bind_res_Inr_iff active_states_def)
    with ok show ?thesis by (auto simp: check_successor_def bind_res_Inr_iff ids rows(1))
  qed
  show "check_recovery l' x = Inr ()" if "x \<in> set (recoveries l')"
  proof -
    from that obtain y where y: "y \<in> set (recoveries l)" "x = (if rs_dispatch y = i then clear_recovery y else y)"
      by (auto simp: fields(8) set_update_where)
    then have ok: "check_recovery l y = Inr ()" using old by blast
    show ?thesis
    proof (cases "rs_dispatch y = i")
      case True
      with ok y(2) show ?thesis by (simp add: check_recovery_def bind_res_Inr_iff clear_recovery_def)
    next
      case False
      have "check_recovery l' y = check_recovery l y" unfolding check_recovery_def rows(1) using False by simp
      with ok y(2) False show ?thesis by simp
    qed
  qed
  show "check_retry p = Inr ()" if "p \<in> set (retries l')"
  proof -
    from that obtain y where "y \<in> set (retries l)" "p = (if rp_dispatch y = i then clear_retry y else y)"
      by (auto simp: fields(7) set_update_where)
    moreover from this(1) have "check_retry y = Inr ()" using old by blast
    ultimately show ?thesis by (auto simp: check_retry_def bind_res_Inr_iff clear_retry_def)
  qed
qed

lemma cancel_row_valid:
  assumes "cancel_queue_row now None False q l = Inr (q', l')" "q_state q \<noteq> Queue_Cancelled" "validate_queue E l = Inr ()"
    and "distinct (map q_dispatch (queue l))" "q \<in> set (queue l)" "\<not> row_blocked l (q_dispatch q)"
  shows "validate_queue E l' = Inr ()"
proof -
  note fields = cancel_row_fields [OF assms(1,2) refl]
  have keys: "q_dispatch ` set (queue l') = q_dispatch ` set (queue l)"
    using cancelled_queue(2) [OF assms(1,2,4,5) refl] by (metis set_map)
  from assms(3) have old: "distinct (map (\<lambda>c. (c_dispatch c, c_generation c, c_attempt c)) (capabilities l))"
    "distinct (map n_dispatch (notifications l))" "b_dispatch ` set (bindings l) = q_dispatch ` set (queue l)"
    "set (map rs_dispatch (recoveries l)) = q_dispatch ` set (queue l)" "set (map rp_dispatch (retries l)) = q_dispatch ` set (queue l)"
    "\<forall>b\<in>set (bindings l). check_binding b = Inr ()"
    by (simp_all add: validate_queue_def bind_res_Inr_iff each_res_Inr)
  have "map rs_dispatch (recoveries l') = map rs_dispatch (recoveries l)" "map rp_dispatch (retries l') = map rp_dispatch (retries l)"
    unfolding fields(7,8) by (simp_all add: map_update_where clear_recovery_def clear_retry_def)
  with old(4,5) have "rs_dispatch ` set (recoveries l') = q_dispatch ` set (queue l')" "rp_dispatch ` set (retries l') = q_dispatch ` set (queue l')"
    by (metis set_map keys)+
  moreover have "distinct (map (\<lambda>c. (c_dispatch c, c_generation c, c_attempt c)) (capabilities l'))"
    unfolding fields(5) using old(1) by (rule distinct_map_filter_key)
  moreover have "distinct (map n_dispatch (notifications l'))" "b_dispatch ` set (bindings l') = q_dispatch ` set (queue l')"
    "\<forall>b\<in>set (bindings l'). check_binding b = Inr ()"
    using old(2,3,6) by (simp_all only: fields(11,15) keys)
  moreover have "\<forall>r\<in>set (queue l'). check_queue_identity E l' r = Inr ()" "\<forall>r\<in>set (queue l'). check_queue_row l' r = Inr ()"
    "\<forall>r\<in>set (queue l'). check_wakes_of l' r = Inr ()"
    by (rule ballI, rule rows_after_cancel [OF assms], assumption)+
  moreover have "\<forall>c\<in>set (capabilities l'). check_capability l' c = Inr ()" "\<forall>t\<in>set (captures l'). check_capture l' t = Inr ()"
    "\<forall>w\<in>set (liveness l'). check_liveness l' w = Inr ()" "\<forall>s\<in>set (successors l'). check_successor l' s = Inr ()"
    "\<forall>x\<in>set (recoveries l'). check_recovery l' x = Inr ()" "\<forall>p\<in>set (retries l'). check_retry p = Inr ()"
    by (rule ballI, rule tables_after_cancel [OF assms], assumption)+
  moreover have "\<forall>w\<in>set (wakes l'). check_wake l' w = Inr ()" "\<forall>d\<in>set (decisions l'). check_decision l' d = Inr ()"
    using wakes_after_cancel [OF assms(3) fields(9,10,11) keys] decisions_after_cancel [OF assms(3,6) fields(9,10)] by blast+
  ultimately show ?thesis by (simp add: validate_queue_def bind_res_Inr_iff each_res_Inr)
qed

text \<open>And a row that is blocked makes the checks fail.\<close>

lemma cancel_row_refused:
  assumes "cancel_queue_row now None False q l = Inr (q', l1)" "q_state q \<noteq> Queue_Cancelled"
    and "distinct (map q_dispatch (queue l))" "q \<in> set (queue l)" "row_blocked l (q_dispatch q)" "queue_part l' = queue_part l1"
  shows "validate_queue E l' \<noteq> Inr ()"
proof
  assume "validate_queue E l' = Inr ()"
  note new = this [unfolded validate_queue_def bind_res_Inr_iff each_res_Inr]
  from assms(6) have same: "queue l' = queue l1" "captures l' = captures l1" "wakes l' = wakes l1" "decisions l' = decisions l1"
    by (simp_all add: queue_part_def)
  note fields = cancel_row_fields [OF assms(1,2) refl] and rows = cancelled_queue [OF assms(1-4) refl]
  have row: "cancelled_row now q \<in> set (queue l')" using rows(1) [of "q_dispatch q"] lookup_by_in unfolding same by fastforce
  from assms(5) consider t where "t \<in> set (captures l)" "tc_dispatch t = q_dispatch q"
    | w where "w \<in> set (wakes l)" "w_dispatch w = q_dispatch q" "w_kind w = Terminal"
    | d where "d \<in> set (decisions l)" "open_checkpoint (q_dispatch q) d" "d_action d \<noteq> None"
    by (auto simp: row_blocked_def)
  then show False
  proof cases
    case (1 t)
    then have "check_capture l' t = Inr ()" using new by (simp add: same fields(12))
    with 1(2) show False
      by (cases "tc_result t") (auto simp: check_capture_def same rows(1) bind_res_Inr_iff cancelled_row_def)
  next
    case (2 w)
    from row new have "check_wakes_of l' (cancelled_row now q) = Inr ()" by blast
    then have "filter (\<lambda>w. w_dispatch w = q_dispatch q) (wakes l') = []"
      by (auto simp: check_wakes_of_def Let_def bind_res_Inr_iff cancelled_row_def)
    with 2 show False by (auto simp: same fields(10) filter_empty_conv set_delete_where)
  next
    case (3 d)
    then have "superseded now d \<in> set (decisions l')" by (auto simp: same fields(9) set_update_where)
    with new have "check_decision l' (superseded now d) = Inr ()" by blast
    with 3(3) show False by (auto simp: check_decision_def bind_res_Inr_iff superseded_def)
  qed
qed

section \<open>The guards and the whole validation\<close>

text \<open>
  A request that passes its guards and is refused nevertheless: one of the three cases of the workflow
  tables (\<open>unguarded\<close>), or the cancellation of an execution whose milestone is open and whose queue row, the first
  of the milestone and not cancelled yet, is blocked.
\<close>

definition unguarded_request :: "ledger \<Rightarrow> exec_op \<Rightarrow> bool" where
  "unguarded_request l op \<longleftrightarrow> unguarded l op \<or> (\<exists>k. op = Cancel_Execution k
     \<and> (\<exists>st. state_of l k = Some st \<and> st \<notin> set TERMINAL_STATES)
     \<and> (\<exists>q. select_one (\<lambda>q. q_key q = k) (queue l) = Some q \<and> q_state q \<noteq> Queue_Cancelled \<and> row_blocked l (q_dispatch q)))"

lemma cancel_execution_row:
  assumes "cancel_execution now k l = Inr (x, l')"
  obtains "l' = l" "\<forall>st. state_of l k = Some st \<longrightarrow> st \<in> set TERMINAL_STATES"
  | "select_one (\<lambda>q. q_key q = k) (queue l) = None" "queue_part l' = queue_part l"
  | q q' l1 where "state_of l k \<noteq> None" "\<forall>st. state_of l k = Some st \<longrightarrow> st \<notin> set TERMINAL_STATES"
      "select_one (\<lambda>q. q_key q = k) (queue l) = Some q" "cancel_queue_row now None False q l = Inr (q', l1)" "queue_part l' = queue_part l1"
proof -
  from assms obtain m where m: "lookup_by ms_key k (milestones l) = Some m"
    by (auto simp: cancel_execution_def body_iff)
  show thesis
  proof (cases "ms_state m \<in> set TERMINAL_STATES")
    case True
    with assms m have "l' = l" by (auto simp: cancel_execution_def body_iff)
    with True m that(1) show thesis by (simp add: state_of_def)
  next
    case open_ms: False
    show thesis
    proof (cases "select_one (\<lambda>q. q_key q = k) (queue l)")
      case None
      with assms m open_ms show thesis
        by (intro that(2)) (auto simp: cancel_execution_def body_iff Let_def split: prod.splits dest!: move_milestone_frame)
    next
      case (Some q)
      with assms m open_ms obtain q' l1 where "cancel_queue_row now None False q l = Inr (q', l1)" "queue_part l' = queue_part l1"
        by (auto simp: cancel_execution_def body_iff Let_def split: prod.splits dest!: move_milestone_frame; fastforce)
      with Some m open_ms that(3) show thesis by (simp add: state_of_def)
    qed
  qed
qed

lemma queue_valid_after:
  assumes "exec_body now op l = Inr (u, l')" "validate_queue E l = Inr ()" "distinct (map q_dispatch (queue l))" "\<not> unguarded_request l op"
  shows "validate_queue E l' = Inr ()"
proof -
  have kept: "prefix (dispatches l) (dispatches l')" "programs_kept l l'"
    using exec_body_le [OF assms(1)] exec_body_programs [OF assms(1)] by (simp_all add: exec_le_def)
  show ?thesis
  proof (cases "\<exists>k. op = Cancel_Execution k")
    case True
    then obtain k where op: "op = Cancel_Execution k" ..
    with assms(1) obtain x where "cancel_execution now k l = Inr (x, l')" by (auto simp: forget_Inr)
    then show ?thesis
    proof (rule cancel_execution_row)
      fix q q' l1
      assume st: "state_of l k \<noteq> None" "\<forall>st. state_of l k = Some st \<longrightarrow> st \<notin> set TERMINAL_STATES"
        and q: "select_one (\<lambda>q. q_key q = k) (queue l) = Some q" and c: "cancel_queue_row now None False q l = Inr (q', l1)"
        and p: "queue_part l' = queue_part l1"
      have same: "dispatches l1 = dispatches l" "programs_kept l1 l'"
        using cancel_row_frame [OF c] kept(2) by (simp_all add: workflow_part_def programs_kept_def)
      have "validate_queue E l1 = Inr ()"
      proof (cases "q_state q = Queue_Cancelled")
        case True
        with c assms(2) show ?thesis by (simp add: cancel_queue_row_def)
      next
        case False
        with st q op assms(4) have "\<not> row_blocked l (q_dispatch q)" by (auto simp: unguarded_request_def)
        from cancel_row_valid [OF c False assms(2,3) _ this] select_one_Some [OF q] show ?thesis by blast
      qed
      from queue_checks_kept [OF this p _ same(2)] kept(1) same(1) show ?thesis by simp
    qed (use assms(2) queue_checks_kept [OF assms(2) _ kept] in auto)
  next
    case False
    with exec_body_frame [OF assms(1)] queue_checks_kept [OF assms(2) _ kept] show ?thesis by blast
  qed
qed

lemma request_refused:
  assumes "ledger_inv E l" "unguarded_request l op"
  shows "\<exists>e. request E (now, Inl op) l = Inl e"
proof (cases "request E (now, Inl op) l")
  case (Inr p)
  then obtain u l' where r: "request E (now, Inl op) l = Inr (u, l')" by (cases p) auto
  then have body: "exec_body now op l = Inr (u, l')" and ok: "validate_queue E l' = Inr ()" "validate_workflow l' = Inr ()"
    by (simp_all add: request_def atomically_Inr validate_rows_iff)
  from assms(1) have inv: "machine_inv l" "distinct (map q_dispatch (queue l))" by (simp_all add: ledger_inv_def queue_inv_def)
  show ?thesis
  proof (cases "unguarded l op")
    case True
    with inv(1) refused_lemma [of l op now] obtain e where "atomically validate_workflow (exec_body now op) l = Inl e"
      by (auto simp: machine_inv_def)
    with body ok(2) inv(1) show ?thesis by (simp add: atomically_def machine_inv_def exec_inv_def)
  next
    case False
    with assms(2) obtain k st q where op: "op = Cancel_Execution k" "state_of l k = Some st" "st \<notin> set TERMINAL_STATES"
      and q: "select_one (\<lambda>q. q_key q = k) (queue l) = Some q" "q_state q \<noteq> Queue_Cancelled" "row_blocked l (q_dispatch q)"
      by (auto simp: unguarded_request_def)
    from body op(1) obtain x where "cancel_execution now k l = Inr (x, l')" by (auto simp: forget_Inr)
    then have False
    proof (rule cancel_execution_row)
      fix q2 q' l1
      assume q2: "select_one (\<lambda>q. q_key q = k) (queue l) = Some q2" "cancel_queue_row now None False q2 l = Inr (q', l1)"
        and p: "queue_part l' = queue_part l1"
      with q(1) have c: "cancel_queue_row now None False q l = Inr (q', l1)" by simp
      from cancel_row_refused [OF c q(2) inv(2) _ q(3) p, of E] select_one_Some [OF q(1)] ok(1) show False by blast
    qed (use op q in auto)
    then show ?thesis ..
  qed
qed blast

text \<open>
  C24. On valid rows the second validation of a transaction (its modelled checks, those of the workflow and of
  the queue) never refuses what the guards of a workflow operation let through, except for four cases, which
  it always refuses: a transition under an execution whose status pins the milestone's state, an uncertain thread
  start of a milestone that is not starting, a new turn whose events do not count from 0, and the
  cancellation of an execution of an open milestone whose queue row is not cancelled yet and has a captured workspace, a
  terminal wake, or a checkpoint decision that waits for a human with its action recorded.
\<close>

theorem requests_are_guarded:
  assumes "ledger_inv E l"
  shows "if unguarded_request l op then \<exists>e. request E (now, Inl op) l = Inl e
    else request E (now, Inl op) l = exec_body now op l"
proof (cases "unguarded_request l op")
  case True
  with request_refused [OF assms True] show ?thesis by simp
next
  case False
  from assms have inv: "machine_inv l" "validate_rows E l = Inr ()" "distinct (map q_dispatch (queue l))"
    by (simp_all add: ledger_inv_def queue_inv_def)
  have "atomically (validate_rows E) (exec_body now op) l = exec_body now op l"
  proof (rule atomically_kept [where V = "validate_rows E", OF inv(2)])
    fix u l' assume body: "exec_body now op l = Inr (u, l')"
    from False have "\<not> unguarded l op" by (simp add: unguarded_request_def)
    with exec_body_inv [OF body] inv(1) have "validate_workflow l' = Inr ()" by (simp add: machine_inv_def exec_inv_def)
    moreover from queue_valid_after [OF body _ inv(3) False] inv(2) have "validate_queue E l' = Inr ()" by (simp add: validate_rows_iff)
    ultimately show "validate_rows E l' = Inr ()" by (simp add: validate_rows_iff)
  qed
  with False show ?thesis by (simp add: request_def)
qed

text \<open>The sample with a planned execution, whose dispatch has a checkpoint that waits for a human with its action recorded.\<close>

definition blocked_name :: pystr where
  "blocked_name = lit ''wake/'' @ sample_id ''v'' @ lit ''/checkpoint''"

definition blocked_wake :: wake_row where
  "blocked_wake = \<lparr>w_delivery = blocked_name, w_dispatch = sample_id ''v'', w_decision = decision_id_of blocked_name, w_kind = Checkpoint,
     w_cycle = 1, w_source_thread = Some (lit ''t''), w_state = Wake_Delivered, w_attempts = 1, w_source_turn = Some (lit ''u'')\<rparr>"

definition blocked_decision :: decision_row where
  "blocked_decision = \<lparr>d_id = decision_id_of blocked_name, d_dispatch = sample_id ''v'', d_kind = Checkpoint, d_cycle = 1,
     d_state = Decision_Attention, d_revision = 3, d_deadline = 300000010, d_generation = 1, d_action = Some (lit ''continue''),
     d_claimant = Some (lit ''h'', lit ''t'', lit ''u''), d_claim_expires = None, d_attention = Some (lit ''help''), d_superseded = None\<rparr>"

definition sample_blocked :: ledger where
  "sample_blocked = sample_queue\<lparr>executions := [sample_execution key_a (lit ''/w'')], leases := [sample_lease (lit ''/w'')],
     wakes := [blocked_wake], decisions := [blocked_decision]\<rparr>"

lemma sample_blocked_workflow: "machine_inv sample_blocked"
proof -
  let ?l = sample_blocked
  have "validate_workflow sample_queue = Inr ()" using sample_workflow by (simp add: machine_inv_def exec_inv_def)
  then have old: "history_ok sample_queue" "apps_ok sample_queue" "integrity_ok sample_queue"
    by (simp_all add: validate_workflow_iff)
  have eqs: "dispatches ?l = dispatches sample_queue" "events ?l = events sample_queue" "milestones ?l = milestones sample_queue"
    "app_native ?l = app_native sample_queue" "integrity ?l = integrity sample_queue" "runs ?l = runs sample_queue"
    by (simp_all add: sample_blocked_def)
  have "check_dispatch ?l = check_dispatch sample_queue" "check_event ?l = check_event sample_queue"
    "check_claim_count ?l = check_claim_count sample_queue" "check_milestone ?l = check_milestone sample_queue"
    by (rule ext; unfold check_dispatch_def check_event_def check_claim_def check_claim_count_def claim_count_def check_milestone_def
        history_def eqs; rule refl)+
  with old have "history_ok ?l" "apps_ok ?l" "integrity_ok ?l"
    by (simp_all add: history_ok_def apps_ok_def integrity_ok_def eqs) (simp add: sample_queue_def empty_ledger_def)
  moreover have rows: "row_ok_in ?l x" if "x \<in> set (executions ?l)" for x
    using that sample_row_ok(1)
    by (simp add: sample_blocked_def row_ok_in_def state_of_def leased_def sdk_of_def sample_queue_def empty_ledger_def
        lookup_by_def select_one_def sample_lease_def sample_execution_def lit_def)
  then have "executions_ok ?l" "\<forall>x\<in>set (executions ?l). extra ?l x" by (simp_all add: executions_ok_def row_ok_in_iff)
  moreover have "check_orphans ?l = Inr ()" "check_duplicates ?l = Inr ()" "exclusive ?l" "sql_keys ?l" "own_app ?l"
    by (simp_all add: check_orphans_def check_duplicates_def exclusive_def sql_keys_def own_app_def sample_blocked_def sample_queue_defs
        sample_execution_def sample_lease_def lit_def)
  ultimately show ?thesis by (simp add: machine_inv_def exec_inv_def validate_workflow_iff)
qed

lemma sample_blocked_inv: "ledger_inv sample_env sample_blocked"
proof -
  let ?l = sample_blocked
  have name: "wake_delivery_id (sample_id ''v'') Checkpoint 1 = Inr blocked_name"
    by (simp add: wake_delivery_id_def blocked_name_def lit_def)
  have "check_capture ?l = check_capture sample_queue" "check_queue_identity sample_env ?l = check_queue_identity sample_env sample_queue"
    "check_capability ?l = check_capability sample_queue" "check_queue_row ?l = check_queue_row sample_queue"
    "check_liveness ?l = check_liveness sample_queue" "check_successor ?l = check_successor sample_queue"
    "check_recovery ?l = check_recovery sample_queue"
    by (rule ext; simp add: sample_blocked_def check_capture_def control_repair_def check_queue_identity_def check_capability_def
        check_queue_row_def check_successor_out_def check_liveness_def check_successor_def check_recovery_def
        cong: option.case_cong outbox_outcome.case_cong)+
  moreover have "queue ?l = queue sample_queue" "capabilities ?l = capabilities sample_queue" "bindings ?l = bindings sample_queue"
    "captures ?l = captures sample_queue" "notifications ?l = notifications sample_queue" "liveness ?l = liveness sample_queue"
    "successors ?l = successors sample_queue" "recoveries ?l = recoveries sample_queue" "retries ?l = retries sample_queue"
    "wakes ?l = [blocked_wake]" "decisions ?l = [blocked_decision]"
    by (simp_all add: sample_blocked_def)
  moreover have "check_wakes_of ?l q = Inr ()" if "q \<in> set (queue ?l)" for q
    using that by (auto simp: check_wakes_of_def sample_blocked_def blocked_wake_def sample_queue_defs sample_id_def lit_def)
  moreover have "check_wake ?l blocked_wake = Inr ()"
    using name by (simp add: check_wake_def blocked_wake_def bind_res_Inr_iff lookup_by_def select_one_def)
      (simp add: sample_blocked_def blocked_decision_def sample_queue_defs sample_id_def lit_def)
  moreover have "check_decision ?l blocked_decision = Inr ()"
    by (simp add: check_decision_def blocked_decision_def bind_res_Inr_iff lookup_by_def select_one_def)
      (simp add: sample_blocked_def blocked_wake_def)
  ultimately have "validate_queue sample_env ?l = Inr ()"
    using sample_rows by (simp add: validate_queue_def bind_res_Inr_iff each_res_Inr)
  moreover from sample_ledger_inv have "distinct (map q_dispatch (queue ?l))" "raw_backed ?l"
    by (simp_all add: ledger_inv_def queue_inv_def sample_blocked_def raw_backed_def backed_def)
  ultimately show ?thesis
    using sample_blocked_workflow by (simp add: ledger_inv_def queue_inv_def validate_rows_iff machine_inv_def exec_inv_def)
qed

lemma sample_blocked_cancels: "\<exists>l'. exec_body 9 (Cancel_Execution key_a) sample_blocked = Inr ((), l')"
proof -
  have "event_id_of key_a 1 = Inr (lit ''r/a/1'')"
    using sample_one(1) by (simp add: event_id_of_def event_id_def lit_def slash_def py_strip_def py_isspace_def)
  then show ?thesis
    by (simp add: forget_def cancel_execution_def get_execution_def reject_terminal_def terminal_status_def get_milestone_def lookup_by_def
        select_one_def TERMINAL_STATES_def cancel_queue_row_def check_cancellable_def returning_def returning_execution_def move_milestone_def
        append_event_def next_sequence_def sample_blocked_def sample_execution_def sample_queue_defs Let_def
        unresolve_commands_def retire_checkpoints_def update_where_def delete_where_def active_states_def update_execution_def
        set_milestone_state_def queue_dispatch_def blocked_wake_def blocked_decision_def sample_id_def lit_def)
qed

theorem requests_are_guarded_witness:
  "ledger_inv sample_env sample_blocked \<and> (\<exists>l'. exec_body 9 (Cancel_Execution key_a) sample_blocked = Inr ((), l'))
   \<and> (\<exists>e. request sample_env (9, Inl (Cancel_Execution key_a)) sample_blocked = Inl e)
   \<and> (\<exists>l'. request sample_env (9, Inl (Create_Run (lit ''s''))) sample_blocked = Inr ((), l'))"
proof -
  have "state_of sample_blocked key_a = Some PLANNED" "PLANNED \<notin> set TERMINAL_STATES"
    "select_one (\<lambda>q. q_key q = key_a) (queue sample_blocked) = Some (sample_queue_row ''v'' Running 1)"
    by (simp_all add: state_of_def lookup_by_def select_one_def TERMINAL_STATES_def sample_blocked_def sample_queue_defs)
  moreover have "row_blocked sample_blocked (q_dispatch (sample_queue_row ''v'' Running 1))"
    by (simp add: row_blocked_def sample_blocked_def open_checkpoint_def blocked_decision_def sample_queue_row_def sample_id_def)
  moreover have "q_state (sample_queue_row ''v'' Running 1) \<noteq> Queue_Cancelled" by (simp add: sample_queue_row_def)
  ultimately have "unguarded_request sample_blocked (Cancel_Execution key_a)" unfolding unguarded_request_def by blast
  with requests_are_guarded [OF sample_blocked_inv, of "Cancel_Execution key_a" 9]
  have "\<exists>e. request sample_env (9, Inl (Cancel_Execution key_a)) sample_blocked = Inl e" by simp
  moreover have "\<not> unguarded_request sample_blocked (Create_Run (lit ''s''))" by (simp add: unguarded_request_def)
  with requests_are_guarded [OF sample_blocked_inv, of "Create_Run (lit ''s'')" 9]
  have "request sample_env (9, Inl (Create_Run (lit ''s''))) sample_blocked = exec_body 9 (Create_Run (lit ''s'')) sample_blocked" by simp
  then have "\<exists>l'. request sample_env (9, Inl (Create_Run (lit ''s''))) sample_blocked = Inr ((), l')"
    by (simp add: forget_def create_run_def validated_identifier_def id_pattern_def lit_def ascii_alnum_def sample_blocked_def sample_queue_def
        empty_ledger_def lookup_by_def select_one_def Let_def)
  ultimately show ?thesis using sample_blocked_inv sample_blocked_cancels by blast
qed

end
