(* ===== verification/Spec2Isabelle.thy ===== *)
theory Spec2Isabelle
  imports Hook_Guarantees Graph_Laws Workflow_Laws Recovery_Guarantees Fence_Guarantees Name_Bounds Request_Guards
begin

text \<open>
  A verification library for the personal-workflow-skills repository: a controller that runs coding
  agents through a durable workflow (\<open>src/src/codex_flow\<close>) and a plugin hook that keeps the agents from
  handing a task over twice (\<open>src/plugins/personal-workflow-skills/hooks/lifecycle.py\<close>).

  \<^bold>\<open>The program.\<close>  The core of the controller is the ledger (\<open>ledger.py\<close>), an SQLite file all
  processes share.  Every operation is one transaction: the rows are validated, the statements of the
  operation run behind its guards, the rows are validated again, and any error rolls back.  A run has
  milestones, a milestone an event log and at most one execution, and an execution a workspace lease.
  Dispatches wait in a queue; a harness process that holds the harness lease claims them, issues a
  capability to a worker process, and the worker submits its result under that capability.  A result
  becomes terminal together with its notification, its successor, a decision and the wake of the
  controller; a worker that goes without one leaves a row that is inspected, tried again within budgets, or
  handed to a human.  The
  types all of this is made of (identifiers, states and their transition policy, permissions,
  blockers, the execution capsule, the program graph, output schemas) are in \<open>domain.py\<close>.  The hook
  watches the tool calls of a session and allows the creation of a thread only when it can show that no
  other thread was created for the same task.

  \<^bold>\<open>The theories.\<close>
  \<^item> Prelude: results (an error or a value), \<open>require\<close>, loops over lists, tables as lists of rows with
    the statements \<open>select_one\<close>, \<open>update_where\<close>, \<open>delete_where\<close>, and the locale \<open>guarded_machine\<close>: a step
    function that keeps an invariant and only moves up in an order.
  \<^item> Py_Json: JSON values and the parts of Python's \<open>str\<close>, \<open>int\<close> and \<open>dict\<close> the code relies on.  A
    text is the list of its code points.
  \<^item> Hook_Payload, Hook_Ledger, Hook_Events: the hook.  The payload of a call and its repair, the bounded
    file of attempts, and the handlers.  Hook_Safety and Hook_Guarantees: sequences of events refine
    the abstract life of a session, a blocked session never creates a thread, and what a
    reconciliation reports is what the listing proves.
  \<^item> Output_Schema: \<open>validate_output_schema\<close> and \<open>validate_structured_output\<close> of domain.py.
    Schema_Safety: an accepted schema makes the validation of any value safe.
  \<^item> Workflow: identifiers, milestone states and \<open>ALLOWED_TRANSITIONS\<close>, permission authorities, blockers
    and budgets.  Capsule: the execution capsule.  Workflow_Laws: round trips, the order of
    authorities, what the transition policy allows.
  \<^item> Program_Graph: the graph of a program and the projection of its status.  Graph_Laws: the cycle check
    and the reachability loop are exact, a milestone is ready exactly when it is planned, ungated and
    nothing it depends on or is blocked by is open, and a ready or held-back one is always below an open one.
  \<^item> Ledger_Tables, Ledger_Validate: the rows, the transaction (\<open>Ledger._transaction\<close>) and
    \<open>Ledger._validate_rows\<close>.  Ledger_Execution: runs, milestones and executions.  Ledger_Queue: the harness
    lease, the queue, capabilities, worker leases and the submission of a result.  Queue_Results: how a
    result becomes terminal.  Queue_Wakes: wakes and checkpoints.  Queue_Retries: \<open>enqueue_dispatch\<close> and the
    retry policy of a row.  Queue_Recovery: exits of workers, inspections, attention, continuations.  Each
    method is a \<open>definition\<close> with the name it has there; a method with a transaction of its own is split into
    the checks before it and its body, \<open>..._in_transaction\<close>.
  \<^item> Execution_Laws, Execution_Steps, Execution_Growth, Execution_Machine, Execution_Guarantees: the
    operations of Ledger_Execution as one machine, its invariant \<open>exec_inv\<close> and its order \<open>exec_le\<close>.  Its
    steps close with the checks of the workflow tables only, so its runs include those of the code.
  \<^item> Queue_Laws, Delivery_Laws, Recovery_Laws, Queue_Machine: the same for the queue (\<open>queue_inv\<close>,
    \<open>queue_le\<close>).  Delivery_Laws and Recovery_Laws hold the laws operation by operation, Queue_Machine the
    operations as data and the laws over all of them.  Queue_Capabilities: where a capability and a result
    come from.  Result_Texts: how long the texts are that a terminal row writes.
  \<^item> Ledger_Machine composes both machines: a run interleaves the 55 operations in any order, each
    half leaves the tables of the other alone (the cancellation of an execution cancels its queue row as
    well), and both invariants and both orders hold throughout.  Queue_Sample is a concrete ledger.
    Ledger_Guarantees: fencing, first-in-first-out claims, final results.  Fence_Guarantees: what can still be
    launched under a refresh fence (the continuation of a recovery does not ask for it).  Request_Guards: which
    requests the whole validation refuses although their guards let them through.
  \<^item> Retry_Bounds: what each operation does to the attempt number of a row and to the counters that pay for
    it, and the bound over a run.  Wake_Delivery: a third machine over the same steps, whose invariant are the
    constraints of the wake table and whose order is what may happen to a wake.  Delivery_Guarantees: what a
    commit leaves behind, results that are refused, enqueueing.  Name_Bounds: the ids of decisions stay
    short over every run, so a dispatch with a long name never ends with a result.  Recovery_Guarantees: an exit
    that is refused while its row waits for a human, and a checkpoint that holds up those behind it.

  \<^bold>\<open>How the code is read.\<close>  A dataclass or a table row is a record, an enum a datatype, a raised exception
  the error of a result, so that every raise and every early return is a branch.  A method that mutates the
  database takes the ledger and returns it.  Times are integers, in microseconds, and \<open>now\<close> is what the
  clock returned: its text form is compared in the code, and texts of one format sort as their times do.
  Where a transaction asks the clock twice, the model uses one value.  Row order is insertion order; a
  query without ORDER BY is only modelled where the order cannot be seen.  Primary keys (\<open>sql_keys\<close>)
  are part of the invariant, since SQLite enforces them.  Python integers are unbounded.

  \<^bold>\<open>Parameters.\<close>  What is not under \<open>src/\<close> is an argument: SHA-256, the parser of a worker's result with the
  digest of the contract it has retired, and the redaction of a reason by regular expressions (\<open>ledger_env\<close>), and for the hook \<open>json.loads\<close>, SHA-256, Unicode tables and \<open>repr\<close> (\<open>hook_env\<close>).  No property assumes more of
  them than its hypotheses say; the digest is an arbitrary function.

  \<^bold>\<open>Bounds and fuel.\<close>  The cycle check of a graph visits with the number of nodes plus one as its fuel,
  the reachability loop with as many rounds as the start has dependencies and the graph has edges, and schemas are walked by structural recursion
  on the JSON value.  The theorems \<open>check_acyclic_exact\<close> and \<open>depends_on_exact\<close> show that this is enough.

  \<^bold>\<open>Assumptions on the ledger.\<close>  The machines start in a ledger that satisfies their invariant; the empty
  ledger does (\<open>empty_machine_inv\<close>).  The machine of the executions is for ledgers without App-native
  rows (\<open>own_app\<close>).

  \<^bold>\<open>Not modelled.\<close>  Schema versions, migrations and the file handling of the ledger, which act on SQL text
  and on the file system.  The program half of the ledger (registration, reviews, candidates, integration),
  the claims, leases and actions of controller decisions, App-native actions, control commands, the operator
  actions of \<open>apply_recovery_action\<close>, the capture of a repaired workspace, the rebinding of queues that an older
  schema left active, and the diagnostic ring.  Of these the rows that the modelled operations read or write
  are in the model.  The payload texts of wakes are not, nor are the columns only a display reads.
  \<open>retry_dispatch\<close> is modelled but not a step of the machine, since nothing calls it.
  The validation of the rows is modelled for the tables above; what it checks of columns and tables left out
  may refuse more.  Of the hook, the limits of the interpreter (a \<open>deepcopy\<close> of a deeply nested payload) and errors of the state
  file (\<open>OSError\<close>) are not modelled.
  The processes around the ledger (controller, harness,
  service, worker, SDK backend, command line, terminal UI) are threads, sockets, child processes and Git
  subprocesses.  Contracts, plan compilation, native profiles, plugin discovery, artifacts and evidence files
  read and write formats and file systems.  Pilots, sentinels and \<open>scripts/validate.py\<close> test an
  installation or the repository.
\<close>

end
